(* ===== verification/NM_Prelude.thy ===== *)
theory NM_Prelude
  imports Main "HOL-Library.Word" "HOL-Library.Sublist"
begin

text \<open>
  Shared vocabulary of the development: nullable C strings, \<open>GError\<close> values,
  the C standard-library string functions the sources call (\<open>strcmp\<close> is equality of
  strings, \<open>strstr\<close>, \<open>strchr\<close>, \<open>strrchr\<close>, \<open>strtol\<close>, the \<open>%d\<close>/\<open>%u\<close>
  conversions of \<open>printf\<close>), and the record \<open>glib\<close> of GLib functions. GLib is not part of
  the repository: its functions are fields of that record, which every definition that calls
  them takes as an argument. Only the one-line string helpers of GLib whose whole documented
  meaning is a comparison (\<open>g_str_has_prefix\<close>, \<open>g_str_has_suffix\<close>, \<open>g_strcmp0\<close>)
  are written out.
\<close>

section \<open>Fact collections\<close>

named_theorems nm_simps \<open>characteristic equations of the model's operations\<close>
named_theorems nm_frame \<open>what an operation leaves unchanged\<close>

section \<open>Strings\<close>

text \<open>A \<open>const char *\<close> that may be \<open>NULL\<close>.\<close>

type_synonym cstr = "string option"

definition or_empty :: "cstr \<Rightarrow> string" where
  "or_empty s = (case s of None \<Rightarrow> [] | Some t \<Rightarrow> t)"

text \<open>\<open>str && str[0]\<close>\<close>

definition nonempty_str :: "cstr \<Rightarrow> bool" where
  "nonempty_str s = (case s of None \<Rightarrow> False | Some t \<Rightarrow> t \<noteq> [])"

definition has_prefix :: "string \<Rightarrow> string \<Rightarrow> bool" where
  "has_prefix s p = (take (length p) s = p)"

definition has_suffix :: "string \<Rightarrow> string \<Rightarrow> bool" where
  "has_suffix s p = (length p \<le> length s \<and> drop (length s - length p) s = p)"

text \<open>\<open>strstr\<close>: the rest of the haystack from the first occurrence on.\<close>

fun strstr :: "string \<Rightarrow> string \<Rightarrow> string option" where
  "strstr hay needle =
     (if has_prefix hay needle then Some hay
      else case hay of [] \<Rightarrow> None | _ # t \<Rightarrow> strstr t needle)"

declare strstr.simps [simp del]

definition contains :: "string \<Rightarrow> string \<Rightarrow> bool" where
  "contains hay needle = (strstr hay needle \<noteq> None)"

text \<open>\<open>strchr\<close>: the rest of the string from the first occurrence of a character on.\<close>

fun strchr :: "string \<Rightarrow> char \<Rightarrow> string option" where
  "strchr [] c = None"
| "strchr (x # xs) c = (if x = c then Some (x # xs) else strchr xs c)"

text \<open>\<open>strrchr\<close>: the rest of the string from the last occurrence of a character on.\<close>

fun strrchr :: "string \<Rightarrow> char \<Rightarrow> string option" where
  "strrchr [] c = None"
| "strrchr (x # xs) c =
     (case strrchr xs c of
        Some r \<Rightarrow> Some r
      | None \<Rightarrow> if x = c then Some (x # xs) else None)"

text \<open>The sign of \<open>strcmp\<close>: bytes compared as unsigned characters.\<close>

fun strcmp :: "string \<Rightarrow> string \<Rightarrow> int" where
  "strcmp [] [] = 0"
| "strcmp [] (_ # _) = - 1"
| "strcmp (_ # _) [] = 1"
| "strcmp (x # xs) (y # ys) =
     (if of_char x < (of_char y :: nat) then - 1
      else if of_char y < (of_char x :: nat) then 1
      else strcmp xs ys)"

text \<open>\<open>g_strcmp0\<close>: \<open>NULL\<close> sorts before every string.\<close>

fun strcmp0 :: "cstr \<Rightarrow> cstr \<Rightarrow> int" where
  "strcmp0 None None = 0"
| "strcmp0 None (Some _) = - 1"
| "strcmp0 (Some _) None = 1"
| "strcmp0 (Some a) (Some b) = strcmp a b"

section \<open>Numbers in strings\<close>

definition is_digit :: "char \<Rightarrow> bool" where
  "is_digit c = (48 \<le> (of_char c :: nat) \<and> (of_char c :: nat) \<le> 57)"

definition digit_val :: "char \<Rightarrow> nat" where
  "digit_val c = of_char c - 48"

text \<open>\<open>isspace\<close> in the C locale.\<close>

definition is_space :: "char \<Rightarrow> bool" where
  "is_space c = ((of_char c :: nat) = 32 \<or> (9 \<le> (of_char c :: nat) \<and> (of_char c :: nat) \<le> 13))"

text \<open>The conversions \<open>%u\<close> and \<open>%d\<close> of \<open>printf\<close>.\<close>

fun dec_of_nat :: "nat \<Rightarrow> string" where
  "dec_of_nat n =
     (if n < 10 then [char_of (48 + n)]
      else dec_of_nat (n div 10) @ [char_of (48 + n mod 10)])"

declare dec_of_nat.simps [simp del]

definition dec_of_int :: "int \<Rightarrow> string" where
  "dec_of_int i = (if i < 0 then CHR ''-'' # dec_of_nat (nat (- i)) else dec_of_nat (nat i))"

text \<open>The value of a string of digits, as \<open>strtol\<close> accumulates it.\<close>

fun nat_of_digits :: "string \<Rightarrow> nat \<Rightarrow> nat" where
  "nat_of_digits [] acc = acc"
| "nat_of_digits (c # cs) acc = nat_of_digits cs (acc * 10 + digit_val c)"

text \<open>The \<open>errno\<close> values the sources look at.\<close>

datatype errno = ENONE | EINVAL | ERANGE | EINTR | EAGAIN | EIO | EOTHER nat

definition LONG_MAX :: int where "LONG_MAX = 9223372036854775807"
definition LONG_MIN :: int where "LONG_MIN = - 9223372036854775808"

text \<open>
  \<open>strtol (str, &end, 10)\<close> on a platform with 64-bit \<open>long\<close>: leading white space, an
  optional sign, the longest run of digits; out of range the value saturates and \<open>errno\<close> is
  \<open>ERANGE\<close>; without digits the value is 0 and the end pointer is the start of the string.
\<close>

definition strtol10 :: "string \<Rightarrow> int \<times> string \<times> errno" where
  "strtol10 str =
     (let s = dropWhile is_space str;
          neg = (s \<noteq> [] \<and> hd s = CHR ''-'');
          s' = (if s \<noteq> [] \<and> (hd s = CHR ''-'' \<or> hd s = CHR ''+'') then tl s else s);
          ds = takeWhile is_digit s';
          n = int (nat_of_digits ds 0);
          v = (if neg then - n else n)
      in if ds = [] then (0, str, ENONE)
         else if v > LONG_MAX then (LONG_MAX, dropWhile is_digit s', ERANGE)
         else if v < LONG_MIN then (LONG_MIN, dropWhile is_digit s', ERANGE)
         else (v, dropWhile is_digit s', ENONE))"

section \<open>Errors\<close>

datatype err_domain =
    NM_VPN_PLUGIN_ERROR | NM_CONNECTION_ERROR | NM_UTILS_ERROR
  | G_FILE_ERROR | G_SPAWN_ERROR | G_IO_ERROR | G_LIBRARY_ERROR

datatype err_code =
    E_LAUNCH_FAILED | E_INVALID_CONNECTION | E_FAILED | E_CANCELLED
  | E_INVAL | E_NOENT | E_INVALID_DATA | E_PERMISSION_DENIED | E_LIBRARY nat

datatype gerror = GError (err_domain: err_domain) (err_code: err_code) (err_message: string)

text \<open>The opening and closing quotation marks of the messages, as the UTF-8 bytes in the source.\<close>

definition lquo :: string where "lquo = [CHR 0xE2, CHR 0x80, CHR 0x9C]"
definition rquo :: string where "rquo = [CHR 0xE2, CHR 0x80, CHR 0x9D]"

section \<open>GLib\<close>

text \<open>
  The pure string functions of GLib that the sources call. Theorems about code that calls
  them hold for every value of this record, or name the documented behaviour they rely on.
\<close>

record glib =
  g_isspace :: "char \<Rightarrow> bool"
  g_strtoll :: "string \<Rightarrow> nat \<Rightarrow> int \<times> string \<times> errno"
  g_strcaseeq :: "string \<Rightarrow> string \<Rightarrow> bool"
  g_strsplit :: "string \<Rightarrow> string \<Rightarrow> string list"
  g_strsplit_set :: "string \<Rightarrow> string \<Rightarrow> string list"
  g_strstrip :: "string \<Rightarrow> string"
  g_strchomp :: "string \<Rightarrow> string"
  g_build_filename :: "string list \<Rightarrow> string"
  g_sha256 :: "string \<Rightarrow> string"

section \<open>Facts\<close>

lemma has_prefix_iff: "has_prefix s p \<longleftrightarrow> prefix p s"
  unfolding has_prefix_def prefix_def
  by (metis append_eq_conv_conj append_take_drop_id)

lemma has_suffix_iff: "has_suffix s p \<longleftrightarrow> suffix p s"
  unfolding has_suffix_def suffix_def
  by (metis append_eq_conv_conj append_take_drop_id diff_diff_cancel diff_le_self length_append
        length_drop le_add2 add_diff_cancel_right')

lemma strstr_None_iff: "strstr hay needle = None \<longleftrightarrow> \<not> sublist needle hay"
proof (induction hay)
  case Nil
  show ?case by (simp add: strstr.simps has_prefix_iff)
next
  case (Cons a hay)
  show ?case
    by (subst strstr.simps) (auto simp: has_prefix_iff sublist_Cons_right Cons.IH)
qed

lemma contains_iff: "contains hay needle \<longleftrightarrow> sublist needle hay"
  by (simp add: contains_def strstr_None_iff)

lemma strcmp_eq_0_iff [simp]: "strcmp a b = 0 \<longleftrightarrow> a = b"
  by (induction a b rule: strcmp.induct) (auto simp: not_less order.antisym)

lemma strcmp_range: "strcmp a b \<in> {- 1, 0, 1}"
  by (induction a b rule: strcmp.induct) auto

lemma strcmp_swap: "strcmp b a = - strcmp a b"
  by (induction a b rule: strcmp.induct) auto

lemma strcmp_trans: "strcmp a b \<le> 0 \<Longrightarrow> strcmp b c \<le> 0 \<Longrightarrow> strcmp a c \<le> 0"
proof (induction a c arbitrary: b rule: strcmp.induct)
  case (4 x xs y ys)
  then show ?case by (cases b) (auto split: if_splits)
next
  case (3 u v)
  then show ?case by (cases b) auto
qed auto

lemma strchr_Some_iff: "strchr s c \<noteq> None \<longleftrightarrow> c \<in> set s"
  by (induction s) auto

lemma strchr_split:
  "strchr s c = Some r \<Longrightarrow> \<exists>p. s = p @ r \<and> c \<notin> set p \<and> (\<exists>t. r = c # t)"
proof (induction s)
  case (Cons a s)
  show ?case
  proof (cases "a = c")
    case True
    with Cons.prems show ?thesis by auto
  next
    case False
    with Cons obtain p t where "s = p @ r" "c \<notin> set p" "r = c # t" by auto
    with False have "a # s = (a # p) @ r \<and> c \<notin> set (a # p)" by simp
    with \<open>r = c # t\<close> show ?thesis by blast
  qed
qed simp

lemma strrchr_None_iff: "strrchr s c = None \<longleftrightarrow> c \<notin> set s"
  by (induction s) (auto split: option.splits)

lemma strrchr_split:
  "strrchr s c = Some r \<Longrightarrow> \<exists>p t. s = p @ r \<and> r = c # t \<and> c \<notin> set t"
proof (induction s)
  case (Cons a s)
  show ?case
  proof (cases "strrchr s c")
    case None
    with Cons.prems show ?thesis
      by (auto simp: strrchr_None_iff split: if_splits)
  next
    case (Some r')
    with Cons.prems have "r = r'" by simp
    with Cons.IH Some obtain p t where "s = p @ r" "r = c # t" "c \<notin> set t" by blast
    then show ?thesis by (metis append_Cons)
  qed
qed simp

lemma of_char_digit: "d < 10 \<Longrightarrow> of_char (char_of (48 + d) :: char) = (48 + d :: nat)"
  by simp

lemma dec_of_nat_digits: "c \<in> set (dec_of_nat n) \<Longrightarrow> is_digit c"
proof (induction n arbitrary: c rule: dec_of_nat.induct)
  case (1 n)
  show ?case
  proof (cases "n < 10")
    case True
    with 1 show ?thesis by (simp add: dec_of_nat.simps [of n] is_digit_def)
  next
    case False
    from 1 False have "c \<in> set (dec_of_nat (n div 10)) \<or> c = char_of (48 + n mod 10)"
      by (auto simp: dec_of_nat.simps [of n])
    moreover have "is_digit (char_of (48 + n mod 10))" by (simp add: is_digit_def)
    ultimately show ?thesis using 1 False by auto
  qed
qed

lemma dec_of_nat_nonempty [simp]: "dec_of_nat n \<noteq> []"
  by (simp add: dec_of_nat.simps [of n])

lemma nat_of_digits_append:
  "nat_of_digits (xs @ ys) acc = nat_of_digits ys (nat_of_digits xs acc)"
  by (induction xs arbitrary: acc) auto

lemma nat_of_digits_dec_of_nat: "nat_of_digits (dec_of_nat n) 0 = n"
proof (induction n rule: dec_of_nat.induct)
  case (1 n)
  show ?case
  proof (cases "n < 10")
    case True
    then show ?thesis by (simp add: dec_of_nat.simps [of n] digit_val_def)
  next
    case False
    with 1 show ?thesis
      by (simp add: dec_of_nat.simps [of n] nat_of_digits_append digit_val_def)
  qed
qed

lemma dec_of_nat_inject [simp]: "dec_of_nat m = dec_of_nat n \<longleftrightarrow> m = n"
  by (metis nat_of_digits_dec_of_nat)

lemma is_digit_not_space: "is_digit c \<Longrightarrow> \<not> is_space c"
  by (auto simp: is_digit_def is_space_def)

lemma is_digit_not_sign: "is_digit c \<Longrightarrow> c \<noteq> CHR ''-'' \<and> c \<noteq> CHR ''+''"
  by (auto simp: is_digit_def)

lemma dec_of_nat_hd: "\<exists>c cs. dec_of_nat n = c # cs \<and> is_digit c"
  by (metis dec_of_nat_digits dec_of_nat_nonempty list.exhaust list.set_intros(1))

text \<open>\<open>strtol\<close> reads back what \<open>%u\<close> prints, up to the limits of \<open>long\<close>.\<close>

lemma strtol10_dec:
  "strtol10 (dec_of_nat n) =
     (if int n \<le> LONG_MAX then (int n, [], ENONE) else (LONG_MAX, [], ERANGE))"
proof -
  obtain c cs where c: "dec_of_nat n = c # cs" "is_digit c" using dec_of_nat_hd by blast
  have all: "\<forall>x \<in> set (dec_of_nat n). is_digit x" by (blast intro: dec_of_nat_digits)
  then have tw: "takeWhile is_digit (dec_of_nat n) = dec_of_nat n"
    and dw: "dropWhile is_digit (dec_of_nat n) = []" by auto
  have sp: "dropWhile is_space (dec_of_nat n) = dec_of_nat n"
    using c by (simp add: is_digit_not_space)
  have "hd (dec_of_nat n) \<noteq> CHR ''-''" "hd (dec_of_nat n) \<noteq> CHR ''+''"
    using c by (auto dest: is_digit_not_sign)
  then show ?thesis
    by (simp add: strtol10_def nat_of_digits_dec_of_nat LONG_MIN_def Let_def tw dw sp)
qed

lemma strtol10_dec_of_nat: "int n \<le> LONG_MAX \<Longrightarrow> strtol10 (dec_of_nat n) = (int n, [], ENONE)"
  by (simp add: strtol10_dec)

text \<open>It stops at the first character that is not a digit.\<close>

lemma strtol10_junk:
  assumes "int n \<le> LONG_MAX" and "r = [] \<or> \<not> is_digit (hd r)"
  shows "strtol10 (dec_of_nat n @ r) = (int n, r, ENONE)"
proof -
  obtain c cs where c: "dec_of_nat n = c # cs" "is_digit c" using dec_of_nat_hd by blast
  have all: "\<And>x. x \<in> set (dec_of_nat n) \<Longrightarrow> is_digit x" by (rule dec_of_nat_digits)
  then have tw: "takeWhile is_digit (dec_of_nat n @ r) = dec_of_nat n"
    and dw: "dropWhile is_digit (dec_of_nat n @ r) = r"
    using assms(2) by (cases r; simp add: takeWhile_append2 dropWhile_append2)+
  have sp: "dropWhile is_space (dec_of_nat n @ r) = dec_of_nat n @ r"
    using c by (simp add: is_digit_not_space)
  have "hd (dec_of_nat n @ r) \<noteq> CHR ''-''" "hd (dec_of_nat n @ r) \<noteq> CHR ''+''"
    using c by (auto dest: is_digit_not_sign)
  with assms(1) show ?thesis
    by (simp add: strtol10_def nat_of_digits_dec_of_nat LONG_MIN_def Let_def tw dw sp)
qed

lemma or_empty_simps [simp]: "or_empty None = []" "or_empty (Some s) = s"
  by (simp_all add: or_empty_def)

lemma nonempty_str_simps [simp]:
  "\<not> nonempty_str None" "nonempty_str (Some s) \<longleftrightarrow> s \<noteq> []"
  by (simp_all add: nonempty_str_def)

text \<open>Splitting at every occurrence of a character.\<close>

fun split_on :: "char \<Rightarrow> string \<Rightarrow> string list" where
  "split_on c [] = [[]]"
| "split_on c (x # xs) =
     (if x = c then [] # split_on c xs
      else case split_on c xs of [] \<Rightarrow> [[x]] | w # ws \<Rightarrow> (x # w) # ws)"

lemma split_on_nonempty [simp]: "split_on c s \<noteq> []"
  by (induction s) (auto split: list.splits)

lemma split_on_none: "c \<notin> set s \<Longrightarrow> split_on c s = [s]"
  by (induction s) auto

lemma split_on_append: "split_on c (a @ c # b) = split_on c a @ split_on c b"
proof (induction a)
  case (Cons x a)
  show ?case
  proof (cases "x = c")
    case True
    with Cons show ?thesis by simp
  next
    case False
    obtain w ws where w: "split_on c a = w # ws" by (cases "split_on c a") simp
    with Cons False show ?thesis by simp
  qed
qed simp

text \<open>A chain of checks, each passing on the error of an earlier one.\<close>

lemma error_chain_None_iff [simp]:
  "(case x of Some e \<Rightarrow> Some e | None \<Rightarrow> y) = None \<longleftrightarrow> x = None \<and> y = None"
  by (cases x) auto

lemma nonempty_strE: "nonempty_str s \<Longrightarrow> (\<And>t. s = Some t \<Longrightarrow> t \<noteq> [] \<Longrightarrow> P) \<Longrightarrow> P"
  by (cases s) auto

end
