(* ===== verification/Airvpn_Properties.thy ===== *)
theory Airvpn_Properties
  imports NM_Prelude
begin

text \<open>
  The keys and defaults of \<open>shared/nm-service-defines.h\<close>, the connection settings the code
  reads from libnm, and the property validation of \<open>shared/nm-airvpn-properties.c\<close>, which
  the service daemon and the editor plugin share. The lemmas characterise the table-driven
  scan (\<open>validate_properties\<close>) and prove that the whole validation accepts exactly the
  connections of an independent specification, \<open>valid_connection\<close>.
\<close>

section \<open>Keys and defaults\<close>

definition NM_DBUS_SERVICE_AIRVPN :: string where
  "NM_DBUS_SERVICE_AIRVPN = ''org.freedesktop.NetworkManager.airvpn''"

definition KEY_SERVER :: string where "KEY_SERVER = ''server''"
definition KEY_DEVICE :: string where "KEY_DEVICE = ''device''"
definition KEY_PROTOCOL :: string where "KEY_PROTOCOL = ''protocol''"
definition KEY_PORT :: string where "KEY_PORT = ''port''"
definition KEY_CUSTOM_DIRECTIVES :: string where "KEY_CUSTOM_DIRECTIVES = ''custom-directives''"
definition KEY_KEEPALIVE :: string where "KEY_KEEPALIVE = ''keepalive''"
definition KEY_PING_INTERVAL :: string where "KEY_PING_INTERVAL = ''ping-interval''"
definition KEY_PING_RESTART :: string where "KEY_PING_RESTART = ''ping-restart''"
definition KEY_KILL_SWITCH :: string where "KEY_KILL_SWITCH = ''kill-switch''"
definition KEY_ALLOW_LAN :: string where "KEY_ALLOW_LAN = ''allow-lan''"
definition KEY_API_KEY :: string where "KEY_API_KEY = ''api-key''"
definition PROTOCOL_UDP :: string where "PROTOCOL_UDP = ''udp''"
definition PROTOCOL_TCP :: string where "PROTOCOL_TCP = ''tcp''"
definition DEFAULT_PORT :: string where "DEFAULT_PORT = ''443''"
definition DEFAULT_PING_INTERVAL :: string where "DEFAULT_PING_INTERVAL = ''10''"
definition DEFAULT_PING_RESTART :: string where "DEFAULT_PING_RESTART = ''60''"
definition API_SETTINGS_URL :: string where
  "API_SETTINGS_URL = ''https://airvpn.org/apisettings/''"

lemmas key_defs =
  KEY_SERVER_def KEY_DEVICE_def KEY_PROTOCOL_def KEY_PORT_def KEY_CUSTOM_DIRECTIVES_def
  KEY_KEEPALIVE_def KEY_PING_INTERVAL_def KEY_PING_RESTART_def KEY_KILL_SWITCH_def
  KEY_ALLOW_LAN_def KEY_API_KEY_def PROTOCOL_UDP_def PROTOCOL_TCP_def DEFAULT_PORT_def
  DEFAULT_PING_INTERVAL_def DEFAULT_PING_RESTART_def

section \<open>Connection settings\<close>

text \<open>
  What the code reads of libnm's \<open>NMSettingVpn\<close>: the data items and the secrets, each in the
  order \<open>nm_setting_vpn_foreach_*\<close> visits them, and the flags stored for each secret.
\<close>

record vpn_setting =
  vpn_data :: "(string \<times> string) list"
  vpn_secrets :: "(string \<times> string) list"
  vpn_secret_flags :: "string \<Rightarrow> nat"

definition get_data_item :: "vpn_setting \<Rightarrow> string \<Rightarrow> cstr" where
  "get_data_item s k = map_of (vpn_data s) k"

definition get_secret :: "vpn_setting \<Rightarrow> string \<Rightarrow> cstr" where
  "get_secret s k = map_of (vpn_secrets s) k"

section \<open>The validation\<close>

record valid_property =
  vp_name :: string
  vp_required :: bool

abbreviation VP :: "string \<Rightarrow> bool \<Rightarrow> valid_property" where
  "VP n r \<equiv> \<lparr>vp_name = n, vp_required = r\<rparr>"

definition valid_properties :: "valid_property list" where
  "valid_properties =
     [VP KEY_SERVER True, VP KEY_DEVICE False, VP KEY_PROTOCOL False, VP KEY_PORT False,
      VP KEY_CUSTOM_DIRECTIVES False, VP KEY_KEEPALIVE False, VP KEY_PING_INTERVAL False,
      VP KEY_PING_RESTART False, VP KEY_KILL_SWITCH False, VP KEY_ALLOW_LAN False]"

definition valid_secrets :: "valid_property list" where
  "valid_secrets = [VP KEY_API_KEY True]"

text \<open>\<open>None\<close> stands for the \<open>TRUE\<close> return, \<open>Some e\<close> for \<open>FALSE\<close> with the error set.\<close>

definition invalid_connection :: "string \<Rightarrow> gerror" where
  "invalid_connection msg = GError NM_VPN_PLUGIN_ERROR E_INVALID_CONNECTION msg"

fun validate_one_property :: "valid_property list \<Rightarrow> string \<Rightarrow> string \<Rightarrow> gerror option" where
  "validate_one_property [] key value =
     Some (invalid_connection (''invalid or unknown property '' @ lquo @ key @ rquo))"
| "validate_one_property (p # table) key value =
     (if vp_name p = key then None else validate_one_property table key value)"

text \<open>The scan's state: the first error and the array \<open>have[16]\<close>.\<close>

record validate_info =
  vi_error :: "gerror option"
  vi_have :: "bool list"

definition HAVE_SIZE :: nat where "HAVE_SIZE = 16"

fun mark_have :: "valid_property list \<Rightarrow> nat \<Rightarrow> string \<Rightarrow> bool list \<Rightarrow> bool list" where
  "mark_have [] i key have_arr = have_arr"
| "mark_have (p # table) i key have_arr =
     mark_have table (Suc i) key (if vp_name p = key then have_arr[i := True] else have_arr)"

definition validate_helper ::
  "valid_property list \<Rightarrow> string \<times> string \<Rightarrow> validate_info \<Rightarrow> validate_info" where
  "validate_helper table kv info =
     (if vi_error info \<noteq> None then info
      else if has_suffix (fst kv) ''-flags'' then info
      else info\<lparr>vi_have := mark_have table 0 (fst kv) (vi_have info),
                vi_error := validate_one_property table (fst kv) (snd kv)\<rparr>)"

fun missing_required :: "valid_property list \<Rightarrow> nat \<Rightarrow> bool list \<Rightarrow> gerror option" where
  "missing_required [] i have_arr = None"
| "missing_required (p # table) i have_arr =
     (if vp_required p \<and> \<not> have_arr ! i
      then Some (invalid_connection (''missing required property '' @ lquo @ vp_name p @ rquo))
      else missing_required table (Suc i) have_arr)"

definition validate_properties ::
  "valid_property list \<Rightarrow> vpn_setting \<Rightarrow> bool \<Rightarrow> gerror option" where
  "validate_properties table s_vpn secrets =
     (let items = (if secrets then vpn_secrets s_vpn else vpn_data s_vpn);
          info = fold (validate_helper table) items
                   \<lparr>vi_error = None, vi_have = replicate HAVE_SIZE False\<rparr>
      in case vi_error info of
           Some e \<Rightarrow> Some e
         | None \<Rightarrow> missing_required table 0 (vi_have info))"

text \<open>The three value checks of \<open>nm_airvpn_properties_validate\<close>.\<close>

definition check_protocol :: "cstr \<Rightarrow> gerror option" where
  "check_protocol value =
     (case value of
        None \<Rightarrow> None
      | Some v \<Rightarrow>
          if v \<noteq> PROTOCOL_UDP \<and> v \<noteq> PROTOCOL_TCP
          then Some (invalid_connection (''property '' @ lquo @ KEY_PROTOCOL @ rquo @ '' must be ''
                 @ lquo @ ''udp'' @ rquo @ '' or '' @ lquo @ ''tcp'' @ rquo))
          else None)"

definition check_port :: "cstr \<Rightarrow> gerror option" where
  "check_port value =
     (case value of
        None \<Rightarrow> None
      | Some v \<Rightarrow>
          (let port = fst (strtol10 v)
           in if port \<le> 0 \<or> port > 65535
              then Some (invalid_connection
                     (''property '' @ lquo @ KEY_PORT @ rquo @ '' is not a valid port''))
              else None))"

fun check_bools :: "vpn_setting \<Rightarrow> string list \<Rightarrow> gerror option" where
  "check_bools s_vpn [] = None"
| "check_bools s_vpn (key # keys) =
     (case get_data_item s_vpn key of
        Some v \<Rightarrow>
          if v \<noteq> ''yes'' \<and> v \<noteq> ''no''
          then Some (invalid_connection (''property '' @ lquo @ key @ rquo @ '' must be ''
                 @ lquo @ ''yes'' @ rquo @ '' or '' @ lquo @ ''no'' @ rquo))
          else check_bools s_vpn keys
      | None \<Rightarrow> check_bools s_vpn keys)"

fun check_seconds :: "vpn_setting \<Rightarrow> string list \<Rightarrow> gerror option" where
  "check_seconds s_vpn [] = None"
| "check_seconds s_vpn (key # keys) =
     (case get_data_item s_vpn key of
        Some v \<Rightarrow>
          (let seconds = fst (strtol10 v)
           in if seconds \<le> 0 \<or> seconds > 3600
              then Some (invalid_connection (''property '' @ lquo @ key @ rquo
                     @ '' must be between 1 and 3600 seconds''))
              else check_seconds s_vpn keys)
      | None \<Rightarrow> check_seconds s_vpn keys)"

definition nm_airvpn_properties_validate :: "vpn_setting \<Rightarrow> gerror option" where
  "nm_airvpn_properties_validate s_vpn =
     (case validate_properties valid_properties s_vpn False of
        Some e \<Rightarrow> Some e
      | None \<Rightarrow>
     (case check_protocol (get_data_item s_vpn KEY_PROTOCOL) of
        Some e \<Rightarrow> Some e
      | None \<Rightarrow>
     (case check_port (get_data_item s_vpn KEY_PORT) of
        Some e \<Rightarrow> Some e
      | None \<Rightarrow>
     (case check_bools s_vpn [KEY_KEEPALIVE, KEY_KILL_SWITCH, KEY_ALLOW_LAN] of
        Some e \<Rightarrow> Some e
      | None \<Rightarrow> check_seconds s_vpn [KEY_PING_INTERVAL, KEY_PING_RESTART]))))"

definition nm_airvpn_properties_validate_secrets :: "vpn_setting \<Rightarrow> gerror option" where
  "nm_airvpn_properties_validate_secrets s_vpn = validate_properties valid_secrets s_vpn True"

section \<open>Specification\<close>

text \<open>What a connection has to look like, independently of the scan.\<close>

definition relevant_keys :: "(string \<times> string) list \<Rightarrow> string set" where
  "relevant_keys items = {k \<in> fst ` set items. \<not> has_suffix k ''-flags''}"

definition keys_ok :: "valid_property list \<Rightarrow> (string \<times> string) list \<Rightarrow> bool" where
  "keys_ok table items \<longleftrightarrow>
     relevant_keys items \<subseteq> vp_name ` set table
     \<and> vp_name ` {p \<in> set table. vp_required p} \<subseteq> relevant_keys items"

definition opt_all :: "('a \<Rightarrow> bool) \<Rightarrow> 'a option \<Rightarrow> bool" where
  "opt_all P x = (case x of None \<Rightarrow> True | Some v \<Rightarrow> P v)"

definition in_range :: "int \<Rightarrow> string \<Rightarrow> bool" where
  "in_range hi v = (0 < fst (strtol10 v) \<and> fst (strtol10 v) \<le> hi)"

definition yes_no :: "string \<Rightarrow> bool" where
  "yes_no v = (v = ''yes'' \<or> v = ''no'')"

definition valid_connection :: "vpn_setting \<Rightarrow> bool" where
  "valid_connection s \<longleftrightarrow>
     keys_ok valid_properties (vpn_data s)
     \<and> opt_all (\<lambda>v. v = ''udp'' \<or> v = ''tcp'') (get_data_item s KEY_PROTOCOL)
     \<and> opt_all (in_range 65535) (get_data_item s KEY_PORT)
     \<and> opt_all yes_no (get_data_item s KEY_KEEPALIVE)
     \<and> opt_all yes_no (get_data_item s KEY_KILL_SWITCH)
     \<and> opt_all yes_no (get_data_item s KEY_ALLOW_LAN)
     \<and> opt_all (in_range 3600) (get_data_item s KEY_PING_INTERVAL)
     \<and> opt_all (in_range 3600) (get_data_item s KEY_PING_RESTART)"

section \<open>Lemmas\<close>

lemma opt_all_simps [simp]: "opt_all P None" "opt_all P (Some v) \<longleftrightarrow> P v"
  by (simp_all add: opt_all_def)

lemma validate_one_None_iff:
  "validate_one_property table k v = None \<longleftrightarrow> k \<in> vp_name ` set table"
  by (induction table) auto

lemma mark_have_length [simp]: "length (mark_have table i k h) = length h"
  by (induction table arbitrary: i h) auto

lemma mark_have_nth:
  "j < length h \<Longrightarrow>
   mark_have table i k h ! j =
     (h ! j \<or> (i \<le> j \<and> j < i + length table \<and> vp_name (table ! (j - i)) = k))"
proof (induction table arbitrary: i h)
  case (Cons p table)
  show ?case
  proof (cases "i = j")
    case True
    with Cons show ?thesis by (simp add: nth_list_update)
  next
    case False
    with Cons show ?thesis
      by (auto simp: nth_list_update nth_Cons' Suc_le_eq le_less)
  qed
qed auto

lemma missing_required_None_iff:
  "missing_required table i h = None \<longleftrightarrow> (\<forall>j < length table. vp_required (table ! j) \<longrightarrow> h ! (i + j))"
proof (induction table arbitrary: i)
  case (Cons p table)
  have "(\<forall>j < length (p # table). vp_required ((p # table) ! j) \<longrightarrow> h ! (i + j)) \<longleftrightarrow>
        (vp_required p \<longrightarrow> h ! i) \<and> (\<forall>j < length table. vp_required (table ! j) \<longrightarrow> h ! (Suc i + j))"
    by (simp only: list.size add_0_right add_Suc_right All_less_Suc2) simp
  with Cons show ?case by simp
qed simp

text \<open>The scan of the items: an error sticks, and without one every key has been marked.\<close>

lemma fold_validate_error:
  "vi_error info \<noteq> None \<Longrightarrow> fold (validate_helper table) items info = info"
  by (induction items) (auto simp: validate_helper_def)

lemma fold_validate_None_iff:
  assumes "vi_error info = None"
  shows "vi_error (fold (validate_helper table) items info) = None \<longleftrightarrow>
         relevant_keys items \<subseteq> vp_name ` set table"
  using assms
proof (induction items arbitrary: info)
  case (Cons kv items)
  show ?case
  proof (cases "vi_error (validate_helper table kv info)")
    case None
    with Cons.IH [OF None] Cons.prems show ?thesis
      by (auto simp: validate_helper_def relevant_keys_def validate_one_None_iff split: if_splits)
  next
    case (Some e)
    with Cons.prems have "\<not> has_suffix (fst kv) ''-flags''"
      and "validate_one_property table (fst kv) (snd kv) \<noteq> None"
      by (auto simp: validate_helper_def split: if_splits)
    then have "fst kv \<in> relevant_keys (kv # items)" "fst kv \<notin> vp_name ` set table"
      by (simp_all add: relevant_keys_def validate_one_None_iff)
    with Some show ?thesis by (auto simp: fold_validate_error)
  qed
qed (simp add: relevant_keys_def)

lemma fold_validate_have:
  assumes "vi_error (fold (validate_helper table) items info) = None" and "vi_error info = None"
    and "j < length table" and "j < length (vi_have info)"
  shows "vi_have (fold (validate_helper table) items info) ! j \<longleftrightarrow>
         vi_have info ! j \<or> vp_name (table ! j) \<in> relevant_keys items"
  using assms
proof (induction items arbitrary: info)
  case (Cons kv items)
  let ?i = "validate_helper table kv info"
  from Cons.prems have e: "vi_error ?i = None"
    using fold_validate_error by fastforce
  have "vi_have ?i ! j \<longleftrightarrow> vi_have info ! j \<or>
          (vp_name (table ! j) = fst kv \<and> \<not> has_suffix (fst kv) ''-flags'')"
    using Cons.prems by (auto simp: validate_helper_def mark_have_nth)
  moreover have "length (vi_have ?i) = length (vi_have info)"
    by (simp add: validate_helper_def)
  ultimately show ?case
    using Cons.IH [OF _ e] Cons.prems by (auto simp: relevant_keys_def)
qed (simp add: relevant_keys_def)

lemma validate_properties_None_iff:
  assumes "length table \<le> HAVE_SIZE"
  shows "validate_properties table s secrets = None \<longleftrightarrow>
         keys_ok table (if secrets then vpn_secrets s else vpn_data s)"
proof -
  let ?items = "if secrets then vpn_secrets s else vpn_data s"
  let ?i0 = "\<lparr>vi_error = None, vi_have = replicate HAVE_SIZE False\<rparr>"
  let ?i = "fold (validate_helper table) ?items ?i0"
  have err: "vi_error ?i = None \<longleftrightarrow> relevant_keys ?items \<subseteq> vp_name ` set table"
    by (rule fold_validate_None_iff) simp
  show ?thesis
  proof (cases "vi_error ?i")
    case (Some e)
    with err show ?thesis by (auto simp: validate_properties_def keys_ok_def)
  next
    case None
    have "(\<forall>j < length table. vp_required (table ! j) \<longrightarrow> vi_have ?i ! j) \<longleftrightarrow>
          (\<forall>j < length table. vp_required (table ! j) \<longrightarrow> vp_name (table ! j) \<in> relevant_keys ?items)"
      using fold_validate_have [OF None] assms by (auto simp: HAVE_SIZE_def)
    also have "\<dots> \<longleftrightarrow> vp_name ` {p \<in> set table. vp_required p} \<subseteq> relevant_keys ?items"
      by (auto simp: set_conv_nth)
    finally show ?thesis using None err
      by (simp add: validate_properties_def keys_ok_def missing_required_None_iff)
  qed
qed

lemma valid_properties_fit: "length valid_properties \<le> HAVE_SIZE" "length valid_secrets \<le> HAVE_SIZE"
  by (simp_all add: valid_properties_def valid_secrets_def HAVE_SIZE_def)

lemma check_bools_None_iff:
  "check_bools s keys = None \<longleftrightarrow> (\<forall>k \<in> set keys. opt_all yes_no (get_data_item s k))"
  by (induction keys) (auto simp: yes_no_def split: option.splits)

lemma check_seconds_None_iff:
  "check_seconds s keys = None \<longleftrightarrow> (\<forall>k \<in> set keys. opt_all (in_range 3600) (get_data_item s k))"
  by (induction keys) (auto simp: in_range_def Let_def split: option.splits)

lemma check_protocol_None_iff:
  "check_protocol v = None \<longleftrightarrow> opt_all (\<lambda>v. v = ''udp'' \<or> v = ''tcp'') v"
  by (auto simp: check_protocol_def PROTOCOL_UDP_def PROTOCOL_TCP_def split: option.splits)

lemma check_port_None_iff: "check_port v = None \<longleftrightarrow> opt_all (in_range 65535) v"
  by (auto simp: check_port_def in_range_def Let_def split: option.splits)

lemmas check_None_iffs =
  check_protocol_None_iff check_port_None_iff check_bools_None_iff check_seconds_None_iff

lemma validate_eq_valid: "nm_airvpn_properties_validate s = None \<longleftrightarrow> valid_connection s"
  unfolding nm_airvpn_properties_validate_def valid_connection_def
  by (simp add: check_None_iffs validate_properties_None_iff [OF valid_properties_fit(1)] conj_assoc
      del: check_bools.simps check_seconds.simps)

text \<open>Every rejection is an \<open>INVALID_CONNECTION\<close> error of the plugin's domain.\<close>

definition is_invalid_connection :: "gerror \<Rightarrow> bool" where
  "is_invalid_connection e =
     (err_domain e = NM_VPN_PLUGIN_ERROR \<and> err_code e = E_INVALID_CONNECTION)"

lemma is_invalid_connection_intro [simp]: "is_invalid_connection (invalid_connection m)"
  by (simp add: is_invalid_connection_def invalid_connection_def)

lemma opt_all_validate_one [simp]:
  "opt_all is_invalid_connection (validate_one_property table k v)"
  by (induction table) auto

lemma opt_all_missing [simp]: "opt_all is_invalid_connection (missing_required table i h)"
  by (induction table arbitrary: i) auto

lemma opt_all_chain:
  "opt_all P x \<Longrightarrow> opt_all P y \<Longrightarrow>
   opt_all P (case x of Some e \<Rightarrow> Some e | None \<Rightarrow> y)"
  by (cases x) auto

lemma fold_validate_code:
  "opt_all is_invalid_connection (vi_error info) \<Longrightarrow>
   opt_all is_invalid_connection (vi_error (fold (validate_helper table) items info))"
  by (induction items arbitrary: info) (simp_all add: validate_helper_def)

lemma validate_properties_code:
  "opt_all is_invalid_connection (validate_properties table s secrets)"
  by (simp add: validate_properties_def Let_def opt_all_chain fold_validate_code)

lemma check_codes:
  "opt_all is_invalid_connection (check_protocol v)"
  "opt_all is_invalid_connection (check_port v)"
  "opt_all is_invalid_connection (check_bools s keys)"
  "opt_all is_invalid_connection (check_seconds s keys)"
proof -
  show "opt_all is_invalid_connection (check_bools s keys)"
    by (induction keys) (simp_all split: option.splits)
  show "opt_all is_invalid_connection (check_seconds s keys)"
    by (induction keys) (simp_all add: Let_def split: option.splits)
qed (simp_all add: check_protocol_def check_port_def Let_def split: option.splits)

lemma validate_error_code: "opt_all is_invalid_connection (nm_airvpn_properties_validate s)"
  unfolding nm_airvpn_properties_validate_def
  by (intro opt_all_chain validate_properties_code check_codes)

lemma in_range_dec_of_nat:
  "int n \<le> LONG_MAX \<Longrightarrow> in_range hi (dec_of_nat n) \<longleftrightarrow> 0 < n \<and> int n \<le> hi"
  by (simp add: in_range_def strtol10_dec_of_nat)

section \<open>Properties\<close>

text \<open>
  C12. The table-driven validation of the data items accepts a connection exactly when it meets
  the specification: every key is known (or a \<open>*-flags\<close> item), the required \<open>server\<close> is
  there, the protocol is udp or tcp, the port starts with a number in 1..65535, the switches are
  yes or no, and the two ping times start with a number in 1..3600.
\<close>

theorem properties_validate_iff:
  "(nm_airvpn_properties_validate s = None) = valid_connection s"
  by (rule validate_eq_valid)

text \<open>
  Whatever is wrong with a connection, the validation reports it as an
  \<open>INVALID_CONNECTION\<close> error of the VPN plugin's error domain.
\<close>

theorem properties_validate_error_code:
  assumes "nm_airvpn_properties_validate s = Some e"
  shows "err_domain e = NM_VPN_PLUGIN_ERROR \<and> err_code e = E_INVALID_CONNECTION"
  using validate_error_code [of s] assms by (simp add: is_invalid_connection_def)

theorem properties_validate_error_code_witness:
  "err_domain (the (nm_airvpn_properties_validate (vpn_setting.make [] [] (\<lambda>_. 0)))) =
     NM_VPN_PLUGIN_ERROR"
proof -
  have "nm_airvpn_properties_validate (vpn_setting.make [] [] (\<lambda>_. 0)) \<noteq> None"
    by code_simp
  then obtain e where e: "nm_airvpn_properties_validate (vpn_setting.make [] [] (\<lambda>_. 0)) = Some e"
    by blast
  with properties_validate_error_code [OF e] show ?thesis by simp
qed

text \<open>
  The port check reads the value with \<open>strtol\<close> and ignores what follows the digits: a
  port number in 1..65535 is accepted with any tail that does not start with a digit.
\<close>

theorem port_check_ignores_tail:
  assumes "0 < n" and "n \<le> 65535" and "tail = [] \<or> \<not> is_digit (hd tail)"
  shows "check_port (Some (dec_of_nat n @ tail)) = None"
proof -
  from assms(2) have "int n \<le> LONG_MAX" by (simp add: LONG_MAX_def)
  from strtol10_junk [OF this assms(3)] assms(1,2) show ?thesis
    by (simp add: check_port_None_iff in_range_def)
qed

theorem port_check_ignores_tail_witness:
  "check_port (Some (dec_of_nat 443 @ ''&servers=x'')) = None"
  by (rule port_check_ignores_tail) (simp_all add: is_digit_def)

end
