(* ===== verification/Airvpn_Api.thy ===== *)
theory Airvpn_Api
  imports Airvpn_Properties
begin

text \<open>
  The generator client, \<open>src/nm-airvpn-api.c\<close>: the HTTP transfer with its size limit, the
  checks on what the API answers, the validation of the device name against the account, the
  construction of the generator URL and the synchronous fetch that composes them.
  libcurl and json-glib are the parameters \<open>curllib\<close> and \<open>jsonlib\<close>. Every function with a
  \<open>GError **\<close> returns what it returns in C (a \<open>gboolean\<close>, or a pointer as an option) together with
  the error it has set, if any: \<open>FALSE\<close> without an error, or \<open>TRUE\<close> with one, are values of the
  model, and that they do not occur is something to prove.
\<close>

section \<open>Parameters of a fetch\<close>

record gen_params =
  gp_server :: cstr
  gp_device :: cstr
  gp_protocol :: cstr
  gp_port :: cstr
  gp_custom_directives :: cstr

definition generator_params_copy :: "gen_params \<Rightarrow> gen_params" where
  "generator_params_copy p =
     \<lparr>gp_server = gp_server p, gp_device = gp_device p, gp_protocol = gp_protocol p,
      gp_port = gp_port p, gp_custom_directives = gp_custom_directives p\<rparr>"

definition AIRVPN_GENERATOR_URL :: string where
  "AIRVPN_GENERATOR_URL = ''https://airvpn.org/api/generator/''"

definition AIRVPN_DEVICES_URL :: string where
  "AIRVPN_DEVICES_URL = ''https://airvpn.org/api/devices/''"

definition MAX_RESPONSE_SIZE :: nat where
  "MAX_RESPONSE_SIZE = 4 * 1024 * 1024"

section \<open>libcurl and json-glib\<close>

record curl_request =
  cr_url :: string
  cr_headers :: "string list"
  cr_follow_location :: bool
  cr_timeout :: nat
  cr_connect_timeout :: nat
  cr_useragent :: string
  cr_protocols :: string

record curl_outcome =
  co_code :: nat
  co_status :: int
  co_errbuf :: string

type_synonym size_t = "64 word"

text \<open>A write callback gets the data, \<open>size\<close>, \<open>nmemb\<close> and the buffer.\<close>

type_synonym write_callback = "string \<Rightarrow> size_t \<Rightarrow> size_t \<Rightarrow> string \<Rightarrow> size_t \<times> string"

record curllib =
  curl_easy_init :: "nat \<Rightarrow> bool"
  curl_easy_perform :: "curl_request \<Rightarrow> write_callback \<Rightarrow> string \<Rightarrow> curl_outcome \<times> string"
  curl_easy_strerror :: "nat \<Rightarrow> string"
  curl_easy_escape :: "string \<Rightarrow> string"

record ('n, 'o, 'a) jsonlib =
  js_load_from_data :: "string \<Rightarrow> gerror + 'n"
  js_root_object :: "'n \<Rightarrow> 'o option"
  js_has_member :: "'o \<Rightarrow> string \<Rightarrow> bool"
  js_array_member :: "'o \<Rightarrow> string \<Rightarrow> 'a option"
  js_array_length :: "'a \<Rightarrow> nat"
  js_array_object :: "'a \<Rightarrow> nat \<Rightarrow> 'o"
  js_string_member :: "'o \<Rightarrow> string \<Rightarrow> cstr"

section \<open>The transfer\<close>

text \<open>The bytes of a \<open>GString\<close> that a C string function sees.\<close>

definition c_str :: "string \<Rightarrow> string" where
  "c_str s = takeWhile (\<lambda>c. c \<noteq> CHR 0x00) s"

text \<open>\<open>g_string_append_len\<close>: a negative length means up to the terminating NUL.\<close>

definition g_string_append_len :: "string \<Rightarrow> string \<Rightarrow> size_t \<Rightarrow> string" where
  "g_string_append_len buf ptr len =
     (if sint len < 0 then buf @ c_str ptr else buf @ take (unat len) ptr)"

definition limited_write :: "nat \<Rightarrow> write_callback" where
  "limited_write limit ptr sz nmemb buf =
     (let total = sz * nmemb
      in if of_nat (length buf) + total > (of_nat limit :: size_t) then (0, buf)
         else (total, g_string_append_len buf ptr total))"

definition write_cb :: write_callback where
  "write_cb = limited_write MAX_RESPONSE_SIZE"

definition VERSION :: string where "VERSION = ''0.1.0''"

definition plugin_error :: "string \<Rightarrow> gerror" where
  "plugin_error msg = GError NM_VPN_PLUGIN_ERROR E_LAUNCH_FAILED msg"

definition api_request :: "string \<Rightarrow> string \<Rightarrow> curl_request" where
  "api_request url api_key =
     \<lparr>cr_url = url, cr_headers = [''API-KEY: '' @ api_key], cr_follow_location = False,
      cr_timeout = 60, cr_connect_timeout = 20,
      cr_useragent = ''networkmanager-airvpn/'' @ VERSION, cr_protocols = ''https''\<rparr>"

text \<open>The first argument numbers the calls of \<open>curl_easy_init\<close>, which may fail at any of them.\<close>

definition http_get ::
  "nat \<Rightarrow> curllib \<Rightarrow> string \<Rightarrow> string \<Rightarrow> string option \<times> gerror option" where
  "http_get call C url api_key =
     (if \<not> curl_easy_init C call
      then (None, Some (plugin_error ''Could not initialize libcurl.''))
      else
        (let (res, body) = curl_easy_perform C (api_request url api_key) write_cb []
         in if co_code res \<noteq> 0
            then (None, Some (plugin_error (''Could not reach the AirVPN API: '' @
                   (if co_errbuf res \<noteq> [] then co_errbuf res else curl_easy_strerror C (co_code res)))))
            else if co_status res \<noteq> 200
            then (None, Some (plugin_error (''AirVPN API returned HTTP status '' @
                   dec_of_int (co_status res) @ ''.'')))
            else (Some body, None)))"

section \<open>Checks on the answer\<close>

text \<open>
  What the caller's \<open>GError *\<close> holds after a callee that was passed it: an error that is already
  there is kept, as \<open>g_set_error\<close> does (with a warning).
\<close>

definition set_error :: "gerror option \<Rightarrow> gerror option \<Rightarrow> gerror option" where
  "set_error error e = (case error of None \<Rightarrow> e | Some old \<Rightarrow> Some old)"

definition check_json_error :: "string \<Rightarrow> bool \<times> gerror option" where
  "check_json_error body =
     (if body \<noteq> [] \<and> hd body = CHR ''{'' \<and> contains (c_str body) ''\"error\"''
      then (False,
            if contains (c_str body) ''Not authorized''
            then Some (plugin_error (''AirVPN rejected the API key (get a key at '' @
                   API_SETTINGS_URL @ '').''))
            else Some (plugin_error (''AirVPN API request failed: '' @
                   take (min (length body) 200) (c_str body))))
      else (True, None))"

text \<open>The loop over the devices of the account, from index \<open>i\<close> on.\<close>

fun device_listed ::
  "('n, 'o, 'a) jsonlib \<Rightarrow> 'g glib_scheme \<Rightarrow> 'a \<Rightarrow> string \<Rightarrow> nat list \<Rightarrow> bool" where
  "device_listed J L devices device [] = False"
| "device_listed J L devices device (i # is) =
     (let item = js_array_object J devices i;
          name = (if js_has_member J item ''name'' then js_string_member J item ''name'' else None)
      in case name of
           Some n \<Rightarrow> if g_strcaseeq L n device then True else device_listed J L devices device is
         | None \<Rightarrow> device_listed J L devices device is)"

definition unknown_device :: "string \<Rightarrow> gerror" where
  "unknown_device device =
     plugin_error (''Device '' @ lquo @ device @ rquo @ '' does not exist on your AirVPN account. '' @
       ''Pick one of your devices in the connection editor '' @
       ''(Load devices) or create it at airvpn.org.'')"

definition validate_device ::
  "('n, 'o, 'a) jsonlib \<Rightarrow> 'g glib_scheme \<Rightarrow> curllib \<Rightarrow> gen_params \<Rightarrow> string
     \<Rightarrow> bool \<times> gerror option" where
  "validate_device J L C params api_key =
     (case gp_device params of
        None \<Rightarrow> (True, None)
      | Some device \<Rightarrow>
     (if device = [] then (True, None) else
     (case http_get 0 C AIRVPN_DEVICES_URL api_key of
        (None, error) \<Rightarrow> (False, error)
      | (Some body, error) \<Rightarrow>
     (case check_json_error body of
        (False, e) \<Rightarrow> (False, set_error error e)
      | (True, e) \<Rightarrow>
          (let error = set_error error e
           in case js_load_from_data J body of
        Inl e \<Rightarrow> (False, set_error error (Some e))
      | Inr parser \<Rightarrow>
     (case (case js_root_object J parser of
              None \<Rightarrow> None
            | Some root \<Rightarrow> if js_has_member J root ''devices''
                then js_array_member J root ''devices'' else None) of
        None \<Rightarrow> (False, set_error error (Some (plugin_error ''Unexpected AirVPN devices list format.'')))
      | Some devices \<Rightarrow>
          if device_listed J L devices device [0..<js_array_length J devices] then (True, error)
          else (False, set_error error (Some (unknown_device device)))))))))"

definition validate_profile :: "string \<Rightarrow> bool \<times> gerror option" where
  "validate_profile body =
     (if length body = 0
      then (False, Some (plugin_error ''AirVPN generator returned an empty response.''))
      else case check_json_error body of
        (False, error) \<Rightarrow> (False, error)
      | (True, error) \<Rightarrow>
          if \<not> contains (c_str body) ''client'' \<or> \<not> contains (c_str body) ''<ca>''
             \<or> \<not> contains (c_str body) ''<key>''
          then (False, set_error error
                  (Some (plugin_error ''AirVPN generator response is not an OpenVPN profile.'')))
          else (True, error))"

section \<open>The URL\<close>

definition or_default :: "cstr \<Rightarrow> string \<Rightarrow> string" where
  "or_default s d = (case s of None \<Rightarrow> d | Some t \<Rightarrow> if t = [] then d else t)"

definition optional_field :: "curllib \<Rightarrow> string \<Rightarrow> cstr \<Rightarrow> string" where
  "optional_field C key value =
     (case value of None \<Rightarrow> [] | Some v \<Rightarrow> if v = [] then [] else key @ curl_easy_escape C v)"

definition build_generator_url :: "gen_params \<Rightarrow> curllib \<Rightarrow> string" where
  "build_generator_url params C =
     AIRVPN_GENERATOR_URL @ ''?system=linux&download=auto''
     @ ''&protocols=openvpn_3_'' @ or_default (gp_protocol params) PROTOCOL_UDP
     @ ''_'' @ or_default (gp_port params) DEFAULT_PORT
     @ ''&servers='' @ curl_easy_escape C (or_empty (gp_server params))
     @ optional_field C ''&device='' (gp_device params)
     @ optional_field C ''&openvpn_directives='' (gp_custom_directives params)"

section \<open>The fetch\<close>

definition cancelled_error :: gerror where
  "cancelled_error = GError G_IO_ERROR E_CANCELLED ''Operation was cancelled''"

text \<open>\<open>cancelled i\<close> is what the \<open>i\<close>-th poll of the cancellable finds.\<close>

definition nm_airvpn_generator_fetch_sync ::
  "('n, 'o, 'a) jsonlib \<Rightarrow> 'g glib_scheme \<Rightarrow> curllib \<Rightarrow> (nat \<Rightarrow> bool) \<Rightarrow> gen_params \<Rightarrow> cstr
     \<Rightarrow> cstr \<times> gerror option" where
  "nm_airvpn_generator_fetch_sync J L C cancelled params api_key =
     (if \<not> nonempty_str (gp_server params) then (None, None)
      else if \<not> nonempty_str api_key then (None, None)
      else
        (let key = or_empty api_key
         in case validate_device J L C params key of
              (False, error) \<Rightarrow> (None, error)
            | (True, error) \<Rightarrow>
           (if cancelled 0 then (None, set_error error (Some cancelled_error))
            else if \<not> curl_easy_init C 1
            then (None, set_error error (Some (plugin_error ''Could not initialize libcurl.'')))
            else
              (case http_get 2 C (build_generator_url params C) key of
                 (None, e) \<Rightarrow> (None, set_error error e)
               | (Some body, e) \<Rightarrow>
              (let error = set_error error e
               in if cancelled 1 then (None, set_error error (Some cancelled_error))
               else case validate_profile body of
                 (False, e) \<Rightarrow> (None, set_error error e)
               | (True, e) \<Rightarrow> (Some (c_str body), set_error error e))))))"

text \<open>What the worker thread hands to its \<open>GTask\<close>.\<close>

datatype task_return = ReturnPointer string | ReturnError "gerror option"

definition fetch_thread_cb ::
  "('n, 'o, 'a) jsonlib \<Rightarrow> 'g glib_scheme \<Rightarrow> curllib \<Rightarrow> (nat \<Rightarrow> bool) \<Rightarrow> gen_params \<Rightarrow> cstr
     \<Rightarrow> task_return" where
  "fetch_thread_cb J L C cancelled params api_key =
     (case nm_airvpn_generator_fetch_sync J L C cancelled params api_key of
        (Some config, _) \<Rightarrow> ReturnPointer config
      | (None, err) \<Rightarrow> ReturnError err)"

definition nm_airvpn_generator_fetch_async ::
  "('n, 'o, 'a) jsonlib \<Rightarrow> 'g glib_scheme \<Rightarrow> curllib \<Rightarrow> (nat \<Rightarrow> bool) \<Rightarrow> gen_params \<Rightarrow> cstr
     \<Rightarrow> task_return" where
  "nm_airvpn_generator_fetch_async J L C cancelled params api_key =
     fetch_thread_cb J L C cancelled (generator_params_copy params) api_key"

section \<open>Lemmas\<close>

text \<open>
  What libcurl documents of \<open>curl_easy_perform\<close>: the buffer is what the callback makes of a
  sequence of chunks of at most 16 KiB, each passed with \<open>size = 1\<close>, up to the first chunk the
  callback does not take whole.
\<close>

fun feed :: "write_callback \<Rightarrow> string list \<Rightarrow> string \<Rightarrow> string" where
  "feed cb [] buf = buf"
| "feed cb (c # cs) buf =
     (case cb c 1 (of_nat (length c)) buf of
        (n, buf') \<Rightarrow> if n = of_nat (length c) then feed cb cs buf' else buf')"

definition curl_doc :: "curllib \<Rightarrow> bool" where
  "curl_doc C \<longleftrightarrow>
     (\<forall>rq cb buf. \<exists>chunks. (\<forall>c \<in> set chunks. length c \<le> 16384)
        \<and> snd (curl_easy_perform C rq cb buf) = feed cb chunks buf)"

lemma sint_of_nat_small: "n < 2 ^ 63 \<Longrightarrow> sint (of_nat n :: size_t) = int n"
  by (simp add: sint_uint unsigned_of_nat take_bit_nat_eq_self signed_take_bit_int_eq_self)

lemma limited_write_bound:
  assumes "length buf \<le> limit" and "limit < 2 ^ 62" and "length c < 2 ^ 62"
  shows "length (snd (limited_write limit c 1 (of_nat (length c)) buf)) \<le> limit"
proof -
  have eq: "of_nat (length buf) + of_nat (length c) = (of_nat (length buf + length c) :: size_t)"
    by simp
  have u: "unat (of_nat (length buf + length c) :: size_t) = length buf + length c"
    and ul: "unat (of_nat limit :: size_t) = limit"
    and uc: "unat (of_nat (length c) :: size_t) = length c"
    using assms by (auto simp: unat_of_nat simp del: of_nat_add)
  have nn: "\<not> sint (of_nat (length c) :: size_t) < 0"
    using assms by (subst sint_of_nat_small) auto
  show ?thesis
    using assms by (auto simp: limited_write_def Let_def g_string_append_len_def nn uc
        word_less_nat_alt eq u ul simp del: of_nat_add)
qed

lemma feed_bound:
  assumes "length buf \<le> limit" and "limit < 2 ^ 62" and "\<forall>c \<in> set chunks. length c \<le> 16384"
  shows "length (feed (limited_write limit) chunks buf) \<le> limit"
  using assms
proof (induction chunks arbitrary: buf)
  case (Cons c cs)
  obtain n buf' where w: "limited_write limit c 1 (of_nat (length c)) buf = (n, buf')"
    by (meson surj_pair)
  have "length buf' \<le> limit"
    using limited_write_bound [of buf limit c] w Cons.prems by simp
  with Cons w show ?case by simp
qed simp

lemma http_get_bound:
  assumes "curl_doc C" and "http_get i C url key = (Some body, e)"
  shows "length body \<le> MAX_RESPONSE_SIZE"
proof -
  have body: "body = snd (curl_easy_perform C (api_request url key) write_cb [])"
    using assms(2) by (auto simp: http_get_def Let_def split: if_splits prod.splits)
  from assms(1) obtain chunks where
    "\<forall>c \<in> set chunks. length c \<le> 16384" and "body = feed write_cb chunks []"
    unfolding curl_doc_def body by blast
  then show ?thesis
    using feed_bound [of "[]" MAX_RESPONSE_SIZE chunks]
    by (simp add: write_cb_def MAX_RESPONSE_SIZE_def)
qed

lemma c_str_length: "length (c_str s) \<le> length s"
  by (simp add: c_str_def length_takeWhile_le)

text \<open>The contract of the four functions with a \<open>GError **\<close>: an error is set exactly on failure.\<close>

lemma set_error_simps [simp]: "set_error None e = e" "set_error (Some x) e = Some x"
  by (simp_all add: set_error_def)

lemma http_get_contract: "fst (http_get i C url key) = None \<longleftrightarrow> snd (http_get i C url key) \<noteq> None"
  by (auto simp: http_get_def Let_def split: prod.split)

lemma check_json_error_contract: "fst (check_json_error body) \<longleftrightarrow> snd (check_json_error body) = None"
  by (simp add: check_json_error_def)

lemma validate_device_contract:
  "fst (validate_device J L C params key) \<longleftrightarrow> snd (validate_device J L C params key) = None"
proof -
  have h: "(\<exists>e. http_get 0 C AIRVPN_DEVICES_URL key = (None, Some e))
      \<or> (\<exists>body. http_get 0 C AIRVPN_DEVICES_URL key = (Some body, None))"
    using http_get_contract [of 0 C AIRVPN_DEVICES_URL key]
    by (cases "http_get 0 C AIRVPN_DEVICES_URL key") auto
  have c: "(\<exists>e. check_json_error body = (False, Some e)) \<or> check_json_error body = (True, None)" for body
    using check_json_error_contract [of body] by (cases "check_json_error body") auto
  have "validate_device J L C params key = (True, None)
      \<or> (\<exists>e. validate_device J L C params key = (False, Some e))"
    using h
  proof (elim disjE exE)
    fix body
    assume b: "http_get 0 C AIRVPN_DEVICES_URL key = (Some body, None)"
    show ?thesis
      using c [of body] by (elim disjE exE) (auto simp: validate_device_def b split: option.split sum.split)
  qed (auto simp: validate_device_def split: option.split)
  then show ?thesis by auto
qed

lemma validate_profile_contract: "fst (validate_profile body) \<longleftrightarrow> snd (validate_profile body) = None"
  using check_json_error_contract [of body]
  by (cases "check_json_error body") (auto simp: validate_profile_def split: bool.split)

lemma check_json_error_True:
  "fst (check_json_error body) \<longleftrightarrow>
     \<not> (body \<noteq> [] \<and> hd body = CHR ''{'' \<and> contains (c_str body) ''\"error\"'')"
  by (simp add: check_json_error_def)

lemma validate_profile_True:
  "fst (validate_profile body) \<longleftrightarrow>
     body \<noteq> [] \<and> fst (check_json_error body) \<and> contains (c_str body) ''client''
     \<and> contains (c_str body) ''<ca>'' \<and> contains (c_str body) ''<key>''"
  by (cases "check_json_error body") (auto simp: validate_profile_def split: bool.split)

text \<open>The outcomes of a fetch whose arguments pass the guards.\<close>

lemma fetch_cases:
  assumes "nm_airvpn_generator_fetch_sync J L C cancelled params api_key = (config, err)"
    and "nonempty_str (gp_server params)" "api_key = Some key" "key \<noteq> []"
  obtains (failed) e where "config = None" "err = Some e"
  | (fetched) body where "config = Some (c_str body)" "err = None"
      "fst (validate_device J L C params key)" "\<not> cancelled 0" "\<not> cancelled 1"
      "http_get 2 C (build_generator_url params C) key = (Some body, None)"
      "fst (validate_profile body)"
proof -
  let ?g = "http_get 2 C (build_generator_url params C) key"
  note eq = assms(1) [unfolded nm_airvpn_generator_fetch_sync_def assms(3) or_empty_def Let_def]
  have key: "nonempty_str (Some key)" using assms(4) by (simp add: nonempty_str_def)
  obtain ok e where d: "validate_device J L C params key = (ok, e)" by (cases "validate_device J L C params key")
  have d': "ok \<longleftrightarrow> e = None" using validate_device_contract [of J L C params key] by (simp add: d)
  obtain b e2 where g: "?g = (b, e2)" by (cases ?g)
  have g': "b = None \<longleftrightarrow> e2 \<noteq> None" using http_get_contract [of 2 C "build_generator_url params C" key] by (simp add: g)
  show thesis
  proof (cases "ok \<and> \<not> cancelled 0 \<and> curl_easy_init C 1 \<and> b \<noteq> None \<and> \<not> cancelled 1")
    case False
    with eq d d' g g' key assms(2) have "config = None \<and> (\<exists>e. err = Some e)"
      by (auto split: if_splits option.splits prod.splits)
    with failed show thesis by blast
  next
    case True
    then obtain body where b: "b = Some body" by auto
    obtain v e3 where p: "validate_profile body = (v, e3)" by (cases "validate_profile body")
    have p': "v \<longleftrightarrow> e3 = None" using validate_profile_contract [of body] by (simp add: p)
    have r: "(config, err) = (if v then Some (c_str body) else None, e3)"
      using eq True d d' g g' key assms(2) p by (simp add: b split: if_splits bool.splits)
    show thesis
    proof (cases v)
      case True': True
      with fetched [of body] True r d d' g g' b p p' show thesis by simp
    next
      case False
      with failed r p' show thesis by auto
    qed
  qed
qed

text \<open>What a fetch that returns a profile has gone through.\<close>

lemma fetch_SomeE:
  assumes "nm_airvpn_generator_fetch_sync J L C cancelled params api_key = (Some config, err)"
  obtains body key where
    "nonempty_str (gp_server params)" "api_key = Some key" "key \<noteq> []" "err = None"
    "fst (validate_device J L C params key)" "\<not> cancelled 0" "\<not> cancelled 1"
    "http_get 2 C (build_generator_url params C) key = (Some body, None)"
    "fst (validate_profile body)" "config = c_str body"
proof -
  from assms have s: "nonempty_str (gp_server params)" "nonempty_str api_key"
    by (auto simp: nm_airvpn_generator_fetch_sync_def split: if_splits)
  from s(2) obtain key where key: "api_key = Some key" "key \<noteq> []" by (auto elim: nonempty_strE)
  from assms s(1) key show thesis
  proof (cases rule: fetch_cases)
    case (fetched body)
    with s(1) key that [of key body] show thesis by simp
  qed simp
qed

lemma device_listed_iff:
  "device_listed J L devices device is \<longleftrightarrow>
     (\<exists>i \<in> set is. \<exists>n. js_has_member J (js_array_object J devices i) ''name''
        \<and> js_string_member J (js_array_object J devices i) ''name'' = Some n
        \<and> g_strcaseeq L n device)"
  by (induction "is") (auto simp: Let_def split: option.splits)

text \<open>The query of the URL, field by field.\<close>

definition escape_doc :: "curllib \<Rightarrow> bool" where
  "escape_doc C \<longleftrightarrow> (\<forall>s. CHR ''&'' \<notin> set (curl_easy_escape C s))"

definition url_field :: "curllib \<Rightarrow> string \<Rightarrow> cstr \<Rightarrow> string list" where
  "url_field C key value =
     (if nonempty_str value then [key @ curl_easy_escape C (or_empty value)] else [])"

definition url_fields :: "gen_params \<Rightarrow> curllib \<Rightarrow> string list" where
  "url_fields params C =
     [AIRVPN_GENERATOR_URL @ ''?system=linux'', ''download=auto'',
      ''protocols=openvpn_3_'' @ or_default (gp_protocol params) PROTOCOL_UDP
        @ ''_'' @ or_default (gp_port params) DEFAULT_PORT,
      ''servers='' @ curl_easy_escape C (or_empty (gp_server params))]
     @ url_field C ''device='' (gp_device params)
     @ url_field C ''openvpn_directives='' (gp_custom_directives params)"

fun join_amp :: "string list \<Rightarrow> string" where
  "join_amp [] = []"
| "join_amp [x] = x"
| "join_amp (x # xs) = x @ CHR ''&'' # join_amp xs"

lemma url_is_join: "build_generator_url params C = join_amp (url_fields params C)"
  by (auto simp: build_generator_url_def url_fields_def url_field_def optional_field_def
      nonempty_str_def or_empty_def split: option.splits)

lemma split_join_amp:
  "xs \<noteq> [] \<Longrightarrow> split_on (CHR ''&'') (join_amp xs) = concat (map (split_on (CHR ''&'')) xs)"
  by (induction xs rule: join_amp.induct) (simp_all add: split_on_append)

lemma split_url:
  "split_on (CHR ''&'') (build_generator_url params C)
     = concat (map (split_on (CHR ''&'')) (url_fields params C))"
  unfolding url_is_join by (rule split_join_amp) (simp add: url_fields_def)

lemma concat_split_none:
  "\<forall>x \<in> set xs. c \<notin> set x \<Longrightarrow> concat (map (split_on c) xs) = xs"
  by (induction xs) (simp_all add: split_on_none)

lemma amp_free_url_fields:
  assumes "escape_doc C"
    and "CHR ''&'' \<notin> set (or_default (gp_protocol params) PROTOCOL_UDP)"
    and "CHR ''&'' \<notin> set (or_default (gp_port params) DEFAULT_PORT)"
  shows "\<forall>x \<in> set (url_fields params C). CHR ''&'' \<notin> set x"
  using assms by (auto simp: url_fields_def url_field_def escape_doc_def AIRVPN_GENERATOR_URL_def)

section \<open>A reference instance, for witnesses\<close>

definition ref_curl :: curllib where
  "ref_curl = \<lparr>
     curl_easy_init = (\<lambda>_. True),
     curl_easy_perform = (\<lambda>rq cb buf.
        (\<lparr>co_code = 0, co_status = 200, co_errbuf = []\<rparr>,
         feed cb [if cr_url rq = AIRVPN_DEVICES_URL then ''{}'' else ''client <ca> <key>''] buf)),
     curl_easy_strerror = (\<lambda>_. ''error''),
     curl_easy_escape = filter (\<lambda>c. c \<noteq> CHR ''&'')\<rparr>"

definition ref_json :: "(unit, nat, unit) jsonlib" where
  "ref_json = \<lparr>
     js_load_from_data = (\<lambda>_. Inr ()),
     js_root_object = (\<lambda>_. Some 0),
     js_has_member = (\<lambda>_ _. True),
     js_array_member = (\<lambda>_ _. Some ()),
     js_array_length = (\<lambda>_. 1),
     js_array_object = (\<lambda>_ i. Suc i),
     js_string_member = (\<lambda>_ _. Some ''Laptop'')\<rparr>"

lemma ref_curl_doc: "curl_doc ref_curl"
  unfolding curl_doc_def
proof (intro allI)
  fix rq cb buf
  show "\<exists>chunks. (\<forall>c \<in> set chunks. length c \<le> 16384)
      \<and> snd (curl_easy_perform ref_curl rq cb buf) = feed cb chunks buf"
    by (intro exI [of _ "[if cr_url rq = AIRVPN_DEVICES_URL then ''{}'' else ''client <ca> <key>'']"])
      (simp add: ref_curl_def)
qed

lemma ref_escape_doc: "escape_doc ref_curl"
  by (simp add: escape_doc_def ref_curl_def)

definition ref_params :: gen_params where
  "ref_params = \<lparr>gp_server = Some ''ch'', gp_device = Some ''laptop'', gp_protocol = None,
     gp_port = None, gp_custom_directives = None\<rparr>"

definition ref_glib :: glib where
  "ref_glib = \<lparr>g_isspace = (\<lambda>c. False), g_strtoll = (\<lambda>s b. strtol10 s),
     g_strcaseeq = (\<lambda>a b. True), g_strsplit = (\<lambda>s d. [s]), g_strsplit_set = (\<lambda>s d. [s]),
     g_strstrip = id, g_strchomp = id, g_build_filename = concat, g_sha256 = id\<rparr>"

lemma ref_http_get:
  "http_get i ref_curl url key =
     (Some (if url = AIRVPN_DEVICES_URL then ''{}'' else ''client <ca> <key>''), None)"
  by (simp add: http_get_def ref_curl_def api_request_def write_cb_def limited_write_def
      MAX_RESPONSE_SIZE_def g_string_append_len_def Let_def)

lemma ref_profile: "validate_profile ''client <ca> <key>'' = (True, None)"
  by code_simp

lemma ref_devices: "check_json_error ''{}'' = (True, None)"
  by code_simp

lemma ref_url: "build_generator_url ref_params ref_curl \<noteq> AIRVPN_DEVICES_URL"
  by (simp add: build_generator_url_def AIRVPN_GENERATOR_URL_def AIRVPN_DEVICES_URL_def)

lemma ref_fetch:
  "nm_airvpn_generator_fetch_sync ref_json ref_glib ref_curl (\<lambda>_. False) ref_params (Some ''key'')
     = (Some ''client <ca> <key>'', None)"
proof -
  have "validate_device ref_json ref_glib ref_curl ref_params ''key'' = (True, None)"
    by (simp add: validate_device_def ref_params_def ref_http_get ref_devices ref_json_def ref_glib_def)
  moreover have "curl_easy_init ref_curl 1" by (simp add: ref_curl_def)
  moreover have "c_str ''client <ca> <key>'' = ''client <ca> <key>''" by (simp add: c_str_def)
  ultimately show ?thesis
    using ref_url
    by (simp add: nm_airvpn_generator_fetch_sync_def ref_http_get ref_profile
        del: list.inject) (simp add: ref_params_def)
qed

section \<open>Properties\<close>

text \<open>
  C13. The contract of the synchronous fetch between its result and its \<open>GError\<close>: given a
  server and an API key it returns exactly one of a profile and an error, and without them it
  returns neither (the two \<open>g_return_val_if_fail\<close> guards).
\<close>

theorem fetch_result_contract:
  "(case nm_airvpn_generator_fetch_sync J L C cancelled params api_key of (config, err) \<Rightarrow>
      (if nonempty_str (gp_server params) \<and> nonempty_str api_key
       then (config = None) = (err \<noteq> None)
       else config = None \<and> err = None))"
proof (cases "nonempty_str (gp_server params) \<and> nonempty_str api_key")
  case True
  then obtain key where key: "api_key = Some key" "key \<noteq> []" by (auto elim: nonempty_strE)
  obtain config err where f: "nm_airvpn_generator_fetch_sync J L C cancelled params api_key = (config, err)"
    by (meson surj_pair)
  from f conjunct1 [OF True] key have "(config = None) = (err \<noteq> None)" by (cases rule: fetch_cases) simp_all
  with f True show ?thesis by simp
qed (auto simp: nm_airvpn_generator_fetch_sync_def)

text \<open>
  A fetch returns a text only when it looks like an OpenVPN profile (it has a \<open>client\<close>
  directive, a CA and a key) and is not a JSON error body.
\<close>

theorem fetch_returns_profile:
  assumes "nm_airvpn_generator_fetch_sync J L C cancelled params api_key = (Some config, err)"
  shows "sublist ''client'' config \<and> sublist ''<ca>'' config \<and> sublist ''<key>'' config
     \<and> \<not> (has_prefix config ''{'' \<and> sublist ''\"error\"'' config)"
proof -
  from assms obtain body where b: "fst (validate_profile body)" "config = c_str body"
    by (rule fetch_SomeE)
  moreover have "has_prefix (c_str body) ''{'' \<Longrightarrow> body \<noteq> [] \<and> hd body = CHR ''{''"
    by (cases body) (auto simp: c_str_def has_prefix_def split: if_splits)
  ultimately show ?thesis
    by (auto simp: validate_profile_True check_json_error_True contains_iff)
qed

theorem fetch_returns_profile_witness:
  "sublist ''client'' ''client <ca> <key>''"
  using fetch_returns_profile [OF ref_fetch] by blast

text \<open>
  C14. The size limit of the transfer holds for the profile the fetch returns: under libcurl's
  documented callback protocol it is never longer than 4 MiB, although the check of the write
  callback is in wrapping 64-bit arithmetic.
\<close>

theorem fetch_size_bound:
  assumes "curl_doc C"
    and "nm_airvpn_generator_fetch_sync J L C cancelled params api_key = (Some config, err)"
  shows "length config \<le> 4 * 1024 * 1024"
proof -
  from assms(2) obtain body key where
    "http_get 2 C (build_generator_url params C) key = (Some body, None)" "config = c_str body"
    by (rule fetch_SomeE)
  with http_get_bound [OF assms(1)] c_str_length [of body] show ?thesis
    by (fastforce simp: MAX_RESPONSE_SIZE_def)
qed

theorem fetch_size_bound_witness: "length ''client <ca> <key>'' \<le> 4 * 1024 * 1024"
  by (rule fetch_size_bound [OF ref_curl_doc ref_fetch])

text \<open>
  With a device configured, a profile is returned only if the account's device list, as
  fetched and parsed, holds an item whose name equals the device up to ASCII case. So the
  generator's silent fall-back to the default device is never used.
\<close>

theorem fetch_device_exists:
  assumes "nm_airvpn_generator_fetch_sync J L C cancelled params api_key = (Some config, err)"
    and "gp_device params = Some device" and "device \<noteq> []"
  shows "\<exists>body parser root devices i name.
      http_get 0 C AIRVPN_DEVICES_URL (or_empty api_key) = (Some body, None)
    \<and> js_load_from_data J body = Inr parser \<and> js_root_object J parser = Some root
    \<and> js_array_member J root ''devices'' = Some devices \<and> i < js_array_length J devices
    \<and> js_string_member J (js_array_object J devices i) ''name'' = Some name
    \<and> g_strcaseeq L name device"
proof -
  from assms(1) obtain key where key: "api_key = Some key"
    and v: "fst (validate_device J L C params key)"
    by (rule fetch_SomeE)
  from v assms(2,3) http_get_contract [of 0 C AIRVPN_DEVICES_URL key]
  obtain body parser root devices where
    "http_get 0 C AIRVPN_DEVICES_URL key = (Some body, None)" "js_load_from_data J body = Inr parser"
    "js_root_object J parser = Some root" "js_array_member J root ''devices'' = Some devices"
    "device_listed J L devices device [0..<js_array_length J devices]"
    by (auto simp: validate_device_def Let_def split: if_splits option.splits sum.splits prod.splits bool.splits)
  with key show ?thesis by (auto simp: device_listed_iff)
qed

theorem fetch_device_exists_witness:
  "\<exists>body. http_get 0 ref_curl AIRVPN_DEVICES_URL ''key'' = (Some body, None)"
  using fetch_device_exists [OF ref_fetch, of "''laptop''"] by (auto simp: ref_params_def)

text \<open>
  The generator URL is well formed: with a protocol and port free of \<open>&\<close> and an escape
  function that removes it, the query string has exactly the fields the code means to send,
  whatever the server, device and custom directives are.
\<close>

theorem url_fields_exact:
  assumes "escape_doc C"
    and "CHR ''&'' \<notin> set (or_default (gp_protocol params) PROTOCOL_UDP)"
    and "CHR ''&'' \<notin> set (or_default (gp_port params) DEFAULT_PORT)"
  shows "split_on (CHR ''&'') (build_generator_url params C) = url_fields params C"
  using concat_split_none [OF amp_free_url_fields [OF assms]] by (simp add: split_url)

theorem url_fields_exact_witness:
  "split_on (CHR ''&'') (build_generator_url ref_params ref_curl) = url_fields ref_params ref_curl"
  by (rule url_fields_exact [OF ref_escape_doc])
    (simp_all add: ref_params_def or_default_def PROTOCOL_UDP_def DEFAULT_PORT_def)

text \<open>
  C15. The port is the hole in that: a port value that the validation accepts can add query
  fields of its own before the \<open>servers\<close> field, because the check ignores what follows the
  digits and the URL takes the value unescaped.
\<close>

theorem port_injects_url_fields:
  assumes "0 < n" and "n \<le> 65535" and "gp_port params = Some (dec_of_nat n @ CHR ''&'' # extra)"
    and "gp_protocol params = None"
  shows "check_port (gp_port params) = None
    \<and> (\<exists>pre post. split_on (CHR ''&'') (build_generator_url params C)
         = pre @ (''protocols=openvpn_3_udp_'' @ dec_of_nat n) # split_on (CHR ''&'') extra @ post
         \<and> length pre = 2)"
proof -
  from assms(2) have "int n \<le> LONG_MAX" by (simp add: LONG_MAX_def)
  from strtol10_junk [OF this, of "CHR ''&'' # extra"] assms(1-3)
  have ok: "check_port (gp_port params) = None"
    by (simp add: check_port_None_iff in_range_def is_digit_def)
  let ?p = "''protocols=openvpn_3_udp_'' @ dec_of_nat n"
  have "CHR ''&'' \<notin> set (dec_of_nat n)"
    using dec_of_nat_digits by (fastforce simp: is_digit_def)
  then have nf: "split_on (CHR ''&'') ?p = [?p]" by (intro split_on_none) simp
  have f: "''protocols=openvpn_3_'' @ or_default (gp_protocol params) PROTOCOL_UDP @ ''_''
      @ or_default (gp_port params) DEFAULT_PORT = ?p @ CHR ''&'' # extra"
    using assms(3,4) by (simp add: or_default_def PROTOCOL_UDP_def)
  have two: "concat (map (split_on (CHR ''&''))
      [AIRVPN_GENERATOR_URL @ ''?system=linux'', ''download=auto''])
      = [AIRVPN_GENERATOR_URL @ ''?system=linux'', ''download=auto'']"
    by (rule concat_split_none) (simp add: AIRVPN_GENERATOR_URL_def)
  obtain rest where r: "url_fields params C =
      [AIRVPN_GENERATOR_URL @ ''?system=linux'', ''download=auto''] @ (?p @ CHR ''&'' # extra) # rest"
    unfolding url_fields_def f by simp
  have mid: "concat (map (split_on (CHR ''&'')) ((?p @ CHR ''&'' # extra) # rest))
      = (?p # split_on (CHR ''&'') extra) @ concat (map (split_on (CHR ''&'')) rest)"
    unfolding list.map concat.simps split_on_append [of "CHR ''&''" ?p extra] nf by simp
  have "split_on (CHR ''&'') (build_generator_url params C) =
      [AIRVPN_GENERATOR_URL @ ''?system=linux'', ''download=auto'']
        @ (?p # split_on (CHR ''&'') extra) @ concat (map (split_on (CHR ''&'')) rest)"
    unfolding split_url r map_append concat_append two mid by (rule refl)
  with ok show ?thesis
    by (intro conjI exI [of _ "[AIRVPN_GENERATOR_URL @ ''?system=linux'', ''download=auto'']"]
        exI [of _ "concat (map (split_on (CHR ''&'')) rest)"]) auto
qed

theorem port_injects_url_fields_witness:
  "check_port (gp_port (ref_params\<lparr>gp_port := Some (dec_of_nat 443 @ CHR ''&'' # ''servers=nl'')\<rparr>)) = None"
  using port_injects_url_fields [of 443 "ref_params\<lparr>gp_port := Some (dec_of_nat 443 @ CHR ''&'' # ''servers=nl'')\<rparr>"
      "''servers=nl''" ref_curl]
  by (simp add: ref_params_def)

end
