(* ===== verification/NM_Libs.thy ===== *)
theory NM_Libs
  imports NM_Prelude "HOL-Library.Signed_Division"
begin

unbundle bit_operations_syntax

text \<open>
  The parts of GLib and of the operating system that have an effect or keep state: the file
  system as the daemon sees it, and \<open>GKeyFile\<close>. They are fields of records that extend
  \<open>glib\<close>, so that a function of the model takes one library argument. The predicates
  \<open>fs_doc\<close>, \<open>build_doc\<close> and \<open>keyfile_doc\<close> state the documented behaviour that theorems rely
  on. \<open>ref_lib\<close> is a concrete instance that satisfies all of them; it is used in witnesses
  only.
\<close>

section \<open>Files\<close>

type_synonym path = string
type_synonym mode = "32 word"

record stored_file =
  f_text :: string
  f_mode :: mode

record fsys =
  fs_files :: "path \<rightharpoonup> stored_file"
  fs_umask :: mode

text \<open>The octal modes of the sources.\<close>

abbreviation o0777 :: mode where "o0777 \<equiv> 511"
abbreviation o0700 :: mode where "o0700 \<equiv> 448"
abbreviation o0666 :: mode where "o0666 \<equiv> 438"
abbreviation o0600 :: mode where "o0600 \<equiv> 384"
abbreviation o0077 :: mode where "o0077 \<equiv> 63"

text \<open>The system call \<open>umask\<close>: sets the mask and returns the old one.\<close>

definition set_umask :: "mode \<Rightarrow> fsys \<Rightarrow> mode \<times> fsys" where
  "set_umask m s = (fs_umask s, s\<lparr>fs_umask := m AND o0777\<rparr>)"

record fslib = glib +
  g_strerror :: "errno \<Rightarrow> string"
  g_file_error_from_errno :: "errno \<Rightarrow> err_code"
  g_mkdir_with_parents :: "path \<Rightarrow> mode \<Rightarrow> fsys \<Rightarrow> errno option \<times> fsys"
  g_file_set_contents :: "path \<Rightarrow> string \<Rightarrow> fsys \<Rightarrow> gerror option \<times> fsys"
  g_file_get_contents :: "path \<Rightarrow> fsys \<Rightarrow> gerror + string"
  g_file_is_regular :: "path \<Rightarrow> fsys \<Rightarrow> bool"
  g_unlink :: "path \<Rightarrow> fsys \<Rightarrow> fsys"

text \<open>
  Documented behaviour: \<open>g_file_set_contents\<close> replaces the file atomically with mode 0666
  less the umask, or leaves it alone; directories do not disturb files; a regular file that
  exists can be read (the daemon runs as root).
\<close>

definition fs_doc :: "'a fslib_scheme \<Rightarrow> bool" where
  "fs_doc L \<longleftrightarrow>
     (\<forall>p m s. fs_files (snd (g_mkdir_with_parents L p m s)) = fs_files s
            \<and> fs_umask (snd (g_mkdir_with_parents L p m s)) = fs_umask s)
   \<and> (\<forall>p t s. snd (g_file_set_contents L p t s) =
         (if fst (g_file_set_contents L p t s) = None
          then s\<lparr>fs_files := (fs_files s)(p \<mapsto> \<lparr>f_text = t, f_mode = o0666 AND NOT (fs_umask s)\<rparr>)\<rparr>
          else s))
   \<and> (\<forall>p s f. fs_files s p = Some f \<longrightarrow> g_file_get_contents L p s = Inr (f_text f))
   \<and> (\<forall>p s. g_file_is_regular L p s \<longleftrightarrow> fs_files s p \<noteq> None)
   \<and> (\<forall>p s. g_unlink L p s = s\<lparr>fs_files := (fs_files s)(p := None)\<rparr>)"

section \<open>Splitting and stripping strings\<close>

text \<open>
  \<open>g_strsplit\<close> with a one-character delimiter and no limit, and \<open>g_strsplit_set\<close>: the empty
  string gives the empty vector, adjacent delimiters give empty tokens. \<open>g_strstrip\<close> removes
  white space in the sense of \<open>g_ascii_isspace\<close> from both ends.
\<close>

fun split_by :: "(char \<Rightarrow> bool) \<Rightarrow> string \<Rightarrow> string list" where
  "split_by P [] = [[]]"
| "split_by P (x # xs) =
     (if P x then [] # split_by P xs
      else case split_by P xs of [] \<Rightarrow> [[x]] | w # ws \<Rightarrow> (x # w) # ws)"

definition ascii_space :: "char \<Rightarrow> bool" where
  "ascii_space c = (c = CHR '' '' \<or> c = CHR 0x09 \<or> c = CHR 0x0A \<or> c = CHR 0x0C \<or> c = CHR 0x0D)"

definition split_doc :: "'a glib_scheme \<Rightarrow> bool" where
  "split_doc L \<longleftrightarrow>
     (\<forall>s c. g_strsplit L s [c] = (if s = [] then [] else split_by (\<lambda>x. x = c) s))
   \<and> (\<forall>s d. g_strsplit_set L s d = (if s = [] then [] else split_by (\<lambda>x. x \<in> set d) s))
   \<and> (\<forall>s. g_strstrip L s = rev (dropWhile ascii_space (rev (dropWhile ascii_space s))))"

lemma split_by_nonempty [simp]: "split_by P s \<noteq> []"
  by (induction s) (auto split: list.splits)

lemma split_by_none: "\<forall>x \<in> set s. \<not> P x \<Longrightarrow> split_by P s = [s]"
  by (induction s) auto

lemma split_by_append: "P c \<Longrightarrow> split_by P (a @ c # b) = split_by P a @ split_by P b"
proof (induction a)
  case (Cons x a)
  then show ?case
    by (cases "P x"; cases "split_by P a") auto
qed simp

lemma split_by_tokens: "\<forall>w \<in> set (split_by P s). \<forall>x \<in> set w. \<not> P x"
proof (induction s)
  case (Cons a s)
  then show ?case by (cases "P a"; cases "split_by P s") simp_all
qed simp

lemma length_split_by: "length (split_by P s) = Suc (length (filter P s))"
  by (induction s) (auto split: list.splits simp: length_Suc_conv)

lemma split_docD:
  assumes "split_doc L"
  shows strsplit_eq: "g_strsplit L s [c] = (if s = [] then [] else split_by (\<lambda>x. x = c) s)"
    and strsplit_set_eq: "g_strsplit_set L s d = (if s = [] then [] else split_by (\<lambda>x. x \<in> set d) s)"
    and strstrip_eq: "g_strstrip L s = rev (dropWhile ascii_space (rev (dropWhile ascii_space s)))"
  using assms unfolding split_doc_def by blast+

lemma strip_idem:
  assumes "split_doc L"
  shows "g_strstrip L (g_strstrip L s) = g_strstrip L s"
proof -
  have dw: "dropWhile P (rev (dropWhile P (rev t))) = rev (dropWhile P (rev t))"
    if "t = [] \<or> \<not> P (hd t)" for P and t :: string
  proof (cases "dropWhile P (rev t) = []")
    case False
    then have "hd (rev (dropWhile P (rev t))) = hd t"
      by (metis append_is_Nil_conv hd_append2 hd_rev last_appendR last_rev rev_rev_ident
          takeWhile_dropWhile_id)
    with that False show ?thesis by (cases "rev (dropWhile P (rev t))") auto
  next
    case True
    show ?thesis unfolding True by simp
  qed
  have "dropWhile ascii_space s = [] \<or> \<not> ascii_space (hd (dropWhile ascii_space s))"
    by (metis hd_dropWhile)
  from dw [of "dropWhile ascii_space s" ascii_space, OF this] show ?thesis by (simp add: strstrip_eq [OF assms])
qed

lemma strip_id:
  assumes "split_doc L" "s = [] \<or> (\<not> ascii_space (hd s) \<and> \<not> ascii_space (last s))"
  shows "g_strstrip L s = s"
proof (cases "s = []")
  case False
  with assms(2) have "dropWhile ascii_space s = s" by (cases s) auto
  moreover from False assms(2) have "dropWhile ascii_space (rev s) = rev s"
    by (cases "rev s") (auto simp: hd_rev [symmetric])
  ultimately show ?thesis by (simp add: strstrip_eq [OF assms(1)])
qed (simp add: strstrip_eq [OF assms(1)])

section \<open>File names\<close>

fun join_path :: "string list \<Rightarrow> string" where
  "join_path [] = []"
| "join_path [x] = x"
| "join_path (x # xs) = x @ CHR ''/'' # join_path xs"

text \<open>A name that \<open>g_build_filename\<close> joins without removing separators.\<close>

definition plain_dir :: "string \<Rightarrow> bool" where
  "plain_dir d \<longleftrightarrow> d \<noteq> [] \<and> last d \<noteq> CHR ''/''"

definition plain_name :: "string \<Rightarrow> bool" where
  "plain_name n \<longleftrightarrow> n \<noteq> [] \<and> CHR ''/'' \<notin> set n"

definition build_doc :: "'a glib_scheme \<Rightarrow> bool" where
  "build_doc L \<longleftrightarrow>
     (\<forall>d ns. plain_dir d \<and> (\<forall>n \<in> set ns. plain_name n) \<longrightarrow>
        g_build_filename L (d # ns) = join_path (d # ns))"

section \<open>Key files\<close>

record 'k kflib = fslib +
  kf_new :: 'k
  kf_load_from_file :: "path \<Rightarrow> fsys \<Rightarrow> 'k option"
  kf_to_data :: "'k \<Rightarrow> string"
  kf_get_string :: "'k \<Rightarrow> string \<Rightarrow> string \<Rightarrow> string option"
  kf_get_boolean :: "'k \<Rightarrow> string \<Rightarrow> string \<Rightarrow> bool"
  kf_get_int64 :: "'k \<Rightarrow> string \<Rightarrow> string \<Rightarrow> int"
  kf_set_string :: "'k \<Rightarrow> string \<Rightarrow> string \<Rightarrow> string \<Rightarrow> 'k"
  kf_set_boolean :: "'k \<Rightarrow> string \<Rightarrow> string \<Rightarrow> bool \<Rightarrow> 'k"
  kf_set_int64 :: "'k \<Rightarrow> string \<Rightarrow> string \<Rightarrow> int \<Rightarrow> 'k"

text \<open>
  Documented behaviour: a key file written out and loaded again is the same key file, loading
  depends on the named file only, a value set is the value read, other keys keep theirs.
\<close>

definition kf_load_doc :: "('k, 'a) kflib_scheme \<Rightarrow> bool" where
  "kf_load_doc L \<longleftrightarrow>
     (\<forall>p s f k. fs_files s p = Some f \<and> f_text f = kf_to_data L k \<longrightarrow> kf_load_from_file L p s = Some k)
   \<and> (\<forall>p s s'. fs_files s p = fs_files s' p \<longrightarrow> kf_load_from_file L p s = kf_load_from_file L p s')"

definition kf_value_doc :: "('k, 'a) kflib_scheme \<Rightarrow> bool" where
  "kf_value_doc L \<longleftrightarrow>
     (\<forall>k g n v. kf_get_string L (kf_set_string L k g n v) g n = Some v)
   \<and> (\<forall>k g n v. kf_get_boolean L (kf_set_boolean L k g n v) g n = v)
   \<and> (\<forall>k g n v. kf_get_int64 L (kf_set_int64 L k g n v) g n = v)
   \<and> (\<forall>k g n m v. n \<noteq> m \<longrightarrow>
        kf_get_string L (kf_set_string L k g m v) g n = kf_get_string L k g n
      \<and> kf_get_boolean L (kf_set_string L k g m v) g n = kf_get_boolean L k g n
      \<and> kf_get_int64 L (kf_set_string L k g m v) g n = kf_get_int64 L k g n)
   \<and> (\<forall>k g n m v. n \<noteq> m \<longrightarrow>
        kf_get_string L (kf_set_boolean L k g m v) g n = kf_get_string L k g n
      \<and> kf_get_boolean L (kf_set_boolean L k g m v) g n = kf_get_boolean L k g n
      \<and> kf_get_int64 L (kf_set_boolean L k g m v) g n = kf_get_int64 L k g n)
   \<and> (\<forall>k g n m v. n \<noteq> m \<longrightarrow>
        kf_get_string L (kf_set_int64 L k g m v) g n = kf_get_string L k g n
      \<and> kf_get_boolean L (kf_set_int64 L k g m v) g n = kf_get_boolean L k g n
      \<and> kf_get_int64 L (kf_set_int64 L k g m v) g n = kf_get_int64 L k g n)"

definition keyfile_doc :: "('k, 'a) kflib_scheme \<Rightarrow> bool" where
  "keyfile_doc L \<longleftrightarrow> kf_load_doc L \<and> kf_value_doc L"

section \<open>Consequences of the documented behaviour\<close>

lemma fs_docD:
  assumes "fs_doc L"
  shows mkdir_files: "fs_files (snd (g_mkdir_with_parents L p m s)) = fs_files s"
    and mkdir_umask: "fs_umask (snd (g_mkdir_with_parents L p m s)) = fs_umask s"
    and set_contents_state: "snd (g_file_set_contents L p t s) =
      (if fst (g_file_set_contents L p t s) = None
       then s\<lparr>fs_files := (fs_files s)(p \<mapsto> \<lparr>f_text = t, f_mode = o0666 AND NOT (fs_umask s)\<rparr>)\<rparr>
       else s)"
    and get_contents: "fs_files s p = Some f \<Longrightarrow> g_file_get_contents L p s = Inr (f_text f)"
    and is_regular_iff: "g_file_is_regular L p s \<longleftrightarrow> fs_files s p \<noteq> None"
    and unlink_state: "g_unlink L p s = s\<lparr>fs_files := (fs_files s)(p := None)\<rparr>"
  using assms unfolding fs_doc_def by blast+

lemma kf_load_docD:
  assumes "keyfile_doc L"
  shows kf_load_data: "fs_files s p = Some f \<Longrightarrow> f_text f = kf_to_data L k \<Longrightarrow> kf_load_from_file L p s = Some k"
    and kf_load_local: "fs_files s p = fs_files s' p \<Longrightarrow> kf_load_from_file L p s = kf_load_from_file L p s'"
  using assms unfolding keyfile_doc_def kf_load_doc_def by blast+

lemma kf_value_docD:
  assumes "keyfile_doc L"
  shows kf_get_set:
      "kf_get_string L (kf_set_string L k g n v) g n = Some v"
      "kf_get_boolean L (kf_set_boolean L k g n b) g n = b"
      "kf_get_int64 L (kf_set_int64 L k g n i) g n = i"
    and kf_get_set_other:
      "n \<noteq> m \<Longrightarrow> kf_get_string L (kf_set_string L k g m v) g n = kf_get_string L k g n"
      "n \<noteq> m \<Longrightarrow> kf_get_boolean L (kf_set_string L k g m v) g n = kf_get_boolean L k g n"
      "n \<noteq> m \<Longrightarrow> kf_get_int64 L (kf_set_string L k g m v) g n = kf_get_int64 L k g n"
      "n \<noteq> m \<Longrightarrow> kf_get_string L (kf_set_boolean L k g m b) g n = kf_get_string L k g n"
      "n \<noteq> m \<Longrightarrow> kf_get_boolean L (kf_set_boolean L k g m b) g n = kf_get_boolean L k g n"
      "n \<noteq> m \<Longrightarrow> kf_get_int64 L (kf_set_boolean L k g m b) g n = kf_get_int64 L k g n"
      "n \<noteq> m \<Longrightarrow> kf_get_string L (kf_set_int64 L k g m i) g n = kf_get_string L k g n"
      "n \<noteq> m \<Longrightarrow> kf_get_boolean L (kf_set_int64 L k g m i) g n = kf_get_boolean L k g n"
      "n \<noteq> m \<Longrightarrow> kf_get_int64 L (kf_set_int64 L k g m i) g n = kf_get_int64 L k g n"
  using assms by (simp_all add: keyfile_doc_def kf_value_doc_def)

lemma build_docD:
  "build_doc L \<Longrightarrow> plain_dir d \<Longrightarrow> \<forall>n \<in> set ns. plain_name n \<Longrightarrow>
   g_build_filename L (d # ns) = join_path (d # ns)"
  unfolding build_doc_def by blast

lemma plain_name_no_slash: "plain_name n \<Longrightarrow> CHR ''/'' \<notin> set n"
  by (simp add: plain_name_def)

text \<open>Paths of two names below a directory are equal only when the names are.\<close>

lemma slash_split_unique:
  assumes "a @ CHR ''/'' # b = c @ CHR ''/'' # d"
    and "CHR ''/'' \<notin> set a" and "CHR ''/'' \<notin> set c"
  shows "a = c \<and> b = d"
  using assms
proof (induction a arbitrary: c)
  case Nil
  then show ?case by (cases c) auto
next
  case (Cons x a)
  then show ?case by (cases c) auto
qed

lemma join_path_inject:
  assumes "plain_name u" "plain_name v" "plain_name f" "plain_name g"
  shows "join_path [d, u, f] = join_path [d, v, g] \<longleftrightarrow> u = v \<and> f = g"
  using assms slash_split_unique [of u f v g] by (auto simp: plain_name_def)

section \<open>A reference instance, for witnesses\<close>

definition ref_isspace :: "char \<Rightarrow> bool" where
  "ref_isspace c = (c = CHR '' '' \<or> c = CHR 0x09 \<or> c = CHR 0x0A \<or> c = CHR 0x0C \<or> c = CHR 0x0D)"

definition ref_lower :: "char \<Rightarrow> char" where
  "ref_lower c = (let n = of_char c :: nat in if 65 \<le> n \<and> n \<le> 90 then char_of (n + 32) else c)"

fun ref_split :: "(char \<Rightarrow> bool) \<Rightarrow> string \<Rightarrow> string \<Rightarrow> string list" where
  "ref_split P [] acc = [rev acc]"
| "ref_split P (c # cs) acc = (if P c then rev acc # ref_split P cs [] else ref_split P cs (c # acc))"

definition ref_strip :: "string \<Rightarrow> string" where
  "ref_strip s = rev (dropWhile ref_isspace (rev (dropWhile ref_isspace s)))"

text \<open>A text code for lists of strings that can be read back: \<open>a\<close> before each character,
  \<open>z\<close> after each string.\<close>

fun enc_tokens :: "string list \<Rightarrow> string" where
  "enc_tokens [] = []"
| "enc_tokens (t # ts) = concat (map (\<lambda>c. [CHR ''a'', c]) t) @ CHR ''z'' # enc_tokens ts"

fun dec_tokens :: "string \<Rightarrow> string \<Rightarrow> string list" where
  "dec_tokens (m # c # r) acc =
     (if m = CHR ''a'' then dec_tokens r (acc @ [c]) else acc # dec_tokens (c # r) [])"
| "dec_tokens [m] acc = [acc]"
| "dec_tokens [] acc = []"

fun flat_entries :: "((string \<times> string) \<times> string) list \<Rightarrow> string list" where
  "flat_entries [] = []"
| "flat_entries (((g, n), v) # es) = g # n # v # flat_entries es"

fun unflat_entries :: "string list \<Rightarrow> ((string \<times> string) \<times> string) list" where
  "unflat_entries (g # n # v # r) = ((g, n), v) # unflat_entries r"
| "unflat_entries _ = []"

type_synonym ref_kf = "((string \<times> string) \<times> string) list"

definition ref_kf_data :: "ref_kf \<Rightarrow> string" where
  "ref_kf_data k = enc_tokens (flat_entries k)"

definition ref_kf_parse :: "string \<Rightarrow> ref_kf" where
  "ref_kf_parse t = unflat_entries (dec_tokens t [])"

definition ref_int_of :: "string \<Rightarrow> int" where
  "ref_int_of v = (case v of [] \<Rightarrow> 0
     | c # cs \<Rightarrow> if c = CHR ''-'' then - int (nat_of_digits cs 0) else int (nat_of_digits v 0))"

definition ref_lib :: "ref_kf kflib" where
  "ref_lib = \<lparr>
     g_isspace = ref_isspace,
     g_strtoll = (\<lambda>s b. strtol10 s),
     g_strcaseeq = (\<lambda>a b. map ref_lower a = map ref_lower b),
     g_strsplit = (\<lambda>s d. if s = [] then [] else ref_split (\<lambda>c. [c] = d) s []),
     g_strsplit_set = (\<lambda>s d. if s = [] then [] else ref_split (\<lambda>c. c \<in> set d) s []),
     g_strstrip = ref_strip,
     g_strchomp = (\<lambda>s. rev (dropWhile ref_isspace (rev s))),
     g_build_filename = join_path,
     g_sha256 = (\<lambda>s. s),
     g_strerror = (\<lambda>_. ''error''),
     g_file_error_from_errno = (\<lambda>_. E_FAILED),
     g_mkdir_with_parents = (\<lambda>p m s. (None, s)),
     g_file_set_contents = (\<lambda>p t s. (None,
        s\<lparr>fs_files := (fs_files s)(p \<mapsto> \<lparr>f_text = t, f_mode = o0666 AND NOT (fs_umask s)\<rparr>)\<rparr>)),
     g_file_get_contents = (\<lambda>p s. case fs_files s p of
        None \<Rightarrow> Inl (GError G_FILE_ERROR E_NOENT ''no such file'') | Some f \<Rightarrow> Inr (f_text f)),
     g_file_is_regular = (\<lambda>p s. fs_files s p \<noteq> None),
     g_unlink = (\<lambda>p s. s\<lparr>fs_files := (fs_files s)(p := None)\<rparr>),
     kf_new = [],
     kf_load_from_file = (\<lambda>p s. map_option (\<lambda>f. ref_kf_parse (f_text f)) (fs_files s p)),
     kf_to_data = ref_kf_data,
     kf_get_string = (\<lambda>k g n. map_of k (g, n)),
     kf_get_boolean = (\<lambda>k g n. map_of k (g, n) = Some ''true''),
     kf_get_int64 = (\<lambda>k g n. case map_of k (g, n) of None \<Rightarrow> 0 | Some v \<Rightarrow> ref_int_of v),
     kf_set_string = (\<lambda>k g n v. ((g, n), v) # k),
     kf_set_boolean = (\<lambda>k g n v. ((g, n), if v then ''true'' else ''false'') # k),
     kf_set_int64 = (\<lambda>k g n v. ((g, n), dec_of_int v) # k)\<rparr>"

lemma dec_tokens_enc:
  "dec_tokens (concat (map (\<lambda>c. [CHR ''a'', c]) t) @ CHR ''z'' # enc_tokens ts) acc
     = (acc @ t) # dec_tokens (enc_tokens ts) []"
proof (induction t arbitrary: acc)
  case Nil
  show ?case by (cases "enc_tokens ts") auto
qed simp

lemma dec_enc_tokens: "dec_tokens (enc_tokens ts) [] = ts"
  by (induction ts) (simp_all add: dec_tokens_enc)

lemma unflat_flat: "unflat_entries (flat_entries k) = k"
  by (induction k rule: flat_entries.induct) auto

lemma ref_kf_parse_data [simp]: "ref_kf_parse (ref_kf_data k) = k"
  by (simp add: ref_kf_parse_def ref_kf_data_def dec_enc_tokens unflat_flat)

lemma ref_int_of_dec [simp]: "ref_int_of (dec_of_int i) = i"
proof (cases "i < 0")
  case True
  then show ?thesis by (simp add: ref_int_of_def dec_of_int_def nat_of_digits_dec_of_nat)
next
  case False
  obtain c cs where c: "dec_of_nat (nat i) = c # cs" "is_digit c" using dec_of_nat_hd by blast
  then have "c \<noteq> CHR ''-''" by (auto dest: is_digit_not_sign)
  with False c(1) nat_of_digits_dec_of_nat [of "nat i"] show ?thesis
    by (simp add: ref_int_of_def dec_of_int_def)
qed

lemma ref_fs_doc: "fs_doc ref_lib"
  by (simp add: fs_doc_def ref_lib_def)

lemma ref_keyfile_doc: "keyfile_doc ref_lib"
  by (simp add: keyfile_doc_def kf_load_doc_def kf_value_doc_def ref_lib_def)

lemma ref_build_doc: "build_doc ref_lib"
  by (simp add: build_doc_def ref_lib_def)

lemma ref_split_eq:
  "ref_split P s acc = (case split_by P s of [] \<Rightarrow> [] | w # ws \<Rightarrow> (rev acc @ w) # ws)"
  by (induction s arbitrary: acc) (auto split: list.splits)

lemma ref_split_doc: "split_doc ref_lib"
proof -
  have "ref_split P s [] = split_by P s" for P s
    by (simp add: ref_split_eq split: list.splits)
  moreover have "ref_isspace = ascii_space"
    by (rule ext) (simp add: ref_isspace_def ascii_space_def)
  ultimately show ?thesis by (simp add: split_doc_def ref_lib_def ref_strip_def)
qed

end
