(* ===== verification/Airvpn_Cache.thy ===== *)
theory Airvpn_Cache
  imports Airvpn_Api NM_Libs
begin

text \<open>
  The on-disk cache of generated profiles, \<open>src/nm-airvpn-cache.c\<close>: one directory per
  connection UUID with \<open>config.ovpn\<close> and a key file \<open>meta.ini\<close> that records the hash of the
  parameters, the time of the fetch and a stale flag. The file system is the state.
  The locale \<open>profile_cache\<close> is what the service daemon relies on; it is interpreted on the
  model of the code at the end of the theory.
\<close>

section \<open>Operations\<close>

definition CONFIG_FILE_NAME :: string where "CONFIG_FILE_NAME = ''config.ovpn''"
definition META_FILE_NAME :: string where "META_FILE_NAME = ''meta.ini''"
definition META_GROUP :: string where "META_GROUP = ''airvpn-cache''"
definition META_KEY_HASH :: string where "META_KEY_HASH = ''params-hash''"
definition META_KEY_FETCHED :: string where "META_KEY_FETCHED = ''fetched''"
definition META_KEY_STALE :: string where "META_KEY_STALE = ''stale''"
definition CACHE_MAX_AGE_SECONDS :: int where "CACHE_MAX_AGE_SECONDS = 90 * 24 * 3600"
definition G_USEC_PER_SEC :: int where "G_USEC_PER_SEC = 1000000"

lemmas meta_key_defs = META_GROUP_def META_KEY_HASH_def META_KEY_FETCHED_def META_KEY_STALE_def

definition cache_dir :: "'g glib_scheme \<Rightarrow> path \<Rightarrow> string \<Rightarrow> path" where
  "cache_dir L statedir uuid = g_build_filename L [statedir, uuid]"

definition nm_airvpn_cache_get_config_path :: "'g glib_scheme \<Rightarrow> path \<Rightarrow> string \<Rightarrow> path" where
  "nm_airvpn_cache_get_config_path L statedir uuid =
     g_build_filename L [statedir, uuid, CONFIG_FILE_NAME]"

definition meta_path :: "'g glib_scheme \<Rightarrow> path \<Rightarrow> string \<Rightarrow> path" where
  "meta_path L statedir uuid = g_build_filename L [cache_dir L statedir uuid, META_FILE_NAME]"

definition joined_params :: "gen_params \<Rightarrow> string" where
  "joined_params params =
     or_empty (gp_server params) @ ''|'' @ or_empty (gp_device params) @ ''|''
     @ or_empty (gp_protocol params) @ ''|'' @ or_empty (gp_port params) @ ''|''
     @ or_empty (gp_custom_directives params)"

definition params_hash :: "'g glib_scheme \<Rightarrow> gen_params \<Rightarrow> string" where
  "params_hash L params = g_sha256 L (joined_params params)"

definition load_meta :: "('k, 'g) kflib_scheme \<Rightarrow> path \<Rightarrow> string \<Rightarrow> fsys \<Rightarrow> 'k option" where
  "load_meta L statedir uuid s = kf_load_from_file L (meta_path L statedir uuid) s"

text \<open>\<open>real_time\<close> is \<open>g_get_real_time ()\<close>, in microseconds; C division truncates.\<close>

definition check_cache ::
  "('k, 'g) kflib_scheme \<Rightarrow> int \<Rightarrow> path \<Rightarrow> string \<Rightarrow> gen_params \<Rightarrow> bool \<Rightarrow> fsys \<Rightarrow> bool" where
  "check_cache L real_time statedir uuid params accept_stale s =
     (if \<not> g_file_is_regular L (nm_airvpn_cache_get_config_path L statedir uuid) s then False
      else case load_meta L statedir uuid s of
        None \<Rightarrow> False
      | Some meta \<Rightarrow>
          (let stored_hash = kf_get_string L meta META_GROUP META_KEY_HASH;
               hash = params_hash L params
           in if stored_hash = None \<or> stored_hash \<noteq> Some hash then False
              else if accept_stale then True
              else if kf_get_boolean L meta META_GROUP META_KEY_STALE then False
              else
                (let fetched = kf_get_int64 L meta META_GROUP META_KEY_FETCHED
                 in if fetched \<le> 0 \<or> real_time sdiv G_USEC_PER_SEC - fetched > CACHE_MAX_AGE_SECONDS
                    then False else True)))"

definition nm_airvpn_cache_is_valid ::
  "('k, 'g) kflib_scheme \<Rightarrow> int \<Rightarrow> path \<Rightarrow> string \<Rightarrow> gen_params \<Rightarrow> fsys \<Rightarrow> bool" where
  "nm_airvpn_cache_is_valid L real_time statedir uuid params s =
     check_cache L real_time statedir uuid params False s"

definition nm_airvpn_cache_exists ::
  "('k, 'g) kflib_scheme \<Rightarrow> int \<Rightarrow> path \<Rightarrow> string \<Rightarrow> gen_params \<Rightarrow> fsys \<Rightarrow> bool" where
  "nm_airvpn_cache_exists L real_time statedir uuid params s =
     check_cache L real_time statedir uuid params True s"

definition write_file_0600 ::
  "'g fslib_scheme \<Rightarrow> path \<Rightarrow> string \<Rightarrow> fsys \<Rightarrow> gerror option \<times> fsys" where
  "write_file_0600 L path contents s =
     (let (old_umask, s1) = set_umask o0077 s;
          (err, s2) = g_file_set_contents L path contents s1;
          (_, s3) = set_umask old_umask s2
      in (err, s3))"

text \<open>The first component is \<open>None\<close> for the \<open>TRUE\<close> return.\<close>

definition nm_airvpn_cache_store ::
  "('k, 'g) kflib_scheme \<Rightarrow> int \<Rightarrow> path \<Rightarrow> string \<Rightarrow> gen_params \<Rightarrow> string \<Rightarrow> fsys
     \<Rightarrow> gerror option \<times> fsys" where
  "nm_airvpn_cache_store L real_time statedir uuid params config s =
     (let dir = cache_dir L statedir uuid
      in case g_mkdir_with_parents L dir o0700 s of
           (Some e, s1) \<Rightarrow>
             (Some (GError G_FILE_ERROR (g_file_error_from_errno L e)
                (''Could not create cache directory '' @ lquo @ dir @ rquo @ '': '' @ g_strerror L e)), s1)
         | (None, s1) \<Rightarrow>
             (case write_file_0600 L (nm_airvpn_cache_get_config_path L statedir uuid) config s1 of
                (Some e, s2) \<Rightarrow> (Some e, s2)
              | (None, s2) \<Rightarrow>
                  (let hash = params_hash L params;
                       meta = kf_set_string L (kf_new L) META_GROUP META_KEY_HASH hash;
                       meta = kf_set_int64 L meta META_GROUP META_KEY_FETCHED
                                (real_time sdiv G_USEC_PER_SEC);
                       meta = kf_set_boolean L meta META_GROUP META_KEY_STALE False
                   in write_file_0600 L (meta_path L statedir uuid) (kf_to_data L meta) s2)))"

definition nm_airvpn_cache_mark_stale ::
  "('k, 'g) kflib_scheme \<Rightarrow> path \<Rightarrow> string \<Rightarrow> fsys \<Rightarrow> gerror option \<times> fsys" where
  "nm_airvpn_cache_mark_stale L statedir uuid s =
     (case load_meta L statedir uuid s of
        None \<Rightarrow> (None, s)
      | Some meta \<Rightarrow>
          (let meta = kf_set_boolean L meta META_GROUP META_KEY_STALE True
           in write_file_0600 L (meta_path L statedir uuid) (kf_to_data L meta) s))"

section \<open>The interface the daemon relies on\<close>

text \<open>
  \<open>store\<close> and \<open>mark\<close> return the state and whether they succeeded. Entries are named by UUIDs
  \<open>'u\<close>; \<open>inv\<close> is what every state has to satisfy.
\<close>

locale profile_cache =
  fixes inv :: "'s \<Rightarrow> bool"
    and okid :: "'u \<Rightarrow> bool"
    and store :: "int \<Rightarrow> 'u \<Rightarrow> 'p \<Rightarrow> string \<Rightarrow> 's \<Rightarrow> bool \<times> 's"
    and mark :: "'u \<Rightarrow> 's \<Rightarrow> bool \<times> 's"
    and valid :: "int \<Rightarrow> 'u \<Rightarrow> 'p \<Rightarrow> 's \<Rightarrow> bool"
    and present :: "'u \<Rightarrow> 'p \<Rightarrow> 's \<Rightarrow> bool"
    and lifetime :: "int \<Rightarrow> int \<Rightarrow> bool"
  assumes inv_store: "inv s \<Longrightarrow> inv (snd (store t u p c s))"
    and inv_mark: "inv s \<Longrightarrow> inv (snd (mark u s))"
    and valid_present: "inv s \<Longrightarrow> valid t u p s \<Longrightarrow> present u p s"
    and store_present: "inv s \<Longrightarrow> okid u \<Longrightarrow> store t u p c s = (True, s') \<Longrightarrow> present u p s'"
    and store_valid: "inv s \<Longrightarrow> okid u \<Longrightarrow> store t u p c s = (True, s') \<Longrightarrow>
      valid t' u p s' \<longleftrightarrow> lifetime t t'"
    and store_other: "inv s \<Longrightarrow> okid u \<Longrightarrow> okid v \<Longrightarrow> u \<noteq> v \<Longrightarrow>
      valid t' v q (snd (store t u p c s)) = valid t' v q s"
    and mark_invalid: "inv s \<Longrightarrow> okid u \<Longrightarrow> mark u s = (True, s') \<Longrightarrow> \<not> valid t u p s'"
    and mark_present: "inv s \<Longrightarrow> okid u \<Longrightarrow> present u p (snd (mark u s)) = present u p s"
    and mark_keeps_invalid: "inv s \<Longrightarrow> okid u \<Longrightarrow> \<not> valid t u p s \<Longrightarrow> \<not> valid t u p (snd (mark u s))"
    and mark_other: "inv s \<Longrightarrow> okid u \<Longrightarrow> okid v \<Longrightarrow> u \<noteq> v \<Longrightarrow>
      valid t v q (snd (mark u s)) = valid t v q s"
begin

text \<open>A history of cache operations; \<open>Inl\<close> stores, \<open>Inr\<close> marks.\<close>

fun run_ops :: "(int \<times> 'u \<times> 'p \<times> string + 'u) list \<Rightarrow> 's \<Rightarrow> 's" where
  "run_ops [] s = s"
| "run_ops (Inl (t, u, p, c) # ops) s = run_ops ops (snd (store t u p c s))"
| "run_ops (Inr u # ops) s = run_ops ops (snd (mark u s))"

lemma run_ops_inv: "inv s \<Longrightarrow> inv (run_ops ops s)"
  by (induction ops s rule: run_ops.induct) (auto intro: inv_store inv_mark)

text \<open>Without a new store for it, an invalid entry stays invalid.\<close>

lemma run_ops_keeps_invalid:
  assumes "inv s" "okid u" "\<not> valid t u p s"
    and "\<forall>op \<in> set ops. case op of Inl (_, v, _, _) \<Rightarrow> okid v \<and> v \<noteq> u | Inr v \<Rightarrow> okid v"
  shows "\<not> valid t u p (run_ops ops s)"
  using assms
proof (induction ops s rule: run_ops.induct)
  case (2 t v q c ops s)
  then show ?case by (auto simp: inv_store store_other)
next
  case (3 v ops s)
  then show ?case by (cases "v = u") (auto simp: inv_mark mark_other mark_keeps_invalid)
qed simp

lemma stale_until_stored:
  assumes "inv s" "okid u" "mark u s = (True, s')"
    and "\<forall>op \<in> set ops. case op of Inl (_, v, _, _) \<Rightarrow> okid v \<and> v \<noteq> u | Inr v \<Rightarrow> okid v"
  shows "\<not> valid t u p (run_ops ops s')"
  using run_ops_keeps_invalid [OF _ assms(2) _ assms(4)] mark_invalid [OF assms(1-3)]
    inv_mark [OF assms(1), of u] assms(3) by simp

end

section \<open>Lemmas on the model\<close>

definition cache_doc :: "('k, 'g) kflib_scheme \<Rightarrow> bool" where
  "cache_doc L \<longleftrightarrow> fs_doc L \<and> keyfile_doc L \<and> build_doc L"

lemma cache_docD: "cache_doc L \<Longrightarrow> fs_doc L" "cache_doc L \<Longrightarrow> keyfile_doc L" "cache_doc L \<Longrightarrow> build_doc L"
  by (simp_all add: cache_doc_def)

text \<open>The mask is a permission mask in every state the daemon can be in.\<close>

definition umask_ok :: "fsys \<Rightarrow> bool" where
  "umask_ok s \<longleftrightarrow> fs_umask s AND o0777 = fs_umask s"

definition created :: "string \<Rightarrow> stored_file" where
  "created t = \<lparr>f_text = t, f_mode = o0600\<rparr>"

lemma write_file_0600_eq:
  assumes "fs_doc L" and "umask_ok s"
  obtains err where "write_file_0600 L p t s =
      (err, if err = None then s\<lparr>fs_files := (fs_files s)(p \<mapsto> created t)\<rparr> else s)"
proof -
  let ?s1 = "s\<lparr>fs_umask := o0077\<rparr>"
  let ?r = "g_file_set_contents L p t ?s1"
  have st: "snd ?r = (if fst ?r = None
      then ?s1\<lparr>fs_files := (fs_files s)(p \<mapsto> created t)\<rparr> else ?s1)"
    using set_contents_state [OF assms(1), of p t ?s1] by (simp add: created_def)
  have m: "(o0077 :: mode) AND o0777 = o0077" by simp
  obtain err s2 where r: "?r = (err, s2)" by (meson surj_pair)
  have "write_file_0600 L p t s =
      (err, if err = None then s\<lparr>fs_files := (fs_files s)(p \<mapsto> created t)\<rparr> else s)"
    using st assms(2) unfolding r
    by (simp add: write_file_0600_def set_umask_def m r umask_ok_def Let_def)
  then show thesis by (rule that)
qed

lemma umask_ok_files [simp]: "umask_ok (s\<lparr>fs_files := f\<rparr>) = umask_ok s"
  by (simp add: umask_ok_def)

lemma plain_file_names: "plain_name CONFIG_FILE_NAME" "plain_name META_FILE_NAME"
  by (simp_all add: plain_name_def CONFIG_FILE_NAME_def META_FILE_NAME_def)

lemma path_eqs:
  assumes "build_doc L" "plain_dir d" "plain_name u"
  shows "nm_airvpn_cache_get_config_path L d u = join_path [d, u, CONFIG_FILE_NAME]"
    and "meta_path L d u = join_path [d, u, META_FILE_NAME]"
proof -
  show "nm_airvpn_cache_get_config_path L d u = join_path [d, u, CONFIG_FILE_NAME]"
    using assms plain_file_names by (simp add: nm_airvpn_cache_get_config_path_def build_docD)
  have "cache_dir L d u = d @ CHR ''/'' # u"
    using assms by (simp add: cache_dir_def build_docD)
  moreover have "u \<noteq> []" "last u \<noteq> CHR ''/''"
    using assms(3) unfolding plain_name_def by (blast, metis last_in_set)
  then have "plain_dir (d @ CHR ''/'' # u)" by (simp add: plain_dir_def)
  ultimately show "meta_path L d u = join_path [d, u, META_FILE_NAME]"
    using assms(1) plain_file_names by (simp add: meta_path_def build_docD)
qed

lemma cache_paths_distinct:
  assumes "build_doc L" "plain_dir d" "plain_name u" "plain_name v"
  shows "nm_airvpn_cache_get_config_path L d u \<noteq> meta_path L d v"
    and "meta_path L d v \<noteq> nm_airvpn_cache_get_config_path L d u"
    and "nm_airvpn_cache_get_config_path L d u = nm_airvpn_cache_get_config_path L d v \<longleftrightarrow> u = v"
    and "meta_path L d u = meta_path L d v \<longleftrightarrow> u = v"
  unfolding path_eqs [OF assms(1-3)] path_eqs [OF assms(1,2,4)]
    join_path_inject [OF assms(3,4) plain_file_names(1) plain_file_names(2)]
    join_path_inject [OF assms(4,3) plain_file_names(2) plain_file_names(1)]
    join_path_inject [OF assms(3,4) plain_file_names(1) plain_file_names(1)]
    join_path_inject [OF assms(3,4) plain_file_names(2) plain_file_names(2)]
  by (simp_all add: CONFIG_FILE_NAME_def META_FILE_NAME_def)

text \<open>The check looks at the two files of the entry only.\<close>

lemma check_cache_cong:
  assumes "fs_doc L" "keyfile_doc L"
    and "fs_files s (nm_airvpn_cache_get_config_path L d u) = None \<longleftrightarrow>
         fs_files s' (nm_airvpn_cache_get_config_path L d u) = None"
    and "fs_files s (meta_path L d u) = fs_files s' (meta_path L d u)"
  shows "check_cache L t d u p a s = check_cache L t d u p a s'"
  using assms(3) kf_load_local [OF assms(2,4)]
  by (simp add: check_cache_def load_meta_def is_regular_iff [OF assms(1)])

definition new_meta :: "('k, 'g) kflib_scheme \<Rightarrow> int \<Rightarrow> gen_params \<Rightarrow> 'k" where
  "new_meta L real_time params =
     kf_set_boolean L (kf_set_int64 L (kf_set_string L (kf_new L) META_GROUP META_KEY_HASH
        (params_hash L params)) META_GROUP META_KEY_FETCHED (real_time sdiv G_USEC_PER_SEC))
        META_GROUP META_KEY_STALE False"

lemma new_meta_values:
  assumes "keyfile_doc L"
  shows "kf_get_string L (new_meta L t p) META_GROUP META_KEY_HASH = Some (params_hash L p)"
    and "kf_get_boolean L (new_meta L t p) META_GROUP META_KEY_STALE = False"
    and "kf_get_int64 L (new_meta L t p) META_GROUP META_KEY_FETCHED = t sdiv G_USEC_PER_SEC"
  using kf_get_set [OF assms] kf_get_set_other [OF assms]
  by (simp_all add: new_meta_def meta_key_defs)

lemma check_cache_loaded:
  assumes "g_file_is_regular L (nm_airvpn_cache_get_config_path L d u) s"
    and "load_meta L d u s = Some meta"
  shows "check_cache L t d u p a s \<longleftrightarrow>
      kf_get_string L meta META_GROUP META_KEY_HASH = Some (params_hash L p)
      \<and> (a \<or> (\<not> kf_get_boolean L meta META_GROUP META_KEY_STALE
            \<and> 0 < kf_get_int64 L meta META_GROUP META_KEY_FETCHED
            \<and> t sdiv G_USEC_PER_SEC - kf_get_int64 L meta META_GROUP META_KEY_FETCHED
                \<le> CACHE_MAX_AGE_SECONDS))"
  using assms by (auto simp: check_cache_def Let_def)


lemma mkdir_id: "fs_doc L \<Longrightarrow> snd (g_mkdir_with_parents L p m s) = (s :: fsys)"
  using mkdir_files [of L p m s] mkdir_umask [of L p m s] by simp

text \<open>What \<open>nm_airvpn_cache_store\<close> does to the file system, in each of its outcomes.\<close>

definition put_file :: "path \<Rightarrow> string \<Rightarrow> fsys \<Rightarrow> fsys" where
  "put_file p t s = s\<lparr>fs_files := (fs_files s)(p \<mapsto> created t)\<rparr>"

lemma put_file_simps [simp]:
  "fs_files (put_file p t s) q = (if q = p then Some (created t) else fs_files s q)"
  "fs_umask (put_file p t s) = fs_umask s"
  "umask_ok (put_file p t s) = umask_ok s"
  by (simp_all add: put_file_def umask_ok_def)

lemma write_cases:
  assumes "fs_doc L" "umask_ok s" "write_file_0600 L p t s = (r, s')"
  shows "s' = (if r = None then put_file p t s else s)"
proof -
  obtain err where "write_file_0600 L p t s =
      (err, if err = None then s\<lparr>fs_files := (fs_files s)(p \<mapsto> created t)\<rparr> else s)"
    by (rule write_file_0600_eq [OF assms(1,2)])
  with assms(3) show ?thesis by (cases err) (auto simp: put_file_def)
qed

lemma store_cases:
  assumes "fs_doc L" "umask_ok s" "nm_airvpn_cache_store L t d u p c s = (r, s')"
  obtains (none) "r \<noteq> None" "s' = s"
  | (half) "r \<noteq> None" "s' = put_file (nm_airvpn_cache_get_config_path L d u) c s"
  | (stored) "r = None"
      "s' = put_file (meta_path L d u) (kf_to_data L (new_meta L t p))
              (put_file (nm_airvpn_cache_get_config_path L d u) c s)"
proof -
  let ?cfg = "nm_airvpn_cache_get_config_path L d u"
  obtain e0 where mk: "g_mkdir_with_parents L (cache_dir L d u) o0700 s = (e0, s)"
    using mkdir_id [OF assms(1)] by (metis prod.collapse)
  obtain e1 s1 where w1: "write_file_0600 L ?cfg c s = (e1, s1)" by (meson surj_pair)
  obtain e2 s2 where w2:
    "write_file_0600 L (meta_path L d u) (kf_to_data L (new_meta L t p)) s1 = (e2, s2)"
    by (meson surj_pair)
  have s1: "s1 = (if e1 = None then put_file ?cfg c s else s)"
    by (rule write_cases [OF assms(1,2) w1])
  have "umask_ok s1" using assms(2) s1 by simp
  then have s2: "s2 = (if e2 = None then put_file (meta_path L d u)
      (kf_to_data L (new_meta L t p)) s1 else s1)"
    by (rule write_cases [OF assms(1) _ w2])
  have "(r, s') = (case e0 of Some e \<Rightarrow> (Some (GError G_FILE_ERROR (g_file_error_from_errno L e)
            (''Could not create cache directory '' @ lquo @ cache_dir L d u @ rquo @ '': '' @ g_strerror L e)), s)
      | None \<Rightarrow> (case e1 of Some e \<Rightarrow> (Some e, s1) | None \<Rightarrow> (e2, s2)))"
    unfolding assms(3) [symmetric] nm_airvpn_cache_store_def Let_def mk prod.case
    by (cases e0; cases e1)
      (simp_all only: option.case prod.case w1 w2 new_meta_def [symmetric])
  then show thesis
    using s1 s2 none half stored by (cases e0; cases e1; cases e2) (simp_all split: option.splits)
qed

lemma store_umask_ok:
  assumes "fs_doc L" "umask_ok s"
  shows "umask_ok (snd (nm_airvpn_cache_store L t d u p c s))"
proof -
  obtain r s' where st: "nm_airvpn_cache_store L t d u p c s = (r, s')" by (meson surj_pair)
  show ?thesis using assms(2) by (cases rule: store_cases [OF assms st]) (simp_all add: st)
qed

lemma mark_cases:
  assumes "fs_doc L" "umask_ok s" "nm_airvpn_cache_mark_stale L d u s = (r, s')"
  obtains (no_meta) "load_meta L d u s = None" "r = None" "s' = s"
  | (failed) meta where "load_meta L d u s = Some meta" "r \<noteq> None" "s' = s"
  | (marked) meta where "load_meta L d u s = Some meta" "r = None"
      "s' = put_file (meta_path L d u)
              (kf_to_data L (kf_set_boolean L meta META_GROUP META_KEY_STALE True)) s"
proof (cases "load_meta L d u s")
  case None
  then have "(None, s) = (r, s')" using assms(3) unfolding nm_airvpn_cache_mark_stale_def by simp
  with no_meta None show ?thesis by blast
next
  case (Some meta)
  then have "write_file_0600 L (meta_path L d u)
      (kf_to_data L (kf_set_boolean L meta META_GROUP META_KEY_STALE True)) s = (r, s')"
    using assms(3) by (simp add: nm_airvpn_cache_mark_stale_def)
  from write_cases [OF assms(1,2) this] have "s' = (if r = None then put_file (meta_path L d u)
      (kf_to_data L (kf_set_boolean L meta META_GROUP META_KEY_STALE True)) s else s)" .
  with failed [OF Some] marked [OF Some] show ?thesis by (cases "r = None") simp_all
qed

lemma load_meta_put:
  assumes "keyfile_doc L"
  shows "load_meta L d u (put_file (meta_path L d u) (kf_to_data L k) s) = Some k"
  unfolding load_meta_def by (rule kf_load_data [OF assms]) (auto simp: created_def)


definition fresh_at :: "int \<Rightarrow> int \<Rightarrow> bool" where
  "fresh_at stored now \<longleftrightarrow> 0 < stored sdiv G_USEC_PER_SEC
     \<and> now sdiv G_USEC_PER_SEC - stored sdiv G_USEC_PER_SEC \<le> CACHE_MAX_AGE_SECONDS"

lemma check_after_store:
  assumes "fs_doc L" "keyfile_doc L"
    and "s' = put_file (meta_path L d u) (kf_to_data L (new_meta L t p))
              (put_file (nm_airvpn_cache_get_config_path L d u) c s)"
  shows "check_cache L t' d u q a s' \<longleftrightarrow> params_hash L q = params_hash L p \<and> (a \<or> fresh_at t t')"
proof -
  have reg: "g_file_is_regular L (nm_airvpn_cache_get_config_path L d u) s'"
    using assms(3) by (simp add: is_regular_iff [OF assms(1)])
  have meta: "load_meta L d u s' = Some (new_meta L t p)"
    unfolding assms(3) by (rule load_meta_put [OF assms(2)])
  show ?thesis
    unfolding check_cache_loaded [OF reg meta] new_meta_values [OF assms(2)] fresh_at_def by auto
qed

lemma check_after_mark:
  assumes "fs_doc L" "keyfile_doc L"
    and ne: "nm_airvpn_cache_get_config_path L d u \<noteq> meta_path L d u"
    and meta: "load_meta L d u s = Some meta"
    and s': "s' = put_file (meta_path L d u)
              (kf_to_data L (kf_set_boolean L meta META_GROUP META_KEY_STALE True)) s"
  shows "check_cache L t d u p a s' \<longleftrightarrow> a \<and> check_cache L t d u p True s"
proof (cases "g_file_is_regular L (nm_airvpn_cache_get_config_path L d u) s")
  case True
  then have reg: "g_file_is_regular L (nm_airvpn_cache_get_config_path L d u) s'"
    using s' by (simp add: is_regular_iff [OF assms(1)])
  have meta': "load_meta L d u s' = Some (kf_set_boolean L meta META_GROUP META_KEY_STALE True)"
    unfolding s' by (rule load_meta_put [OF assms(2)])
  have ne: "META_KEY_HASH \<noteq> META_KEY_STALE" by (simp add: meta_key_defs)
  show ?thesis
    unfolding check_cache_loaded [OF reg meta'] check_cache_loaded [OF True meta]
    using kf_get_set(2) [OF assms(2)] kf_get_set_other(4) [OF assms(2) ne] by auto
next
  case False
  then have "\<not> g_file_is_regular L (nm_airvpn_cache_get_config_path L d u) s'"
    using s' ne by (simp add: is_regular_iff [OF assms(1)])
  with False show ?thesis by (simp add: check_cache_def)
qed

lemma check_cache_relax: "check_cache L t d u p a s \<Longrightarrow> check_cache L t' d u p True s"
  by (auto simp: check_cache_def Let_def split: option.splits if_splits)

lemma check_other_put:
  assumes "fs_doc L" "keyfile_doc L" "build_doc L" "plain_dir d" "plain_name u" "plain_name v" "u \<noteq> v"
    and "q = nm_airvpn_cache_get_config_path L d u \<or> q = meta_path L d u"
  shows "check_cache L t d v p a (put_file q x s) = check_cache L t d v p a s"
  using cache_paths_distinct [OF assms(3,4,5,6)] cache_paths_distinct [OF assms(3,4,6,5)] assms(7,8)
  by (intro check_cache_cong [OF assms(1,2)]) auto


section \<open>Contracts of the operations\<close>

lemma store_ok_check:
  assumes "fs_doc L" "keyfile_doc L" "umask_ok s" "nm_airvpn_cache_store L t d u p c s = (None, s')"
  shows "check_cache L t' d u q a s' \<longleftrightarrow> params_hash L q = params_hash L p \<and> (a \<or> fresh_at t t')"
  by (cases rule: store_cases [OF assms(1,3,4)]) (simp_all add: check_after_store [OF assms(1,2)])

lemma store_other_check:
  assumes "cache_doc L" "umask_ok s" "plain_dir d" "plain_name u" "plain_name v" "u \<noteq> v"
  shows "check_cache L t' d v q a (snd (nm_airvpn_cache_store L t d u p c s)) = check_cache L t' d v q a s"
proof -
  note doc = cache_docD [OF assms(1)]
  obtain r s' where m: "nm_airvpn_cache_store L t d u p c s = (r, s')" by (meson surj_pair)
  show ?thesis
    using check_other_put [OF doc assms(3-6)]
    by (cases rule: store_cases [OF doc(1) assms(2) m]) (simp_all add: m)
qed

lemma mark_umask_ok:
  assumes "fs_doc L" "umask_ok s"
  shows "umask_ok (snd (nm_airvpn_cache_mark_stale L d u s))"
proof -
  obtain r s' where m: "nm_airvpn_cache_mark_stale L d u s = (r, s')" by (meson surj_pair)
  show ?thesis using assms(2) by (cases rule: mark_cases [OF assms m]) (simp_all add: m)
qed

lemma mark_check:
  assumes "cache_doc L" "umask_ok s" "plain_dir d" "plain_name u"
    and "nm_airvpn_cache_mark_stale L d u s = (r, s')"
  shows "r = None \<Longrightarrow> \<not> check_cache L t d u p False s'"
    and "check_cache L t d u p True s' = check_cache L t d u p True s"
    and "check_cache L t d u p False s' \<Longrightarrow> check_cache L t d u p False s"
proof -
  note doc = cache_docD [OF assms(1)]
  note after = check_after_mark [OF doc(1,2) cache_paths_distinct(1) [OF doc(3) assms(3,4,4)]]
  show "r = None \<Longrightarrow> \<not> check_cache L t d u p False s'"
    by (cases rule: mark_cases [OF doc(1) assms(2,5)]) (simp_all add: after, simp add: check_cache_def)
  show "check_cache L t d u p True s' = check_cache L t d u p True s"
    by (cases rule: mark_cases [OF doc(1) assms(2,5)]) (simp_all add: after)
  show "check_cache L t d u p False s' \<Longrightarrow> check_cache L t d u p False s"
    by (cases rule: mark_cases [OF doc(1) assms(2,5)]) (simp_all add: after)
qed

lemma mark_other_check:
  assumes "cache_doc L" "umask_ok s" "plain_dir d" "plain_name u" "plain_name v" "u \<noteq> v"
  shows "check_cache L t d v q a (snd (nm_airvpn_cache_mark_stale L d u s)) = check_cache L t d v q a s"
proof -
  note doc = cache_docD [OF assms(1)]
  obtain r s' where m: "nm_airvpn_cache_mark_stale L d u s = (r, s')" by (meson surj_pair)
  show ?thesis
    using check_other_put [OF doc assms(3-6)]
    by (cases rule: mark_cases [OF doc(1) assms(2) m]) (simp_all add: m)
qed

text \<open>States of the interpretation: the library, the state directory and the file system.\<close>

definition cache_state_ok :: "('k, 'g) kflib_scheme \<times> path \<times> fsys \<Rightarrow> bool" where
  "cache_state_ok st = (case st of (L, d, s) \<Rightarrow> cache_doc L \<and> plain_dir d \<and> umask_ok s)"

definition store_st :: "int \<Rightarrow> string \<Rightarrow> gen_params \<Rightarrow> string \<Rightarrow> ('k, 'g) kflib_scheme \<times> path \<times> fsys
    \<Rightarrow> bool \<times> ('k, 'g) kflib_scheme \<times> path \<times> fsys" where
  "store_st t u p c st = (case st of (L, d, s) \<Rightarrow>
     (case nm_airvpn_cache_store L t d u p c s of (r, s') \<Rightarrow> (r = None, (L, d, s'))))"

definition mark_st :: "string \<Rightarrow> ('k, 'g) kflib_scheme \<times> path \<times> fsys
    \<Rightarrow> bool \<times> ('k, 'g) kflib_scheme \<times> path \<times> fsys" where
  "mark_st u st = (case st of (L, d, s) \<Rightarrow>
     (case nm_airvpn_cache_mark_stale L d u s of (r, s') \<Rightarrow> (r = None, (L, d, s'))))"

definition valid_st :: "int \<Rightarrow> string \<Rightarrow> gen_params \<Rightarrow> ('k, 'g) kflib_scheme \<times> path \<times> fsys \<Rightarrow> bool" where
  "valid_st t u p st = (case st of (L, d, s) \<Rightarrow> nm_airvpn_cache_is_valid L t d u p s)"

definition present_st :: "string \<Rightarrow> gen_params \<Rightarrow> ('k, 'g) kflib_scheme \<times> path \<times> fsys \<Rightarrow> bool" where
  "present_st u p st = (case st of (L, d, s) \<Rightarrow> nm_airvpn_cache_exists L 0 d u p s)"

lemmas cache_st_defs = cache_state_ok_def store_st_def mark_st_def valid_st_def present_st_def
  nm_airvpn_cache_is_valid_def nm_airvpn_cache_exists_def

lemma store_inv_st: "cache_state_ok st \<Longrightarrow> cache_state_ok (snd (store_st t u p c st))"
  using store_umask_ok [of "fst st" "snd (snd st)" t "fst (snd st)" u p c]
  by (auto simp: cache_st_defs cache_doc_def split: prod.splits)

lemma mark_inv_st: "cache_state_ok st \<Longrightarrow> cache_state_ok (snd (mark_st u st))"
  using mark_umask_ok [of "fst st" "snd (snd st)" "fst (snd st)" u]
  by (auto simp: cache_st_defs cache_doc_def split: prod.splits)

interpretation cache: profile_cache cache_state_ok plain_name store_st mark_st valid_st present_st fresh_at
proof (unfold_locales, goal_cases)
  case (1 st t u p c) then show ?case by (rule store_inv_st)
next
  case (2 st u) then show ?case by (rule mark_inv_st)
next
  case 3 then show ?case by (auto simp: cache_st_defs check_cache_relax split: prod.splits)
next
  case 4 then show ?case
    by (auto simp: cache_st_defs cache_doc_def store_ok_check split: prod.splits)
next
  case 5 then show ?case
    by (auto simp: cache_st_defs cache_doc_def store_ok_check split: prod.splits)
next
  case (6 st u v t' q t p c) then show ?case
    using store_other_check [of "fst st" "snd (snd st)" "fst (snd st)" u v t' q False t p c]
    by (auto simp: cache_st_defs split: prod.splits)
next
  case 7 then show ?case by (auto simp: cache_st_defs split: prod.splits dest: mark_check(1))
next
  case 8 then show ?case by (auto simp: cache_st_defs mark_check(2) split: prod.splits)
next
  case 9 then show ?case by (auto simp: cache_st_defs split: prod.splits dest: mark_check(3))
next
  case (10 st u v t q) then show ?case
    using mark_other_check [of "fst st" "snd (snd st)" "fst (snd st)" u v t q False]
    by (auto simp: cache_st_defs split: prod.splits)
qed

section \<open>Histories of cache operations\<close>

text \<open>The daemon's calls in sequence, each one's result ignored as in the callers.\<close>

datatype cache_op = Store int string gen_params string | MarkStale string

fun run_cache :: "('k, 'g) kflib_scheme \<Rightarrow> path \<Rightarrow> cache_op list \<Rightarrow> fsys \<Rightarrow> fsys" where
  "run_cache L d [] s = s"
| "run_cache L d (Store t u p c # ops) s =
     run_cache L d ops (snd (nm_airvpn_cache_store L t d u p c s))"
| "run_cache L d (MarkStale u # ops) s =
     run_cache L d ops (snd (nm_airvpn_cache_mark_stale L d u s))"

fun op_uuid :: "cache_op \<Rightarrow> string" where
  "op_uuid (Store t u p c) = u"
| "op_uuid (MarkStale u) = u"

fun is_store_of :: "string \<Rightarrow> cache_op \<Rightarrow> bool" where
  "is_store_of u (Store t v p c) = (v = u)"
| "is_store_of u (MarkStale v) = False"

fun cache_op_st :: "cache_op \<Rightarrow> int \<times> string \<times> gen_params \<times> string + string" where
  "cache_op_st (Store t u p c) = Inl (t, u, p, c)"
| "cache_op_st (MarkStale u) = Inr u"

lemma snd_cache_st:
  "snd (store_st t u p c (L, d, s)) = (L, d, snd (nm_airvpn_cache_store L t d u p c s))"
  "snd (mark_st u (L, d, s)) = (L, d, snd (nm_airvpn_cache_mark_stale L d u s))"
  by (simp_all add: store_st_def mark_st_def split: prod.splits)

lemma run_cache_st: "cache.run_ops (map cache_op_st ops) (L, d, s) = (L, d, run_cache L d ops s)"
  by (induction L d ops s rule: run_cache.induct) (simp_all add: snd_cache_st)

lemma cache_op_st_ok:
  "\<forall>op \<in> set ops. plain_name (op_uuid op) \<and> \<not> is_store_of u op \<Longrightarrow>
   \<forall>op \<in> set (map cache_op_st ops). case op of Inl (_, v, _, _) \<Rightarrow> plain_name v \<and> v \<noteq> u
      | Inr v \<Rightarrow> plain_name v"
proof
  fix x
  assume ok: "\<forall>op \<in> set ops. plain_name (op_uuid op) \<and> \<not> is_store_of u op"
    and x: "x \<in> set (map cache_op_st ops)"
  from x obtain op where "op \<in> set ops" "x = cache_op_st op" by auto
  with ok show "case x of Inl (_, v, _, _) \<Rightarrow> plain_name v \<and> v \<noteq> u | Inr v \<Rightarrow> plain_name v"
    by (cases op) auto
qed

text \<open>The files that differ from another state are private.\<close>

definition writes_private :: "fsys \<Rightarrow> fsys \<Rightarrow> bool" where
  "writes_private s s' \<longleftrightarrow> fs_umask s' = fs_umask s
     \<and> (\<forall>p. fs_files s' p = fs_files s p \<or> (\<exists>f. fs_files s' p = Some f \<and> f_mode f = o0600))"

lemma writes_private_put: "writes_private s s' \<Longrightarrow> writes_private s (put_file p t s')"
  by (auto simp: writes_private_def created_def)

lemma writes_private_refl: "writes_private s s"
  by (simp add: writes_private_def)

lemma writes_private_trans: "writes_private a b \<Longrightarrow> writes_private b c \<Longrightarrow> writes_private a c"
  unfolding writes_private_def by (metis option.inject)

lemma store_private:
  assumes "fs_doc L" "umask_ok s"
  shows "writes_private s (snd (nm_airvpn_cache_store L t d u p c s))"
proof -
  obtain r s' where m: "nm_airvpn_cache_store L t d u p c s = (r, s')" by (meson surj_pair)
  show ?thesis
    by (cases rule: store_cases [OF assms m]) (simp_all add: m writes_private_put writes_private_refl)
qed

lemma mark_private:
  assumes "fs_doc L" "umask_ok s"
  shows "writes_private s (snd (nm_airvpn_cache_mark_stale L d u s))"
proof -
  obtain r s' where m: "nm_airvpn_cache_mark_stale L d u s = (r, s')" by (meson surj_pair)
  show ?thesis
    by (cases rule: mark_cases [OF assms m]) (simp_all add: m writes_private_put writes_private_refl)
qed

lemma split_bar_unique:
  assumes "a @ CHR ''|'' # b = c @ CHR ''|'' # d" and "CHR ''|'' \<notin> set a" and "CHR ''|'' \<notin> set c"
  shows "a = c \<and> b = d"
  using assms
proof (induction a arbitrary: c)
  case Nil
  then show ?case by (cases c) auto
next
  case (Cons x a)
  then show ?case by (cases c) auto
qed

section \<open>Properties\<close>

text \<open>
  C16. After a successful \<open>nm_airvpn_cache_store\<close> the profile is valid for the parameters it
  was stored for exactly for the 90 days of its life, counted in whole seconds.
\<close>

theorem store_then_valid:
  assumes "cache_doc L" "umask_ok s" "plain_dir d" "plain_name u"
    and "nm_airvpn_cache_store L t d u p c s = (None, s')"
  shows "nm_airvpn_cache_is_valid L t' d u p s' \<longleftrightarrow>
      0 < t sdiv G_USEC_PER_SEC
      \<and> t' sdiv G_USEC_PER_SEC - t sdiv G_USEC_PER_SEC \<le> 90 * 24 * 3600"
proof -
  have "valid_st t' u p (L, d, s') \<longleftrightarrow> fresh_at t t'"
    using assms by (intro cache.store_valid [where s = "(L, d, s)" and c = c])
      (simp_all add: cache_state_ok_def store_st_def)
  then show ?thesis by (simp add: valid_st_def fresh_at_def CACHE_MAX_AGE_SECONDS_def)
qed

definition empty_fs :: fsys where
  "empty_fs = \<lparr>fs_files = Map.empty, fs_umask = 18\<rparr>"

definition demo_dir :: path where "demo_dir = ''/var/lib/airvpn''"
definition demo_uuid :: string where "demo_uuid = ''u1''"

lemma ref_cache_doc: "cache_doc ref_lib"
  by (simp add: cache_doc_def ref_fs_doc ref_keyfile_doc ref_build_doc)

lemma demo_plain: "plain_dir demo_dir" "plain_name demo_uuid" "umask_ok empty_fs"
  by (simp_all add: plain_dir_def plain_name_def demo_dir_def demo_uuid_def umask_ok_def empty_fs_def)

definition demo_stored :: fsys where
  "demo_stored = snd (nm_airvpn_cache_store ref_lib 1000000000 demo_dir demo_uuid ref_params ''cfg'' empty_fs)"

lemma demo_store_ok:
  "nm_airvpn_cache_store ref_lib 1000000000 demo_dir demo_uuid ref_params ''cfg'' empty_fs
    = (None, demo_stored)"
proof -
  have "fst (nm_airvpn_cache_store ref_lib 1000000000 demo_dir demo_uuid ref_params ''cfg'' empty_fs) = None"
    by (simp add: nm_airvpn_cache_store_def write_file_0600_def set_umask_def ref_lib_def Let_def)
  then show ?thesis unfolding demo_stored_def by (metis prod.collapse)
qed

lemma store_then_valid_witness:
  "nm_airvpn_cache_is_valid ref_lib 2000000000 demo_dir demo_uuid ref_params demo_stored
   \<and> \<not> nm_airvpn_cache_is_valid ref_lib 9000000000000 demo_dir demo_uuid ref_params demo_stored"
  unfolding store_then_valid [OF ref_cache_doc demo_plain(3,1,2) demo_store_ok]
  by (simp add: G_USEC_PER_SEC_def signed_divide_int_def)

text \<open>
  C17. A profile marked stale is not reused: whatever stores for other connections and marks
  follow, it is not valid again at any time and for any parameters until it is stored again.
\<close>

theorem stale_until_next_store:
  assumes "cache_doc L" "umask_ok s" "plain_dir d" "plain_name u"
    and "nm_airvpn_cache_mark_stale L d u s = (None, s')"
    and "\<forall>op \<in> set ops. plain_name (op_uuid op) \<and> \<not> is_store_of u op"
  shows "\<not> nm_airvpn_cache_is_valid L t d u p (run_cache L d ops s')"
proof -
  have "\<not> valid_st t u p (cache.run_ops (map cache_op_st ops) (L, d, s'))"
    using assms(1-5)
    by (intro cache.stale_until_stored [where s = "(L, d, s)", OF _ _ _ cache_op_st_ok [OF assms(6)]])
      (simp_all add: cache_state_ok_def mark_st_def)
  then show ?thesis by (simp add: run_cache_st valid_st_def)
qed

lemma demo_mark_ok:
  "nm_airvpn_cache_mark_stale ref_lib demo_dir demo_uuid demo_stored
    = (None, snd (nm_airvpn_cache_mark_stale ref_lib demo_dir demo_uuid demo_stored))"
proof -
  have "fst (nm_airvpn_cache_mark_stale ref_lib demo_dir demo_uuid demo_stored) = None"
    by (simp add: nm_airvpn_cache_mark_stale_def write_file_0600_def set_umask_def ref_lib_def Let_def
        split: option.splits)
  then show ?thesis by (metis prod.collapse)
qed

lemma demo_stored_umask: "umask_ok demo_stored"
  unfolding demo_stored_def by (rule store_umask_ok [OF ref_fs_doc demo_plain(3)])

lemma stale_until_next_store_witness:
  "\<not> nm_airvpn_cache_is_valid ref_lib 2000000000 demo_dir demo_uuid ref_params
      (run_cache ref_lib demo_dir [Store 5000000 ''u2'' ref_params ''x'', MarkStale demo_uuid]
        (snd (nm_airvpn_cache_mark_stale ref_lib demo_dir demo_uuid demo_stored)))"
  by (rule stale_until_next_store [OF ref_cache_doc demo_stored_umask demo_plain(1,2) demo_mark_ok])
    (simp add: demo_uuid_def plain_name_def)

text \<open>
  Marking a profile stale never removes it: it stays the last resort that
  \<open>nm_airvpn_cache_exists\<close> offers when the generator cannot be reached, and connections with
  another UUID keep their cache as it is.
\<close>

theorem mark_stale_keeps_fallback:
  assumes "cache_doc L" "umask_ok s" "plain_dir d" "plain_name u" "plain_name v"
    and "nm_airvpn_cache_mark_stale L d u s = (r, s')"
  shows "nm_airvpn_cache_exists L t d u p s' = nm_airvpn_cache_exists L t d u p s
    \<and> (u \<noteq> v \<longrightarrow> nm_airvpn_cache_is_valid L t d v p s' = nm_airvpn_cache_is_valid L t d v p s)"
  using mark_check(2) [OF assms(1-4,6)] mark_other_check [OF assms(1-5)] assms(6)
  by (simp_all add: nm_airvpn_cache_exists_def nm_airvpn_cache_is_valid_def)

lemma mark_stale_keeps_fallback_witness:
  "nm_airvpn_cache_exists ref_lib 0 demo_dir demo_uuid ref_params
     (snd (nm_airvpn_cache_mark_stale ref_lib demo_dir demo_uuid demo_stored))"
  using mark_stale_keeps_fallback [OF ref_cache_doc demo_stored_umask demo_plain(1,2,2) demo_mark_ok]
  by (simp add: nm_airvpn_cache_exists_def store_ok_check [OF ref_fs_doc ref_keyfile_doc demo_plain(3) demo_store_ok])

text \<open>
  C18. No history of cache operations leaves a file readable by others: every file it creates
  or replaces has mode 0600, and the mask of the process is the one it had before.
\<close>

theorem cache_files_private:
  assumes "fs_doc L" "umask_ok s"
  shows "writes_private s (run_cache L d ops s)"
  using assms
proof (induction L d ops s rule: run_cache.induct)
  case (2 L d t u p c ops s)
  then show ?case
    using writes_private_trans [OF store_private] by (simp add: store_umask_ok)
next
  case (3 L d u ops s)
  then show ?case
    using writes_private_trans [OF mark_private] by (simp add: mark_umask_ok)
qed (simp add: writes_private_refl)

lemma cache_files_private_witness:
  "writes_private empty_fs (run_cache ref_lib demo_dir [Store 5 demo_uuid ref_params ''x''] empty_fs)"
  by (rule cache_files_private [OF ref_fs_doc demo_plain(3)])

text \<open>
  The parameter string the cache hashes identifies the parameters, up to absent and empty
  fields, when no field before the custom directives contains the separator.
\<close>

theorem joined_params_injective:
  assumes "joined_params a = joined_params b"
    and "\<forall>f \<in> {gp_server, gp_device, gp_protocol, gp_port}.
           CHR ''|'' \<notin> set (or_empty (f a)) \<and> CHR ''|'' \<notin> set (or_empty (f b))"
  shows "\<forall>f \<in> {gp_server, gp_device, gp_protocol, gp_port, gp_custom_directives}.
           or_empty (f a) = or_empty (f b)"
  using assms by (auto simp: joined_params_def dest!: split_bar_unique)

lemma joined_params_injective_witness:
  "or_empty (gp_port ref_params) = or_empty (gp_port (ref_params\<lparr>gp_device := gp_device ref_params\<rparr>))"
  using joined_params_injective [of ref_params "ref_params\<lparr>gp_device := gp_device ref_params\<rparr>"]
  by (simp add: ref_params_def)

text \<open>
  C19. A store that fails does not make the profile invalid: if writing the key file fails
  after the configuration was replaced, the new configuration is served under the old
  parameters.
\<close>

theorem failed_store_keeps_validity:
  assumes "cache_doc L" "umask_ok s" "plain_dir d" "plain_name u"
    and "nm_airvpn_cache_is_valid L t' d u q s"
    and "nm_airvpn_cache_store L t d u p c s = (Some e, s')"
  shows "nm_airvpn_cache_is_valid L t' d u q s'"
proof -
  note doc = cache_docD [OF assms(1)]
  let ?cfg = "nm_airvpn_cache_get_config_path L d u"
  have "fs_files s ?cfg \<noteq> None"
    using assms(5) is_regular_iff [OF doc(1)]
    by (auto simp: nm_airvpn_cache_is_valid_def check_cache_def split: if_splits)
  then have "check_cache L t' d u q False (put_file ?cfg c s) = check_cache L t' d u q False s"
    using cache_paths_distinct(2) [OF doc(3) assms(3,4,4)]
    by (intro check_cache_cong [OF doc(1,2)]) auto
  with assms(5) show ?thesis
    by (cases rule: store_cases [OF doc(1) assms(2,6)]) (simp_all add: nm_airvpn_cache_is_valid_def)
qed

definition failing_lib :: "ref_kf kflib" where
  "failing_lib = ref_lib\<lparr>g_file_set_contents := (\<lambda>p t s.
     if p = meta_path ref_lib demo_dir demo_uuid
     then (Some (GError G_FILE_ERROR E_FAILED ''disk full''), s)
     else g_file_set_contents ref_lib p t s)\<rparr>"

lemma failing_sel:
  "g_build_filename failing_lib = g_build_filename ref_lib"
  "g_sha256 failing_lib = g_sha256 ref_lib"
  "g_file_is_regular failing_lib = g_file_is_regular ref_lib"
  "g_mkdir_with_parents failing_lib = g_mkdir_with_parents ref_lib"
  "g_file_get_contents failing_lib = g_file_get_contents ref_lib"
  "g_unlink failing_lib = g_unlink ref_lib"
  "kf_new failing_lib = kf_new ref_lib"
  "kf_load_from_file failing_lib = kf_load_from_file ref_lib"
  "kf_to_data failing_lib = kf_to_data ref_lib"
  "kf_get_string failing_lib = kf_get_string ref_lib"
  "kf_get_boolean failing_lib = kf_get_boolean ref_lib"
  "kf_get_int64 failing_lib = kf_get_int64 ref_lib"
  "kf_set_string failing_lib = kf_set_string ref_lib"
  "kf_set_boolean failing_lib = kf_set_boolean ref_lib"
  "kf_set_int64 failing_lib = kf_set_int64 ref_lib"
  by (simp_all add: failing_lib_def)

lemma failing_set:
  "g_file_set_contents failing_lib p t s = (if p = meta_path ref_lib demo_dir demo_uuid
     then (Some (GError G_FILE_ERROR E_FAILED ''disk full''), s) else g_file_set_contents ref_lib p t s)"
  by (simp add: failing_lib_def)

lemma failing_cache_doc: "cache_doc failing_lib"
proof -
  have "fs_doc failing_lib"
    using ref_fs_doc unfolding fs_doc_def failing_sel failing_set by simp
  moreover have "keyfile_doc failing_lib" "build_doc failing_lib"
    using ref_keyfile_doc ref_build_doc
    unfolding keyfile_doc_def kf_load_doc_def kf_value_doc_def build_doc_def failing_sel by blast+
  ultimately show ?thesis by (simp add: cache_doc_def)
qed

lemma failing_paths:
  "meta_path failing_lib d u = meta_path ref_lib d u"
  "nm_airvpn_cache_get_config_path failing_lib d u = nm_airvpn_cache_get_config_path ref_lib d u"
  "check_cache failing_lib t d u p a s = check_cache ref_lib t d u p a s"
  unfolding check_cache_def load_meta_def params_hash_def meta_path_def cache_dir_def
    nm_airvpn_cache_get_config_path_def failing_sel by (rule refl)+

lemma failing_store:
  assumes "umask_ok s"
  shows "nm_airvpn_cache_store failing_lib t demo_dir demo_uuid p c s =
    (Some (GError G_FILE_ERROR E_FAILED ''disk full''),
     put_file (nm_airvpn_cache_get_config_path ref_lib demo_dir demo_uuid) c s)"
proof -
  have ne: "nm_airvpn_cache_get_config_path ref_lib demo_dir demo_uuid \<noteq> meta_path ref_lib demo_dir demo_uuid"
    by (rule cache_paths_distinct [OF ref_build_doc demo_plain(1,2,2)])
  have set: "g_file_set_contents ref_lib p t s
      = (None, s\<lparr>fs_files := (fs_files s)(p \<mapsto> \<lparr>f_text = t, f_mode = o0666 AND NOT (fs_umask s)\<rparr>)\<rparr>)"
    for p t s by (simp add: ref_lib_def)
  have mk: "g_mkdir_with_parents failing_lib p m s = (None, s)" for p m s
    by (simp add: failing_sel ref_lib_def)
  have w: "write_file_0600 failing_lib p t s = (if p = meta_path ref_lib demo_dir demo_uuid
      then (Some (GError G_FILE_ERROR E_FAILED ''disk full''), s) else (None, put_file p t s))"
    if "umask_ok s" for p t s
    using that by (simp add: write_file_0600_def set_umask_def failing_set set put_file_def
        created_def umask_ok_def)
  show ?thesis
    using assms ne by (simp add: nm_airvpn_cache_store_def mk w failing_paths)
qed

lemma failed_store_keeps_validity_witness:
  "let s' = snd (nm_airvpn_cache_store failing_lib 1500000000 demo_dir demo_uuid
              (ref_params\<lparr>gp_port := Some ''53''\<rparr>) ''other'' demo_stored)
   in nm_airvpn_cache_is_valid failing_lib 2000000000 demo_dir demo_uuid ref_params s'
      \<and> fs_files s' (nm_airvpn_cache_get_config_path failing_lib demo_dir demo_uuid) = Some (created ''other'')"
proof -
  have "nm_airvpn_cache_is_valid failing_lib 2000000000 demo_dir demo_uuid ref_params demo_stored"
    by (simp add: nm_airvpn_cache_is_valid_def failing_paths fresh_at_def CACHE_MAX_AGE_SECONDS_def
        G_USEC_PER_SEC_def signed_divide_int_def
        store_ok_check [OF ref_fs_doc ref_keyfile_doc demo_plain(3) demo_store_ok])
  from failed_store_keeps_validity [OF failing_cache_doc demo_stored_umask demo_plain(1,2) this
      failing_store [OF demo_stored_umask]]
  show ?thesis
    by (simp add: failing_store [OF demo_stored_umask] failing_paths)
qed

end
