(* ===== verification/Airvpn_Firewall.thy ===== *)
theory Airvpn_Firewall
  imports Airvpn_Cache
begin

text \<open>
  The kill switch, \<open>src/nm-airvpn-firewall.c\<close>: the remotes of the OpenVPN configuration, the
  ruleset that lets only them through, and its loading and removal with \<open>nft\<close>. The kernel's
  side of it is a list: the rulesets loaded into the kill-switch table since it was created;
  the table exists when the list is not empty. Reading an element of a token vector behind
  its terminating \<open>NULL\<close> is undefined in C: the operations that can do so return \<open>None\<close> then.
\<close>

section \<open>Operations\<close>

definition NFT_TABLE_NAME :: string where "NFT_TABLE_NAME = ''nm-airvpn-killswitch''"
definition RULESET_FILE_NAME :: string where "RULESET_FILE_NAME = ''killswitch.nft''"
definition RESOLV_CONF :: path where "RESOLV_CONF = ''/etc/resolv.conf''"
definition TAB :: string where "TAB = [CHR 0x09]"
definition NL :: string where "NL = [CHR 0x0A]"
definition WS :: string where "WS = '' '' @ TAB"
definition QUOTE :: string where "QUOTE = [CHR 0x22]"

record remote_entry =
  re_host :: string
  re_port :: string
  re_proto :: string

type_synonym nft_table = "string list"

text \<open>
  What the code uses and \<open>src/\<close> does not hold: directories fixed by the build, the search path, GIO's address functions and
  resolver, and \<open>g_spawn_sync\<close> of an \<open>nft\<close> command line. A spawn gives an error, or the result
  of \<open>g_spawn_check_wait_status\<close> with what the command wrote to its standard error.
\<close>

record netlib =
  NM_AIRVPN_STATEDIR :: path
  LIBEXECDIR :: path
  g_find_program_in_path :: "string \<Rightarrow> string option"
  g_hostname_is_ip_address :: "string \<Rightarrow> bool"
  g_inet_address_is_v6 :: "string \<Rightarrow> bool"
  g_resolver_lookup_by_name :: "string \<Rightarrow> gerror + (string \<times> bool) list"
  g_spawn_sync :: "string list \<Rightarrow> fsys \<Rightarrow> nft_table \<Rightarrow> (gerror + gerror option \<times> cstr) \<times> nft_table"

text \<open>\<open>tokens[i]\<close> of a \<open>NULL\<close>-terminated vector.\<close>

definition tok_at :: "string list \<Rightarrow> nat \<Rightarrow> cstr option" where
  "tok_at tokens i =
     (if i < length tokens then Some (Some (tokens ! i))
      else if i = length tokens then Some None
      else None)"

definition nm_airvpn_firewall_available :: "'n netlib_scheme \<Rightarrow> bool" where
  "nm_airvpn_firewall_available N \<longleftrightarrow> g_find_program_in_path N ''nft'' \<noteq> None"

text \<open>First pass of \<open>parse_remotes\<close>; it leaves the lines stripped.\<close>

fun scan_proto :: "'g glib_scheme \<Rightarrow> string list \<Rightarrow> cstr \<Rightarrow> cstr option" where
  "scan_proto L [] default_proto = Some default_proto"
| "scan_proto L (l # ls) default_proto =
     (let line = g_strstrip L l
      in if \<not> has_prefix line ''proto '' then scan_proto L ls default_proto
         else case tok_at (g_strsplit_set L line WS) 1 of
             None \<Rightarrow> None
           | Some t \<Rightarrow> if nonempty_str t then scan_proto L ls t else scan_proto L ls default_proto)"

definition field_or :: "cstr \<Rightarrow> string \<Rightarrow> string" where
  "field_or t d = (if nonempty_str t then the t else d)"

text \<open>One line of the second pass: undefined, skipped, or an entry.\<close>

definition remote_of_line :: "'g glib_scheme \<Rightarrow> cstr \<Rightarrow> string \<Rightarrow> remote_entry option option" where
  "remote_of_line L default_proto l =
     (let line = g_strstrip L l
      in if \<not> has_prefix line ''remote '' then Some None
         else (let tokens = g_strsplit_set L line WS
               in case tok_at tokens 1 of
                    None \<Rightarrow> None
                  | Some t1 \<Rightarrow>
                      if \<not> nonempty_str t1 then Some None
                      else (case tok_at tokens 2 of
                              None \<Rightarrow> None
                            | Some t2 \<Rightarrow> (case tok_at tokens 3 of
                                None \<Rightarrow> None
                              | Some t3 \<Rightarrow>
                                  Some (Some \<lparr>re_host = the t1,
                                     re_port = field_or t2 DEFAULT_PORT,
                                     re_proto = field_or t3
                                       (case default_proto of Some p \<Rightarrow> p | None \<Rightarrow> PROTOCOL_UDP)\<rparr>)))))"

fun scan_remotes ::
  "'g glib_scheme \<Rightarrow> cstr \<Rightarrow> string list \<Rightarrow> remote_entry list \<Rightarrow> remote_entry list option" where
  "scan_remotes L default_proto [] remotes = Some remotes"
| "scan_remotes L default_proto (l # ls) remotes =
     (case remote_of_line L default_proto l of
        None \<Rightarrow> None
      | Some None \<Rightarrow> scan_remotes L default_proto ls remotes
      | Some (Some entry) \<Rightarrow> scan_remotes L default_proto ls (entry # remotes))"

definition no_remote_error :: gerror where
  "no_remote_error = GError G_FILE_ERROR E_INVAL
     (''The OpenVPN config has no '' @ lquo @ ''remote'' @ rquo @ '' directive.'')"

definition parse_remotes ::
  "'g fslib_scheme \<Rightarrow> path \<Rightarrow> fsys \<Rightarrow> (gerror + remote_entry list) option" where
  "parse_remotes L config_path s =
     (case g_file_get_contents L config_path s of
        Inl e \<Rightarrow> Some (Inl e)
      | Inr contents \<Rightarrow>
          (let lines = g_strsplit L contents NL
           in case scan_proto L lines None of
                None \<Rightarrow> None
              | Some default_proto \<Rightarrow>
                  (case scan_remotes L default_proto (map (g_strstrip L) lines) [] of
                     None \<Rightarrow> None
                   | Some remotes \<Rightarrow>
                       if remotes = [] then Some (Inl no_remote_error)
                       else Some (Inr (rev remotes)))))"

definition nft_proto :: "string \<Rightarrow> string" where
  "nft_proto proto = (if has_prefix proto ''tcp'' then ''tcp'' else ''udp'')"

definition ip_kind :: "bool \<Rightarrow> string" where
  "ip_kind is_v6 = (if is_v6 then ''ip6'' else ''ip'')"

text \<open>The format string shared by all rules that name an address and a port.\<close>

definition accept_rule :: "bool \<Rightarrow> string \<Rightarrow> string \<Rightarrow> string \<Rightarrow> string" where
  "accept_rule is_v6 addr proto port =
     TAB @ TAB @ ip_kind is_v6 @ '' daddr '' @ addr @ '' '' @ proto @ '' dport '' @ port @ '' accept'' @ NL"

text \<open>The body of the loop over the lines of \<open>/etc/resolv.conf\<close>.\<close>

fun resolver_lines ::
  "'g glib_scheme \<Rightarrow> 'n netlib_scheme \<Rightarrow> string list \<Rightarrow> string \<Rightarrow> string option" where
  "resolver_lines L N [] ruleset = Some ruleset"
| "resolver_lines L N (l # ls) ruleset =
     (let line = g_strstrip L l
      in if \<not> has_prefix line ''nameserver '' then resolver_lines L N ls ruleset
         else case tok_at (g_strsplit_set L line WS) 1 of
             None \<Rightarrow> None
           | Some t \<Rightarrow>
               if \<not> nonempty_str t \<or> \<not> g_hostname_is_ip_address N (the t)
               then resolver_lines L N ls ruleset
               else (let is_v6 = strchr (the t) (CHR '':'') \<noteq> None
                     in resolver_lines L N ls (ruleset @ accept_rule is_v6 (the t) ''udp'' ''53''
                          @ accept_rule is_v6 (the t) ''tcp'' ''53'')))"

definition append_resolver_rules ::
  "'g fslib_scheme \<Rightarrow> 'n netlib_scheme \<Rightarrow> fsys \<Rightarrow> string \<Rightarrow> string option" where
  "append_resolver_rules L N s ruleset =
     (case g_file_get_contents L RESOLV_CONF s of
        Inl _ \<Rightarrow> Some ruleset
      | Inr contents \<Rightarrow> resolver_lines L N (g_strsplit L contents NL) ruleset)"

fun append_addresses :: "string \<Rightarrow> string \<Rightarrow> (string \<times> bool) list \<Rightarrow> string \<Rightarrow> string" where
  "append_addresses proto port [] ruleset = ruleset"
| "append_addresses proto port ((addr, is_v6) # as) ruleset =
     append_addresses proto port as (ruleset @ accept_rule is_v6 addr proto port)"

text \<open>A lookup that succeeds has at least one address; \<open>NULL\<close> is the failure.\<close>

definition append_remote_rules ::
  "'n netlib_scheme \<Rightarrow> remote_entry \<Rightarrow> string \<Rightarrow> gerror + string" where
  "append_remote_rules N entry ruleset =
     (let proto = nft_proto (re_proto entry)
      in if g_hostname_is_ip_address N (re_host entry)
         then Inr (ruleset @ accept_rule (g_inet_address_is_v6 N (re_host entry)) (re_host entry)
                     proto (re_port entry))
         else case g_resolver_lookup_by_name N (re_host entry) of
             Inl e \<Rightarrow> Inl e
           | Inr addresses \<Rightarrow> Inr (append_addresses proto (re_port entry) addresses ruleset))"

fun append_all_remotes ::
  "'n netlib_scheme \<Rightarrow> remote_entry list \<Rightarrow> string \<Rightarrow> gerror + string" where
  "append_all_remotes N [] ruleset = Inr ruleset"
| "append_all_remotes N (e # es) ruleset =
     (case append_remote_rules N e ruleset of
        Inl err \<Rightarrow> Inl err
      | Inr ruleset \<Rightarrow> append_all_remotes N es ruleset)"

definition ruleset_header :: string where
  "ruleset_header = ''table inet '' @ NFT_TABLE_NAME @ '' {'' @ NL
     @ TAB @ ''chain output {'' @ NL
     @ TAB @ TAB @ ''type filter hook output priority 0; policy drop;'' @ NL
     @ TAB @ TAB @ ''oifname '' @ QUOTE @ ''lo'' @ QUOTE @ '' accept'' @ NL
     @ TAB @ TAB @ ''oifname '' @ QUOTE @ ''tun*'' @ QUOTE @ '' accept'' @ NL
     @ TAB @ TAB @ ''ct state established,related accept'' @ NL"

definition lan_rules :: string where
  "lan_rules = TAB @ TAB @ ''ip daddr { 10.0.0.0/8, 172.16.0.0/12, 192.168.0.0/16 } accept'' @ NL
     @ TAB @ TAB @ ''ip6 daddr { fe80::/10, fc00::/7 } accept'' @ NL"

definition ruleset_footer :: string where
  "ruleset_footer = TAB @ ''}'' @ NL @ ''}'' @ NL"

definition build_ruleset ::
  "'g fslib_scheme \<Rightarrow> 'n netlib_scheme \<Rightarrow> path \<Rightarrow> bool \<Rightarrow> fsys \<Rightarrow> (gerror + string) option" where
  "build_ruleset L N config_path allow_lan s =
     (case parse_remotes L config_path s of
        None \<Rightarrow> None
      | Some (Inl e) \<Rightarrow> Some (Inl e)
      | Some (Inr remotes) \<Rightarrow>
          (case append_resolver_rules L N s ruleset_header of
             None \<Rightarrow> None
           | Some ruleset \<Rightarrow>
               (case append_all_remotes N remotes ruleset of
                  Inl e \<Rightarrow> Some (Inl e)
                | Inr ruleset \<Rightarrow>
                    Some (Inr ((if allow_lan then ruleset @ lan_rules else ruleset)
                               @ ruleset_footer)))))"

definition run_nft ::
  "'n netlib_scheme \<Rightarrow> string list \<Rightarrow> fsys \<Rightarrow> nft_table \<Rightarrow> gerror option \<times> nft_table" where
  "run_nft N argv s k =
     (case g_spawn_sync N argv s k of
        (Inl e, k') \<Rightarrow> (Some e, k')
      | (Inr (None, stderr_buf), k') \<Rightarrow> (None, k')
      | (Inr (Some e, stderr_buf), k') \<Rightarrow>
          (if nonempty_str stderr_buf then (Some (GError G_SPAWN_ERROR E_FAILED (the stderr_buf)), k')
           else (Some e, k')))"

definition nft_missing_error :: gerror where
  "nft_missing_error = GError G_SPAWN_ERROR E_NOENT
     (''The '' @ lquo @ ''nft'' @ rquo @ '' binary is not installed; cannot enforce the kill switch.'')"

text \<open>The result has no error for the \<open>TRUE\<close> return.\<close>

definition nm_airvpn_firewall_arm ::
  "'g fslib_scheme \<Rightarrow> 'n netlib_scheme \<Rightarrow> path \<Rightarrow> bool \<Rightarrow> fsys \<Rightarrow> nft_table
     \<Rightarrow> (gerror option \<times> fsys \<times> nft_table) option" where
  "nm_airvpn_firewall_arm L N config_path allow_lan s k =
     (if \<not> nm_airvpn_firewall_available N then Some (Some nft_missing_error, s, k)
      else case build_ruleset L N config_path allow_lan s of
          None \<Rightarrow> None
        | Some (Inl e) \<Rightarrow> Some (Some e, s, k)
        | Some (Inr ruleset) \<Rightarrow>
            (let ruleset_path = g_build_filename L [NM_AIRVPN_STATEDIR N, RULESET_FILE_NAME];
                 (old_umask, s1) = set_umask o0077 s;
                 (wrote, s2) = g_file_set_contents L ruleset_path ruleset s1;
                 (_, s3) = set_umask old_umask s2
             in if wrote \<noteq> None then Some (wrote, s3, k)
                else (case run_nft N [''nft'', ''-f'', ruleset_path] s3 k of
                        (Some e, k') \<Rightarrow> Some (Some e, g_unlink L ruleset_path s3, k')
                      | (None, k') \<Rightarrow> Some (None, g_unlink L ruleset_path s3, k'))))"

definition nm_airvpn_firewall_disarm :: "'n netlib_scheme \<Rightarrow> fsys \<Rightarrow> nft_table \<Rightarrow> nft_table" where
  "nm_airvpn_firewall_disarm N s k =
     (if \<not> nm_airvpn_firewall_available N then k
      else snd (run_nft N [''nft'', ''delete'', ''table'', ''inet'', NFT_TABLE_NAME] s k))"

section \<open>Token vectors\<close>

definition ws :: "char \<Rightarrow> bool" where "ws x = (x \<in> set WS)"

lemma ws_iff: "ws x \<longleftrightarrow> x = CHR '' '' \<or> x = CHR 0x09"
  by (auto simp: ws_def WS_def TAB_def)

lemma ws_space: "ws x \<Longrightarrow> ascii_space x"
  by (auto simp: ws_iff ascii_space_def)

lemma tok_at_simps [simp]:
  "tok_at (t # ts) (Suc i) = tok_at ts i"
  "tok_at (t # ts) 0 = Some (Some t)"
  "tok_at [] 0 = Some None"
  "tok_at [] (Suc i) = None"
  by (simp_all add: tok_at_def)

lemma stripped_last:
  assumes "split_doc L" "g_strstrip L l \<noteq> []"
  shows "\<not> ascii_space (last (g_strstrip L l))"
  using assms hd_dropWhile [of ascii_space "rev (dropWhile ascii_space l)"]
  by (simp add: strstrip_eq [OF assms(1)] last_rev)

text \<open>A stripped line that starts with a keyword and a space has a second token.\<close>

lemma keyword_tokens:
  assumes "split_doc L" "has_prefix (g_strstrip L l) (w @ '' '')" "\<forall>x \<in> set w. \<not> ws x"
  obtains rest where "g_strstrip L l = w @ '' '' @ rest" "rest \<noteq> []"
    "\<not> ascii_space (last rest)"
    "g_strsplit_set L (g_strstrip L l) WS = w # split_by ws rest"
proof -
  from assms(2) obtain rest where r: "g_strstrip L l = w @ '' '' @ rest"
    by (auto simp: has_prefix_iff prefix_def)
  have ne: "rest \<noteq> []"
  proof
    assume "rest = []"
    with stripped_last [OF assms(1), of l] r show False by (simp add: ascii_space_def)
  qed
  have last: "\<not> ascii_space (last rest)" using stripped_last [OF assms(1), of l] r ne by simp
  have P: "(\<lambda>x. x \<in> set WS) = ws" by (rule ext) (simp add: ws_def)
  have "split_by ws (w @ CHR '' '' # rest) = split_by ws w @ split_by ws rest"
    by (rule split_by_append) (simp add: ws_iff)
  then have "g_strsplit_set L (g_strstrip L l) WS = w # split_by ws rest"
    unfolding strsplit_set_eq [OF assms(1)] P using r assms(3) by (simp add: split_by_none)
  with r ne last show thesis by (rule that)
qed

lemma scan_proto_defined:
  assumes "split_doc L"
  shows "scan_proto L ls d \<noteq> None"
proof (induction ls arbitrary: d)
  case (Cons l ls)
  show ?case
  proof (cases "has_prefix (g_strstrip L l) ''proto ''")
    case True
    then have "has_prefix (g_strstrip L l) (''proto'' @ '' '')" by simp
    then obtain rest where "g_strsplit_set L (g_strstrip L l) WS = ''proto'' # split_by ws rest"
      by (rule keyword_tokens [OF assms]) (auto simp: ws_iff)
    with Cons True show ?thesis by (cases "split_by ws rest") (auto simp: Let_def)
  qed (simp add: Cons Let_def)
qed simp

lemma resolver_lines_defined:
  assumes "split_doc L"
  shows "resolver_lines L N ls r \<noteq> None"
proof (induction ls arbitrary: r)
  case (Cons l ls)
  show ?case
  proof (cases "has_prefix (g_strstrip L l) ''nameserver ''")
    case True
    then have "has_prefix (g_strstrip L l) (''nameserver'' @ '' '')" by simp
    then obtain rest where "g_strsplit_set L (g_strstrip L l) WS = ''nameserver'' # split_by ws rest"
      by (rule keyword_tokens [OF assms]) (auto simp: ws_iff)
    with Cons True show ?thesis by (cases "split_by ws rest") (auto simp: Let_def)
  qed (simp add: Cons Let_def)
qed simp

text \<open>A \<open>remote\<close> line without a port field.\<close>

definition bare_remote :: "'g glib_scheme \<Rightarrow> string \<Rightarrow> bool" where
  "bare_remote L l \<longleftrightarrow> (\<exists>host. host \<noteq> [] \<and> (\<forall>x \<in> set host. \<not> ws x)
     \<and> g_strstrip L l = ''remote '' @ host)"

lemma remote_of_line_None_iff:
  assumes "split_doc L"
  shows "remote_of_line L d l = None \<longleftrightarrow> bare_remote L l"
proof (cases "has_prefix (g_strstrip L l) ''remote ''")
  case pre: True
  then have "has_prefix (g_strstrip L l) (''remote'' @ '' '')" by simp
  then obtain rest where r: "g_strstrip L l = ''remote'' @ '' '' @ rest" "rest \<noteq> []"
    "\<not> ascii_space (last rest)"
    "g_strsplit_set L (g_strstrip L l) WS = ''remote'' # split_by ws rest"
    by (rule keyword_tokens [OF assms]) (auto simp: ws_iff)
  have bare: "bare_remote L l \<longleftrightarrow> (\<forall>x \<in> set rest. \<not> ws x)"
    using r(1,2) by (auto simp: bare_remote_def)
  show ?thesis
  proof (cases "\<forall>x \<in> set rest. \<not> ws x")
    case True
    with r pre bare show ?thesis
      by (simp add: remote_of_line_def split_by_none Let_def numeral_2_eq_2 numeral_3_eq_3)
  next
    case False
    then have "filter ws rest \<noteq> []" by (simp add: filter_empty_conv)
    then have "2 \<le> length (split_by ws rest)" by (cases "filter ws rest") (simp_all add: length_split_by)
    then obtain a b ts where "split_by ws rest = a # b # ts"
      by (cases "split_by ws rest" rule: list.exhaust; cases "tl (split_by ws rest)") auto
    with r pre bare False show ?thesis
      by (cases ts) (simp_all add: remote_of_line_def Let_def numeral_2_eq_2 numeral_3_eq_3)
  qed
next
  case False
  then show ?thesis
    by (auto simp: remote_of_line_def bare_remote_def Let_def has_prefix_def)
qed

lemma scan_remotes_None_iff:
  assumes "split_doc L"
  shows "scan_remotes L d ls acc = None \<longleftrightarrow> (\<exists>l \<in> set ls. bare_remote L l)"
  by (induction ls arbitrary: acc)
    (auto simp: remote_of_line_None_iff [OF assms, of d, symmetric] split: option.splits)

lemma bare_remote_strip: "split_doc L \<Longrightarrow> bare_remote L (g_strstrip L l) = bare_remote L l"
  by (simp add: bare_remote_def strip_idem)

section \<open>The parser\<close>

text \<open>What the two loops compute, without accumulators.\<close>

definition entries_of :: "'g glib_scheme \<Rightarrow> cstr \<Rightarrow> string list \<Rightarrow> remote_entry list" where
  "entries_of L d ls = concat (map (\<lambda>l. case remote_of_line L d l of
      Some (Some e) \<Rightarrow> [e] | _ \<Rightarrow> []) ls)"

lemma scan_remotes_eq:
  "scan_remotes L d ls acc = Some rs \<Longrightarrow> rs = rev (entries_of L d ls) @ acc"
  by (induction ls arbitrary: acc) (auto simp: entries_of_def split: option.splits)

lemma scan_remotes_SomeI:
  assumes "\<forall>l \<in> set ls. remote_of_line L d l \<noteq> None"
  shows "scan_remotes L d ls acc = Some (rev (entries_of L d ls) @ acc)"
  using assms by (induction ls arbitrary: acc) (auto simp: entries_of_def split: option.splits)

definition default_proto :: "cstr \<Rightarrow> string" where
  "default_proto d = (case d of Some p \<Rightarrow> p | None \<Rightarrow> PROTOCOL_UDP)"

definition plain_field :: "string \<Rightarrow> bool" where
  "plain_field f \<longleftrightarrow> f \<noteq> [] \<and> (\<forall>x \<in> set f. \<not> ascii_space x)"

definition token_field :: "string \<Rightarrow> bool" where
  "token_field f \<longleftrightarrow> f \<noteq> [] \<and> (\<forall>x \<in> set f. \<not> ws x)"

lemma tok_at_field:
  assumes "split_doc L" "s \<noteq> []" "tok_at (g_strsplit_set L s WS) i = Some t" "nonempty_str t"
  shows "token_field (the t)"
proof -
  have P: "(\<lambda>x. x \<in> set WS) = ws" by (rule ext) (simp add: ws_def)
  from assms(3,4) have "the t \<in> set (g_strsplit_set L s WS)" "the t \<noteq> []"
    by (auto simp: tok_at_def split: if_splits)
  then show ?thesis
    using split_by_tokens [of ws s] assms(2)
    by (auto simp: token_field_def strsplit_set_eq [OF assms(1)] P)
qed

lemma has_prefix_nonempty: "has_prefix s p \<Longrightarrow> p \<noteq> [] \<Longrightarrow> s \<noteq> []"
  by (auto simp: has_prefix_def)

lemma default_token_fields: "token_field DEFAULT_PORT" "token_field PROTOCOL_UDP"
  by (simp_all add: token_field_def DEFAULT_PORT_def PROTOCOL_UDP_def ws_iff)

lemma field_or_token:
  assumes "split_doc L" "s \<noteq> []" "tok_at (g_strsplit_set L s WS) i = Some t" "token_field d"
  shows "token_field (field_or t d)"
  using tok_at_field [OF assms(1-3)] assms(4) by (simp add: field_or_def)

lemma scan_proto_token:
  assumes "split_doc L" "scan_proto L ls d = Some p" "token_field (default_proto d)"
  shows "token_field (default_proto p)"
  using assms(2,3)
proof (induction ls arbitrary: d)
  case (Cons l ls)
  show ?case
  proof (cases "has_prefix (g_strstrip L l) ''proto ''")
    case True
    then have ne: "g_strstrip L l \<noteq> []" by (rule has_prefix_nonempty) simp
    from Cons.prems True obtain t where t: "tok_at (g_strsplit_set L (g_strstrip L l) WS) 1 = Some t"
      by (auto simp: Let_def split: option.splits)
    show ?thesis
    proof (cases "nonempty_str t")
      case True
      with tok_at_field [OF assms(1) ne t] have "token_field (default_proto t)"
        by (auto simp: default_proto_def nonempty_str_def split: option.splits)
      with Cons.IH [of t] Cons.prems True t \<open>has_prefix _ _\<close> show ?thesis by (simp add: Let_def)
    next
      case False
      with Cons t \<open>has_prefix _ _\<close> show ?thesis by (simp add: Let_def)
    qed
  next
    case False
    with Cons show ?thesis by (simp add: Let_def)
  qed
qed simp

lemma remote_of_line_token:
  assumes "split_doc L" "remote_of_line L d l = Some (Some e)" "token_field (default_proto d)"
  shows "token_field (re_host e)" "token_field (re_port e)" "token_field (re_proto e)"
proof -
  let ?ts = "g_strsplit_set L (g_strstrip L l) WS"
  from assms(2) have pre: "has_prefix (g_strstrip L l) ''remote ''"
    by (auto simp: remote_of_line_def Let_def split: if_splits)
  then have ne: "g_strstrip L l \<noteq> []" by (rule has_prefix_nonempty) simp
  from assms(2) pre obtain t1 t2 t3 where t: "tok_at ?ts 1 = Some t1" "nonempty_str t1"
    "tok_at ?ts 2 = Some t2" "tok_at ?ts 3 = Some t3"
    and e: "e = \<lparr>re_host = the t1, re_port = field_or t2 DEFAULT_PORT,
                 re_proto = field_or t3 (default_proto d)\<rparr>"
    by (auto simp: remote_of_line_def default_proto_def Let_def split: option.splits if_splits)
  show "token_field (re_host e)" using tok_at_field [OF assms(1) ne t(1,2)] e by simp
  show "token_field (re_port e)"
    using field_or_token [OF assms(1) ne t(3) default_token_fields(1)] e by simp
  show "token_field (re_proto e)"
    using field_or_token [OF assms(1) ne t(4) assms(3)] e by simp
qed

lemma parse_remotesE:
  assumes "parse_remotes L p s = Some (Inr remotes)"
  obtains contents d where "g_file_get_contents L p s = Inr contents"
    "scan_proto L (g_strsplit L contents NL) None = Some d"
    "remotes = entries_of L d (map (g_strstrip L) (g_strsplit L contents NL))" "remotes \<noteq> []"
proof -
  from assms obtain contents where c: "g_file_get_contents L p s = Inr contents"
    by (auto simp: parse_remotes_def split: sum.splits)
  let ?lines = "g_strsplit L contents NL"
  from assms c obtain d where d: "scan_proto L ?lines None = Some d"
    by (auto simp: parse_remotes_def Let_def split: option.splits)
  from assms c d obtain rs where rs: "scan_remotes L d (map (g_strstrip L) ?lines) [] = Some rs"
    "remotes = rev rs" "rs \<noteq> []"
    by (auto simp: parse_remotes_def Let_def split: option.splits if_splits)
  from scan_remotes_eq [OF rs(1)] rs(2,3) show thesis by (intro that [OF c d]) auto
qed

subsection \<open>Configuration files line by line\<close>

datatype cfg_line = RemoteFull string string string | RemoteShort string string
  | ProtoLine string | OtherLine string

fun show_line :: "cfg_line \<Rightarrow> string" where
  "show_line (RemoteFull h p pr) = ''remote '' @ h @ '' '' @ p @ '' '' @ pr"
| "show_line (RemoteShort h p) = ''remote '' @ h @ '' '' @ p"
| "show_line (ProtoLine pr) = ''proto '' @ pr"
| "show_line (OtherLine s) = s"

fun ok_line :: "'g glib_scheme \<Rightarrow> cfg_line \<Rightarrow> bool" where
  "ok_line L (RemoteFull h p pr) = (plain_field h \<and> plain_field p \<and> plain_field pr)"
| "ok_line L (RemoteShort h p) = (plain_field h \<and> plain_field p)"
| "ok_line L (ProtoLine pr) = plain_field pr"
| "ok_line L (OtherLine s) = (CHR 0x0A \<notin> set s \<and> \<not> has_prefix (g_strstrip L s) ''remote ''
     \<and> \<not> has_prefix (g_strstrip L s) ''proto '')"

fun join_lines :: "string list \<Rightarrow> string" where
  "join_lines [] = []"
| "join_lines [l] = l"
| "join_lines (l # ls) = l @ NL @ join_lines ls"

text \<open>The protocol of the last \<open>proto\<close> line; it applies to remotes before it as well.\<close>

fun last_proto :: "cfg_line list \<Rightarrow> cstr \<Rightarrow> cstr" where
  "last_proto [] d = d"
| "last_proto (ProtoLine p # ls) d = last_proto ls (Some p)"
| "last_proto (_ # ls) d = last_proto ls d"

fun line_entries :: "string \<Rightarrow> cfg_line \<Rightarrow> remote_entry list" where
  "line_entries d (RemoteFull h p pr) = [\<lparr>re_host = h, re_port = p, re_proto = pr\<rparr>]"
| "line_entries d (RemoteShort h p) = [\<lparr>re_host = h, re_port = p, re_proto = d\<rparr>]"
| "line_entries d _ = []"

lemma split_join_lines:
  assumes "ls \<noteq> []" "\<forall>l \<in> set ls. CHR 0x0A \<notin> set l"
  shows "split_by (\<lambda>x. x = CHR 0x0A) (join_lines ls) = ls"
  using assms
proof (induction ls rule: join_lines.induct)
  case (2 l)
  then have "\<forall>x \<in> set l. x \<noteq> CHR 0x0A" by auto
  then show ?case unfolding join_lines.simps by (rule split_by_none)
next
  case (3 l l' ls)
  have "split_by (\<lambda>x. x = CHR 0x0A) (l @ CHR 0x0A # join_lines (l' # ls))
      = split_by (\<lambda>x. x = CHR 0x0A) l @ split_by (\<lambda>x. x = CHR 0x0A) (join_lines (l' # ls))"
    by (rule split_by_append) simp
  moreover have "split_by (\<lambda>x. x = CHR 0x0A) l = [l]"
    using 3 by (intro split_by_none) auto
  ultimately show ?case using 3 by (simp add: NL_def)
qed simp

lemma plain_field_facts:
  assumes "plain_field f"
  shows "f \<noteq> []" "\<not> ascii_space (last f)" "\<forall>x \<in> set f. \<not> ws x" "CHR 0x0A \<notin> set f"
    "split_by ws f = [f]"
proof -
  show "f \<noteq> []" "\<not> ascii_space (last f)" "CHR 0x0A \<notin> set f"
    using assms by (auto simp: plain_field_def ascii_space_def)
  show "\<forall>x \<in> set f. \<not> ws x" using assms ws_space by (auto simp: plain_field_def)
  then show "split_by ws f = [f]" by (rule split_by_none)
qed

lemma split_field:
  assumes "plain_field f"
  shows "split_by ws (f @ CHR '' '' # r) = f # split_by ws r"
  using split_by_append [of ws "CHR '' ''" f r] plain_field_facts [OF assms] by (simp add: ws_iff)

lemma strip_show:
  assumes "split_doc L" "\<forall>s. l \<noteq> OtherLine s" "ok_line L l"
  shows "g_strstrip L (show_line l) = show_line l"
proof (rule strip_id [OF assms(1)])
  have "\<not> ascii_space (CHR ''r'')" "\<not> ascii_space (CHR ''p'')" by (simp_all add: ascii_space_def)
  then show "show_line l = [] \<or> \<not> ascii_space (hd (show_line l)) \<and> \<not> ascii_space (last (show_line l))"
    using assms(2,3) by (cases l) (auto simp: plain_field_facts)
qed

lemma tokens_show:
  assumes "split_doc L" "s \<noteq> []"
  shows "g_strsplit_set L s WS = split_by ws s"
proof -
  have "(\<lambda>x. x \<in> set WS) = ws" by (rule ext) (simp add: ws_def)
  with assms show ?thesis by (simp add: strsplit_set_eq)
qed

lemma show_tokens:
  assumes "plain_field h" "plain_field p" "plain_field pr"
  shows "split_by ws (show_line (RemoteFull h p pr)) = [''remote'', h, p, pr]"
    and "split_by ws (show_line (RemoteShort h p)) = [''remote'', h, p]"
    and "split_by ws (show_line (ProtoLine pr)) = [''proto'', pr]"
  using assms by (simp_all add: ws_iff split_field plain_field_facts)

lemma scan_proto_show:
  assumes "split_doc L" "\<forall>l \<in> set ls. ok_line L l"
  shows "scan_proto L (map show_line ls) d = Some (last_proto ls d)"
  using assms(2)
proof (induction ls arbitrary: d)
  case (Cons l ls)
  then have ok: "ok_line L l" and ih: "\<And>d. scan_proto L (map show_line ls) d = Some (last_proto ls d)"
    by simp_all
  note strip = strip_show [OF assms(1) _ ok]
  show ?case
  proof (cases l)
    case (ProtoLine p)
    with ok have p: "plain_field p" by simp
    have "g_strsplit_set L (show_line l) WS = [''proto'', p]"
      unfolding ProtoLine
      by (subst tokens_show [OF assms(1)]) (simp_all add: show_tokens(3) [OF p p p, simplified])
    with strip ih p ProtoLine show ?thesis by (simp add: Let_def has_prefix_def plain_field_facts)
  next
    case (OtherLine s)
    with ok ih show ?thesis by (simp add: Let_def)
  qed (use strip ih in \<open>simp_all add: Let_def has_prefix_def\<close>)
qed simp

lemma remote_of_show:
  assumes "split_doc L" "ok_line L l"
  shows "remote_of_line L d (show_line l) = Some (case line_entries (default_proto d) l of
           [] \<Rightarrow> None | e # _ \<Rightarrow> Some e)"
proof (cases l)
  case (RemoteFull h p pr)
  with assms have f: "plain_field h" "plain_field p" "plain_field pr" by simp_all
  have "g_strsplit_set L (show_line l) WS = [''remote'', h, p, pr]"
    unfolding RemoteFull by (subst tokens_show [OF assms(1)]) (simp_all only: show_tokens [OF f], simp)
  with strip_show [OF assms(1) _ assms(2)] RemoteFull f show ?thesis
    by (simp add: remote_of_line_def has_prefix_def field_or_def plain_field_facts Let_def
        numeral_2_eq_2 numeral_3_eq_3)
next
  case (RemoteShort h p)
  with assms have f: "plain_field h" "plain_field p" by simp_all
  have "g_strsplit_set L (show_line l) WS = [''remote'', h, p]"
    unfolding RemoteShort
    by (subst tokens_show [OF assms(1)]) (simp_all only: show_tokens(2) [OF f f(1)], simp)
  with strip_show [OF assms(1) _ assms(2)] RemoteShort f show ?thesis
    by (simp add: remote_of_line_def has_prefix_def field_or_def plain_field_facts Let_def
        default_proto_def numeral_2_eq_2 numeral_3_eq_3)
next
  case (ProtoLine p)
  with strip_show [OF assms(1) _ assms(2)] show ?thesis
    by (simp add: remote_of_line_def has_prefix_def)
next
  case (OtherLine s)
  with assms(2) show ?thesis by (simp add: remote_of_line_def Let_def)
qed

lemma remote_of_strip:
  "split_doc L \<Longrightarrow> remote_of_line L d (g_strstrip L l) = remote_of_line L d l"
  by (simp add: remote_of_line_def strip_idem)

lemma entries_strip:
  "split_doc L \<Longrightarrow> entries_of L d (map (g_strstrip L) ls) = entries_of L d ls"
  by (simp add: entries_of_def remote_of_strip comp_def)

lemma entries_show:
  assumes "split_doc L" "\<forall>l \<in> set ls. ok_line L l"
  shows "entries_of L d (map show_line ls) = concat (map (line_entries (default_proto d)) ls)"
proof -
  have "(case remote_of_line L d (show_line l) of Some (Some e) \<Rightarrow> [e] | _ \<Rightarrow> [])
      = line_entries (default_proto d) l" if "ok_line L l" for l
    unfolding remote_of_show [OF assms(1) that] by (cases l) simp_all
  with assms(2) show ?thesis
    unfolding entries_of_def map_map comp_def by (intro arg_cong [where f = concat] map_cong) auto
qed

lemma show_no_newline: "ok_line L l \<Longrightarrow> CHR 0x0A \<notin> set (show_line l)"
  by (cases l) (auto simp: plain_field_facts)

lemma lines_of_config:
  assumes "split_doc L" "ls \<noteq> []" "\<forall>l \<in> set ls. ok_line L l" "join_lines (map show_line ls) \<noteq> []"
  shows "g_strsplit L (join_lines (map show_line ls)) NL = map show_line ls"
proof -
  have "split_by (\<lambda>x. x = CHR 0x0A) (join_lines (map show_line ls)) = map show_line ls"
    using assms(2,3) by (intro split_join_lines) (auto dest: show_no_newline)
  with assms(4) show ?thesis by (simp add: NL_def strsplit_eq [OF assms(1)])
qed

lemma join_lines_empty:
  "join_lines (map show_line ls) = [] \<Longrightarrow> ls \<noteq> [] \<Longrightarrow> ls = [OtherLine []]"
proof (cases ls)
  case (Cons l ls')
  assume e: "join_lines (map show_line ls) = []"
  with Cons have "ls' = [] \<and> show_line l = []" by (cases ls') (simp_all add: NL_def)
  with Cons show ?thesis by (cases l) simp_all
qed simp

lemma parse_config_nonempty:
  assumes "split_doc L" "ls \<noteq> []" "\<forall>l \<in> set ls. ok_line L l" "join_lines (map show_line ls) \<noteq> []"
    and "g_file_get_contents L p s = Inr (join_lines (map show_line ls))"
    and "rs = concat (map (line_entries (default_proto (last_proto ls None))) ls)"
  shows "parse_remotes L p s = Some (if rs = [] then Inl no_remote_error else Inr rs)"
proof -
  note lines = lines_of_config [OF assms(1-4)]
  let ?d = "last_proto ls None"
  have strip: "\<forall>l \<in> set (map (g_strstrip L) (map show_line ls)). remote_of_line L ?d l \<noteq> None"
    using assms(3) by (auto simp: remote_of_strip [OF assms(1)] remote_of_show [OF assms(1)])
  have "entries_of L ?d (map (g_strstrip L) (map show_line ls)) = rs"
    unfolding entries_strip [OF assms(1)] entries_show [OF assms(1,3)] assms(6) ..
  with scan_remotes_SomeI [OF strip, of "[]"] show ?thesis
    using assms(5) scan_proto_show [OF assms(1,3), of None]
    by (simp add: parse_remotes_def lines Let_def)
qed

section \<open>The ruleset\<close>

text \<open>Accept rules without their syntax.\<close>

datatype nft_rule = Rule (rule_v6: bool) (rule_addr: string) (rule_proto: string) (rule_port: string)

definition render_rule :: "nft_rule \<Rightarrow> string" where
  "render_rule r = accept_rule (rule_v6 r) (rule_addr r) (rule_proto r) (rule_port r)"

definition render_ruleset :: "nft_rule list \<Rightarrow> bool \<Rightarrow> string" where
  "render_ruleset rs allow_lan = ruleset_header @ concat (map render_rule rs)
     @ (if allow_lan then lan_rules else []) @ ruleset_footer"

definition dns_rules :: "'g glib_scheme \<Rightarrow> 'n netlib_scheme \<Rightarrow> string \<Rightarrow> nft_rule list" where
  "dns_rules L N l =
     (if has_prefix (g_strstrip L l) ''nameserver '' then
        (case g_strsplit_set L (g_strstrip L l) WS of
           _ # a # _ \<Rightarrow>
             if a \<noteq> [] \<and> g_hostname_is_ip_address N a
             then [Rule (strchr a (CHR '':'') \<noteq> None) a ''udp'' ''53'',
                   Rule (strchr a (CHR '':'') \<noteq> None) a ''tcp'' ''53'']
             else []
         | _ \<Rightarrow> [])
      else [])"

definition resolv_rules :: "'g fslib_scheme \<Rightarrow> 'n netlib_scheme \<Rightarrow> fsys \<Rightarrow> nft_rule list" where
  "resolv_rules L N s =
     (case g_file_get_contents L RESOLV_CONF s of
        Inl _ \<Rightarrow> []
      | Inr contents \<Rightarrow> concat (map (dns_rules L N) (g_strsplit L contents NL)))"

text \<open>The addresses of a remote: its own when it is a literal, else what the resolver says.\<close>

definition addresses_of :: "'n netlib_scheme \<Rightarrow> string \<Rightarrow> gerror + (string \<times> bool) list" where
  "addresses_of N h =
     (if g_hostname_is_ip_address N h then Inr [(h, g_inet_address_is_v6 N h)]
      else g_resolver_lookup_by_name N h)"

definition remote_rules :: "'n netlib_scheme \<Rightarrow> remote_entry \<Rightarrow> nft_rule list" where
  "remote_rules N e =
     (case addresses_of N (re_host e) of
        Inl _ \<Rightarrow> []
      | Inr as \<Rightarrow> map (\<lambda>(a, v6). Rule v6 a (nft_proto (re_proto e)) (re_port e)) as)"

lemma resolver_lines_eq:
  assumes "split_doc L"
  shows "resolver_lines L N ls r = Some (r @ concat (map render_rule (concat (map (dns_rules L N) ls))))"
proof (induction ls arbitrary: r)
  case (Cons l ls)
  show ?case
  proof (cases "has_prefix (g_strstrip L l) ''nameserver ''")
    case True
    then have "has_prefix (g_strstrip L l) (''nameserver'' @ '' '')" by simp
    then obtain rest where "g_strsplit_set L (g_strstrip L l) WS = ''nameserver'' # split_by ws rest"
      by (rule keyword_tokens [OF assms]) (auto simp: ws_iff)
    with Cons True show ?thesis
      by (cases "split_by ws rest") (simp_all add: Let_def dns_rules_def render_rule_def)
  next
    case False
    with Cons show ?thesis by (simp add: Let_def dns_rules_def)
  qed
qed simp

lemma append_resolver_eq:
  "split_doc L \<Longrightarrow> append_resolver_rules L N s r
     = Some (r @ concat (map render_rule (resolv_rules L N s)))"
  by (auto simp: append_resolver_rules_def resolv_rules_def resolver_lines_eq split: sum.splits)

lemma append_addresses_eq:
  "append_addresses proto port as r
     = r @ concat (map render_rule (map (\<lambda>(a, v6). Rule v6 a proto port) as))"
  by (induction as arbitrary: r) (auto simp: render_rule_def)

lemma append_remote_eq:
  "append_remote_rules N e r =
     (case addresses_of N (re_host e) of Inl err \<Rightarrow> Inl err
      | Inr _ \<Rightarrow> Inr (r @ concat (map render_rule (remote_rules N e))))"
  by (auto simp: append_remote_rules_def addresses_of_def remote_rules_def Let_def
      append_addresses_eq render_rule_def split: sum.splits)

text \<open>The first remote that does not resolve decides the error.\<close>

fun first_error :: "'n netlib_scheme \<Rightarrow> remote_entry list \<Rightarrow> gerror option" where
  "first_error N [] = None"
| "first_error N (e # es) =
     (case addresses_of N (re_host e) of Inl err \<Rightarrow> Some err | Inr _ \<Rightarrow> first_error N es)"

lemma first_error_None:
  "first_error N es = None \<Longrightarrow> \<forall>e \<in> set es. \<exists>as. addresses_of N (re_host e) = Inr as"
  by (induction es) (auto split: sum.splits)

lemma append_all_eq:
  "append_all_remotes N es r =
     (case first_error N es of Some err \<Rightarrow> Inl err
      | None \<Rightarrow> Inr (r @ concat (map render_rule (concat (map (remote_rules N) es)))))"
  by (induction es arbitrary: r) (auto simp: append_remote_eq split: sum.splits option.splits)

definition ruleset_spec ::
  "'g fslib_scheme \<Rightarrow> 'n netlib_scheme \<Rightarrow> path \<Rightarrow> bool \<Rightarrow> fsys \<Rightarrow> (gerror + string) option" where
  "ruleset_spec L N p allow_lan s = map_option (\<lambda>r. case r of
       Inl e \<Rightarrow> Inl e
     | Inr remotes \<Rightarrow> (case first_error N remotes of
         Some e \<Rightarrow> Inl e
       | None \<Rightarrow> Inr (render_ruleset (resolv_rules L N s @ concat (map (remote_rules N) remotes))
                    allow_lan)))
     (parse_remotes L p s)"

lemma build_ruleset_spec: "split_doc L \<Longrightarrow> build_ruleset L N p allow_lan s = ruleset_spec L N p allow_lan s"
  by (auto simp: build_ruleset_def ruleset_spec_def append_resolver_eq append_all_eq
      render_ruleset_def split: option.splits sum.splits)

text \<open>
  What the configuration asks for, without the loops: \<open>a\<close> is the second word of a \<open>nameserver\<close>
  line of \<open>/etc/resolv.conf\<close> and an address literal; the two rules of each such \<open>a\<close>, and one rule
  per address of each remote, for its protocol and port.
\<close>

definition lists_nameserver :: "'g fslib_scheme \<Rightarrow> 'n netlib_scheme \<Rightarrow> fsys \<Rightarrow> string \<Rightarrow> bool" where
  "lists_nameserver L N s a \<longleftrightarrow> a \<noteq> [] \<and> g_hostname_is_ip_address N a \<and>
     (\<exists>contents line. g_file_get_contents L RESOLV_CONF s = Inr contents
        \<and> line \<in> set (g_strsplit L contents NL) \<and> has_prefix (g_strstrip L line) ''nameserver ''
        \<and> tok_at (g_strsplit_set L (g_strstrip L line) WS) 1 = Some (Some a))"

definition admitted_rules ::
  "'g fslib_scheme \<Rightarrow> 'n netlib_scheme \<Rightarrow> fsys \<Rightarrow> remote_entry list \<Rightarrow> nft_rule set" where
  "admitted_rules L N s remotes =
     {Rule (strchr a (CHR '':'') \<noteq> None) a proto ''53'' | a proto.
        lists_nameserver L N s a \<and> proto \<in> {''udp'', ''tcp''}}
   \<union> {Rule v6 a (nft_proto (re_proto e)) (re_port e) | e as a v6.
        e \<in> set remotes \<and> addresses_of N (re_host e) = Inr as \<and> (a, v6) \<in> set as}"

lemma two_rules_iff:
  "r \<in> set (case ts of _ # a # _ \<Rightarrow> if ok a then [R a u, R a v] else [] | _ \<Rightarrow> []) \<longleftrightarrow>
     (\<exists>a p. r = R a p \<and> p \<in> {u, v} \<and> ok a \<and> tok_at ts 1 = Some (Some a))"
proof (cases ts)
  case Nil
  then show ?thesis by (simp add: tok_at_def)
next
  case (Cons t us)
  show ?thesis
  proof (cases us)
    case (Cons b vs)
    have "tok_at ts 1 = Some (Some a) \<longleftrightarrow> a = b" for a
      by (simp add: \<open>ts = t # us\<close> Cons tok_at_def eq_commute)
    with \<open>ts = t # us\<close> Cons show ?thesis by auto
  qed (simp add: \<open>ts = t # us\<close> tok_at_def)
qed

lemma dns_rules_iff:
  "r \<in> set (dns_rules L N line) \<longleftrightarrow>
     has_prefix (g_strstrip L line) ''nameserver '' \<and>
     (\<exists>a proto. r = Rule (strchr a (CHR '':'') \<noteq> None) a proto ''53'' \<and> proto \<in> {''udp'', ''tcp''}
        \<and> (a \<noteq> [] \<and> g_hostname_is_ip_address N a)
        \<and> tok_at (g_strsplit_set L (g_strstrip L line) WS) 1 = Some (Some a))"
proof (cases "has_prefix (g_strstrip L line) ''nameserver ''")
  case True
  then have "dns_rules L N line = (case g_strsplit_set L (g_strstrip L line) WS of
      _ # a # _ \<Rightarrow> if a \<noteq> [] \<and> g_hostname_is_ip_address N a
        then [Rule (strchr a (CHR '':'') \<noteq> None) a ''udp'' ''53'', Rule (strchr a (CHR '':'') \<noteq> None) a ''tcp'' ''53'']
        else [] | _ \<Rightarrow> [])"
    by (simp add: dns_rules_def)
  with True show ?thesis
    using two_rules_iff [where r = r and ts = "g_strsplit_set L (g_strstrip L line) WS"
        and ok = "\<lambda>a. a \<noteq> [] \<and> g_hostname_is_ip_address N a" and u = "''udp''" and v = "''tcp''"
        and R = "\<lambda>a proto. Rule (strchr a (CHR '':'') \<noteq> None) a proto ''53''"]
    by (simp only: True_implies_equals simp_thms)
qed (simp add: dns_rules_def)

lemma resolv_rules_set:
  "set (resolv_rules L N s) = {Rule (strchr a (CHR '':'') \<noteq> None) a proto ''53'' | a proto.
     lists_nameserver L N s a \<and> proto \<in> {''udp'', ''tcp''}}"
proof (cases "g_file_get_contents L RESOLV_CONF s")
  case (Inl e)
  then show ?thesis by (simp add: resolv_rules_def lists_nameserver_def)
next
  case (Inr contents)
  have r: "r \<in> set (resolv_rules L N s) \<longleftrightarrow>
      (\<exists>line \<in> set (g_strsplit L contents NL). r \<in> set (dns_rules L N line))" for r
    by (simp add: resolv_rules_def Inr)
  have l: "lists_nameserver L N s a \<longleftrightarrow> a \<noteq> [] \<and> g_hostname_is_ip_address N a \<and>
     (\<exists>line \<in> set (g_strsplit L contents NL). has_prefix (g_strstrip L line) ''nameserver ''
        \<and> tok_at (g_strsplit_set L (g_strstrip L line) WS) 1 = Some (Some a))" for a
    by (auto simp: lists_nameserver_def Inr)
  show ?thesis
    by (rule set_eqI) (unfold mem_Collect_eq r dns_rules_iff l, blast)
qed

lemma remote_rules_set:
  "set (remote_rules N e) = {Rule v6 a (nft_proto (re_proto e)) (re_port e) | as a v6.
     addresses_of N (re_host e) = Inr as \<and> (a, v6) \<in> set as}"
  by (cases "addresses_of N (re_host e)") (auto simp: remote_rules_def)

lemma all_rules_set:
  "set (resolv_rules L N s @ concat (map (remote_rules N) remotes)) = admitted_rules L N s remotes"
  unfolding admitted_rules_def set_append resolv_rules_set set_concat set_map UN_simps remote_rules_set
  by blast

section \<open>Loading and removing the table\<close>

definition DELETE_TABLE :: "string list" where
  "DELETE_TABLE = [''nft'', ''delete'', ''table'', ''inet'', NFT_TABLE_NAME]"

text \<open>
  Documented behaviour of \<open>nft\<close>: a command that fails changes nothing (a file is loaded as one
  transaction), \<open>-f\<close> adds the rules of the file to the table it names, \<open>delete table\<close>
  removes it. \<open>nft_delete_doc\<close>: a table that exists can be deleted.
\<close>

definition nft_doc :: "'n netlib_scheme \<Rightarrow> bool" where
  "nft_doc N \<longleftrightarrow>
     (\<forall>argv s k e k'. g_spawn_sync N argv s k = (Inl e, k') \<longrightarrow> k' = k)
   \<and> (\<forall>argv s k e b k'. g_spawn_sync N argv s k = (Inr (Some e, b), k') \<longrightarrow> k' = k)
   \<and> (\<forall>p s f k b k'. g_spawn_sync N [''nft'', ''-f'', p] s k = (Inr (None, b), k')
        \<and> fs_files s p = Some f \<and> has_prefix (f_text f) ruleset_header \<longrightarrow> k' = k @ [f_text f])
   \<and> (\<forall>s k b k'. g_spawn_sync N DELETE_TABLE s k = (Inr (None, b), k') \<longrightarrow> k' = [])"

definition nft_delete_doc :: "'n netlib_scheme \<Rightarrow> bool" where
  "nft_delete_doc N \<longleftrightarrow> (\<forall>s k. k \<noteq> [] \<longrightarrow> (\<exists>b k'. g_spawn_sync N DELETE_TABLE s k = (Inr (None, b), k')))"

lemma nft_docD:
  assumes "nft_doc N"
  shows spawn_failed: "g_spawn_sync N argv s k = (Inl e, k') \<Longrightarrow> k' = k"
    and nft_failed: "g_spawn_sync N argv s k = (Inr (Some e, b), k') \<Longrightarrow> k' = k"
    and nft_loaded: "g_spawn_sync N [''nft'', ''-f'', p] s k = (Inr (None, b), k') \<Longrightarrow>
      fs_files s p = Some f \<Longrightarrow> has_prefix (f_text f) ruleset_header \<Longrightarrow> k' = k @ [f_text f]"
    and nft_deleted: "g_spawn_sync N DELETE_TABLE s k = (Inr (None, b), k') \<Longrightarrow> k' = []"
proof -
  note d1 = assms [unfolded nft_doc_def]
  note d2 = conjunct2 [OF d1] note d3 = conjunct2 [OF d2]
  show "g_spawn_sync N argv s k = (Inl e, k') \<Longrightarrow> k' = k"
    by (rule conjunct1 [OF d1, rule_format])
  show "g_spawn_sync N argv s k = (Inr (Some e, b), k') \<Longrightarrow> k' = k"
    by (rule conjunct1 [OF d2, rule_format])
  show "g_spawn_sync N [''nft'', ''-f'', p] s k = (Inr (None, b), k') \<Longrightarrow>
      fs_files s p = Some f \<Longrightarrow> has_prefix (f_text f) ruleset_header \<Longrightarrow> k' = k @ [f_text f]"
    by (rule conjunct1 [OF d3, rule_format]) (intro conjI)
  show "g_spawn_sync N DELETE_TABLE s k = (Inr (None, b), k') \<Longrightarrow> k' = []"
    by (rule conjunct2 [OF d3, rule_format])
qed

lemma run_nft_fail:
  assumes "nft_doc N" "run_nft N argv s k = (Some e, k')"
  shows "k' = k"
  using assms(2)
  by (auto simp: run_nft_def dest: spawn_failed [OF assms(1)] nft_failed [OF assms(1)]
      split: sum.splits option.splits if_splits prod.splits)

lemma run_nft_ok:
  assumes "run_nft N argv s k = (None, k')"
  obtains b where "g_spawn_sync N argv s k = (Inr (None, b), k')"
  using assms by (auto simp: run_nft_def split: prod.splits sum.splits option.splits if_splits)

lemma build_ruleset_header:
  assumes "split_doc L" "build_ruleset L N p allow_lan s = Some (Inr r)"
  shows "has_prefix r ruleset_header"
proof -
  from assms(2) obtain x where "parse_remotes L p s = Some (Inr x)" "first_error N x = None"
    unfolding build_ruleset_spec [OF assms(1)] ruleset_spec_def map_option_eq_Some
    by (elim exE conjE, rename_tac z, case_tac z) (auto split: option.splits)
  with assms(2) have "r = render_ruleset (resolv_rules L N s @ concat (map (remote_rules N) x)) allow_lan"
    unfolding build_ruleset_spec [OF assms(1)] ruleset_spec_def by simp
  then show ?thesis by (simp add: render_ruleset_def has_prefix_def)
qed

definition ruleset_path :: "'g glib_scheme \<Rightarrow> 'n netlib_scheme \<Rightarrow> path" where
  "ruleset_path L N = g_build_filename L [NM_AIRVPN_STATEDIR N, RULESET_FILE_NAME]"

definition drop_file :: "path \<Rightarrow> fsys \<Rightarrow> fsys" where
  "drop_file p s = s\<lparr>fs_files := (fs_files s)(p := None)\<rparr>"

text \<open>Writing the ruleset is what \<open>write_file_0600\<close> of the cache does.\<close>

lemma arm_eq:
  "nm_airvpn_firewall_arm L N p allow_lan s k =
     (if \<not> nm_airvpn_firewall_available N then Some (Some nft_missing_error, s, k)
      else case build_ruleset L N p allow_lan s of
          None \<Rightarrow> None
        | Some (Inl e) \<Rightarrow> Some (Some e, s, k)
        | Some (Inr ruleset) \<Rightarrow>
            (case write_file_0600 L (ruleset_path L N) ruleset s of (w, s3) \<Rightarrow>
               if w \<noteq> None then Some (w, s3, k)
               else (case run_nft N [''nft'', ''-f'', ruleset_path L N] s3 k of
                       (e, k') \<Rightarrow> Some (e, g_unlink L (ruleset_path L N) s3, k'))))"
proof -
  have "(case x of (Some e, k') \<Rightarrow> Some (Some e, s', k') | (None, k') \<Rightarrow> Some (None, s', k'))
      = (case x of (e, k') \<Rightarrow> Some (e, s', k'))"
    for x :: "gerror option \<times> nft_table" and s' :: fsys
    by (auto split: option.splits prod.splits)
  then show ?thesis
    by (simp only: nm_airvpn_firewall_arm_def write_file_0600_def ruleset_path_def Let_def
        split_def prod.case fst_conv snd_conv)
qed

text \<open>Every outcome of \<open>nm_airvpn_firewall_arm\<close>, with its effect on files and on the table.\<close>

lemma arm_cases:
  assumes "fs_doc L" "split_doc L" "nft_doc N" "umask_ok s"
    and "nm_airvpn_firewall_arm L N p allow_lan s k = Some (r, s', k')"
  obtains (refused) "r \<noteq> None" "s' = s \<or> s' = drop_file (ruleset_path L N) s" "k' = k"
  | (loaded) ruleset where "r = None" "nm_airvpn_firewall_available N"
      "build_ruleset L N p allow_lan s = Some (Inr ruleset)"
      "s' = drop_file (ruleset_path L N) s" "k' = k @ [ruleset]"
proof (cases "nm_airvpn_firewall_available N")
  case False
  with assms(5) refused show ?thesis by (auto simp: nm_airvpn_firewall_arm_def)
next
  case avail: True
  from assms(5) avail obtain b where b: "build_ruleset L N p allow_lan s = Some b"
    by (auto simp: nm_airvpn_firewall_arm_def split: option.splits)
  show ?thesis
  proof (cases b)
    case (Inl e)
    with assms(5) avail b refused show ?thesis by (auto simp: nm_airvpn_firewall_arm_def)
  next
    case (Inr ruleset)
    let ?path = "ruleset_path L N"
    obtain w s3 where w: "write_file_0600 L ?path ruleset s = (w, s3)" by (meson surj_pair)
    have s3: "s3 = (if w = None then put_file ?path ruleset s else s)"
      by (rule write_cases [OF assms(1,4) w])
    obtain e kk where nft: "run_nft N [''nft'', ''-f'', ?path] s3 k = (e, kk)" by (meson surj_pair)
    have eq: "nm_airvpn_firewall_arm L N p allow_lan s k =
        (if w \<noteq> None then Some (w, s3, k) else Some (e, g_unlink L ?path s3, kk))"
      using avail b Inr w nft by (simp add: arm_eq)
    have un: "g_unlink L ?path (put_file ?path ruleset s) = drop_file ?path s"
      by (simp add: unlink_state [OF assms(1)] drop_file_def put_file_def)
    show ?thesis
    proof (cases "w = None \<and> e = None")
      case True
      with nft obtain o' where "g_spawn_sync N [''nft'', ''-f'', ?path] s3 k = (Inr (None, o'), kk)"
        by (auto elim: run_nft_ok)
      moreover have "fs_files s3 ?path = Some (created ruleset)" using s3 True by simp
      moreover have "has_prefix (f_text (created ruleset)) ruleset_header"
        using build_ruleset_header [OF assms(2)] b Inr by (simp add: created_def)
      ultimately have "kk = k @ [f_text (created ruleset)]" by (rule nft_loaded [OF assms(3)])
      with True eq assms(5) s3 un loaded [OF _ avail] b Inr show ?thesis by (simp add: created_def)
    next
      case False
      with eq assms(5) s3 un nft run_nft_fail [OF assms(3)] refused show ?thesis
        by (cases w; cases e) auto
    qed
  qed
qed

lemma disarm_result:
  assumes "nft_doc N"
  shows "nm_airvpn_firewall_disarm N s k \<in> {k, []}"
proof (cases "nm_airvpn_firewall_available N")
  case True
  obtain e k' where r: "run_nft N DELETE_TABLE s k = (e, k')" by (meson surj_pair)
  then have "k' = k \<or> k' = []"
  proof (cases e)
    case None
    with r obtain b where "g_spawn_sync N DELETE_TABLE s k = (Inr (None, b), k')"
      by (auto elim: run_nft_ok)
    with assms show ?thesis by (blast dest: nft_deleted)
  qed (auto dest: run_nft_fail [OF assms])
  with r True show ?thesis
    by (simp add: nm_airvpn_firewall_disarm_def DELETE_TABLE_def)
qed (simp add: nm_airvpn_firewall_disarm_def)

lemma disarm_removes:
  assumes "nft_doc N" "nft_delete_doc N" "nm_airvpn_firewall_available N"
  shows "nm_airvpn_firewall_disarm N s k = []"
proof (cases "k = []")
  case True
  with disarm_result [OF assms(1), of s k] show ?thesis by simp
next
  case False
  with assms(2) obtain b k' where r: "g_spawn_sync N DELETE_TABLE s k = (Inr (None, b), k')"
    unfolding nft_delete_doc_def by blast
  with assms(1) have "k' = []" by (blast dest: nft_deleted)
  with r assms(3) show ?thesis
    by (simp add: nm_airvpn_firewall_disarm_def run_nft_def DELETE_TABLE_def)
qed

section \<open>The interface the daemon relies on\<close>

text \<open>\<open>arm\<close> gives no state where it is undefined; the truth value is whether it succeeded.\<close>

locale kill_switch =
  fixes inv :: "'s \<Rightarrow> bool"
    and armed :: "'s \<Rightarrow> bool"
    and arm :: "'a \<Rightarrow> 's \<Rightarrow> (bool \<times> 's) option"
    and disarm :: "'s \<Rightarrow> 's"
  assumes inv_arm: "inv s \<Longrightarrow> arm a s = Some (b, s') \<Longrightarrow> inv s'"
    and inv_disarm: "inv s \<Longrightarrow> inv (disarm s)"
    and arm_armed: "inv s \<Longrightarrow> arm a s = Some (True, s') \<Longrightarrow> armed s'"
    and arm_refused: "inv s \<Longrightarrow> arm a s = Some (False, s') \<Longrightarrow> armed s' = armed s"
    and disarm_off: "inv s \<Longrightarrow> \<not> armed (disarm s)"
begin

text \<open>A history: \<open>Some a\<close> arms, \<open>None\<close> disarms.\<close>

fun history :: "'a option list \<Rightarrow> 's \<Rightarrow> 's option" where
  "history [] s = Some s"
| "history (None # ops) s = history ops (disarm s)"
| "history (Some a # ops) s = (case arm a s of None \<Rightarrow> None | Some (_, s') \<Rightarrow> history ops s')"

lemma history_inv: "inv s \<Longrightarrow> history ops s = Some s' \<Longrightarrow> inv s'"
proof (induction ops s rule: history.induct)
  case (3 a ops s)
  from "3.prems"(2) obtain b t where a: "arm a s = Some (b, t)" by (auto split: option.splits)
  with inv_arm "3.prems"(1) have "inv t" by blast
  with 3 a show ?case by simp
qed (auto intro: inv_disarm)

text \<open>No arming, successful or not, takes the protection away.\<close>

lemma stays_armed:
  assumes "inv s" "armed s" "None \<notin> set ops" "history ops s = Some s'"
  shows "armed s'"
  using assms
proof (induction ops s rule: history.induct)
  case (3 a ops s)
  from "3.prems"(4) obtain b t where a: "arm a s = Some (b, t)" by (auto split: option.splits)
  have "armed t"
    using arm_armed [OF "3.prems"(1)] arm_refused [OF "3.prems"(1)] "3.prems"(2) a
    by (cases b) simp_all
  moreover have "inv t" using inv_arm "3.prems"(1) a by blast
  ultimately show ?case using 3 a by simp
qed auto

text \<open>Superseding an earlier table: afterwards it is armed exactly when arming succeeded.\<close>

lemma rearm_exact:
  assumes "inv s" "arm a (disarm s) = Some (b, s')"
  shows "armed s' = b"
  using assms arm_armed [OF inv_disarm] arm_refused [OF inv_disarm] disarm_off by (cases b) auto

end

text \<open>The model's states: the libraries, the files and the table.\<close>

type_synonym ('g, 'n) fw_state = "'g fslib_scheme \<times> 'n netlib_scheme \<times> fsys \<times> nft_table"

definition fw_inv :: "('g, 'n) fw_state \<Rightarrow> bool" where
  "fw_inv st = (case st of (L, N, s, k) \<Rightarrow> fs_doc L \<and> split_doc L \<and> nft_doc N \<and> nft_delete_doc N
     \<and> umask_ok s \<and> (nm_airvpn_firewall_available N \<or> k = []))"

definition fw_armed :: "('g, 'n) fw_state \<Rightarrow> bool" where
  "fw_armed st = (case st of (L, N, s, k) \<Rightarrow> k \<noteq> [])"

definition fw_arm :: "path \<times> bool \<Rightarrow> ('g, 'n) fw_state \<Rightarrow> (bool \<times> ('g, 'n) fw_state) option" where
  "fw_arm a st = (case st of (L, N, s, k) \<Rightarrow>
     map_option (\<lambda>(r, s', k'). (r = None, (L, N, s', k')))
       (nm_airvpn_firewall_arm L N (fst a) (snd a) s k))"

definition fw_disarm :: "('g, 'n) fw_state \<Rightarrow> ('g, 'n) fw_state" where
  "fw_disarm st = (case st of (L, N, s, k) \<Rightarrow> (L, N, s, nm_airvpn_firewall_disarm N s k))"

lemmas fw_defs = fw_inv_def fw_armed_def fw_arm_def fw_disarm_def

lemma umask_ok_drop [simp]: "umask_ok (drop_file p s) = umask_ok s"
  by (simp add: drop_file_def)

lemma fw_arm_effect:
  assumes "fw_inv st" "fw_arm a st = Some (b, st')"
  shows "fw_inv st' \<and> (b \<longrightarrow> fw_armed st') \<and> (\<not> b \<longrightarrow> fw_armed st' = fw_armed st)"
proof -
  obtain L N s k where st: "st = (L, N, s, k)" by (metis prod_cases4)
  from assms(2) st obtain r s' k' where r: "nm_airvpn_firewall_arm L N (fst a) (snd a) s k = Some (r, s', k')"
    "b = (r = None)" "st' = (L, N, s', k')"
    by (auto simp: fw_arm_def)
  from assms(1) st have "fs_doc L" "split_doc L" "nft_doc N" "umask_ok s" by (simp_all add: fw_inv_def)
  from arm_cases [OF this r(1)] show ?thesis
    using assms(1) st r(2,3) by cases (auto simp: fw_inv_def fw_armed_def)
qed

lemma fw_disarm_effect:
  assumes "fw_inv st"
  shows "fw_inv (fw_disarm st) \<and> \<not> fw_armed (fw_disarm st)"
proof -
  obtain L N s k where st: "st = (L, N, s, k)" by (metis prod_cases4)
  have "nm_airvpn_firewall_disarm N s k = []"
    using assms st disarm_removes disarm_result [of N s k]
    by (cases "nm_airvpn_firewall_available N") (auto simp: fw_inv_def)
  with assms st show ?thesis by (simp add: fw_defs)
qed

interpretation fw: kill_switch fw_inv fw_armed fw_arm fw_disarm
  by unfold_locales (use fw_arm_effect fw_disarm_effect in blast)+

section \<open>Properties\<close>

text \<open>
  C20. Parsing has undefined behaviour exactly when the configuration holds a \<open>remote\<close> line
  with a host and nothing else: the code then reads \<open>tokens[3]\<close> behind the terminating
  \<open>NULL\<close> of a vector of two tokens.
\<close>

theorem parse_remotes_undefined_iff:
  assumes "split_doc L"
  shows "parse_remotes L p s = None \<longleftrightarrow>
    (\<exists>contents. g_file_get_contents L p s = Inr contents
       \<and> (\<exists>l \<in> set (g_strsplit L contents NL). bare_remote L l))"
proof (cases "g_file_get_contents L p s")
  case (Inr contents)
  let ?lines = "g_strsplit L contents NL"
  obtain d where d: "scan_proto L ?lines None = Some d"
    using scan_proto_defined [OF assms] by (meson not_None_eq)
  have "scan_remotes L d (map (g_strstrip L) ?lines) [] = None \<longleftrightarrow> (\<exists>l \<in> set ?lines. bare_remote L l)"
    by (simp add: scan_remotes_None_iff [OF assms] bare_remote_strip [OF assms])
  with Inr d show ?thesis
    by (cases "scan_remotes L d (map (g_strstrip L) ?lines) []") (simp_all add: parse_remotes_def Let_def)
qed (simp add: parse_remotes_def)

definition one_file :: "path \<Rightarrow> string \<Rightarrow> fsys" where
  "one_file p t = put_file p t empty_fs"

lemma one_file_get: "g_file_get_contents ref_lib p (one_file p t) = Inr t"
  by (simp add: one_file_def get_contents [OF ref_fs_doc] created_def)

lemma parse_remotes_undefined_iff_witness:
  "parse_remotes ref_lib ''c'' (one_file ''c'' ''remote vpn'') = None"
proof -
  have "bare_remote ref_lib ''remote vpn''"
    unfolding bare_remote_def
    by (subst strip_id [OF ref_split_doc]) (simp_all add: ascii_space_def ws_iff exI [of _ "''vpn''"])
  moreover have "g_strsplit ref_lib ''remote vpn'' NL = [''remote vpn'']"
    by (simp add: NL_def strsplit_eq [OF ref_split_doc])
  ultimately show ?thesis
    unfolding parse_remotes_undefined_iff [OF ref_split_doc] by (simp add: one_file_get)
qed

text \<open>
  C21. The parser is right on whole configurations: for a file of \<open>remote\<close> lines with and
  without protocol, \<open>proto\<close> lines and other lines it gives the remotes in the file's order, a
  remote without protocol getting that of the last \<open>proto\<close> line of the file (UDP without one),
  and the error when there is no remote.
\<close>

theorem parse_remotes_of_config:
  assumes "split_doc L" "ls \<noteq> []" "\<forall>l \<in> set ls. ok_line L l"
    and "g_file_get_contents L p s = Inr (join_lines (map show_line ls))"
    and "rs = concat (map (line_entries (default_proto (last_proto ls None))) ls)"
  shows "parse_remotes L p s = Some (if rs = [] then Inl no_remote_error else Inr rs)"
proof (cases "join_lines (map show_line ls) = []")
  case True
  then have ls: "ls = [OtherLine []]" by (rule join_lines_empty) fact
  have "g_strsplit L [] NL = []" by (simp add: NL_def strsplit_eq [OF assms(1)])
  with assms(4,5) show ?thesis by (simp add: ls parse_remotes_def)
next
  case False
  from parse_config_nonempty [OF assms(1-3) False assms(4,5)] show ?thesis .
qed

definition demo_lines :: "cfg_line list" where
  "demo_lines = [OtherLine ''client'', RemoteShort ''vpn.example'' ''443'', ProtoLine ''tcp'',
     RemoteFull ''10.9.8.7'' ''53'' ''udp'']"

lemma demo_lines_ok: "\<forall>l \<in> set demo_lines. ok_line ref_lib l"
proof -
  have "ok_line ref_lib (OtherLine ''client'')"
    by (simp add: strip_id [OF ref_split_doc] ascii_space_def has_prefix_def)
  then show ?thesis by (simp add: demo_lines_def plain_field_def ascii_space_def)
qed

lemma parse_remotes_of_config_witness:
  "parse_remotes ref_lib ''c'' (one_file ''c'' (join_lines (map show_line demo_lines))) =
    Some (Inr [\<lparr>re_host = ''vpn.example'', re_port = ''443'', re_proto = ''tcp''\<rparr>,
               \<lparr>re_host = ''10.9.8.7'', re_port = ''53'', re_proto = ''udp''\<rparr>])"
proof -
  have ne: "demo_lines \<noteq> []" by (simp add: demo_lines_def)
  have rs: "concat (map (line_entries (default_proto (last_proto demo_lines None))) demo_lines) =
    [\<lparr>re_host = ''vpn.example'', re_port = ''443'', re_proto = ''tcp''\<rparr>,
     \<lparr>re_host = ''10.9.8.7'', re_port = ''53'', re_proto = ''udp''\<rparr>]"
    by (simp add: demo_lines_def default_proto_def)
  show ?thesis
    using parse_remotes_of_config [OF ref_split_doc ne demo_lines_ok one_file_get [of "''c''"] refl]
    by (simp add: rs)
qed

text \<open>
  The fields of a parsed remote are words: never empty and free of blanks, so the defaults
  fill every gap of a line and no field can bring a second word into an \<open>nft\<close> rule.
\<close>

theorem parse_remotes_fields:
  assumes "split_doc L" "parse_remotes L p s = Some (Inr remotes)"
  shows "remotes \<noteq> [] \<and> (\<forall>e \<in> set remotes. \<forall>f \<in> {re_host, re_port, re_proto}. token_field (f e))"
proof -
  from assms(2) obtain contents d where d: "scan_proto L (g_strsplit L contents NL) None = Some d"
    and r: "remotes = entries_of L d (map (g_strstrip L) (g_strsplit L contents NL))" "remotes \<noteq> []"
    by (rule parse_remotesE)
  have "token_field (default_proto d)"
    by (rule scan_proto_token [OF assms(1) d]) (simp add: default_proto_def default_token_fields)
  then show ?thesis
    using r remote_of_line_token [OF assms(1)]
    by (auto simp: entries_of_def split: option.splits)
qed

lemma demo_parse:
  "parse_remotes ref_lib ''c'' (one_file ''c'' ''remote 10.9.8.7 53 tcp'') =
    Some (Inr [\<lparr>re_host = ''10.9.8.7'', re_port = ''53'', re_proto = ''tcp''\<rparr>])"
proof -
  let ?ls = "[RemoteFull ''10.9.8.7'' ''53'' ''tcp'']"
  have "\<forall>l \<in> set ?ls. ok_line ref_lib l"
    by (simp add: plain_field_def ascii_space_def)
  then show ?thesis
    using parse_config_nonempty [OF ref_split_doc, of ?ls "''c''" "one_file ''c'' ''remote 10.9.8.7 53 tcp''"]
    by (simp add: one_file_get)
qed

lemma parse_remotes_fields_witness: "token_field ''53'' \<and> token_field ''tcp''"
  using parse_remotes_fields [OF ref_split_doc demo_parse] by simp

text \<open>
  C22. The string building of the ruleset refines its specification: the header with the
  dropping policy, the rules for the name servers and for each remote in order, the local
  networks if and only if they are allowed; and no ruleset at all, but the error of the first
  remote that fails, when one does not resolve.
\<close>

theorem build_ruleset_refines:
  assumes "split_doc L"
  shows "build_ruleset L N p allow_lan s = ruleset_spec L N p allow_lan s"
  using build_ruleset_spec [OF assms] .

definition ref_nft :: "string list \<Rightarrow> fsys \<Rightarrow> nft_table \<Rightarrow> (gerror + gerror option \<times> cstr) \<times> nft_table" where
  "ref_nft argv s k =
     (if argv = DELETE_TABLE then (Inr (None, None), [])
      else case argv of
        [_, _, p] \<Rightarrow> (case fs_files s p of
            None \<Rightarrow> (Inr (Some (GError G_SPAWN_ERROR E_FAILED ''exit 1''), Some ''no file''), k)
          | Some f \<Rightarrow> (Inr (None, None), k @ [f_text f]))
      | _ \<Rightarrow> (Inl (GError G_SPAWN_ERROR E_NOENT ''not found''), k))"

definition ref_net :: netlib where
  "ref_net = \<lparr>NM_AIRVPN_STATEDIR = ''/var/lib/nm-airvpn'', LIBEXECDIR = ''/usr/libexec'',
     g_find_program_in_path = (\<lambda>p. Some p),
     g_hostname_is_ip_address = (\<lambda>h. h \<noteq> [] \<and> is_digit (hd h)),
     g_inet_address_is_v6 = (\<lambda>h. strchr h (CHR '':'') \<noteq> None),
     g_resolver_lookup_by_name = (\<lambda>h. Inr [(''10.0.0.1'', False), (''fd00::1'', True)]),
     g_spawn_sync = ref_nft\<rparr>"

lemma ref_nft_doc: "nft_doc ref_net"
  by (auto simp: nft_doc_def ref_net_def ref_nft_def DELETE_TABLE_def
      split: list.splits option.splits if_splits)

lemma ref_nft_delete_doc: "nft_delete_doc ref_net"
  by (simp add: nft_delete_doc_def ref_net_def ref_nft_def)

lemma demo_first_error: "first_error ref_net es = None"
  by (induction es) (simp_all add: addresses_of_def ref_net_def)

lemma one_file_resolv: "p \<noteq> RESOLV_CONF \<Longrightarrow> resolv_rules ref_lib N (one_file p t) = []"
  by (simp add: resolv_rules_def ref_lib_def one_file_def empty_fs_def)

lemma demo_spec:
  "ruleset_spec ref_lib ref_net ''c'' allow_lan (one_file ''c'' ''remote 10.9.8.7 53 tcp'') =
    Some (Inr (render_ruleset [Rule False ''10.9.8.7'' ''tcp'' ''53''] allow_lan))"
  by (simp add: ruleset_spec_def demo_parse demo_first_error one_file_resolv RESOLV_CONF_def
      remote_rules_def addresses_of_def ref_net_def is_digit_def nft_proto_def has_prefix_def)

lemma build_ruleset_refines_witness:
  "build_ruleset ref_lib ref_net ''c'' False (one_file ''c'' ''remote 10.9.8.7 53 tcp'') =
    Some (Inr (render_ruleset [Rule False ''10.9.8.7'' ''tcp'' ''53''] False))"
  unfolding build_ruleset_refines [OF ref_split_doc] by (rule demo_spec)

lemma ruleset_rules:
  assumes "split_doc L" "build_ruleset L N p allow_lan s = Some (Inr ruleset)"
  obtains remotes rules where "parse_remotes L p s = Some (Inr remotes)"
    "ruleset = render_ruleset rules allow_lan" "set rules = admitted_rules L N s remotes"
    "\<forall>e \<in> set remotes. \<exists>as. addresses_of N (re_host e) = Inr as"
proof -
  from assms(2) obtain remotes where p: "parse_remotes L p s = Some (Inr remotes)"
    and ok: "first_error N remotes = None"
    unfolding build_ruleset_spec [OF assms(1)] ruleset_spec_def map_option_eq_Some
    by (elim exE conjE, rename_tac z, case_tac z) (auto split: option.splits)
  let ?rules = "resolv_rules L N s @ concat (map (remote_rules N) remotes)"
  from assms(2) p ok have "ruleset = render_ruleset ?rules allow_lan"
    unfolding build_ruleset_spec [OF assms(1)] ruleset_spec_def by simp
  with that p all_rules_set first_error_None [OF ok] show thesis by blast
qed

text \<open>
  C23. What a loaded ruleset lets out besides loopback, tunnel devices, established connections
  and (when allowed) the local networks is exactly: port 53, over UDP and TCP, of the address
  literals listed as name servers in \<open>/etc/resolv.conf\<close>, and for each remote of the configuration
  each of its addresses with the port and protocol of that remote. Every remote has resolved.
\<close>

theorem ruleset_admits_exactly:
  assumes "split_doc L" "build_ruleset L N p allow_lan s = Some (Inr ruleset)"
  shows "\<exists>remotes rules. parse_remotes L p s = Some (Inr remotes)
    \<and> ruleset = render_ruleset rules allow_lan
    \<and> set rules =
        {Rule (strchr a (CHR '':'') \<noteq> None) a proto ''53'' | a proto.
           lists_nameserver L N s a \<and> proto \<in> {''udp'', ''tcp''}}
      \<union> {Rule v6 a (nft_proto (re_proto e)) (re_port e) | e as a v6.
           e \<in> set remotes \<and> addresses_of N (re_host e) = Inr as \<and> (a, v6) \<in> set as}
    \<and> (\<forall>e \<in> set remotes. \<exists>as. addresses_of N (re_host e) = Inr as)"
  by (rule ruleset_rules [OF assms]) (unfold admitted_rules_def, blast)

lemma ruleset_admits_exactly_witness:
  "\<exists>rules. render_ruleset [Rule False ''10.9.8.7'' ''tcp'' ''53''] True = render_ruleset rules True
    \<and> Rule False ''10.9.8.7'' ''tcp'' ''53'' \<in> set rules"
  using ruleset_admits_exactly [OF ref_split_doc trans [OF build_ruleset_spec [OF ref_split_doc] demo_spec]]
  by (auto simp: demo_parse addresses_of_def ref_net_def is_digit_def nft_proto_def has_prefix_def)

text \<open>
  C24. Arming is all or nothing, for every behaviour of \<open>nft\<close>: success means that exactly the
  ruleset of the configuration was added to the table, any error that the table is as before;
  the only file touched is the temporary ruleset file, which is gone again or was never
  written, and the mask of the process is restored.
\<close>

theorem arm_contract:
  assumes "fs_doc L" "split_doc L" "nft_doc N" "umask_ok s"
    and "nm_airvpn_firewall_arm L N p allow_lan s k = Some (r, s', k')"
  shows "(case r of
      None \<Rightarrow> \<exists>ruleset. build_ruleset L N p allow_lan s = Some (Inr ruleset) \<and> k' = k @ [ruleset]
    | Some e \<Rightarrow> k' = k)
    \<and> fs_umask s' = fs_umask s
    \<and> (\<forall>q. q \<noteq> ruleset_path L N \<longrightarrow> fs_files s' q = fs_files s q)
    \<and> (fs_files s' (ruleset_path L N) = None \<or> s' = s)"
  by (cases rule: arm_cases [OF assms]) (auto simp: drop_file_def split: option.split)

lemma ref_arm:
  assumes "parse_remotes ref_lib p s = Some (Inr remotes)" "umask_ok s"
  shows "nm_airvpn_firewall_arm ref_lib ref_net p lan s k = Some (None,
      drop_file (ruleset_path ref_lib ref_net) s,
      k @ [render_ruleset (resolv_rules ref_lib ref_net s @ concat (map (remote_rules ref_net) remotes)) lan])"
proof -
  let ?r = "render_ruleset (resolv_rules ref_lib ref_net s @ concat (map (remote_rules ref_net) remotes)) lan"
  let ?p = "ruleset_path ref_lib ref_net"
  have b: "build_ruleset ref_lib ref_net p lan s = Some (Inr ?r)"
    unfolding build_ruleset_spec [OF ref_split_doc] ruleset_spec_def
    by (simp add: assms(1) demo_first_error)
  have w: "write_file_0600 ref_lib ?p ?r s = (None, put_file ?p ?r s)"
  proof -
    have "fst (write_file_0600 ref_lib ?p ?r s) = None"
      by (simp add: write_file_0600_def set_umask_def ref_lib_def Let_def)
    with write_cases [OF ref_fs_doc assms(2), of ?p ?r] show ?thesis by (metis prod.collapse)
  qed
  have nft: "run_nft ref_net [''nft'', ''-f'', ?p] (put_file ?p ?r s) k = (None, k @ [?r])"
    by (simp add: run_nft_def ref_net_def ref_nft_def DELETE_TABLE_def created_def)
  have avail: "nm_airvpn_firewall_available ref_net"
    by (simp add: nm_airvpn_firewall_available_def ref_net_def)
  have un: "g_unlink ref_lib ?p (put_file ?p ?r s) = drop_file ?p s"
    by (simp add: unlink_state [OF ref_fs_doc] drop_file_def put_file_def)
  show ?thesis
    unfolding arm_eq b option.case sum.case w prod.case nft un using avail by simp
qed

lemma demo_umask: "umask_ok (one_file p t)"
  by (simp add: one_file_def demo_plain)

lemma arm_contract_witness:
  "fs_files (drop_file (ruleset_path ref_lib ref_net) (one_file ''c'' ''remote 10.9.8.7 53 tcp'')) ''c'' =
     Some (created ''remote 10.9.8.7 53 tcp'')"
proof -
  have "''c'' \<noteq> ruleset_path ref_lib ref_net"
    by (simp add: ruleset_path_def ref_lib_def ref_net_def RULESET_FILE_NAME_def)
  with arm_contract [OF ref_fs_doc ref_split_doc ref_nft_doc demo_umask ref_arm [OF demo_parse demo_umask]] show ?thesis
    by (simp add: one_file_def)
qed

fun arm_all :: "'g fslib_scheme \<Rightarrow> 'n netlib_scheme \<Rightarrow> (path \<times> bool) list \<Rightarrow> fsys \<Rightarrow> nft_table
    \<Rightarrow> (fsys \<times> nft_table) option" where
  "arm_all L N [] s k = Some (s, k)"
| "arm_all L N ((p, lan) # as) s k =
     (case nm_airvpn_firewall_arm L N p lan s k of
        None \<Rightarrow> None
      | Some (_, s', k') \<Rightarrow> arm_all L N as s' k')"

lemma fw_arm_apply:
  "fw_arm a (L, N, s, k) = map_option (\<lambda>(r, s', k'). (r = None, (L, N, s', k')))
     (nm_airvpn_firewall_arm L N (fst a) (snd a) s k)"
  by (simp add: fw_arm_def)

lemma arm_all_history:
  "fw.history (map Some as) (L, N, s, k) = map_option (\<lambda>(s', k'). (L, N, s', k')) (arm_all L N as s k)"
  by (induction L N as s k rule: arm_all.induct) (auto simp: fw_arm_apply split: option.splits)

text \<open>
  Once the kill switch is armed, no later attempt to arm it, whatever its configuration and
  whether it succeeds or fails, leaves traffic unprotected; and superseding a table the way the
  daemon does, disarm and arm again, leaves a table exactly when the second arming succeeded.
\<close>

theorem kill_switch_stays_armed:
  assumes "fs_doc L" "split_doc L" "nft_doc N" "nft_delete_doc N" "umask_ok s"
    and "nm_airvpn_firewall_available N" "k \<noteq> []" "arm_all L N as s k = Some (s', k')"
  shows "k' \<noteq> []
    \<and> (nm_airvpn_firewall_arm L N p lan s' (nm_airvpn_firewall_disarm N s' k') = Some (r, s'', k'')
         \<longrightarrow> (k'' \<noteq> [] \<longleftrightarrow> r = None))"
proof -
  have inv: "fw_inv (L, N, s, k)" using assms by (simp add: fw_inv_def)
  have hist: "fw.history (map Some as) (L, N, s, k) = Some (L, N, s', k')"
    using assms(8) by (simp add: arm_all_history)
  have "fw_armed (L, N, s', k')"
    by (rule fw.stays_armed [OF inv _ _ hist]) (auto simp: fw_armed_def assms(7))
  moreover have "fw_armed (L, N, s'', k'') = (r = None)"
    if "nm_airvpn_firewall_arm L N p lan s' (nm_airvpn_firewall_disarm N s' k') = Some (r, s'', k'')"
    using that by (intro fw.rearm_exact [OF fw.history_inv [OF inv hist], of "(p, lan)"])
      (simp add: fw_arm_def fw_disarm_def)
  ultimately show ?thesis by (simp add: fw_armed_def)
qed

lemma kill_switch_stays_armed_witness:
  "snd (the (arm_all ref_lib ref_net [] (one_file ''c'' ''remote 10.9.8.7 53 tcp'') [''x''])) \<noteq> []"
proof -
  have um: "umask_ok (one_file ''c'' ''remote 10.9.8.7 53 tcp'')" by (simp add: one_file_def demo_plain)
  have avail: "nm_airvpn_firewall_available ref_net"
    by (simp add: nm_airvpn_firewall_available_def ref_net_def)
  have "arm_all ref_lib ref_net [] (one_file ''c'' ''remote 10.9.8.7 53 tcp'') [''x''] =
      Some (one_file ''c'' ''remote 10.9.8.7 53 tcp'', [''x''])" by simp
  from kill_switch_stays_armed [OF ref_fs_doc ref_split_doc ref_nft_doc ref_nft_delete_doc um avail _ this]
  show ?thesis by simp
qed

end
