(* ===== verification/NM_Shared_Utils.thy ===== *)
theory NM_Shared_Utils
  imports NM_Libs
begin

text \<open>
  The strict number and boolean parsing of \<open>shared/nm-utils/nm-shared-utils.c\<close>, which the other
  theories build on.
\<close>

section \<open>Wait statuses\<close>

text \<open>The macros of \<open>sys/wait.h\<close> on a status word.\<close>

type_synonym wait_status = "32 word"

definition WIFEXITED :: "wait_status \<Rightarrow> bool" where
  "WIFEXITED st \<longleftrightarrow> st AND 0x7F = 0"

definition WEXITSTATUS :: "wait_status \<Rightarrow> wait_status" where
  "WEXITSTATUS st = drop_bit 8 (st AND 0xFF00)"

definition WIFSTOPPED :: "wait_status \<Rightarrow> bool" where
  "WIFSTOPPED st \<longleftrightarrow> st AND 0xFF = 0x7F"

definition WIFSIGNALED :: "wait_status \<Rightarrow> bool" where
  "WIFSIGNALED st \<longleftrightarrow> st AND 0x7F \<noteq> 0 \<and> st AND 0x7F \<noteq> 0x7F"

section \<open>Log levels\<close>

text \<open>The levels of \<open>syslog.h\<close>.\<close>

definition LOG_WARNING :: int where "LOG_WARNING = 4"
definition LOG_NOTICE :: int where "LOG_NOTICE = 5"
definition LOG_INFO :: int where "LOG_INFO = 6"
definition LOG_DEBUG :: int where "LOG_DEBUG = 7"

section \<open>Numbers and booleans\<close>

text \<open>The value and \<open>errno\<close> on return; \<open>gint64\<close> values are integers here, the range check
  of the code is the one that matters.\<close>

definition nm_utils_ascii_str_to_int64 ::
  "'g glib_scheme \<Rightarrow> cstr \<Rightarrow> nat \<Rightarrow> int \<Rightarrow> int \<Rightarrow> int \<Rightarrow> int \<times> errno" where
  "nm_utils_ascii_str_to_int64 L str base vmin vmax fallback =
     (let str = map_option (dropWhile (g_isspace L)) str
      in if \<not> nonempty_str str then (fallback, EINVAL)
         else
           (let (v, s, err) = g_strtoll L (the str) base
            in if err \<noteq> ENONE then (fallback, err)
               else if s \<noteq> [] \<and> dropWhile (g_isspace L) s \<noteq> [] then (fallback, EINVAL)
               else if v > vmax \<or> v < vmin then (fallback, ERANGE)
               else (v, ENONE)))"

text \<open>The return value alone, for the callers that do not look at \<open>errno\<close>.\<close>

definition ascii_to_int64 ::
  "'g glib_scheme \<Rightarrow> cstr \<Rightarrow> nat \<Rightarrow> int \<Rightarrow> int \<Rightarrow> int \<Rightarrow> int" where
  "ascii_to_int64 L str base vmin vmax fallback =
     fst (nm_utils_ascii_str_to_int64 L str base vmin vmax fallback)"

definition nm_utils_ascii_str_to_bool :: "'g glib_scheme \<Rightarrow> cstr \<Rightarrow> int \<Rightarrow> int" where
  "nm_utils_ascii_str_to_bool L str default_value =
     (case str of
        None \<Rightarrow> default_value
      | Some str \<Rightarrow>
          (let str = dropWhile (g_isspace L) str
           in if str = [] then default_value
              else (let str = (if g_isspace L (last str) then g_strchomp L str else str)
                    in if g_strcaseeq L str ''true'' \<or> g_strcaseeq L str ''yes''
                          \<or> g_strcaseeq L str ''on'' \<or> g_strcaseeq L str ''1'' then 1
                       else if g_strcaseeq L str ''false'' \<or> g_strcaseeq L str ''no''
                          \<or> g_strcaseeq L str ''off'' \<or> g_strcaseeq L str ''0'' then 0
                       else default_value)))"

text \<open>
  Documented behaviour of the ASCII functions of GLib: white space, \<open>strtoll\<close> in base 10 with
  64-bit values, removal of trailing white space, comparison up to the case of ASCII letters.
\<close>

definition ascii_lower :: "char \<Rightarrow> char" where
  "ascii_lower c = (let n = of_char c :: nat in if 65 \<le> n \<and> n \<le> 90 then char_of (n + 32) else c)"

definition ascii_doc :: "'g glib_scheme \<Rightarrow> bool" where
  "ascii_doc L \<longleftrightarrow>
     g_isspace L = ascii_space
   \<and> (\<forall>s. g_strtoll L s 10 = strtol10 s)
   \<and> (\<forall>s. g_strchomp L s = rev (dropWhile ascii_space (rev s)))
   \<and> (\<forall>a b. g_strcaseeq L a b \<longleftrightarrow> map ascii_lower a = map ascii_lower b)"

lemma ref_ascii_doc: "ascii_doc ref_lib"
proof -
  have "ref_isspace = ascii_space" by (rule ext) (simp add: ref_isspace_def ascii_space_def)
  moreover have "ref_lower = ascii_lower" by (rule ext) (simp add: ref_lower_def ascii_lower_def)
  ultimately show ?thesis by (simp add: ascii_doc_def ref_lib_def)
qed

lemma int64_cases:
  obtains (parsed) v where "nm_utils_ascii_str_to_int64 L str base lo hi fb = (v, ENONE)" "lo \<le> v" "v \<le> hi"
  | (failed) e where "nm_utils_ascii_str_to_int64 L str base lo hi fb = (fb, e)" "e \<noteq> ENONE"
proof -
  let ?r = "nm_utils_ascii_str_to_int64 L str base lo hi fb"
  have "(\<exists>v. ?r = (v, ENONE) \<and> lo \<le> v \<and> v \<le> hi) \<or> (\<exists>e. ?r = (fb, e) \<and> e \<noteq> ENONE)"
    by (auto simp: nm_utils_ascii_str_to_int64_def Let_def not_less split: prod.split)
  with parsed failed show thesis by blast
qed

lemma ascii_to_int64_range: "ascii_to_int64 L str base lo hi fb \<in> {lo..hi} \<union> {fb}"
  unfolding ascii_to_int64_def
  by (cases rule: int64_cases [of L str base lo hi fb]) auto

lemma ascii_to_int64_NULL [simp]: "ascii_to_int64 L None base lo hi fb = fb"
  by (simp add: ascii_to_int64_def nm_utils_ascii_str_to_int64_def)

lemma digit_not_ascii_space: "is_digit c \<Longrightarrow> \<not> ascii_space c"
  by (auto simp: is_digit_def ascii_space_def)

lemma ascii_space_is_space: "ascii_space c \<Longrightarrow> is_space c"
  by (auto simp: ascii_space_def is_space_def)

text \<open>A printed number between white space is read back; any other tail is refused.\<close>

lemma int64_of_dec:
  assumes "ascii_doc L" "int n \<le> LONG_MAX" "\<forall>c \<in> set pre. ascii_space c"
    and "rest = [] \<or> \<not> is_digit (hd rest)"
  shows "nm_utils_ascii_str_to_int64 L (Some (pre @ dec_of_nat n @ rest)) 10 lo hi fb =
    (if dropWhile ascii_space rest \<noteq> [] then (fb, EINVAL)
     else if int n < lo \<or> hi < int n then (fb, ERANGE) else (int n, ENONE))"
proof -
  obtain c cs where c: "dec_of_nat n = c # cs" "is_digit c" using dec_of_nat_hd by blast
  have "dropWhile ascii_space (pre @ dec_of_nat n @ rest) = dec_of_nat n @ rest"
    using assms(3) c by (simp add: dropWhile_append2 digit_not_ascii_space)
  with assms(1) strtol10_junk [OF assms(2,4)] c show ?thesis
    by (auto simp: nm_utils_ascii_str_to_int64_def ascii_doc_def Let_def)
qed

end
