(* ===== verification/Airvpn_Service.thy ===== *)
theory Airvpn_Service
  imports Airvpn_Firewall NM_Shared_Utils
begin

text \<open>
  The VPN service daemon, \<open>src/nm-airvpn-service.c\<close>: the private state of the plugin object,
  every handler the main loop or libnm calls, and the start of \<open>main\<close>. A handler takes the
  state of plugin and process (timers, child watches, running fetches, files, the kill-switch
  table, the calls made so far) and returns the next one; \<open>None\<close> stands for undefined
  behaviour of C. What the operating system answers during one handler is the record \<open>env\<close>.
  Log messages are not modelled; a \<open>NULL\<close> error that a message would read is undefined.
\<close>

section \<open>Data\<close>

definition CONNECT_TIMEOUT_SECONDS :: nat where "CONNECT_TIMEOUT_SECONDS = 45"
definition SIGKILL :: int where "SIGKILL = 9"
definition SIGTERM :: int where "SIGTERM = 15"

record nm_connection =
  nc_uuid :: string
  nc_setting_vpn :: "vpn_setting option"

datatype failure = LOGIN_FAILED | CONNECT_FAILED

text \<open>The observable calls of the daemon, in order.\<close>

datatype call =
    Kill int int
  | Waitpid int
  | Failure failure
  | PluginDisconnect
  | Spawn "string list" int
  | AddTimeout nat nat
  | AddKillTimeout nat int
  | AddChildWatch int
  | FetchAsync nat gen_params string

text \<open>The statics, \<open>gl\<close>, and what the process knows of itself.\<close>

record globals =
  gl_debug :: bool
  gl_log_level :: int
  gl_getpid :: int
  gl_bus_name :: string

record env =
  e_real_time :: int
  e_spawn_async :: "string list \<Rightarrow> gerror + int"
  e_kill :: "int \<Rightarrow> bool"
  e_file_exists :: "path \<Rightarrow> bool"
  e_getpwnam :: "string \<Rightarrow> bool"
  e_getgrnam :: "string \<Rightarrow> bool"

text \<open>\<open>NMAirvpnPluginPrivate\<close>; a pid and a source id of 0 mean none.\<close>

record plugin =
  pid :: int
  kill_id :: nat
  interactive :: bool
  started :: bool
  connection :: "nm_connection option"
  fetch_cancellable :: "nat option"
  connect_timer :: nat
  uuid :: cstr
  kill_switch_active :: bool
  unexpected_drop :: bool

text \<open>The rest of the process: sources of the main loop, worker tasks by number, and the outside.\<close>

record process = plugin +
  timers :: "nat list"
  child_watches :: "int list"
  kill_timers :: "int list"
  fetches :: "(nat \<times> gen_params \<times> string) list"
  cancelled :: "nat list"
  next_id :: nat
  files :: fsys
  table :: nft_table
  calls :: "call list"

definition emit :: "call \<Rightarrow> process \<Rightarrow> process" where
  "emit c s = s\<lparr>calls := calls s @ [c]\<rparr>"

definition kill :: "env \<Rightarrow> int \<Rightarrow> int \<Rightarrow> process \<Rightarrow> bool \<times> process" where
  "kill E p sig s = (e_kill E p, emit (Kill p sig) s)"

text \<open>\<open>nm_clear_g_source\<close> on the connect timer.\<close>

definition clear_connect_timer :: "process \<Rightarrow> process" where
  "clear_connect_timer s =
     (if connect_timer s = 0 then s
      else s\<lparr>timers := removeAll (connect_timer s) (timers s), connect_timer := 0\<rparr>)"

section \<open>Helpers\<close>

definition get_generator_params :: "vpn_setting \<Rightarrow> gen_params" where
  "get_generator_params s_vpn =
     \<lparr>gp_server = get_data_item s_vpn KEY_SERVER,
      gp_device = get_data_item s_vpn KEY_DEVICE,
      gp_protocol = get_data_item s_vpn KEY_PROTOCOL,
      gp_port = get_data_item s_vpn KEY_PORT,
      gp_custom_directives = get_data_item s_vpn KEY_CUSTOM_DIRECTIVES\<rparr>"

definition ensure_killed :: "env \<Rightarrow> int \<Rightarrow> process \<Rightarrow> process" where
  "ensure_killed E p s =
     (case kill E p 0 s of (alive, s) \<Rightarrow> if alive then snd (kill E p SIGKILL s) else s)"

definition cancel_fetch :: "process \<Rightarrow> process" where
  "cancel_fetch s =
     (case fetch_cancellable s of
        None \<Rightarrow> s
      | Some c \<Rightarrow> s\<lparr>cancelled := c # cancelled s, fetch_cancellable := None\<rparr>)"

definition terminate_openvpn :: "env \<Rightarrow> process \<Rightarrow> process" where
  "terminate_openvpn E s =
     (if pid s = 0 then s
      else
        (let (ok, s1) = kill E (pid s) SIGTERM s;
             s2 = (if ok
                   then emit (AddKillTimeout 2000 (pid s)) (s1\<lparr>kill_timers := pid s # kill_timers s1\<rparr>)
                   else snd (kill E (pid s) SIGKILL s1))
         in s2\<lparr>pid := 0\<rparr>))"

definition release_kill_switch :: "'n netlib_scheme \<Rightarrow> process \<Rightarrow> process" where
  "release_kill_switch N s =
     (if kill_switch_active s \<and> \<not> unexpected_drop s
      then s\<lparr>table := nm_airvpn_firewall_disarm N (files s) (table s), kill_switch_active := False\<rparr>
      else s)"

definition cleanup_plugin :: "'n netlib_scheme \<Rightarrow> env \<Rightarrow> process \<Rightarrow> process" where
  "cleanup_plugin N E s =
     (let s = s\<lparr>interactive := False, started := False\<rparr>;
          s = clear_connect_timer s;
          s = cancel_fetch s;
          s = terminate_openvpn E s;
          s = release_kill_switch N s
      in s\<lparr>connection := None, uuid := None\<rparr>)"

text \<open>Marks the cached profile of the current connection stale, if there is one.\<close>

definition mark_current_stale ::
  "('k, 'g) kflib_scheme \<Rightarrow> 'n netlib_scheme \<Rightarrow> process \<Rightarrow> process" where
  "mark_current_stale L N s =
     (case uuid s of
        None \<Rightarrow> s
      | Some u \<Rightarrow>
          s\<lparr>files := snd (nm_airvpn_cache_mark_stale L (NM_AIRVPN_STATEDIR N) u (files s))\<rparr>)"

definition mark_stale_and_fail ::
  "('k, 'g) kflib_scheme \<Rightarrow> 'n netlib_scheme \<Rightarrow> failure \<Rightarrow> process \<Rightarrow> process" where
  "mark_stale_and_fail L N reason s = emit (Failure reason) (mark_current_stale L N s)"

section \<open>The child watch\<close>

text \<open>\<open>error\<close> and \<open>signaled\<close> of the callback.\<close>

definition exit_error :: "wait_status \<Rightarrow> wait_status \<times> bool" where
  "exit_error st =
     (if WIFEXITED st then (WEXITSTATUS st, False)
      else if WIFSTOPPED st then (0, True)
      else if WIFSIGNALED st then (0, True)
      else (0, False))"

definition openvpn_watch_cb ::
  "('k, 'g) kflib_scheme \<Rightarrow> 'n netlib_scheme \<Rightarrow> int \<Rightarrow> wait_status \<Rightarrow> process \<Rightarrow> process" where
  "openvpn_watch_cb L N child st s =
     (let (error, signaled) = exit_error st;
          s = emit (Waitpid (pid s)) s;
          s = s\<lparr>pid := 0\<rparr>;
          s = clear_connect_timer s
      in if error \<noteq> 0 \<or> signaled
         then (if \<not> started s then mark_stale_and_fail L N CONNECT_FAILED s
               else emit (Failure CONNECT_FAILED) (s\<lparr>unexpected_drop := True\<rparr>))
         else emit PluginDisconnect s)"

definition connect_timeout_cb ::
  "('k, 'g) kflib_scheme \<Rightarrow> 'n netlib_scheme \<Rightarrow> env \<Rightarrow> process \<Rightarrow> process" where
  "connect_timeout_cb L N E s =
     (let s = s\<lparr>connect_timer := 0\<rparr>
      in if \<not> started s
         then mark_stale_and_fail L N CONNECT_FAILED
                (if pid s \<noteq> 0 then snd (kill E (pid s) SIGTERM s) else s)
         else s)"

section \<open>Starting openvpn\<close>

definition openvpn_binary_paths :: "path list" where
  "openvpn_binary_paths = [''/usr/sbin/openvpn'', ''/usr/bin/openvpn'', ''/usr/local/sbin/openvpn'']"

fun first_existing :: "env \<Rightarrow> path list \<Rightarrow> path option" where
  "first_existing E [] = None"
| "first_existing E (p # ps) = (if e_file_exists E p then Some p else first_existing E ps)"

definition nm_find_openvpn :: "env \<Rightarrow> path option" where
  "nm_find_openvpn E = first_existing E openvpn_binary_paths"

text \<open>\<open>s_vpn ? nm_setting_vpn_get_data_item (s_vpn, key) : NULL\<close>\<close>

definition item :: "vpn_setting option \<Rightarrow> string \<Rightarrow> cstr" where
  "item s_vpn key = (case s_vpn of None \<Rightarrow> None | Some s \<Rightarrow> get_data_item s key)"

definition wants_keepalive :: "vpn_setting option \<Rightarrow> bool" where
  "wants_keepalive s_vpn =
     (let protocol = item s_vpn KEY_PROTOCOL;
          directives = item s_vpn KEY_CUSTOM_DIRECTIVES;
          keepalive = item s_vpn KEY_KEEPALIVE
      in (keepalive = None \<or> keepalive \<noteq> Some ''no'')
         \<and> (protocol = None \<or> protocol = Some PROTOCOL_UDP)
         \<and> \<not> (case directives of None \<Rightarrow> False
              | Some d \<Rightarrow> contains d ''keepalive'' \<or> contains d ''ping''))"

definition keepalive_args :: "vpn_setting option \<Rightarrow> string list" where
  "keepalive_args s_vpn =
     (if wants_keepalive s_vpn
      then [''--keepalive'',
            or_default (item s_vpn KEY_PING_INTERVAL) DEFAULT_PING_INTERVAL,
            or_default (item s_vpn KEY_PING_RESTART) DEFAULT_PING_RESTART]
      else [])"

definition NM_AIRVPN_USER :: string where "NM_AIRVPN_USER = ''nm-airvpn''"
definition NM_AIRVPN_GROUP :: string where "NM_AIRVPN_GROUP = ''nm-airvpn''"

definition helper_path :: "'n netlib_scheme \<Rightarrow> path" where
  "helper_path N = LIBEXECDIR N @ ''/nm-airvpn-service-openvpn-helper''"

definition up_script :: "'n netlib_scheme \<Rightarrow> globals \<Rightarrow> string" where
  "up_script N gl = helper_path N @ '' --debug '' @ dec_of_int (gl_log_level gl) @ '' ''
     @ dec_of_int (gl_getpid gl) @ '' --bus-name '' @ gl_bus_name gl @ '' --tun --''"

definition privilege_args :: "env \<Rightarrow> string list" where
  "privilege_args E =
     (if e_getpwnam E NM_AIRVPN_USER \<and> e_getgrnam E NM_AIRVPN_GROUP
      then [''--user'', NM_AIRVPN_USER, ''--group'', NM_AIRVPN_GROUP] else [])"

definition openvpn_argv ::
  "'n netlib_scheme \<Rightarrow> globals \<Rightarrow> env \<Rightarrow> path \<Rightarrow> path \<Rightarrow> vpn_setting option \<Rightarrow> string list" where
  "openvpn_argv N gl E openvpn config_path s_vpn =
     [openvpn, ''--config'', config_path] @ keepalive_args s_vpn
     @ [''--route-noexec'', ''--ifconfig-noexec'', ''--script-security'', ''2'',
        ''--up'', up_script N gl, ''--up-restart'', ''--persist-key'', ''--persist-tun'']
     @ privilege_args E @ [''--syslog'', ''nm-airvpn'']"

text \<open>What a previous attempt left behind is superseded.\<close>

definition supersede :: "'n netlib_scheme \<Rightarrow> process \<Rightarrow> process" where
  "supersede N s =
     (let s = (if kill_switch_active s
               then s\<lparr>table := nm_airvpn_firewall_disarm N (files s) (table s)\<rparr> else s)
      in s\<lparr>kill_switch_active := False, unexpected_drop := False\<rparr>)"

definition arm_kill_switch ::
  "'g fslib_scheme \<Rightarrow> 'n netlib_scheme \<Rightarrow> vpn_setting option \<Rightarrow> path \<Rightarrow> process
     \<Rightarrow> (gerror option \<times> process) option" where
  "arm_kill_switch L N s_vpn config_path s =
     (if item s_vpn KEY_KILL_SWITCH = Some ''yes''
      then (case nm_airvpn_firewall_arm L N config_path (item s_vpn KEY_ALLOW_LAN = Some ''yes'')
                   (files s) (table s) of
              None \<Rightarrow> None
            | Some (Some e, f, t) \<Rightarrow> Some (Some e, s\<lparr>files := f, table := t\<rparr>)
            | Some (None, f, t) \<Rightarrow> Some (None, s\<lparr>files := f, table := t, kill_switch_active := True\<rparr>))
      else Some (None, s))"

definition spawn_openvpn ::
  "'n netlib_scheme \<Rightarrow> env \<Rightarrow> string list \<Rightarrow> process \<Rightarrow> gerror option \<times> process" where
  "spawn_openvpn N E argv s =
     (case e_spawn_async E argv of
        Inl e \<Rightarrow>
          (Some e, if kill_switch_active s
                   then s\<lparr>table := nm_airvpn_firewall_disarm N (files s) (table s),
                          kill_switch_active := False\<rparr>
                   else s)
      | Inr p \<Rightarrow>
          (let s = (emit (Spawn argv p) s)\<lparr>pid := p\<rparr>;
               s = emit (AddChildWatch p) (s\<lparr>child_watches := p # child_watches s\<rparr>);
               s = clear_connect_timer s;
               i = next_id s
           in (None, emit (AddTimeout CONNECT_TIMEOUT_SECONDS i)
                 (s\<lparr>timers := i # timers s, connect_timer := i, next_id := Suc i\<rparr>))))"

definition launch_error :: "string \<Rightarrow> gerror" where
  "launch_error msg = GError NM_VPN_PLUGIN_ERROR E_LAUNCH_FAILED msg"

text \<open>
  No error is the \<open>TRUE\<close> return. Without a connection or a UUID the code would dereference
  \<open>NULL\<close> or build a path that ends early: the callers exclude both.
\<close>

definition run_openvpn ::
  "'g fslib_scheme \<Rightarrow> 'n netlib_scheme \<Rightarrow> globals \<Rightarrow> env \<Rightarrow> process
     \<Rightarrow> (gerror option \<times> process) option" where
  "run_openvpn L N gl E s =
     (case (connection s, uuid s) of
        (Some c, Some u) \<Rightarrow>
          (let s_vpn = nc_setting_vpn c
           in case nm_find_openvpn E of
                None \<Rightarrow> Some (Some (launch_error ''Could not find the openvpn binary.''), s)
              | Some openvpn \<Rightarrow>
                  (let config_path = nm_airvpn_cache_get_config_path L (NM_AIRVPN_STATEDIR N) u;
                       argv = openvpn_argv N gl E openvpn config_path s_vpn;
                       s = supersede N s
                   in case arm_kill_switch L N s_vpn config_path s of
                        None \<Rightarrow> None
                      | Some (Some e, s) \<Rightarrow> Some (Some e, s)
                      | Some (None, s) \<Rightarrow> Some (spawn_openvpn N E argv s)))
      | _ \<Rightarrow> None)"

section \<open>The end of a fetch\<close>

text \<open>
  \<open>g_task_propagate_pointer\<close>: a cancelled task gives the cancellation, whatever it returned. When
  \<open>g_task_return_error\<close> was given no error it only warns; the task completes when its thread
  function returns, with neither a result nor an error.
\<close>

definition nm_airvpn_generator_fetch_finish :: "bool \<Rightarrow> task_return \<Rightarrow> cstr \<times> gerror option" where
  "nm_airvpn_generator_fetch_finish is_cancelled ret =
     (if is_cancelled then (None, Some cancelled_error)
      else case ret of ReturnPointer config \<Rightarrow> (Some config, None) | ReturnError e \<Rightarrow> (None, e))"

definition is_cancelled_error :: "gerror option \<Rightarrow> bool" where
  "is_cancelled_error e =
     (case e of None \<Rightarrow> False | Some e \<Rightarrow> err_domain e = G_IO_ERROR \<and> err_code e = E_CANCELLED)"

definition start_after_fetch ::
  "'g fslib_scheme \<Rightarrow> 'n netlib_scheme \<Rightarrow> globals \<Rightarrow> env \<Rightarrow> process \<Rightarrow> process option" where
  "start_after_fetch L N gl E s =
     (case run_openvpn L N gl E s of
        None \<Rightarrow> None
      | Some (None, s) \<Rightarrow> Some s
      | Some (Some e, s) \<Rightarrow> Some (emit (Failure CONNECT_FAILED) s))"

text \<open>
  The message of the error is read by the log macro, if warnings are logged, and for the kind of
  failure: without an error this is a \<open>NULL\<close> dereference, the value \<open>None\<close>.
\<close>

definition fetch_done_cb ::
  "('k, 'g) kflib_scheme \<Rightarrow> 'n netlib_scheme \<Rightarrow> globals \<Rightarrow> env \<Rightarrow> cstr \<times> gerror option \<Rightarrow> process
     \<Rightarrow> process option" where
  "fetch_done_cb L N gl E result s =
     (let (config, error) = result
      in if is_cancelled_error error then Some s
         else
           (let s = s\<lparr>fetch_cancellable := None\<rparr>
            in case connection s of
                 None \<Rightarrow> Some s
               | Some c \<Rightarrow>
                   (case (nc_setting_vpn c, uuid s) of
                      (Some s_vpn, Some u) \<Rightarrow>
                        (let params = get_generator_params s_vpn
                         in case config of
                              Some config \<Rightarrow>
                                (case nm_airvpn_cache_store L (e_real_time E) (NM_AIRVPN_STATEDIR N) u
                                        params config (files s) of
                                   (Some e, f) \<Rightarrow> Some (emit (Failure CONNECT_FAILED) (s\<lparr>files := f\<rparr>))
                                 | (None, f) \<Rightarrow> start_after_fetch L N gl E (s\<lparr>files := f\<rparr>))
                            | None \<Rightarrow>
                                if nm_airvpn_cache_exists L (e_real_time E) (NM_AIRVPN_STATEDIR N) u
                                     params (files s)
                                then (if error = None \<and> gl_log_level gl \<ge> LOG_WARNING then None
                                      else start_after_fetch L N gl E s)
                                else (case error of
                                        None \<Rightarrow> None
                                      | Some e \<Rightarrow>
                                          Some (emit (Failure
                                            (if contains (err_message e) ''API key'' then LOGIN_FAILED
                                             else CONNECT_FAILED)) s)))
                    | _ \<Rightarrow> None)))"

section \<open>The virtual functions of the plugin\<close>

text \<open>A \<open>FALSE\<close> return may come without an error, from a failed \<open>g_return_val_if_fail\<close>.\<close>

datatype vfunc_result = Ok | Refused "gerror option"

definition state_dir_error :: "'n netlib_scheme \<Rightarrow> gerror" where
  "state_dir_error N = launch_error (''Could not create state directory '' @ lquo
     @ NM_AIRVPN_STATEDIR N @ rquo @ ''.'')"

definition no_key_error :: gerror where
  "no_key_error = launch_error (''No cached profile and no API key; get a key at ''
     @ API_SETTINGS_URL @ ''.'')"

definition start_fetch :: "gen_params \<Rightarrow> string \<Rightarrow> process \<Rightarrow> process" where
  "start_fetch params api_key s =
     (let i = next_id s
      in emit (FetchAsync i (generator_params_copy params) api_key)
           (s\<lparr>fetch_cancellable := Some i, next_id := Suc i,
              fetches := (i, generator_params_copy params, api_key) # fetches s\<rparr>))"

definition connect_common ::
  "('k, 'g) kflib_scheme \<Rightarrow> 'n netlib_scheme \<Rightarrow> globals \<Rightarrow> env \<Rightarrow> nm_connection \<Rightarrow> process
     \<Rightarrow> (vfunc_result \<times> process) option" where
  "connect_common L N gl E conn s =
     (case nc_setting_vpn conn of
        None \<Rightarrow> Some (Refused None, s)
      | Some s_vpn \<Rightarrow>
     (case nm_airvpn_properties_validate s_vpn of
        Some e \<Rightarrow> Some (Refused (Some e), s)
      | None \<Rightarrow>
     (case nm_airvpn_properties_validate_secrets s_vpn of
        Some e \<Rightarrow> Some (Refused (Some e), s)
      | None \<Rightarrow>
          (let s = cleanup_plugin N E s;
               s = s\<lparr>connection := Some conn, uuid := Some (nc_uuid conn)\<rparr>
           in case g_mkdir_with_parents L (NM_AIRVPN_STATEDIR N) o0700 (files s) of
                (Some e, f) \<Rightarrow> Some (Refused (Some (state_dir_error N)), s\<lparr>files := f\<rparr>)
              | (None, f) \<Rightarrow>
                  (let s = s\<lparr>files := f\<rparr>;
                       params = get_generator_params s_vpn
                   in if nm_airvpn_cache_is_valid L (e_real_time E) (NM_AIRVPN_STATEDIR N)
                           (nc_uuid conn) params (files s)
                      then (case run_openvpn L N gl E s of
                              None \<Rightarrow> None
                            | Some (None, s) \<Rightarrow> Some (Ok, s)
                            | Some (Some e, s) \<Rightarrow> Some (Refused (Some e), s))
                      else
                        (let api_key = get_secret s_vpn KEY_API_KEY
                         in if \<not> nonempty_str api_key then Some (Refused (Some no_key_error), s)
                            else Some (Ok, start_fetch params (the api_key) s)))))))"

definition real_connect where
  "real_connect L N gl E conn s = connect_common L N gl E conn s"

definition real_connect_interactive ::
  "('k, 'g) kflib_scheme \<Rightarrow> 'n netlib_scheme \<Rightarrow> globals \<Rightarrow> env \<Rightarrow> nm_connection \<Rightarrow> process
     \<Rightarrow> (vfunc_result \<times> process) option" where
  "real_connect_interactive L N gl E conn s =
     (case connect_common L N gl E conn s of
        None \<Rightarrow> None
      | Some (Ok, s) \<Rightarrow> Some (Ok, s\<lparr>interactive := True\<rparr>)
      | Some (Refused e, s) \<Rightarrow> Some (Refused e, s))"

definition NOT_REQUIRED :: nat where "NOT_REQUIRED = 4"

text \<open>Whether secrets are needed, with the name of the setting they belong to.\<close>

definition real_need_secrets :: "vpn_setting \<Rightarrow> bool \<times> cstr" where
  "real_need_secrets s_vpn =
     (let flags = vpn_secret_flags s_vpn KEY_API_KEY
      in if flags AND NOT_REQUIRED = 0 \<and> get_secret s_vpn KEY_API_KEY = None
         then (True, Some ''vpn'') else (False, None))"

definition real_disconnect ::
  "('k, 'g) kflib_scheme \<Rightarrow> 'n netlib_scheme \<Rightarrow> env \<Rightarrow> process \<Rightarrow> process" where
  "real_disconnect L N E s =
     (let s = (if pid s \<noteq> 0 \<and> \<not> started s \<and> uuid s \<noteq> None then mark_current_stale L N s else s)
      in cleanup_plugin N E s)"

definition real_new_secrets where
  "real_new_secrets L N gl E conn s = connect_common L N gl E conn s"

datatype service_state = UNKNOWN | INIT | SHUTDOWN | STARTING | STARTED | STOPPING | STOPPED

definition state_changed_cb :: "service_state \<Rightarrow> process \<Rightarrow> process" where
  "state_changed_cb st s =
     (case st of
        STARTED \<Rightarrow> clear_connect_timer (s\<lparr>started := True\<rparr>)
      | UNKNOWN \<Rightarrow> (clear_connect_timer s)\<lparr>connection := None\<rparr>
      | INIT \<Rightarrow> (clear_connect_timer s)\<lparr>connection := None\<rparr>
      | SHUTDOWN \<Rightarrow> (clear_connect_timer s)\<lparr>connection := None\<rparr>
      | STOPPING \<Rightarrow> (clear_connect_timer s)\<lparr>connection := None\<rparr>
      | STOPPED \<Rightarrow> (clear_connect_timer s)\<lparr>connection := None\<rparr>
      | STARTING \<Rightarrow> s)"

definition dispose :: "'n netlib_scheme \<Rightarrow> env \<Rightarrow> process \<Rightarrow> process" where
  "dispose N E s = cleanup_plugin N E s"

section \<open>The start of main\<close>

definition nm_airvpn_plugin_init :: "fsys \<Rightarrow> nft_table \<Rightarrow> process" where
  "nm_airvpn_plugin_init f t =
     \<lparr>pid = 0, kill_id = 0, interactive = False, started = False, connection = None,
      fetch_cancellable = None, connect_timer = 0, uuid = None, kill_switch_active = False,
      unexpected_drop = False, timers = [], child_watches = [], kill_timers = [], fetches = [],
      cancelled = [], next_id = 1, files = f, table = t, calls = []\<rparr>"

text \<open>The options after parsing: \<open>debug\<close> and \<open>bus_name\<close>; \<open>env_level\<close> is \<open>NM_VPN_LOG_LEVEL\<close>.\<close>

definition main_globals :: "'g glib_scheme \<Rightarrow> bool \<Rightarrow> cstr \<Rightarrow> cstr \<Rightarrow> int \<Rightarrow> globals" where
  "main_globals L debug bus_name_free env_level mypid =
     (let level = ascii_to_int64 L env_level 10 0 LOG_DEBUG (- 1)
      in \<lparr>gl_debug = debug,
          gl_log_level = (if level < 0 then (if debug then LOG_DEBUG else LOG_NOTICE) else level),
          gl_getpid = mypid,
          gl_bus_name = (case bus_name_free of Some b \<Rightarrow> b | None \<Rightarrow> NM_DBUS_SERVICE_AIRVPN)\<rparr>)"

text \<open>The environment \<open>main\<close> passes on to openvpn and so to the helper.\<close>

definition main_environment :: "globals \<Rightarrow> (string \<times> string) list" where
  "main_environment gl =
     [(''NM_VPN_LOG_LEVEL'', dec_of_int (gl_log_level gl)),
      (''NM_VPN_LOG_PREFIX_TOKEN'', dec_of_int (gl_getpid gl))]"

definition main_start :: "'n netlib_scheme \<Rightarrow> fsys \<Rightarrow> nft_table \<Rightarrow> process" where
  "main_start N f t = nm_airvpn_plugin_init f (nm_airvpn_firewall_disarm N f t)"

end
