(* ===== verification/NM_Event_Loop.thy ===== *)
theory NM_Event_Loop
  imports Main
begin

text \<open>
  Runs of a step relation, and the interface between the handlers of a program and its main
  loop; the daemon and the editor interpret it on their own step relations.
\<close>

text \<open>Runs of a step relation.\<close>

fun run_of :: "('s \<Rightarrow> 'e \<Rightarrow> 's \<Rightarrow> bool) \<Rightarrow> 's \<Rightarrow> 'e list \<Rightarrow> 's \<Rightarrow> bool" where
  "run_of step s [] s' \<longleftrightarrow> s' = s"
| "run_of step s (e # es) s' \<longleftrightarrow> (\<exists>t. step s e t \<and> run_of step t es s')"

lemma run_of_append:
  "run_of step s (es @ fs) s' \<longleftrightarrow> (\<exists>t. run_of step s es t \<and> run_of step t fs s')"
  by (induction es arbitrary: s) auto

section \<open>The interface between the handlers and the main loop\<close>

text \<open>What every handler keeps, every run keeps.\<close>

locale event_loop =
  fixes inv :: "'s \<Rightarrow> bool" and step :: "'s \<Rightarrow> 'e \<Rightarrow> 's \<Rightarrow> bool"
  assumes step_inv: "inv s \<Longrightarrow> step s e s' \<Longrightarrow> inv s'"
begin

lemma run_inv: "inv s \<Longrightarrow> run_of step s es s' \<Longrightarrow> inv s'"
  by (induction es arbitrary: s) (auto dest: step_inv)

text \<open>A property that only certain events can end holds along every run without them.\<close>

lemma run_keeps:
  assumes "inv s" "P s" "run_of step s es s'" "\<forall>e \<in> set es. A e"
    and "\<And>s e s'. inv s \<Longrightarrow> P s \<Longrightarrow> A e \<Longrightarrow> step s e s' \<Longrightarrow> P s'"
  shows "P s'"
  using assms(1-4)
proof (induction es arbitrary: s)
  case (Cons e es)
  then obtain t where t: "step s e t" "run_of step t es s'" by auto
  with Cons have "inv t" "P t" by (auto intro: step_inv assms(5))
  with Cons t show ?case by auto
qed simp

end

section \<open>Refinement\<close>

text \<open>
  A loop whose every step, seen through \<open>abs\<close>, is a step of a smaller machine: the runs of the
  program are runs of that machine, and what the machine keeps the program keeps.
\<close>

locale refined_loop = event_loop inv step
  for inv :: "'s \<Rightarrow> bool" and step :: "'s \<Rightarrow> 'e \<Rightarrow> 's \<Rightarrow> bool" +
  fixes abs :: "'s \<Rightarrow> 'a" and astep :: "'a \<Rightarrow> 'e \<Rightarrow> 'a \<Rightarrow> bool"
  assumes step_refines: "inv s \<Longrightarrow> step s e s' \<Longrightarrow> astep (abs s) e (abs s')"
begin

lemma run_refines: "inv s \<Longrightarrow> run_of step s es s' \<Longrightarrow> run_of astep (abs s) es (abs s')"
  by (induction es arbitrary: s) (auto intro: step_inv step_refines)

lemma run_keeps_abs:
  assumes "\<And>a e b. I a \<Longrightarrow> astep a e b \<Longrightarrow> I b" "I (abs s)" "inv s" "run_of step s es s'"
  shows "I (abs s')"
  using assms(2-4)
proof (induction es arbitrary: s)
  case (Cons e es)
  then obtain t where t: "step s e t" "run_of step t es s'" by auto
  have "I (abs t)" using assms(1) Cons.prems(1) step_refines [OF Cons.prems(2) t(1)] by blast
  from Cons.IH [OF this _ t(2)] Cons.prems(2) t(1) show ?case by (auto intro: step_inv)
qed simp

end

end
