(* ===== verification/Airvpn_Steps.thy ===== *)
theory Airvpn_Steps
  imports Airvpn_Service NM_Event_Loop
begin

text \<open>
  The daemon as a state machine: which handler runs on which event of the main loop or of
  NetworkManager, the invariants of the states it can reach, and the properties of the
  kill switch, the child process, the timer and the fetch over whole runs.
\<close>

section \<open>Steps\<close>

datatype event =
    Connect nm_connection | ConnectInteractive nm_connection | NewSecrets nm_connection
  | Disconnect
  | StateChanged service_state
  | ChildExit int wait_status
  | ConnectTimeout nat
  | KillTimeout int
  | FetchDone nat task_return

text \<open>A new child has a positive pid, which is not that of a child still watched.\<close>

definition env_ok :: "env \<Rightarrow> process \<Rightarrow> bool" where
  "env_ok E s \<longleftrightarrow>
     (\<forall>argv p. e_spawn_async E argv = Inr p \<longrightarrow> 0 < p \<and> p \<notin> set (child_watches s))"

text \<open>
  A source of the main loop is removed when it fires. There is no step for a handler that crashes.
\<close>

inductive svc_step ::
  "('k, 'g) kflib_scheme \<Rightarrow> 'n netlib_scheme \<Rightarrow> globals \<Rightarrow> process \<Rightarrow> event \<Rightarrow> process \<Rightarrow> bool"
  for L :: "('k, 'g) kflib_scheme" and N :: "'n netlib_scheme" and gl :: globals where
  connect: "env_ok E s \<Longrightarrow> real_connect L N gl E c s = Some (r, s') \<Longrightarrow>
     svc_step L N gl s (Connect c) s'"
| connect_interactive: "env_ok E s \<Longrightarrow> real_connect_interactive L N gl E c s = Some (r, s') \<Longrightarrow>
     svc_step L N gl s (ConnectInteractive c) s'"
| new_secrets: "env_ok E s \<Longrightarrow> real_new_secrets L N gl E c s = Some (r, s') \<Longrightarrow>
     svc_step L N gl s (NewSecrets c) s'"
| disconnect: "svc_step L N gl s Disconnect (real_disconnect L N E s)"
| state_changed: "svc_step L N gl s (StateChanged st) (state_changed_cb st s)"
| child_exit: "p \<in> set (child_watches s) \<Longrightarrow>
     svc_step L N gl s (ChildExit p st)
       (openvpn_watch_cb L N p st (s\<lparr>child_watches := remove1 p (child_watches s)\<rparr>))"
| connect_timeout: "i \<in> set (timers s) \<Longrightarrow>
     svc_step L N gl s (ConnectTimeout i)
       (connect_timeout_cb L N E (s\<lparr>timers := removeAll i (timers s)\<rparr>))"
| kill_timeout: "p \<in> set (kill_timers s) \<Longrightarrow>
     svc_step L N gl s (KillTimeout p) (ensure_killed E p (s\<lparr>kill_timers := remove1 p (kill_timers s)\<rparr>))"
| fetch_done: "env_ok E s \<Longrightarrow> (i, params, key) \<in> set (fetches s) \<Longrightarrow>
     fetch_done_cb L N gl E (nm_airvpn_generator_fetch_finish (i \<in> set (cancelled s)) ret)
       (s\<lparr>fetches := filter (\<lambda>f. fst f \<noteq> i) (fetches s)\<rparr>) = Some s' \<Longrightarrow>
     svc_step L N gl s (FetchDone i ret) s'"

inductive_cases step_ConnectE: "svc_step L N gl s (Connect c) s'"
inductive_cases step_DisconnectE: "svc_step L N gl s Disconnect s'"
inductive_cases step_ChildExitE: "svc_step L N gl s (ChildExit p st) s'"
inductive_cases step_FetchDoneE: "svc_step L N gl s (FetchDone i ret) s'"

section \<open>What the helpers change\<close>

lemma emit_simps [simp]:
  "pid (emit c s) = pid s" "started (emit c s) = started s" "connection (emit c s) = connection s"
  "fetch_cancellable (emit c s) = fetch_cancellable s" "connect_timer (emit c s) = connect_timer s"
  "uuid (emit c s) = uuid s" "kill_switch_active (emit c s) = kill_switch_active s"
  "unexpected_drop (emit c s) = unexpected_drop s" "timers (emit c s) = timers s"
  "child_watches (emit c s) = child_watches s" "kill_timers (emit c s) = kill_timers s"
  "fetches (emit c s) = fetches s" "cancelled (emit c s) = cancelled s"
  "next_id (emit c s) = next_id s" "files (emit c s) = files s" "table (emit c s) = table s"
  "interactive (emit c s) = interactive s" "kill_id (emit c s) = kill_id s"
  "calls (emit c s) = calls s @ [c]"
  by (simp_all add: emit_def)

lemma kill_simps [simp]: "fst (kill E p sig s) = e_kill E p" "snd (kill E p sig s) = emit (Kill p sig) s"
  by (simp_all add: kill_def)

definition timer_ok :: "process \<Rightarrow> bool" where
  "timer_ok s \<longleftrightarrow> timers s = (if connect_timer s = 0 then [] else [connect_timer s])"

lemma clear_timer_eq:
  "timer_ok s \<Longrightarrow> clear_connect_timer s = s\<lparr>timers := [], connect_timer := 0\<rparr>"
  by (simp add: clear_connect_timer_def timer_ok_def)

lemma clear_timer_simps [simp]:
  "pid (clear_connect_timer s) = pid s" "started (clear_connect_timer s) = started s"
  "connection (clear_connect_timer s) = connection s"
  "fetch_cancellable (clear_connect_timer s) = fetch_cancellable s"
  "connect_timer (clear_connect_timer s) = 0" "uuid (clear_connect_timer s) = uuid s"
  "kill_switch_active (clear_connect_timer s) = kill_switch_active s"
  "unexpected_drop (clear_connect_timer s) = unexpected_drop s"
  "child_watches (clear_connect_timer s) = child_watches s"
  "kill_timers (clear_connect_timer s) = kill_timers s" "fetches (clear_connect_timer s) = fetches s"
  "cancelled (clear_connect_timer s) = cancelled s" "next_id (clear_connect_timer s) = next_id s"
  "files (clear_connect_timer s) = files s" "table (clear_connect_timer s) = table s"
  "calls (clear_connect_timer s) = calls s"
  by (simp_all add: clear_connect_timer_def)

lemma cleanup_simps [simp]:
  "pid (cleanup_plugin N E s) = 0" "started (cleanup_plugin N E s) = False"
  "connection (cleanup_plugin N E s) = None" "uuid (cleanup_plugin N E s) = None"
  "fetch_cancellable (cleanup_plugin N E s) = None" "connect_timer (cleanup_plugin N E s) = 0"
  "unexpected_drop (cleanup_plugin N E s) = unexpected_drop s"
  "child_watches (cleanup_plugin N E s) = child_watches s" "fetches (cleanup_plugin N E s) = fetches s"
  "next_id (cleanup_plugin N E s) = next_id s" "files (cleanup_plugin N E s) = files s"
  "timers (cleanup_plugin N E s) = timers (clear_connect_timer s)"
  "cancelled (cleanup_plugin N E s) = (case fetch_cancellable s of None \<Rightarrow> cancelled s | Some c \<Rightarrow> c # cancelled s)"
  "table (cleanup_plugin N E s) = (if kill_switch_active s \<and> \<not> unexpected_drop s
     then nm_airvpn_firewall_disarm N (files s) (table s) else table s)"
  "kill_switch_active (cleanup_plugin N E s) = (kill_switch_active s \<and> unexpected_drop s)"
  by (auto simp: cleanup_plugin_def cancel_fetch_def terminate_openvpn_def release_kill_switch_def
      clear_connect_timer_def Let_def kill_def split: option.split)

lemma mark_current_simps [simp]:
  "pid (mark_current_stale L N s) = pid s" "started (mark_current_stale L N s) = started s"
  "connection (mark_current_stale L N s) = connection s" "uuid (mark_current_stale L N s) = uuid s"
  "fetch_cancellable (mark_current_stale L N s) = fetch_cancellable s"
  "connect_timer (mark_current_stale L N s) = connect_timer s"
  "kill_switch_active (mark_current_stale L N s) = kill_switch_active s"
  "unexpected_drop (mark_current_stale L N s) = unexpected_drop s"
  "timers (mark_current_stale L N s) = timers s"
  "child_watches (mark_current_stale L N s) = child_watches s"
  "kill_timers (mark_current_stale L N s) = kill_timers s"
  "fetches (mark_current_stale L N s) = fetches s" "cancelled (mark_current_stale L N s) = cancelled s"
  "next_id (mark_current_stale L N s) = next_id s" "table (mark_current_stale L N s) = table s"
  "calls (mark_current_stale L N s) = calls s"
  by (simp_all add: mark_current_stale_def split: option.split)

lemma mark_fail_simps [simp]:
  "pid (mark_stale_and_fail L N r s) = pid s"
  "kill_switch_active (mark_stale_and_fail L N r s) = kill_switch_active s"
  "unexpected_drop (mark_stale_and_fail L N r s) = unexpected_drop s"
  "table (mark_stale_and_fail L N r s) = table s"
  "calls (mark_stale_and_fail L N r s) = calls s @ [Failure r]"
  "files (mark_stale_and_fail L N r s) = files (mark_current_stale L N s)"
  by (simp_all add: mark_stale_and_fail_def)

lemma supersede_simps [simp]:
  "pid (supersede N s) = pid s" "started (supersede N s) = started s"
  "connection (supersede N s) = connection s" "uuid (supersede N s) = uuid s"
  "fetch_cancellable (supersede N s) = fetch_cancellable s"
  "connect_timer (supersede N s) = connect_timer s"
  "kill_switch_active (supersede N s) = False" "unexpected_drop (supersede N s) = False"
  "timers (supersede N s) = timers s" "child_watches (supersede N s) = child_watches s"
  "fetches (supersede N s) = fetches s" "cancelled (supersede N s) = cancelled s"
  "next_id (supersede N s) = next_id s" "files (supersede N s) = files s"
  "calls (supersede N s) = calls s"
  "table (supersede N s) = (if kill_switch_active s then nm_airvpn_firewall_disarm N (files s) (table s)
     else table s)"
  by (simp_all add: supersede_def Let_def)

lemma arm_kill_switch_frame:
  assumes "arm_kill_switch L N v p s = Some (r, s')"
  shows "\<exists>f t a. s' = s\<lparr>files := f, table := t, kill_switch_active := a\<rparr>"
proof -
  have "s' = s\<lparr>files := files s', table := table s', kill_switch_active := kill_switch_active s'\<rparr>"
    using assms by (auto simp: arm_kill_switch_def split: if_splits option.splits prod.splits)
  then show ?thesis by blast
qed

text \<open>The outcomes of \<open>run_openvpn\<close>, with the states between its parts.\<close>

lemma run_openvpn_cases:
  assumes "run_openvpn L N gl E s = Some (r, s')"
  obtains (no_binary) "r \<noteq> None" "s' = s" "nm_find_openvpn E = None"
  | (not_armed) c u e where "connection s = Some c" "uuid s = Some u" "r = Some e"
      "arm_kill_switch L N (nc_setting_vpn c)
         (nm_airvpn_cache_get_config_path L (NM_AIRVPN_STATEDIR N) u) (supersede N s) = Some (Some e, s')"
  | (spawned) c u b s1 where "connection s = Some c" "uuid s = Some u" "nm_find_openvpn E = Some b"
      "arm_kill_switch L N (nc_setting_vpn c)
         (nm_airvpn_cache_get_config_path L (NM_AIRVPN_STATEDIR N) u) (supersede N s) = Some (None, s1)"
      "spawn_openvpn N E (openvpn_argv N gl E b
         (nm_airvpn_cache_get_config_path L (NM_AIRVPN_STATEDIR N) u) (nc_setting_vpn c)) s1 = (r, s')"
proof -
  from assms obtain c u where cu: "connection s = Some c" "uuid s = Some u"
    by (auto simp: run_openvpn_def split: option.splits)
  show thesis
  proof (cases "nm_find_openvpn E")
    case None
    with assms cu show ?thesis by (intro no_binary) (auto simp: run_openvpn_def)
  next
    case (Some b)
    with assms cu obtain r1 s1 where a: "arm_kill_switch L N (nc_setting_vpn c)
        (nm_airvpn_cache_get_config_path L (NM_AIRVPN_STATEDIR N) u) (supersede N s) = Some (r1, s1)"
      by (auto simp: run_openvpn_def Let_def split: option.splits)
    show ?thesis
    proof (cases r1)
      case None
      with assms cu a Some show ?thesis by (intro spawned) (simp_all add: run_openvpn_def Let_def)
    next
      case (Some e)
      with assms cu a \<open>nm_find_openvpn E = Some b\<close> show ?thesis
        by (intro not_armed [of c u e]) (simp_all add: run_openvpn_def Let_def)
    qed
  qed
qed

lemma spawn_frame:
  assumes "spawn_openvpn N E argv s = (r, s')"
  shows "connection s' = connection s" "uuid s' = uuid s" "fetch_cancellable s' = fetch_cancellable s"
    "fetches s' = fetches s" "cancelled s' = cancelled s" "started s' = started s" "files s' = files s"
    "unexpected_drop s' = unexpected_drop s"
  using assms by (auto simp: spawn_openvpn_def Let_def split: sum.splits if_splits)

lemma spawn_result:
  assumes "spawn_openvpn N E argv s = (r, s')"
  shows "(r \<noteq> None \<and> pid s' = pid s \<and> child_watches s' = child_watches s \<and> timers s' = timers s
            \<and> connect_timer s' = connect_timer s \<and> next_id s' = next_id s \<and> \<not> kill_switch_active s'
            \<and> calls s' = calls s)
       \<or> (\<exists>p. r = None \<and> e_spawn_async E argv = Inr p \<and> pid s' = p \<and> child_watches s' = p # child_watches s
            \<and> timers s' = next_id s # timers (clear_connect_timer s) \<and> connect_timer s' = next_id s
            \<and> next_id s' = Suc (next_id s) \<and> kill_switch_active s' = kill_switch_active s
            \<and> table s' = table s
            \<and> calls s' = calls s @ [Spawn argv p, AddChildWatch p,
                AddTimeout CONNECT_TIMEOUT_SECONDS (next_id s)])"
proof (cases "e_spawn_async E argv")
  case (Inl e)
  with assms show ?thesis by (auto simp: spawn_openvpn_def split: if_splits)
next
  case (Inr p)
  with assms show ?thesis by (auto simp: spawn_openvpn_def Let_def clear_connect_timer_def)
qed

lemma run_openvpn_frame:
  assumes "run_openvpn L N gl E s = Some (r, s')"
  shows "connection s' = connection s" "uuid s' = uuid s" "fetch_cancellable s' = fetch_cancellable s"
    "fetches s' = fetches s" "cancelled s' = cancelled s" "started s' = started s"
  using assms
  by (cases rule: run_openvpn_cases;
      fastforce dest!: arm_kill_switch_frame dest: spawn_frame)+

lemma run_openvpn_process:
  assumes "run_openvpn L N gl E s = Some (r, s')"
  shows "(r \<noteq> None \<and> pid s' = pid s \<and> child_watches s' = child_watches s \<and> timers s' = timers s
            \<and> connect_timer s' = connect_timer s \<and> next_id s' = next_id s)
       \<or> (\<exists>argv p. r = None \<and> e_spawn_async E argv = Inr p \<and> pid s' = p \<and> child_watches s' = p # child_watches s
            \<and> timers s' = next_id s # timers (clear_connect_timer s) \<and> connect_timer s' = next_id s
            \<and> next_id s' = Suc (next_id s))"
  using assms
proof (cases rule: run_openvpn_cases)
  case (not_armed c u e)
  then show ?thesis by (auto dest!: arm_kill_switch_frame)
next
  case (spawned c u b s1)
  from arm_kill_switch_frame [OF spawned(4)] obtain f t a
    where s1: "s1 = (supersede N s)\<lparr>files := f, table := t, kill_switch_active := a\<rparr>" by blast
  have "timers (clear_connect_timer s1) = timers (clear_connect_timer s)"
    by (simp add: s1 clear_connect_timer_def)
  with spawn_result [OF spawned(5)] s1 show ?thesis by auto
qed simp

section \<open>The invariant of the daemon\<close>

text \<open>Connections the daemon took on were validated.\<close>

definition accepted :: "nm_connection \<Rightarrow> bool" where
  "accepted c \<longleftrightarrow> (\<exists>v. nc_setting_vpn c = Some v
     \<and> nm_airvpn_properties_validate v = None \<and> nm_airvpn_properties_validate_secrets v = None)"

definition child_ok :: "process \<Rightarrow> bool" where
  "child_ok s \<longleftrightarrow> (pid s \<noteq> 0 \<longrightarrow> 0 < pid s \<and> pid s \<in> set (child_watches s))"

definition connection_ok :: "process \<Rightarrow> bool" where
  "connection_ok s \<longleftrightarrow> (\<forall>c. connection s = Some c \<longrightarrow> uuid s = Some (nc_uuid c) \<and> accepted c)"

text \<open>At most one fetch counts, and no openvpn runs while it is under way.\<close>

definition fetch_ok :: "process \<Rightarrow> bool" where
  "fetch_ok s \<longleftrightarrow>
     (\<forall>f \<in> set (fetches s). fst f \<notin> set (cancelled s) \<longrightarrow> fetch_cancellable s = Some (fst f))
   \<and> (fetch_cancellable s \<noteq> None \<longrightarrow> pid s = 0)"

definition timer_inv :: "process \<Rightarrow> bool" where
  "timer_inv s \<longleftrightarrow> timer_ok s \<and> (connect_timer s \<noteq> 0 \<longrightarrow> pid s \<noteq> 0) \<and> 0 < next_id s"

definition svc_inv :: "process \<Rightarrow> bool" where
  "svc_inv s \<longleftrightarrow> child_ok s \<and> connection_ok s \<and> fetch_ok s \<and> timer_inv s"

lemmas svc_inv_defs = svc_inv_def child_ok_def connection_ok_def fetch_ok_def timer_inv_def timer_ok_def

lemma clear_timer_timers: "timer_ok s \<Longrightarrow> timers (clear_connect_timer s) = []"
  by (simp add: clear_timer_eq)

lemma svc_inv_cleanup: "svc_inv s \<Longrightarrow> svc_inv (cleanup_plugin N E s)"
  using clear_timer_timers [of s]
  by (auto simp: svc_inv_defs split: option.splits)

lemma svc_inv_run:
  assumes "svc_inv s" "env_ok E s" "pid s = 0" "fetch_cancellable s = None"
    and "run_openvpn L N gl E s = Some (r, s')"
  shows "svc_inv s'"
proof -
  have t: "timers (clear_connect_timer s) = []"
    using assms(1) by (intro clear_timer_timers) (simp add: svc_inv_def timer_inv_def)
  note frame = run_openvpn_frame [OF assms(5)]
  from run_openvpn_process [OF assms(5)] show ?thesis
  proof (elim disjE exE)
    assume "r \<noteq> None \<and> pid s' = pid s \<and> child_watches s' = child_watches s \<and> timers s' = timers s
            \<and> connect_timer s' = connect_timer s \<and> next_id s' = next_id s"
    with assms(1) frame show ?thesis by (simp add: svc_inv_defs)
  next
    fix argv p
    assume p: "r = None \<and> e_spawn_async E argv = Inr p \<and> pid s' = p \<and> child_watches s' = p # child_watches s
            \<and> timers s' = next_id s # timers (clear_connect_timer s) \<and> connect_timer s' = next_id s
            \<and> next_id s' = Suc (next_id s)"
    with assms(2) have "0 < p" unfolding env_ok_def by blast
    with assms(1,4) p t frame show ?thesis by (auto simp: svc_inv_defs)
  qed
qed

lemma svc_inv_files [simp]: "svc_inv (s\<lparr>files := f\<rparr>) = svc_inv s"
  by (simp add: svc_inv_defs)

lemma svc_inv_emit [simp]: "svc_inv (emit c s) = svc_inv s"
  by (simp add: svc_inv_defs)

lemma svc_inv_mark [simp]: "svc_inv (mark_current_stale L N s) = svc_inv s"
  by (simp add: svc_inv_defs)

lemma svc_inv_connect:
  assumes "svc_inv s" "env_ok E s" "connect_common L N gl E c s = Some (r, s')"
  shows "svc_inv s'"
proof (cases "nc_setting_vpn c")
  case None
  with assms show ?thesis by (simp add: connect_common_def)
next
  case (Some v)
  show ?thesis
  proof (cases "nm_airvpn_properties_validate v = None \<and> nm_airvpn_properties_validate_secrets v = None")
    case False
    with assms Some show ?thesis by (auto simp: connect_common_def split: option.splits)
  next
    case valid: True
    let ?s1 = "(cleanup_plugin N E s)\<lparr>connection := Some c, uuid := Some (nc_uuid c)\<rparr>"
    have acc: "accepted c" using Some valid by (simp add: accepted_def)
    have inv1: "svc_inv ?s1"
      using svc_inv_cleanup [OF assms(1), of N E] acc by (simp add: svc_inv_defs)
    obtain m f where mk: "g_mkdir_with_parents L (NM_AIRVPN_STATEDIR N) o0700 (files ?s1) = (m, f)"
      by (meson surj_pair)
    let ?s2 = "?s1\<lparr>files := f\<rparr>"
    have inv2: "svc_inv ?s2" "pid ?s2 = 0" "fetch_cancellable ?s2 = None" "env_ok E ?s2"
      using inv1 assms(2) by (simp_all add: env_ok_def)
    have fetch: "svc_inv (start_fetch params key ?s2)" for params key
      using inv2(1) by (auto simp: svc_inv_defs start_fetch_def Let_def split: option.splits)
    have run: "svc_inv s3" if "run_openvpn L N gl E ?s2 = Some (r3, s3)" for r3 s3
      by (rule svc_inv_run [OF inv2(1,4,2,3) that])
    show ?thesis
      using assms(3) Some valid mk inv1 inv2(1) fetch run
      by (auto simp: connect_common_def Let_def split: option.splits if_splits)
  qed
qed

lemma svc_inv_fetch_done:
  assumes "svc_inv s" "env_ok E s" "(i, params, key) \<in> set (fetches s)"
    and "fetch_done_cb L N gl E (nm_airvpn_generator_fetch_finish (i \<in> set (cancelled s)) ret)
       (s\<lparr>fetches := filter (\<lambda>f. fst f \<noteq> i) (fetches s)\<rparr>) = Some s'"
  shows "svc_inv s'"
proof -
  let ?s0 = "s\<lparr>fetches := filter (\<lambda>f. fst f \<noteq> i) (fetches s)\<rparr>"
  let ?r = "nm_airvpn_generator_fetch_finish (i \<in> set (cancelled s)) ret"
  have inv0: "svc_inv ?s0" using assms(1) by (auto simp: svc_inv_defs)
  show ?thesis
  proof (cases "is_cancelled_error (snd ?r)")
    case True
    with assms(4) inv0 show ?thesis by (simp add: fetch_done_cb_def split_def)
  next
    case False
    then have "i \<notin> set (cancelled s)"
      by (auto simp: nm_airvpn_generator_fetch_finish_def is_cancelled_error_def cancelled_error_def)
    with assms(1,3) have cur: "fetch_cancellable s = Some i" "pid s = 0"
      by (auto simp: svc_inv_defs)
    let ?s1 = "?s0\<lparr>fetch_cancellable := None\<rparr>"
    have inv1: "svc_inv ?s1" using assms(1) cur by (auto simp: svc_inv_defs)
    have after: "svc_inv s2" if "start_after_fetch L N gl E (?s1\<lparr>files := f\<rparr>) = Some s2" for f s2
    proof -
      have "svc_inv s3" if "run_openvpn L N gl E (?s1\<lparr>files := f\<rparr>) = Some (r3, s3)" for r3 s3
        using svc_inv_run [OF _ _ _ _ that] inv1 assms(2) cur by (simp add: env_ok_def)
      with that show ?thesis by (auto simp: start_after_fetch_def split: option.splits)
    qed
    have after0: "svc_inv s2" if "start_after_fetch L N gl E ?s1 = Some s2" for s2
      using after [of "files s"] that by simp
    obtain config error where r: "?r = (config, error)" by (meson surj_pair)
    with False have nc: "\<not> is_cancelled_error error" by simp
    show ?thesis
      using assms(4) inv1 after after0 nc unfolding fetch_done_cb_def r prod.case Let_def
      by (auto split: option.splits if_splits prod.splits)
  qed
qed

lemma svc_inv_state_changed: "svc_inv s \<Longrightarrow> svc_inv (state_changed_cb st s)"
  by (cases st) (auto simp: state_changed_cb_def svc_inv_defs clear_connect_timer_def)

lemma svc_inv_child_exit:
  assumes "svc_inv s"
  shows "svc_inv (openvpn_watch_cb L N p st (s\<lparr>child_watches := remove1 p (child_watches s)\<rparr>))"
proof -
  let ?s = "clear_connect_timer ((emit (Waitpid (pid s)) (s\<lparr>child_watches := remove1 p (child_watches s)\<rparr>))\<lparr>pid := 0\<rparr>)"
  have "svc_inv ?s" using assms by (auto simp: svc_inv_defs clear_connect_timer_def)
  moreover have "svc_inv (x\<lparr>unexpected_drop := True\<rparr>) = svc_inv x" for x
    by (simp add: svc_inv_defs)
  ultimately show ?thesis
    by (simp add: openvpn_watch_cb_def Let_def mark_stale_and_fail_def split_def)
qed

lemma svc_inv_timeout:
  assumes "svc_inv s" "i \<in> set (timers s)"
  shows "svc_inv (connect_timeout_cb L N E (s\<lparr>timers := removeAll i (timers s)\<rparr>))"
proof -
  have "i = connect_timer s"
    using assms by (auto simp: svc_inv_def timer_inv_def timer_ok_def split: if_splits)
  with assms have "svc_inv (s\<lparr>timers := removeAll i (timers s), connect_timer := 0\<rparr>)"
    by (auto simp: svc_inv_defs split: if_splits)
  then show ?thesis
    by (simp add: connect_timeout_cb_def Let_def mark_stale_and_fail_def)
qed

lemma svc_inv_kill_timeout:
  "svc_inv s \<Longrightarrow> svc_inv (ensure_killed E p (s\<lparr>kill_timers := ks\<rparr>))"
  by (simp add: ensure_killed_def split_def) (simp add: svc_inv_defs)

lemma svc_inv_disconnect: "svc_inv s \<Longrightarrow> svc_inv (real_disconnect L N E s)"
  by (simp add: real_disconnect_def Let_def svc_inv_cleanup)

lemma svc_inv_step:
  assumes "svc_inv s" "svc_step L N gl s e s'"
  shows "svc_inv s'"
  using assms(2,1)
proof (cases rule: svc_step.cases)
  case (connect E c r)
  from connect(3) show ?thesis
    unfolding real_connect_def by (rule svc_inv_connect [OF assms(1) connect(2)])
next
  case (connect_interactive E c r)
  then obtain s1 r1 where c: "connect_common L N gl E c s = Some (r1, s1)"
    and s1: "s' = s1 \<or> s' = s1\<lparr>interactive := True\<rparr>"
    by (auto simp: real_connect_interactive_def split: option.splits vfunc_result.splits)
  have "svc_inv s1" by (rule svc_inv_connect [OF assms(1) connect_interactive(2) c])
  with s1 show ?thesis by (auto simp: svc_inv_defs)
next
  case (new_secrets E c r)
  from new_secrets(3) show ?thesis
    unfolding real_new_secrets_def by (rule svc_inv_connect [OF assms(1) new_secrets(2)])
next
  case (fetch_done E i params key ret)
  show ?thesis by (rule svc_inv_fetch_done [OF assms(1) fetch_done(2,3,4)])
qed (simp_all add: svc_inv_disconnect svc_inv_state_changed svc_inv_child_exit svc_inv_timeout
      svc_inv_kill_timeout)

interpretation daemon: event_loop svc_inv "svc_step L N gl"
  for L :: "('k, 'g) kflib_scheme" and N :: "'n netlib_scheme" and gl
  by unfold_locales (rule svc_inv_step)

lemma svc_inv_start: "svc_inv (main_start N f t)"
  by (simp add: svc_inv_defs main_start_def nm_airvpn_plugin_init_def)

section \<open>The kill switch over runs\<close>

definition ks_inv :: "('k, 'g) kflib_scheme \<Rightarrow> 'n netlib_scheme \<Rightarrow> process \<Rightarrow> bool" where
  "ks_inv L N s \<longleftrightarrow> fw_inv (L, N, files s, table s) \<and> (kill_switch_active s \<longleftrightarrow> table s \<noteq> [])"

text \<open>What the documented behaviour of the libraries gives: all that does not depend on the state.\<close>

definition svc_doc :: "('k, 'g) kflib_scheme \<Rightarrow> 'n netlib_scheme \<Rightarrow> bool" where
  "svc_doc L N \<longleftrightarrow> fs_doc L \<and> split_doc L \<and> nft_doc N \<and> nft_delete_doc N \<and> nm_airvpn_firewall_available N"

lemma fw_inv_iff: "svc_doc L N \<Longrightarrow> fw_inv (L, N, f, t) \<longleftrightarrow> umask_ok f"
  by (simp add: fw_inv_def svc_doc_def)

lemma ks_inv_iff:
  "svc_doc L N \<Longrightarrow> ks_inv L N s \<longleftrightarrow> umask_ok (files s) \<and> (kill_switch_active s \<longleftrightarrow> table s \<noteq> [])"
  by (simp add: ks_inv_def fw_inv_iff)

lemma svc_disarm: "svc_doc L N \<Longrightarrow> nm_airvpn_firewall_disarm N f t = []"
  unfolding svc_doc_def by (elim conjE) (rule disarm_removes)

lemma ks_inv_cleanup: "svc_doc L N \<Longrightarrow> ks_inv L N s \<Longrightarrow> ks_inv L N (cleanup_plugin N E s)"
  by (auto simp: ks_inv_iff svc_disarm)

lemma ks_inv_supersede: "svc_doc L N \<Longrightarrow> ks_inv L N s \<Longrightarrow> ks_inv L N (supersede N s)"
  by (auto simp: ks_inv_iff svc_disarm)

lemma arm_kill_switch_effect:
  assumes "svc_doc L N" "ks_inv L N s" "\<not> kill_switch_active s"
    and "arm_kill_switch L N v p s = Some (r, s')"
  shows "ks_inv L N s' \<and> (r \<noteq> None \<longrightarrow> \<not> kill_switch_active s')
    \<and> (r = None \<longrightarrow> kill_switch_active s' = (item v KEY_KILL_SWITCH = Some ''yes''))
    \<and> calls s' = calls s"
proof (cases "item v KEY_KILL_SWITCH = Some ''yes''")
  case True
  from assms(4) True obtain x f t
    where a: "nm_airvpn_firewall_arm L N p (item v KEY_ALLOW_LAN = Some ''yes'') (files s) (table s) = Some (x, f, t)"
      and s': "r = x" "s' = (if x = None then s\<lparr>files := f, table := t, kill_switch_active := True\<rparr>
        else s\<lparr>files := f, table := t\<rparr>)"
    by (auto simp: arm_kill_switch_def split: option.splits prod.splits)
  have "fw_arm (p, item v KEY_ALLOW_LAN = Some ''yes'') (L, N, files s, table s) = Some (x = None, (L, N, f, t))"
    using a by (simp add: fw_arm_def)
  from fw_arm_effect [OF _ this] have "umask_ok f" "x = None \<longleftrightarrow> t \<noteq> []"
    using assms(1-3) by (auto simp: fw_inv_iff ks_inv_iff fw_armed_def)
  with s' True assms(1,3) show ?thesis by (simp add: ks_inv_iff)
next
  case False
  with assms show ?thesis by (simp add: arm_kill_switch_def ks_inv_iff)
qed

lemma spawn_table:
  "spawn_openvpn N E argv s = (r, s') \<Longrightarrow> table s' =
     (if r \<noteq> None \<and> kill_switch_active s then nm_airvpn_firewall_disarm N (files s) (table s) else table s)"
  by (auto simp: spawn_openvpn_def Let_def emit_def clear_connect_timer_def split: sum.splits if_splits)

lemma ks_inv_run:
  assumes "svc_doc L N" "ks_inv L N s" "run_openvpn L N gl E s = Some (r, s')"
  shows "ks_inv L N s'"
proof -
  note sup = ks_inv_supersede [OF assms(1,2)]
  from assms(3) show ?thesis
  proof (cases rule: run_openvpn_cases)
    case no_binary
    with assms(2) show ?thesis by simp
  next
    case (not_armed c u e)
    with arm_kill_switch_effect [OF assms(1) sup _ not_armed(4)] show ?thesis by simp
  next
    case (spawned c u b s1)
    with arm_kill_switch_effect [OF assms(1) sup _ spawned(4)] have "ks_inv L N s1" by simp
    with spawn_result [OF spawned(5)] spawn_frame(7) [OF spawned(5)] show ?thesis
      using assms(1) spawn_table [OF spawned(5)] by (auto simp: ks_inv_iff svc_disarm)
  qed
qed

lemma ks_inv_simps [simp]:
  "ks_inv L N (emit c s) = ks_inv L N s"
  "ks_inv L N (clear_connect_timer s) = ks_inv L N s"
  by (simp_all add: ks_inv_def)

lemma ks_inv_mark: "svc_doc L N \<Longrightarrow> ks_inv L N s \<Longrightarrow> ks_inv L N (mark_current_stale L N s)"
  by (auto simp: ks_inv_iff mark_current_stale_def svc_doc_def mark_umask_ok split: option.splits)

lemma ks_inv_connect:
  assumes "svc_doc L N" "ks_inv L N s" "connect_common L N gl E c s = Some (r, s')"
  shows "ks_inv L N s'"
proof (cases "\<exists>v. nc_setting_vpn c = Some v \<and> nm_airvpn_properties_validate v = None
    \<and> nm_airvpn_properties_validate_secrets v = None")
  case False
  with assms show ?thesis by (auto simp: connect_common_def split: option.splits)
next
  case True
  then obtain v where v: "nc_setting_vpn c = Some v" "nm_airvpn_properties_validate v = None"
    "nm_airvpn_properties_validate_secrets v = None" by blast
  let ?s1 = "(cleanup_plugin N E s)\<lparr>connection := Some c, uuid := Some (nc_uuid c)\<rparr>"
  have um: "umask_ok (files s)" using assms(1,2) by (simp add: ks_inv_iff)
  obtain m f where mk: "g_mkdir_with_parents L (NM_AIRVPN_STATEDIR N) o0700 (files ?s1) = (m, f)"
    by (meson surj_pair)
  with assms(1) mkdir_id [of L "NM_AIRVPN_STATEDIR N" o0700 "files s"] have f: "f = files s"
    by (simp add: svc_doc_def)
  let ?s2 = "?s1\<lparr>files := f\<rparr>"
  have inv2: "ks_inv L N ?s2"
    using ks_inv_cleanup [OF assms(1,2), of E] f by (simp add: ks_inv_def)
  have run: "ks_inv L N s3" if "run_openvpn L N gl E ?s2 = Some (r3, s3)" for r3 s3
    by (rule ks_inv_run [OF assms(1) inv2 that])
  have fetch: "ks_inv L N (start_fetch params key ?s2)" for params key
    using inv2 by (simp add: ks_inv_def start_fetch_def Let_def)
  show ?thesis
    using assms(3) v mk inv2 run fetch
    by (auto simp: connect_common_def Let_def split: option.splits if_splits)
qed

lemma ks_inv_fetch_done:
  assumes "svc_doc L N" "ks_inv L N s" "fetch_done_cb L N gl E res s = Some s'"
  shows "ks_inv L N s'"
proof -
  let ?s1 = "s\<lparr>fetch_cancellable := None\<rparr>"
  have files: "ks_inv L N (?s1\<lparr>files := f\<rparr>)" if "umask_ok f" for f
    using assms(1,2) that by (simp add: ks_inv_iff)
  have after: "ks_inv L N s2"
    if "umask_ok f" "start_after_fetch L N gl E (?s1\<lparr>files := f\<rparr>) = Some s2" for f s2
    using that(2) ks_inv_run [OF assms(1) files [OF that(1)]]
    by (auto simp: start_after_fetch_def split: option.splits)
  have um: "umask_ok (files s)" using assms(1,2) by (simp add: ks_inv_iff)
  have after0: "ks_inv L N s2" if "start_after_fetch L N gl E ?s1 = Some s2" for s2
    using after [OF um] that by simp
  have store: "umask_ok f" if "nm_airvpn_cache_store L tm d u p c (files s) = (x, f)" for tm d u p c x f
    using store_umask_ok [of L "files s" tm d u p c] assms(1) um that by (simp add: svc_doc_def)
  have stored: "ks_inv L N s2"
    if "nm_airvpn_cache_store L tm d u p c (files s) = (x, f)"
      "start_after_fetch L N gl E (?s1\<lparr>files := f\<rparr>) = Some s2" for tm d u p c x f s2
    by (rule after [OF store [OF that(1)] that(2)])
  have inv1: "ks_inv L N ?s1" using assms(2) by (simp add: ks_inv_def)
  obtain config error where r: "res = (config, error)" by (meson surj_pair)
  show ?thesis
    using assms(2,3) inv1 files stored after0 store unfolding fetch_done_cb_def r prod.case Let_def
    by (auto split: option.splits if_splits prod.splits)
qed

lemma ks_inv_step:
  assumes "svc_doc L N" "ks_inv L N s" "svc_step L N gl s e s'"
  shows "ks_inv L N s'"
  using assms(3,2)
proof (cases rule: svc_step.cases)
  case (connect E c r)
  from connect(3) show ?thesis unfolding real_connect_def by (rule ks_inv_connect [OF assms(1,2)])
next
  case (connect_interactive E c r)
  then obtain s1 r1 where c: "connect_common L N gl E c s = Some (r1, s1)"
    and s1: "s' = s1 \<or> s' = s1\<lparr>interactive := True\<rparr>"
    by (auto simp: real_connect_interactive_def split: option.splits vfunc_result.splits)
  have "ks_inv L N s1" by (rule ks_inv_connect [OF assms(1,2) c])
  with s1 show ?thesis by (auto simp: ks_inv_def)
next
  case (new_secrets E c r)
  from new_secrets(3) show ?thesis unfolding real_new_secrets_def by (rule ks_inv_connect [OF assms(1,2)])
next
  case (disconnect E)
  with assms(1,2) show ?thesis
    by (simp add: real_disconnect_def Let_def ks_inv_cleanup ks_inv_mark)
next
  case (state_changed st)
  with assms(2) show ?thesis by (cases st) (simp_all add: state_changed_cb_def ks_inv_def)
next
  case (child_exit p st)
  have "ks_inv L N ((emit x (s\<lparr>child_watches := w\<rparr>))\<lparr>pid := 0\<rparr>)" for x w
    using assms(2) by (simp add: ks_inv_def)
  moreover have "ks_inv L N (x\<lparr>unexpected_drop := True\<rparr>) = ks_inv L N x" for x
    by (simp add: ks_inv_def)
  ultimately show ?thesis
    unfolding child_exit(2)
    by (simp add: openvpn_watch_cb_def Let_def split_def mark_stale_and_fail_def ks_inv_mark assms(1))
next
  case (connect_timeout i E)
  have "ks_inv L N (s\<lparr>timers := w, connect_timer := 0\<rparr>)" for w
    using assms(2) by (simp add: ks_inv_def)
  then show ?thesis
    unfolding connect_timeout(2)
    by (simp add: connect_timeout_cb_def Let_def mark_stale_and_fail_def ks_inv_mark assms(1))
next
  case (kill_timeout p E)
  have "ks_inv L N (s\<lparr>kill_timers := w\<rparr>)" for w using assms(2) by (simp add: ks_inv_def)
  then show ?thesis unfolding kill_timeout(2) by (simp add: ensure_killed_def split_def)
next
  case (fetch_done E i params key ret)
  have "ks_inv L N (s\<lparr>fetches := w\<rparr>)" for w using assms(2) by (simp add: ks_inv_def)
  from ks_inv_fetch_done [OF assms(1) this fetch_done(4)] show ?thesis .
qed

definition guarded_inv :: "('k, 'g) kflib_scheme \<Rightarrow> 'n netlib_scheme \<Rightarrow> process \<Rightarrow> bool" where
  "guarded_inv L N s \<longleftrightarrow> svc_inv s \<and> (svc_doc L N \<longrightarrow> ks_inv L N s)"

interpretation guarded: event_loop "guarded_inv L N" "svc_step L N gl"
  for L :: "('k, 'g) kflib_scheme" and N :: "'n netlib_scheme" and gl
  by unfold_locales (auto simp: guarded_inv_def intro: svc_inv_step ks_inv_step)

lemma guarded_start: "umask_ok f \<Longrightarrow> guarded_inv L N (main_start N f t)"
  by (simp add: guarded_inv_def svc_inv_start ks_inv_iff)
    (simp add: main_start_def nm_airvpn_plugin_init_def svc_disarm)

section \<open>The calls of a step\<close>

lemma arm_kill_switch_calls: "arm_kill_switch L N v p s = Some (r, s') \<Longrightarrow> calls s' = calls s"
  by (auto dest!: arm_kill_switch_frame)

lemma run_openvpn_calls:
  assumes "run_openvpn L N gl E s = Some (r, s')"
  shows "(r \<noteq> None \<and> calls s' = calls s) \<or> (r = None \<and> (\<exists>new. calls s' = calls s @ new))"
  using assms
proof (cases rule: run_openvpn_cases)
  case (not_armed c u e)
  then show ?thesis by (auto dest: arm_kill_switch_calls)
next
  case (spawned c u b s1)
  from spawn_result [OF spawned(5)] arm_kill_switch_calls [OF spawned(4)] show ?thesis by auto
qed simp

text \<open>A connect is refused without an effect, or takes the plugin over after a cleanup.\<close>

lemma connect_common_cases:
  assumes "connect_common L N gl E c s = Some (r, s')"
  obtains (refused) e where "\<not> accepted c" "r = Refused e" "s' = s"
  | (taken) new where "accepted c" "connection s' = Some c" "uuid s' = Some (nc_uuid c)" "\<not> started s'"
      "cancelled s' = cancelled (cleanup_plugin N E s)" "calls s' = calls (cleanup_plugin N E s) @ new"
proof (cases "\<exists>v. nc_setting_vpn c = Some v \<and> nm_airvpn_properties_validate v = None
    \<and> nm_airvpn_properties_validate_secrets v = None")
  case False
  with assms have "\<not> accepted c \<and> (\<exists>e. r = Refused e) \<and> s' = s"
    by (auto simp: connect_common_def accepted_def split: option.splits)
  with refused show ?thesis by blast
next
  case True
  then obtain v where v: "nc_setting_vpn c = Some v" "nm_airvpn_properties_validate v = None"
    "nm_airvpn_properties_validate_secrets v = None" by blast
  let ?s1 = "(cleanup_plugin N E s)\<lparr>connection := Some c, uuid := Some (nc_uuid c)\<rparr>"
  obtain m f where mk: "g_mkdir_with_parents L (NM_AIRVPN_STATEDIR N) o0700 (files ?s1) = (m, f)"
    by (meson surj_pair)
  let ?s2 = "?s1\<lparr>files := f\<rparr>"
  let ?Q = "\<lambda>x. connection x = Some c \<and> uuid x = Some (nc_uuid c) \<and> \<not> started x
    \<and> cancelled x = cancelled (cleanup_plugin N E s) \<and> (\<exists>new. calls x = calls (cleanup_plugin N E s) @ new)"
  have base: "?Q ?s2" by simp
  have run: "?Q s3" if "run_openvpn L N gl E ?s2 = Some (r3, s3)" for r3 s3
    using run_openvpn_frame [OF that] run_openvpn_calls [OF that] by auto
  have fetch: "?Q (start_fetch params key ?s2)" for params key
    by (simp add: start_fetch_def Let_def)
  have "?Q s'"
    using assms v mk base run fetch
    by (auto simp: connect_common_def Let_def simp del: cleanup_simps split: option.splits if_splits)
  moreover have "accepted c" using v by (simp add: accepted_def)
  ultimately show ?thesis using taken by blast
qed

lemma cleanup_calls:
  assumes "pid s \<noteq> 0"
  shows "\<exists>new. calls (cleanup_plugin N E s) = calls s @ new \<and> Kill (pid s) SIGTERM \<in> set new"
  using assms
  by (auto simp: cleanup_plugin_def cancel_fetch_def terminate_openvpn_def release_kill_switch_def
      clear_connect_timer_def Let_def kill_def emit_def split: option.split)

lemma step_connect_like:
  assumes "svc_step L N gl s e s'" "e = Connect c \<or> e = ConnectInteractive c \<or> e = NewSecrets c"
  obtains E r s1 where "connect_common L N gl E c s = Some (r, s1)" "env_ok E s"
    "s' = s1 \<or> s' = s1\<lparr>interactive := True\<rparr>"
  using assms(1)
proof (cases rule: svc_step.cases)
  case (connect E c' r)
  with assms(2) that show ?thesis by (auto simp: real_connect_def)
next
  case (connect_interactive E c' r)
  with assms(2) that show ?thesis
    by (auto simp: real_connect_interactive_def split: option.splits vfunc_result.splits)
next
  case (new_secrets E c' r)
  with assms(2) that show ?thesis by (auto simp: real_new_secrets_def)
qed (use assms(2) in auto)

text \<open>While openvpn runs, every fetch still under way is a cancelled one.\<close>

lemma fetch_done_while_running:
  assumes "svc_inv s" "pid s \<noteq> 0" "svc_step L N gl s (FetchDone i ret) s'"
  shows "s' = s\<lparr>fetches := filter (\<lambda>f. fst f \<noteq> i) (fetches s)\<rparr>"
proof -
  from assms(3) obtain E params key where f: "(i, params, key) \<in> set (fetches s)"
    and cb: "fetch_done_cb L N gl E (nm_airvpn_generator_fetch_finish (i \<in> set (cancelled s)) ret)
       (s\<lparr>fetches := filter (\<lambda>f. fst f \<noteq> i) (fetches s)\<rparr>) = Some s'"
    by (rule step_FetchDoneE)
  have "fetch_cancellable s = None" using assms(1,2) by (auto simp: svc_inv_defs)
  with assms(1) f have "i \<in> set (cancelled s)" by (auto simp: svc_inv_defs)
  with cb show ?thesis
    by (simp add: fetch_done_cb_def nm_airvpn_generator_fetch_finish_def is_cancelled_error_def
        cancelled_error_def)
qed

end
