(* ===== verification/Airvpn_Runs.thy ===== *)
theory Airvpn_Runs
  imports Airvpn_Steps
begin

text \<open>
  Properties of the daemon over the runs of its state machine, each with a concrete run of a
  demonstration connection as witness.
\<close>

text \<open>States reached from the start of \<open>main\<close>.\<close>

definition reaches :: "('k, 'g) kflib_scheme \<Rightarrow> 'n netlib_scheme \<Rightarrow> globals \<Rightarrow> fsys \<Rightarrow> nft_table
    \<Rightarrow> event list \<Rightarrow> process \<Rightarrow> bool" where
  "reaches L N gl f t es s \<longleftrightarrow> run_of (svc_step L N gl) (main_start N f t) es s"

lemma reaches_inv: "reaches L N gl f t es s \<Longrightarrow> svc_inv s"
  unfolding reaches_def by (rule daemon.run_inv [OF svc_inv_start])

lemma reaches_ks: "reaches L N gl f t es s \<Longrightarrow> umask_ok f \<Longrightarrow> svc_doc L N \<Longrightarrow> ks_inv L N s"
proof -
  assume r: "reaches L N gl f t es s" and u: "umask_ok f" and d: "svc_doc L N"
  have "guarded_inv L N s"
    by (rule guarded.run_inv [OF guarded_start [OF u] r [unfolded reaches_def]])
  with d show ?thesis by (simp add: guarded_inv_def)
qed

text \<open>A step that starts an openvpn process.\<close>

definition spawns :: "process \<Rightarrow> process \<Rightarrow> bool" where
  "spawns s s' \<longleftrightarrow> (\<exists>new argv p. calls s' = calls s @ new \<and> Spawn argv p \<in> set new)"

lemma spawns_iff: "calls s' = calls s @ new \<Longrightarrow> spawns s s' \<longleftrightarrow> (\<exists>argv p. Spawn argv p \<in> set new)"
  by (auto simp: spawns_def)

lemma cleanup_no_spawn:
  "\<exists>new. calls (cleanup_plugin N E s) = calls s @ new \<and> (\<forall>argv p. Spawn argv p \<notin> set new)"
  by (auto simp: cleanup_plugin_def cancel_fetch_def terminate_openvpn_def release_kill_switch_def
      clear_connect_timer_def Let_def kill_def emit_def split: option.split)

section \<open>A demonstration connection\<close>

definition demo_setting :: vpn_setting where
  "demo_setting = \<lparr>vpn_data = [(''server'', ''earth'')], vpn_secrets = [(''api-key'', ''k'')],
     vpn_secret_flags = (\<lambda>_. 0)\<rparr>"

definition demo_gl :: globals where
  "demo_gl = \<lparr>gl_debug = False, gl_log_level = 5, gl_getpid = 42, gl_bus_name = ''bus''\<rparr>"

definition demo_env :: "int \<Rightarrow> env" where
  "demo_env p = \<lparr>e_real_time = 2000000000, e_spawn_async = (\<lambda>_. Inr p), e_kill = (\<lambda>_. True),
     e_file_exists = (\<lambda>_. True), e_getpwnam = (\<lambda>_. False), e_getgrnam = (\<lambda>_. False)\<rparr>"

text \<open>A file system whose cache holds a fresh profile of the connection.\<close>

definition cached_fs :: fsys where
  "cached_fs = snd (nm_airvpn_cache_store ref_lib 1000000000 (NM_AIRVPN_STATEDIR ref_net) demo_uuid
     (get_generator_params demo_setting) ''remote 10.9.8.7 53 tcp'' empty_fs)"

lemma demo_valid:
  "nm_airvpn_properties_validate demo_setting = None"
  "nm_airvpn_properties_validate_secrets demo_setting = None"
  by code_simp+

lemma cached_store:
  "nm_airvpn_cache_store ref_lib 1000000000 (NM_AIRVPN_STATEDIR ref_net) demo_uuid
     (get_generator_params demo_setting) ''remote 10.9.8.7 53 tcp'' empty_fs = (None, cached_fs)"
proof -
  have "fst (nm_airvpn_cache_store ref_lib 1000000000 (NM_AIRVPN_STATEDIR ref_net) demo_uuid
     (get_generator_params demo_setting) ''remote 10.9.8.7 53 tcp'' empty_fs) = None"
    by (simp add: nm_airvpn_cache_store_def write_file_0600_def set_umask_def ref_lib_def Let_def)
  then show ?thesis unfolding cached_fs_def by (metis prod.collapse)
qed

lemma cached_valid:
  "nm_airvpn_cache_is_valid ref_lib 2000000000 (NM_AIRVPN_STATEDIR ref_net) demo_uuid
     (get_generator_params demo_setting) cached_fs"
  unfolding nm_airvpn_cache_is_valid_def
    store_ok_check [OF ref_fs_doc ref_keyfile_doc demo_plain(3) cached_store]
  by (simp add: fresh_at_def G_USEC_PER_SEC_def CACHE_MAX_AGE_SECONDS_def signed_divide_int_def)

lemma cached_umask: "umask_ok cached_fs"
  unfolding cached_fs_def by (rule store_umask_ok [OF ref_fs_doc demo_plain(3)])

lemma demo_svc_doc: "svc_doc ref_lib ref_net"
  by (simp add: svc_doc_def ref_fs_doc ref_split_doc ref_nft_doc ref_nft_delete_doc)
    (simp add: nm_airvpn_firewall_available_def ref_net_def)

text \<open>The same connection with the kill switch on; the generator parameters are the same.\<close>

definition guarded_setting :: vpn_setting where
  "guarded_setting = demo_setting\<lparr>vpn_data := [(''server'', ''earth''), (''kill-switch'', ''yes'')]\<rparr>"

lemma guarded_valid:
  "nm_airvpn_properties_validate guarded_setting = None"
  "nm_airvpn_properties_validate_secrets guarded_setting = None"
  by code_simp+

lemma guarded_params: "get_generator_params guarded_setting = get_generator_params demo_setting"
  by (simp add: get_generator_params_def get_data_item_def guarded_setting_def demo_setting_def
      KEY_SERVER_def KEY_DEVICE_def KEY_PROTOCOL_def KEY_PORT_def KEY_CUSTOM_DIRECTIVES_def)

lemma demo_items:
  "item (Some demo_setting) KEY_KILL_SWITCH = None"
  "item (Some guarded_setting) KEY_KILL_SWITCH = Some ''yes''"
  by (simp_all add: item_def get_data_item_def demo_setting_def guarded_setting_def KEY_KILL_SWITCH_def)

definition conn_of :: "vpn_setting \<Rightarrow> nm_connection" where
  "conn_of v = \<lparr>nc_uuid = demo_uuid, nc_setting_vpn = Some v\<rparr>"

abbreviation demo_cfg :: path where
  "demo_cfg \<equiv> nm_airvpn_cache_get_config_path ref_lib (NM_AIRVPN_STATEDIR ref_net) demo_uuid"

lemma cached_parse:
  "parse_remotes ref_lib demo_cfg cached_fs =
    Some (Inr [\<lparr>re_host = ''10.9.8.7'', re_port = ''53'', re_proto = ''tcp''\<rparr>])"
proof -
  let ?ls = "[RemoteFull ''10.9.8.7'' ''53'' ''tcp'']"
  have ne: "demo_cfg \<noteq> meta_path ref_lib (NM_AIRVPN_STATEDIR ref_net) demo_uuid"
    by (rule cache_paths_distinct [OF ref_build_doc _ demo_plain(2,2)])
      (simp add: ref_net_def plain_dir_def)
  have "fs_files cached_fs demo_cfg = Some (created ''remote 10.9.8.7 53 tcp'')"
  proof (cases rule: store_cases [OF ref_fs_doc demo_plain(3) cached_store])
    case 3
    show ?thesis unfolding 3(2) using ne by simp
  qed simp_all
  then have "g_file_get_contents ref_lib demo_cfg cached_fs = Inr ''remote 10.9.8.7 53 tcp''"
    by (simp add: get_contents [OF ref_fs_doc] created_def)
  moreover have "\<forall>l \<in> set ?ls. ok_line ref_lib l"
    by (simp add: plain_field_def ascii_space_def)
  ultimately show ?thesis
    using parse_config_nonempty [OF ref_split_doc, of ?ls demo_cfg cached_fs] by simp
qed

lemma demo_arm_kill_switch:
  assumes "v = demo_setting \<or> v = guarded_setting" "files s = cached_fs" "\<not> kill_switch_active s"
  shows "\<exists>s1. arm_kill_switch ref_lib ref_net (Some v) demo_cfg s = Some (None, s1)
    \<and> kill_switch_active s1 = (v = guarded_setting) \<and> child_watches s1 = child_watches s
    \<and> (v = demo_setting \<longrightarrow> files s1 = cached_fs)"
proof -
  have ne: "demo_setting \<noteq> guarded_setting" by (simp add: guarded_setting_def demo_setting_def)
  with assms show ?thesis
    by (auto simp: arm_kill_switch_def demo_items ref_arm [OF cached_parse cached_umask])
qed

text \<open>Connecting with the profile in the cache starts openvpn at once.\<close>

lemma demo_connect:
  assumes "v = demo_setting \<or> v = guarded_setting"
    and "files s = cached_fs" "0 < p" "p \<notin> set (child_watches s)"
  shows "\<exists>s'. svc_step ref_lib ref_net demo_gl s (Connect (conn_of v)) s' \<and> pid s' = p
    \<and> child_watches s' = p # child_watches s \<and> connection s' = Some (conn_of v)
    \<and> uuid s' = Some demo_uuid \<and> \<not> started s' \<and> kill_switch_active s' = (v = guarded_setting)
    \<and> (v = demo_setting \<longrightarrow> files s' = cached_fs) \<and> spawns s s'"
proof -
  let ?E = "demo_env p"
  let ?s2 = "(cleanup_plugin ref_net ?E s)\<lparr>connection := Some (conn_of v), uuid := Some demo_uuid,
    files := cached_fs\<rparr>"
  have mk: "g_mkdir_with_parents ref_lib d m f = (None, f)" for d m f by (simp add: ref_lib_def)
  have find: "nm_find_openvpn ?E = Some ''/usr/sbin/openvpn''"
    by (simp add: nm_find_openvpn_def openvpn_binary_paths_def demo_env_def)
  have v: "nm_airvpn_properties_validate v = None" "nm_airvpn_properties_validate_secrets v = None"
    "get_generator_params v = get_generator_params demo_setting"
    using assms(1) demo_valid guarded_valid guarded_params by auto
  obtain s1 where arm: "arm_kill_switch ref_lib ref_net (Some v) demo_cfg (supersede ref_net ?s2) = Some (None, s1)"
    and s1: "kill_switch_active s1 = (v = guarded_setting)" "child_watches s1 = child_watches s"
      "v = demo_setting \<longrightarrow> files s1 = cached_fs"
    using demo_arm_kill_switch [OF assms(1), of "supersede ref_net ?s2"] by auto
  from arm_kill_switch_frame [OF arm] have s1': "connection s1 = Some (conn_of v)"
    "uuid s1 = Some demo_uuid" "\<not> started s1" by auto
  define argv where "argv = openvpn_argv ref_net demo_gl ?E ''/usr/sbin/openvpn'' demo_cfg (Some v)"
  define s' where "s' = snd (spawn_openvpn ref_net ?E argv s1)"
  have "fst (spawn_openvpn ref_net ?E a x) = None" for a x
    by (simp add: spawn_openvpn_def demo_env_def Let_def)
  then have sp: "spawn_openvpn ref_net ?E argv s1 = (None, s')"
    unfolding s'_def by (metis prod.collapse)
  have run: "run_openvpn ref_lib ref_net demo_gl ?E ?s2 = Some (None, s')"
    using sp [unfolded argv_def] arm
    by (simp add: run_openvpn_def find Let_def) (simp add: conn_of_def)
  have conn: "connect_common ref_lib ref_net demo_gl ?E (conn_of v) s = Some (Ok, s')"
    using run assms(2) cached_valid
    by (simp add: connect_common_def conn_of_def v mk Let_def) (simp add: demo_env_def)
  have "env_ok ?E s" using assms(3,4) by (simp add: env_ok_def demo_env_def)
  from svc_step.connect [OF this conn [folded real_connect_def]]
  have step: "svc_step ref_lib ref_net demo_gl s (Connect (conn_of v)) s'" .
  obtain new where "calls s1 = calls s @ new"
    using arm_kill_switch_calls [OF arm] cleanup_no_spawn [of ref_net ?E s] by auto
  with spawn_result [OF sp] have "spawns s s'"
    by (auto simp: spawns_iff [of _ _ "new @ [Spawn argv p, AddChildWatch p,
          AddTimeout CONNECT_TIMEOUT_SECONDS (next_id s1)]"] demo_env_def)
  with spawn_result [OF sp] spawn_frame [OF sp] step s1 s1' show ?thesis
    by (auto simp: demo_env_def)
qed

lemma kill_switch_flag: "svc_doc L N \<Longrightarrow> ks_inv L N s \<Longrightarrow> kill_switch_active s \<Longrightarrow> table s \<noteq> []"
  by (simp add: ks_inv_iff)

text \<open>The demonstration runs.\<close>

lemma start_files: "files (main_start ref_net cached_fs []) = cached_fs"
  "child_watches (main_start ref_net cached_fs []) = []"
  by (simp_all add: main_start_def nm_airvpn_plugin_init_def)

lemma run_of_snoc: "run_of step s es t \<Longrightarrow> step t e u \<Longrightarrow> run_of step s (es @ [e]) u"
  by (induction es arbitrary: s) auto

lemma reaches_snoc:
  "reaches L N gl f t es s \<Longrightarrow> svc_step L N gl s e s' \<Longrightarrow> reaches L N gl f t (es @ [e]) s'"
  unfolding reaches_def by (rule run_of_snoc)

lemma demo_running:
  assumes "v = demo_setting \<or> v = guarded_setting"
  shows "\<exists>s. reaches ref_lib ref_net demo_gl cached_fs [] [Connect (conn_of v)] s \<and> pid s = 100
    \<and> child_watches s = [100] \<and> connection s = Some (conn_of v) \<and> uuid s = Some demo_uuid
    \<and> \<not> started s \<and> kill_switch_active s = (v = guarded_setting)
    \<and> (v = demo_setting \<longrightarrow> files s = cached_fs)"
  using demo_connect [OF assms start_files(1), of 100] start_files(2)
  by (auto simp: reaches_def)

section \<open>Properties\<close>

text \<open>
  C9. In every reachable state of the daemon: a running openvpn is watched; the connect timer
  is the only timer and exists only while openvpn runs; a connection that is held has passed
  both validations and its UUID is the one the cache is used with; and a fetch that was not
  cancelled is the one the plugin waits for, with no openvpn running meanwhile.
\<close>

theorem daemon_invariant:
  assumes "reaches L N gl f t es s"
  shows "(pid s \<noteq> 0 \<longrightarrow> 0 < pid s \<and> pid s \<in> set (child_watches s))
    \<and> timers s = (if connect_timer s = 0 then [] else [connect_timer s])
    \<and> (connect_timer s \<noteq> 0 \<longrightarrow> pid s \<noteq> 0)
    \<and> (\<forall>c. connection s = Some c \<longrightarrow> uuid s = Some (nc_uuid c) \<and>
          (\<exists>v. nc_setting_vpn c = Some v \<and> nm_airvpn_properties_validate v = None
             \<and> nm_airvpn_properties_validate_secrets v = None))
    \<and> (\<forall>i params key. (i, params, key) \<in> set (fetches s) \<and> i \<notin> set (cancelled s) \<longrightarrow>
          fetch_cancellable s = Some i \<and> pid s = 0)"
  using reaches_inv [OF assms] by (fastforce simp: svc_inv_defs accepted_def)

lemma daemon_invariant_witness:
  "\<exists>s :: process. pid s = 100 \<and> 100 \<in> set (child_watches s) \<and> uuid s = Some demo_uuid"
proof -
  from demo_running [of demo_setting] obtain s
    where r: "reaches ref_lib ref_net demo_gl cached_fs [] [Connect (conn_of demo_setting)] s"
      and s: "pid s = 100" "connection s = Some (conn_of demo_setting)" by blast
  from daemon_invariant [OF r] s show ?thesis by (auto simp: conn_of_def)
qed

text \<open>
  C1. The daemon never abandons an openvpn process: whenever the recorded pid changes, in any
  reachable state and on any event, either a child-watch callback has run, or the old process
  was sent \<open>SIGTERM\<close> in that very step. In particular no connect overwrites a live pid.
\<close>

theorem openvpn_never_abandoned:
  assumes "reaches L N gl f t es s" "svc_step L N gl s e s'" "pid s \<noteq> 0" "pid s' \<noteq> pid s"
  shows "(\<exists>p st. e = ChildExit p st)
    \<or> (\<exists>new. calls s' = calls s @ new \<and> Kill (pid s) SIGTERM \<in> set new)"
proof -
  have inv: "svc_inv s" by (rule reaches_inv [OF assms(1)])
  have conn: ?thesis if "e = Connect c \<or> e = ConnectInteractive c \<or> e = NewSecrets c" for c
  proof -
    from step_connect_like [OF assms(2) that] obtain E r s1
      where c: "connect_common L N gl E c s = Some (r, s1)"
        and s1: "s' = s1 \<or> s' = s1\<lparr>interactive := True\<rparr>" by metis
    from c show ?thesis
    proof (cases rule: connect_common_cases)
      case (refused e)
      with s1 assms(4) show ?thesis by auto
    next
      case (taken new)
      with cleanup_calls [OF assms(3), of N E] s1 show ?thesis by auto
    qed
  qed
  show ?thesis
  proof (cases e)
    case Disconnect
    with assms(2) obtain E where "s' = real_disconnect L N E s" by (auto elim: step_DisconnectE)
    moreover define s1 where "s1 = (if pid s \<noteq> 0 \<and> \<not> started s \<and> uuid s \<noteq> None
      then mark_current_stale L N s else s)"
    moreover have "pid s1 = pid s" "calls s1 = calls s" by (simp_all add: s1_def)
    moreover have "real_disconnect L N E s = cleanup_plugin N E s1"
      by (simp add: real_disconnect_def Let_def s1_def)
    ultimately show ?thesis using cleanup_calls [of s1 N E] assms(3) by auto
  next
    case (FetchDone i ret)
    with fetch_done_while_running [OF inv assms(3), of L N gl i ret s'] assms(2,4) show ?thesis by auto
  next
    case (StateChanged st)
    with assms(2,4) show ?thesis
      by (cases st) (auto simp: state_changed_cb_def elim: svc_step.cases)
  next
    case (ConnectTimeout i)
    with assms(2) obtain E where "s' = connect_timeout_cb L N E (s\<lparr>timers := removeAll i (timers s)\<rparr>)"
      by (auto elim: svc_step.cases)
    with assms(4) show ?thesis by (simp add: connect_timeout_cb_def Let_def split: if_splits)
  next
    case (KillTimeout p)
    with assms(2,4) show ?thesis
      by (auto simp: ensure_killed_def split_def elim!: svc_step.cases)
  qed (use conn in auto)
qed

lemma openvpn_never_abandoned_witness:
  "\<exists>(s :: process) (s' :: process) new. pid s = 100 \<and> pid s' = 101 \<and> calls s' = calls s @ new \<and> Kill 100 SIGTERM \<in> set new"
proof -
  from demo_running [of demo_setting] obtain s
    where r: "reaches ref_lib ref_net demo_gl cached_fs [] [Connect (conn_of demo_setting)] s"
      and s: "pid s = 100" "files s = cached_fs" "child_watches s = [100]" by blast
  from demo_connect [of demo_setting s 101] s obtain s'
    where st: "svc_step ref_lib ref_net demo_gl s (Connect (conn_of demo_setting)) s'" and p: "pid s' = 101"
    by auto
  from openvpn_never_abandoned [OF r st] s p show ?thesis by auto
qed

text \<open>
  C10. In every reachable state the flag \<open>kill_switch_active\<close> is truthful: it is set exactly while
  the kernel holds the kill-switch table, so no handler loses a table it would have to remove. A
  crash between runs leaves no table, since \<open>main\<close> starts by removing one.
\<close>

theorem kill_switch_flag_truthful:
  assumes "svc_doc L N" "umask_ok f" "reaches L N gl f t es s"
  shows "(kill_switch_active s \<longleftrightarrow> table s \<noteq> []) \<and> table (main_start N f t) = []"
  using reaches_ks [OF assms(3,2,1)] svc_disarm [OF assms(1)] assms(1)
  by (simp add: ks_inv_iff main_start_def nm_airvpn_plugin_init_def)

lemma kill_switch_flag_truthful_witness: "\<exists>s :: process. kill_switch_active s \<and> table s \<noteq> []"
proof -
  from demo_running [of guarded_setting] obtain s
    where r: "reaches ref_lib ref_net demo_gl cached_fs [] [Connect (conn_of guarded_setting)] s"
      and s: "kill_switch_active s" by blast
  from kill_switch_flag_truthful [OF demo_svc_doc cached_umask r] s show ?thesis by blast
qed

fun quiet :: "event \<Rightarrow> bool" where
  "quiet (Connect c) = False"
| "quiet (ConnectInteractive c) = False"
| "quiet (NewSecrets c) = False"
| "quiet (FetchDone i ret) = False"
| "quiet _ = True"

lemma quiet_step_keeps_table:
  assumes "svc_step L N gl s e s'" "quiet e" "kill_switch_active s" "unexpected_drop s"
  shows "kill_switch_active s' \<and> unexpected_drop s' \<and> table s' = table s"
  using assms(1)
proof (cases rule: svc_step.cases)
  case (disconnect E)
  with assms(3,4) show ?thesis by (simp add: real_disconnect_def Let_def)
next
  case (state_changed st)
  with assms(3,4) show ?thesis by (cases st) (simp_all add: state_changed_cb_def)
next
  case (child_exit p st)
  with assms(3,4) show ?thesis by (simp add: openvpn_watch_cb_def Let_def split_def)
next
  case (connect_timeout i E)
  with assms(3,4) show ?thesis by (simp add: connect_timeout_cb_def Let_def)
next
  case (kill_timeout p E)
  with assms(3,4) show ?thesis by (simp add: ensure_killed_def split_def)
qed (use assms(2) in simp_all)

text \<open>
  C8. After an unexpected drop the protection stays: from a reachable state with the kill switch
  active and the drop recorded, no sequence of disconnects, state changes, child exits and
  timeouts, in any order, changes the table; only a new attempt to connect can.
\<close>

theorem drop_keeps_protection:
  assumes "svc_doc L N" "umask_ok f" "reaches L N gl f t es s"
    and "kill_switch_active s" "unexpected_drop s"
    and "run_of (svc_step L N gl) s es' s'" "\<forall>e \<in> set es'. quiet e"
  shows "table s' = table s \<and> table s' \<noteq> []"
proof -
  have "svc_inv s" by (rule reaches_inv [OF assms(3)])
  then have "kill_switch_active s' \<and> unexpected_drop s' \<and> table s' = table s"
    by (rule daemon.run_keeps [where P = "\<lambda>x. kill_switch_active x \<and> unexpected_drop x \<and> table x = table s",
          OF _ _ assms(6,7)]) (use assms(4,5) quiet_step_keeps_table in \<open>simp, metis\<close>)
  with kill_switch_flag [OF assms(1) reaches_ks [OF assms(3,2,1)] assms(4)] show ?thesis by simp
qed

lemma step_started:
  "svc_step L N gl s (StateChanged STARTED) ((clear_connect_timer (s\<lparr>started := True\<rparr>)) :: process)"
  using svc_step.state_changed [of L N gl s STARTED] by (simp add: state_changed_cb_def)

text \<open>Exit code 1, as \<open>waitpid\<close> reports it.\<close>

lemma exit_256: "exit_error 256 = (1, False)"
  by (simp add: exit_error_def WIFEXITED_def WEXITSTATUS_def)

lemma exit_0: "exit_error 0 = (0, False)"
  by (simp add: exit_error_def WIFEXITED_def WEXITSTATUS_def)

lemma demo_dropped:
  "\<exists>s. reaches ref_lib ref_net demo_gl cached_fs []
       [Connect (conn_of guarded_setting), StateChanged STARTED, ChildExit 100 256] s
     \<and> kill_switch_active s \<and> unexpected_drop s"
proof -
  from demo_running [of guarded_setting] obtain s
    where r: "reaches ref_lib ref_net demo_gl cached_fs [] [Connect (conn_of guarded_setting)] s"
      and s: "child_watches s = [100]" "kill_switch_active s" by blast
  let ?s1 = "clear_connect_timer (s\<lparr>started := True\<rparr>)"
  have r1: "reaches ref_lib ref_net demo_gl cached_fs []
      [Connect (conn_of guarded_setting), StateChanged STARTED] ?s1"
    using reaches_snoc [OF r step_started] by simp
  let ?s2 = "openvpn_watch_cb ref_lib ref_net 100 256 (?s1\<lparr>child_watches := remove1 100 (child_watches ?s1)\<rparr>)"
  have "svc_step ref_lib ref_net demo_gl ?s1 (ChildExit 100 256) ?s2"
    by (rule svc_step.child_exit) (simp add: s(1))
  from reaches_snoc [OF r1 this]
  have "reaches ref_lib ref_net demo_gl cached_fs []
      [Connect (conn_of guarded_setting), StateChanged STARTED, ChildExit 100 256] ?s2" by simp
  moreover have "kill_switch_active ?s2" "unexpected_drop ?s2"
    using s(2) by (simp_all add: openvpn_watch_cb_def Let_def exit_256)
  ultimately show ?thesis by blast
qed

lemma drop_keeps_protection_witness:
  "\<exists>(s :: process) (s' :: process). run_of (svc_step ref_lib ref_net demo_gl) s [Disconnect] s' \<and> table s' \<noteq> []"
proof -
  from demo_dropped obtain s
    where r: "reaches ref_lib ref_net demo_gl cached_fs []
       [Connect (conn_of guarded_setting), StateChanged STARTED, ChildExit 100 256] s"
      and s: "kill_switch_active s" "unexpected_drop s" by blast
  have run: "run_of (svc_step ref_lib ref_net demo_gl) s [Disconnect]
      (real_disconnect ref_lib ref_net (demo_env 1) s)"
    by (simp add: svc_step.disconnect)
  from drop_keeps_protection [OF demo_svc_doc cached_umask r s run] run show ?thesis by auto
qed

text \<open>
  The process has been started with the cached profile of the connection, and the table is the
  ruleset of that profile. The ruleset was built before its file was removed.
\<close>

definition started_protected ::
  "('k, 'g) kflib_scheme \<Rightarrow> 'n netlib_scheme \<Rightarrow> globals \<Rightarrow> nm_connection \<Rightarrow> process \<Rightarrow> bool" where
  "started_protected L N gl c s \<longleftrightarrow> kill_switch_active s \<and>
     (\<exists>u path fs ruleset E openvpn. uuid s = Some u
        \<and> path = nm_airvpn_cache_get_config_path L (NM_AIRVPN_STATEDIR N) u
        \<and> Spawn (openvpn_argv N gl E openvpn path (nc_setting_vpn c)) (pid s) \<in> set (calls s)
        \<and> files s = drop_file (ruleset_path L N) fs
        \<and> build_ruleset L N path (item (nc_setting_vpn c) KEY_ALLOW_LAN = Some ''yes'') fs = Some (Inr ruleset)
        \<and> table s = [ruleset])"

lemma run_openvpn_protected:
  assumes "svc_doc L N" "ks_inv L N s" "run_openvpn L N gl E s = Some (None, s')"
    and "connection s' = Some c" "item (nc_setting_vpn c) KEY_KILL_SWITCH = Some ''yes''"
  shows "started_protected L N gl c s'"
  using assms(3)
proof (cases rule: run_openvpn_cases)
  case (spawned c' u b s1)
  let ?path = "nm_airvpn_cache_get_config_path L (NM_AIRVPN_STATEDIR N) u"
  have c: "c' = c" using run_openvpn_frame(1) [OF assms(3)] assms(4) spawned(1) by simp
  have sup: "ks_inv L N (supersede N s)" by (rule ks_inv_supersede [OF assms(1,2)])
  then have sup': "umask_ok (files s)" "table (supersede N s) = []" using assms(1) by (simp_all add: ks_inv_iff)
  from spawned(4) c assms(5) obtain f t where
    a: "nm_airvpn_firewall_arm L N ?path (item (nc_setting_vpn c) KEY_ALLOW_LAN = Some ''yes'')
         (files s) (table (supersede N s)) = Some (None, f, t)"
    and s1: "s1 = (supersede N s)\<lparr>files := f, table := t, kill_switch_active := True\<rparr>"
    by (auto simp: arm_kill_switch_def simp del: supersede_simps(16) split: option.splits)
  have doc: "fs_doc L" "split_doc L" "nft_doc N" using assms(1) by (simp_all add: svc_doc_def)
  obtain ruleset where r: "f = drop_file (ruleset_path L N) (files s)" "t = [ruleset]"
    "build_ruleset L N ?path (item (nc_setting_vpn c) KEY_ALLOW_LAN = Some ''yes'') (files s) = Some (Inr ruleset)"
    by (cases rule: arm_cases [OF doc sup'(1) a [unfolded sup'(2)]]) auto
  from spawn_result [OF spawned(5)] obtain p where
    "calls s' = calls s1 @ [Spawn (openvpn_argv N gl E b ?path (nc_setting_vpn c)) p, AddChildWatch p,
       AddTimeout CONNECT_TIMEOUT_SECONDS (next_id s1)]" "table s' = table s1" "pid s' = p"
    "kill_switch_active s' = kill_switch_active s1" by (auto simp: c)
  moreover have "files s' = files s1" by (rule spawn_frame(7) [OF spawned(5)])
  moreover have "uuid s' = Some u" using run_openvpn_frame(2) [OF assms(3)] spawned(2) by simp
  ultimately show ?thesis unfolding started_protected_def using r s1
    by (intro conjI exI [of _ u] exI [of _ ?path] exI [of _ "files s"] exI [of _ ruleset] exI [of _ E]
        exI [of _ b]) simp_all
qed simp_all

text \<open>A connect spawns only through \<open>run_openvpn\<close>, in a state with the invariant.\<close>

lemma connect_spawns:
  assumes "svc_doc L N" "ks_inv L N s" "connect_common L N gl E c s = Some (r, s')" "spawns s s'"
  obtains s2 where "ks_inv L N s2" "run_openvpn L N gl E s2 = Some (None, s')"
proof (cases "\<exists>v. nc_setting_vpn c = Some v \<and> nm_airvpn_properties_validate v = None
    \<and> nm_airvpn_properties_validate_secrets v = None")
  case False
  with assms(3) have "s' = s" by (auto simp: connect_common_def split: option.splits)
  with assms(4) show ?thesis by (simp add: spawns_def)
next
  case True
  then obtain v where v: "nc_setting_vpn c = Some v" "nm_airvpn_properties_validate v = None"
    "nm_airvpn_properties_validate_secrets v = None" by blast
  let ?s1 = "(cleanup_plugin N E s)\<lparr>connection := Some c, uuid := Some (nc_uuid c)\<rparr>"
  obtain m f where mk: "g_mkdir_with_parents L (NM_AIRVPN_STATEDIR N) o0700 (files ?s1) = (m, f)"
    by (meson surj_pair)
  with assms(1) mkdir_id [of L "NM_AIRVPN_STATEDIR N" o0700 "files s"] have f: "f = files s"
    by (simp add: svc_doc_def)
  let ?s2 = "?s1\<lparr>files := f\<rparr>"
  have inv2: "ks_inv L N ?s2"
    using ks_inv_cleanup [OF assms(1,2), of E] f by (simp add: ks_inv_def)
  obtain new where new: "calls (cleanup_plugin N E s) = calls s @ new" "\<forall>argv p. Spawn argv p \<notin> set new"
    using cleanup_no_spawn by blast
  have base: "\<not> spawns s ?s2" using new by (simp add: spawns_iff)
  have failed: "\<not> spawns s s3" if "run_openvpn L N gl E ?s2 = Some (Some e, s3)" for e s3
    using run_openvpn_calls [OF that] new by (auto simp: spawns_iff)
  have fetch: "\<not> spawns s (start_fetch params key ?s2)" for params key
    using new by (subst spawns_iff [of _ _ "new @ [FetchAsync (next_id ?s2) (generator_params_copy params) key]"])
      (auto simp: start_fetch_def Let_def)
  have "run_openvpn L N gl E ?s2 = Some (None, s')"
    using assms(3,4) v mk base failed fetch
    by (auto simp: connect_common_def Let_def simp del: cleanup_simps split: option.splits if_splits)
  with inv2 that show ?thesis by blast
qed

lemma fetch_done_spawns:
  assumes "svc_doc L N" "ks_inv L N s" "fetch_done_cb L N gl E res s = Some s'" "spawns s s'"
  obtains s2 where "ks_inv L N s2" "run_openvpn L N gl E s2 = Some (None, s')"
proof -
  let ?s1 = "s\<lparr>fetch_cancellable := None\<rparr>"
  have um: "umask_ok (files s)" using assms(1,2) by (simp add: ks_inv_iff)
  have none: "\<not> spawns s x" if "calls x = calls s" for x
    using that by (subst spawns_iff [of _ _ "[]"]) auto
  have fail: "\<not> spawns s (emit (Failure y) x)" if "calls x = calls s" for x y
    using that by (subst spawns_iff [of _ _ "[Failure y]"]) auto
  have after: "\<exists>s2. ks_inv L N s2 \<and> run_openvpn L N gl E s2 = Some (None, s3)"
    if "umask_ok f" "start_after_fetch L N gl E (?s1\<lparr>files := f\<rparr>) = Some s3" "spawns s s3" for f s3
  proof -
    have inv: "ks_inv L N (?s1\<lparr>files := f\<rparr>)" using assms(1,2) that(1) by (simp add: ks_inv_iff)
    from that(2) obtain r3 s4 where run: "run_openvpn L N gl E (?s1\<lparr>files := f\<rparr>) = Some (r3, s4)"
      and s3: "s3 = (case r3 of None \<Rightarrow> s4 | Some _ \<Rightarrow> emit (Failure CONNECT_FAILED) s4)"
      by (auto simp: start_after_fetch_def split: option.splits)
    show ?thesis
    proof (cases r3)
      case None
      with run s3 inv show ?thesis by auto
    next
      case (Some e)
      with run_openvpn_calls [OF run] have "calls s4 = calls s" by simp
      with fail Some s3 that(3) show ?thesis by simp
    qed
  qed
  have after0: "\<exists>s2. ks_inv L N s2 \<and> run_openvpn L N gl E s2 = Some (None, s3)"
    if "start_after_fetch L N gl E ?s1 = Some s3" "spawns s s3" for s3
    using after [OF um] that by simp
  have stored: "\<exists>s2. ks_inv L N s2 \<and> run_openvpn L N gl E s2 = Some (None, s3)"
    if "nm_airvpn_cache_store L tm d u p c (files s) = (x, f)"
      "start_after_fetch L N gl E (?s1\<lparr>files := f\<rparr>) = Some s3" "spawns s s3" for tm d u p c x f s3
    using store_umask_ok [of L "files s" tm d u p c] assms(1) um that after by (simp add: svc_doc_def)
  obtain config error where r: "res = (config, error)" by (meson surj_pair)
  have "\<exists>s2. ks_inv L N s2 \<and> run_openvpn L N gl E s2 = Some (None, s')"
    using assms(3,4) none fail stored after0 unfolding fetch_done_cb_def r prod.case Let_def
    by (auto split: option.splits if_splits prod.splits)
  with that show thesis by blast
qed

lemma quiet_spawns_nothing:
  assumes "svc_step L N gl s e s'" "quiet e"
  shows "\<not> spawns s s'"
proof -
  have other: "\<not> spawns s x" if "calls x = calls s @ new" "\<forall>argv p. Spawn argv p \<notin> set new" for x new
    using that by (simp add: spawns_iff)
  from assms(1) show ?thesis
  proof (cases rule: svc_step.cases)
    case (disconnect E)
    define s1 where "s1 = (if pid s \<noteq> 0 \<and> \<not> started s \<and> uuid s \<noteq> None then mark_current_stale L N s else s)"
    have "calls s1 = calls s" by (simp add: s1_def)
    moreover have "s' = cleanup_plugin N E s1" using disconnect by (simp add: real_disconnect_def Let_def s1_def)
    ultimately show ?thesis using cleanup_no_spawn [of N E s1] other by auto
  next
    case (state_changed st)
    then show ?thesis by (cases st) (simp_all add: state_changed_cb_def spawns_def)
  next
    case (child_exit p st)
    then show ?thesis
      by (auto simp: openvpn_watch_cb_def Let_def split_def spawns_def)
  next
    case (connect_timeout i E)
    then show ?thesis by (auto simp: connect_timeout_cb_def Let_def spawns_def)
  next
    case (kill_timeout p E)
    then show ?thesis by (auto simp: ensure_killed_def split_def spawns_def)
  qed (use assms(2) in simp_all)
qed

lemma step_protected:
  assumes "svc_doc L N" "umask_ok f" "reaches L N gl f t es s" "svc_step L N gl s e s'"
    and "spawns s s'" "connection s' = Some c" "item (nc_setting_vpn c) KEY_KILL_SWITCH = Some ''yes''"
  shows "started_protected L N gl c s'"
proof -
  have ks: "ks_inv L N s" by (rule reaches_ks [OF assms(3,2,1)])
  have conn: ?thesis if "e = Connect d \<or> e = ConnectInteractive d \<or> e = NewSecrets d" for d
  proof -
    from step_connect_like [OF assms(4) that] obtain E r s1
      where c: "connect_common L N gl E d s = Some (r, s1)"
        and s1: "s' = s1 \<or> s' = s1\<lparr>interactive := True\<rparr>" by metis
    from s1 have "calls s' = calls s1" by auto
    with assms(5) have "spawns s s1" by (simp add: spawns_def)
    from connect_spawns [OF assms(1) ks c this] obtain s2
      where "ks_inv L N s2" "run_openvpn L N gl E s2 = Some (None, s1)" .
    from run_openvpn_protected [OF assms(1) this] s1 assms(6,7) show ?thesis by (auto simp: started_protected_def)
  qed
  show ?thesis
  proof (cases e)
    case (FetchDone i ret)
    from assms(4) [unfolded FetchDone] obtain E
      where cb: "fetch_done_cb L N gl E (nm_airvpn_generator_fetch_finish (i \<in> set (cancelled s)) ret)
        (s\<lparr>fetches := filter (\<lambda>f. fst f \<noteq> i) (fetches s)\<rparr>) = Some s'"
      by (rule step_FetchDoneE)
    have "ks_inv L N (s\<lparr>fetches := filter (\<lambda>f. fst f \<noteq> i) (fetches s)\<rparr>)"
      using ks by (simp add: ks_inv_def)
    moreover have "spawns (s\<lparr>fetches := filter (\<lambda>f. fst f \<noteq> i) (fetches s)\<rparr>) s'"
      using assms(5) by (simp add: spawns_def)
    ultimately obtain s2 where "ks_inv L N s2" "run_openvpn L N gl E s2 = Some (None, s')"
      using fetch_done_spawns [OF assms(1) _ cb] by metis
    from run_openvpn_protected [OF assms(1) this assms(6,7)] show ?thesis .
  qed (use conn quiet_spawns_nothing [OF assms(4)] assms(5) in auto)
qed

text \<open>
  C2. No openvpn starts unprotected: whenever a step out of a reachable state spawns a process
  for a connection that asks for the kill switch, the flag is set when the step ends, and the
  kernel holds one table, the ruleset of the very profile the process was started with; if arming is
  impossible the attempt ends without a spawn.
\<close>

theorem no_unprotected_openvpn:
  assumes "svc_doc L N" "umask_ok f" "reaches L N gl f t es s" "svc_step L N gl s e s'"
    and "spawns s s'" "connection s' = Some c" "item (nc_setting_vpn c) KEY_KILL_SWITCH = Some ''yes''"
  shows "started_protected L N gl c s'"
  by (rule step_protected [OF assms])

lemma no_unprotected_openvpn_witness:
  "\<exists>(s :: process) (s' :: process). svc_step ref_lib ref_net demo_gl s (Connect (conn_of guarded_setting)) s'
    \<and> (\<exists>ruleset. table s' = [ruleset])"
proof -
  let ?s = "main_start ref_net cached_fs []"
  have r: "reaches ref_lib ref_net demo_gl cached_fs [] [] ?s" by (simp add: reaches_def)
  from demo_connect [of guarded_setting ?s 100] start_files obtain s'
    where st: "svc_step ref_lib ref_net demo_gl ?s (Connect (conn_of guarded_setting)) s'"
      and s': "spawns ?s s'" "connection s' = Some (conn_of guarded_setting)" by auto
  from no_unprotected_openvpn [OF demo_svc_doc cached_umask r st s']
  have "\<exists>ruleset. table s' = [ruleset]" by (auto simp: conn_of_def demo_items started_protected_def)
  with st show ?thesis by blast
qed

text \<open>
  C32. A connect request is atomic with respect to validation: a connection that fails it is
  refused and leaves the running one untouched, with no call made; one that passes takes the
  plugin over, with its own UUID, not started, after the fetch of its predecessor was
  cancelled and the openvpn of its predecessor was sent \<open>SIGTERM\<close>.
\<close>

theorem connect_takes_over:
  assumes "svc_step L N gl s (Connect c) s'"
  shows "if accepted c
    then connection s' = Some c \<and> uuid s' = Some (nc_uuid c) \<and> \<not> started s'
      \<and> (\<forall>i. fetch_cancellable s = Some i \<longrightarrow> i \<in> set (cancelled s'))
      \<and> (pid s \<noteq> 0 \<longrightarrow> (\<exists>new. calls s' = calls s @ new \<and> Kill (pid s) SIGTERM \<in> set new))
    else s' = s"
proof -
  from assms obtain E r s1 where c: "connect_common L N gl E c s = Some (r, s')"
    by (auto simp: real_connect_def elim: step_ConnectE)
  then show ?thesis
  proof (cases rule: connect_common_cases)
    case (taken new)
    have "\<exists>new. calls s' = calls s @ new \<and> Kill (pid s) SIGTERM \<in> set new" if "pid s \<noteq> 0"
      using cleanup_calls [OF that, of N E] taken(6) by auto
    with taken show ?thesis by (auto split: option.splits)
  qed simp
qed

theorem connect_takes_over_witness:
  "\<exists>s'. svc_step ref_lib ref_net demo_gl (main_start ref_net cached_fs []) (Connect (conn_of demo_setting)) s'
     \<and> connection s' = Some (conn_of demo_setting) \<and> \<not> started s'"
proof -
  from demo_connect [of demo_setting "main_start ref_net cached_fs []" 100] start_files obtain s'
    where st: "svc_step ref_lib ref_net demo_gl (main_start ref_net cached_fs []) (Connect (conn_of demo_setting)) s'"
    by auto
  have "accepted (conn_of demo_setting)" by (simp add: accepted_def conn_of_def demo_valid)
  with connect_takes_over [OF st] st show ?thesis by auto
qed

text \<open>
  C26. An openvpn that fails before the tunnel is up costs the cached profile its validity (when
  the mark can be written) but not its use as a fallback, and is reported; one that fails later
  leaves the cache alone and records the drop.
\<close>

theorem failed_openvpn_marks_stale:
  assumes "cache_doc L" "umask_ok (files s)" "plain_dir (NM_AIRVPN_STATEDIR N)" "plain_name u"
    and "uuid s = Some u" "svc_step L N gl s (ChildExit p st) s'" "exit_error st \<noteq> (0, False)"
    and "nm_airvpn_cache_mark_stale L (NM_AIRVPN_STATEDIR N) u (files s) = (None, f)"
  shows "last (calls s') = Failure CONNECT_FAILED \<and>
    (if started s then files s' = files s \<and> unexpected_drop s'
     else \<not> nm_airvpn_cache_is_valid L t (NM_AIRVPN_STATEDIR N) u q (files s')
        \<and> nm_airvpn_cache_exists L t (NM_AIRVPN_STATEDIR N) u q (files s')
            = nm_airvpn_cache_exists L t (NM_AIRVPN_STATEDIR N) u q (files s))"
proof -
  from assms(6) have s': "s' = openvpn_watch_cb L N p st (s\<lparr>child_watches := remove1 p (child_watches s)\<rparr>)"
    by (auto elim: step_ChildExitE)
  have bad: "fst (exit_error st) \<noteq> 0 \<or> snd (exit_error st)"
    using assms(7) by (cases "exit_error st") auto
  show ?thesis
  proof (cases "started s")
    case True
    with bad show ?thesis by (simp add: s' openvpn_watch_cb_def Let_def split_def)
  next
    case False
    with bad assms(5,8) have "files s' = f" "last (calls s') = Failure CONNECT_FAILED"
      by (simp_all add: s' openvpn_watch_cb_def Let_def split_def mark_current_stale_def)
    with False show ?thesis
      using mark_check(1,2) [OF assms(1-4,8)]
      by (simp add: nm_airvpn_cache_is_valid_def nm_airvpn_cache_exists_def)
  qed
qed

lemma cached_mark:
  "nm_airvpn_cache_mark_stale ref_lib d u s = (None, snd (nm_airvpn_cache_mark_stale ref_lib d u s))"
proof -
  have "fst (nm_airvpn_cache_mark_stale ref_lib d u s) = None"
    by (simp add: nm_airvpn_cache_mark_stale_def write_file_0600_def set_umask_def ref_lib_def Let_def
        split: option.splits)
  then show ?thesis by (metis prod.collapse)
qed

lemma failed_openvpn_marks_stale_witness:
  "\<exists>(s :: process) (s' :: process). svc_step ref_lib ref_net demo_gl s (ChildExit 100 256) s'
    \<and> \<not> nm_airvpn_cache_is_valid ref_lib 2000000000 (NM_AIRVPN_STATEDIR ref_net) demo_uuid
          (get_generator_params demo_setting) (files s')"
proof -
  from demo_running [of demo_setting] obtain s :: process
    where s: "child_watches s = [100]" "uuid s = Some demo_uuid" "\<not> started s" "files s = cached_fs" by auto
  have st: "svc_step ref_lib ref_net demo_gl s (ChildExit 100 256)
      (openvpn_watch_cb ref_lib ref_net 100 256 (s\<lparr>child_watches := remove1 100 (child_watches s)\<rparr>))"
    by (rule svc_step.child_exit) (simp add: s(1))
  have "plain_dir (NM_AIRVPN_STATEDIR ref_net)" by (simp add: ref_net_def plain_dir_def)
  from failed_openvpn_marks_stale [OF ref_cache_doc _ this demo_plain(2) s(2) st _ cached_mark] s st
  show ?thesis by (auto simp: cached_umask exit_256)
qed

text \<open>
  C27. A child watch outlives its connection: it is not removed when a new attempt stops the old
  openvpn. When the old process is reaped after the new one has started, its callback clears the
  new pid and the new connect timer, and after a clean exit asks libnm to disconnect; that
  disconnect then sends no signal to the new process, which keeps running untracked.
\<close>

theorem stale_child_watch:
  assumes "reaches L N gl f t es s" "p \<in> set (child_watches s)" "p \<noteq> pid s" "pid s \<noteq> 0"
    and "svc_step L N gl s (ChildExit p 0) s1" "svc_step L N gl s1 Disconnect s2"
  shows "pid s1 = 0 \<and> connect_timer s1 = 0 \<and> last (calls s1) = PluginDisconnect
    \<and> pid s2 = 0 \<and> pid s \<in> set (child_watches s2)
    \<and> (\<exists>new. calls s2 = calls s @ new \<and> (\<forall>sig. Kill (pid s) sig \<notin> set new))"
proof -
  have w: "pid s \<in> set (child_watches s)"
    using reaches_inv [OF assms(1)] assms(4) by (simp add: svc_inv_defs)
  from assms(5) have s1: "s1 = openvpn_watch_cb L N p 0 (s\<lparr>child_watches := remove1 p (child_watches s)\<rparr>)"
    by (auto elim: step_ChildExitE)
  then have f1: "pid s1 = 0" "connect_timer s1 = 0" "calls s1 = calls s @ [Waitpid (pid s), PluginDisconnect]"
    "child_watches s1 = remove1 p (child_watches s)"
    by (simp_all add: openvpn_watch_cb_def Let_def exit_0)
  from assms(6) obtain E where s2: "s2 = cleanup_plugin N E s1"
    using f1(1) by (auto simp: real_disconnect_def Let_def elim: step_DisconnectE)
  have "calls s2 = calls s1"
    using f1(1) by (simp add: s2 cleanup_plugin_def cancel_fetch_def terminate_openvpn_def
        release_kill_switch_def clear_connect_timer_def Let_def split: option.split)
  with f1 s2 w assms(3) show ?thesis by auto
qed

lemma stale_child_watch_witness:
  "\<exists>(s :: process) (s2 :: process). pid s = 101 \<and> 101 \<in> set (child_watches s2) \<and> pid s2 = 0
    \<and> (\<exists>new. calls s2 = calls s @ new \<and> (\<forall>sig. Kill 101 sig \<notin> set new))"
proof -
  from demo_running [of demo_setting] obtain s0
    where r: "reaches ref_lib ref_net demo_gl cached_fs [] [Connect (conn_of demo_setting)] s0"
      and s0: "files s0 = cached_fs" "child_watches s0 = [100]" by auto
  from demo_connect [of demo_setting s0 101] s0 obtain s
    where st: "svc_step ref_lib ref_net demo_gl s0 (Connect (conn_of demo_setting)) s"
      and s: "pid s = 101" "child_watches s = [101, 100]" by auto
  let ?s1 = "openvpn_watch_cb ref_lib ref_net 100 0 (s\<lparr>child_watches := remove1 100 (child_watches s)\<rparr>)"
  let ?s2 = "real_disconnect ref_lib ref_net (demo_env 1) ?s1"
  have st1: "svc_step ref_lib ref_net demo_gl s (ChildExit 100 0) ?s1"
    by (rule svc_step.child_exit) (simp add: s)
  have st2: "svc_step ref_lib ref_net demo_gl ?s1 Disconnect ?s2" by (rule svc_step.disconnect)
  have "pid s = 101 \<and> 101 \<in> set (child_watches ?s2) \<and> pid ?s2 = 0
    \<and> (\<exists>new. calls ?s2 = calls s @ new \<and> (\<forall>sig. Kill 101 sig \<notin> set new))"
    using stale_child_watch [OF reaches_snoc [OF r st] _ _ _ st1 st2] s by simp
  then show ?thesis by blast
qed

end
