(* ===== verification/Airvpn_Session_Spec.thy ===== *)
theory Airvpn_Session_Spec
  imports Airvpn_Runs
begin

text \<open>
  What the daemon promises, as a machine of five fields: the phase of the session (no openvpn, a
  fetch, a running openvpn), the connection it serves, whether the tunnel came up, whether the
  kernel blocks other traffic, and whether a drop is to be survived. The handlers of
  \<open>src/nm-airvpn-service.c\<close>, with their timers, child watches, files and calls, refine it: every
  run of the daemon, seen through \<open>session_of\<close>, is a run of this machine.
\<close>

section \<open>The abstract machine\<close>

datatype phase = Idle | Fetching nat | Running int

record session =
  ss_phase :: phase
  ss_owner :: "nm_connection option"
  ss_up :: bool
  ss_guard :: bool
  ss_dropped :: bool

definition wants_guard :: "nm_connection \<Rightarrow> bool" where
  "wants_guard c \<longleftrightarrow> item (nc_setting_vpn c) KEY_KILL_SWITCH = Some ''yes''"

definition idle_session :: session where
  "idle_session = \<lparr>ss_phase = Idle, ss_owner = None, ss_up = False, ss_guard = False, ss_dropped = False\<rparr>"

text \<open>The end of a session keeps the block only after a drop.\<close>

definition vacated :: "session \<Rightarrow> session" where
  "vacated a = a\<lparr>ss_phase := Idle, ss_owner := None, ss_up := False,
     ss_guard := ss_guard a \<and> ss_dropped a\<rparr>"

text \<open>
  An attempt to start openvpn for the owner: it is impossible and changes nothing, it fails and
  leaves no block, or it starts a process behind the block the owner asks for.
\<close>

inductive launches :: "session \<Rightarrow> session \<Rightarrow> bool" where
  impossible: "launches a a"
| failed: "launches a (a\<lparr>ss_guard := False, ss_dropped := False\<rparr>)"
| launched: "ss_owner a = Some c \<Longrightarrow> 0 < p \<Longrightarrow>
    launches a (a\<lparr>ss_phase := Running p, ss_guard := wants_guard c, ss_dropped := False\<rparr>)"

fun connect_of :: "event \<Rightarrow> nm_connection option" where
  "connect_of (Connect c) = Some c"
| "connect_of (ConnectInteractive c) = Some c"
| "connect_of (NewSecrets c) = Some c"
| "connect_of _ = None"

definition stopped :: "phase \<Rightarrow> phase" where
  "stopped ph = (case ph of Running _ \<Rightarrow> Idle | _ \<Rightarrow> ph)"

definition cancelled_return :: "task_return \<Rightarrow> bool" where
  "cancelled_return ret \<longleftrightarrow> is_cancelled_error (snd (nm_airvpn_generator_fetch_finish False ret))"

inductive session_step :: "session \<Rightarrow> event \<Rightarrow> session \<Rightarrow> bool" where
  refused: "connect_of e = Some c \<Longrightarrow> \<not> accepted c \<Longrightarrow> session_step a e a"
| attempt: "connect_of e = Some c \<Longrightarrow> accepted c \<Longrightarrow> launches ((vacated a)\<lparr>ss_owner := Some c\<rparr>) b \<Longrightarrow>
    session_step a e b"
| fetch: "connect_of e = Some c \<Longrightarrow> accepted c \<Longrightarrow>
    session_step a e ((vacated a)\<lparr>ss_owner := Some c, ss_phase := Fetching i\<rparr>)"
| ended: "session_step a Disconnect (vacated a)"
| tunnel_up: "session_step a (StateChanged STARTED) (a\<lparr>ss_up := True\<rparr>)"
| starting: "session_step a (StateChanged STARTING) a"
| released: "st \<noteq> STARTED \<Longrightarrow> st \<noteq> STARTING \<Longrightarrow>
    session_step a (StateChanged st) (a\<lparr>ss_owner := None\<rparr>)"
| exited: "session_step a (ChildExit p st) (a\<lparr>ss_phase := stopped (ss_phase a),
    ss_dropped := ss_dropped a \<or> ss_up a \<and> exit_error st \<noteq> (0, False)\<rparr>)"
| timed_out: "session_step a (ConnectTimeout i) a"
| reaped: "session_step a (KillTimeout p) a"
| fetch_ignored: "ss_phase a \<noteq> Fetching i \<or> cancelled_return ret \<Longrightarrow> session_step a (FetchDone i ret) a"
| fetch_failed: "ss_phase a = Fetching i \<Longrightarrow> session_step a (FetchDone i ret) (a\<lparr>ss_phase := Idle\<rparr>)"
| fetch_done: "ss_phase a = Fetching i \<Longrightarrow> launches (a\<lparr>ss_phase := Idle\<rparr>) b \<Longrightarrow>
    session_step a (FetchDone i ret) b"

text \<open>The machine keeps a running openvpn behind exactly the block its connection asks for.\<close>

definition guard_matches :: "session \<Rightarrow> bool" where
  "guard_matches a \<longleftrightarrow> (\<forall>p c. ss_phase a = Running p \<longrightarrow> \<not> ss_dropped a
     \<and> (ss_owner a = Some c \<longrightarrow> ss_guard a = wants_guard c))"

lemma launches_matches: "launches a b \<Longrightarrow> ss_phase a = Idle \<Longrightarrow> guard_matches b"
  by (cases rule: launches.cases) (auto simp: guard_matches_def)

lemma session_step_matches: "session_step a e b \<Longrightarrow> guard_matches a \<Longrightarrow> guard_matches b"
proof (induction rule: session_step.induct)
  case (attempt e c a b)
  from launches_matches [OF attempt.hyps(3)] show ?case by (simp add: vacated_def)
next
  case (fetch_done a i b ret)
  from launches_matches [OF fetch_done.hyps(2)] show ?case by simp
qed (auto simp: guard_matches_def vacated_def stopped_def split: phase.splits)

section \<open>The daemon refines it\<close>

definition phase_of :: "process \<Rightarrow> phase" where
  "phase_of s = (if pid s \<noteq> 0 then Running (pid s)
     else case fetch_cancellable s of None \<Rightarrow> Idle | Some i \<Rightarrow> Fetching i)"

definition session_of :: "process \<Rightarrow> session" where
  "session_of s = \<lparr>ss_phase = phase_of s, ss_owner = connection s, ss_up = started s,
     ss_guard = (table s \<noteq> []), ss_dropped = unexpected_drop s\<rparr>"

lemmas session_defs = session_of_def phase_of_def


text \<open>Task numbers are fresh, and the fetch the plugin waits for is not cancelled.\<close>

definition ids_ok :: "process \<Rightarrow> bool" where
  "ids_ok s \<longleftrightarrow> (\<forall>i \<in> set (cancelled s). i < next_id s)
     \<and> (\<forall>i. fetch_cancellable s = Some i \<longrightarrow>
          i < next_id s \<and> i \<notin> set (cancelled s))"

lemma ids_ok_cleanup: "ids_ok s \<Longrightarrow> ids_ok (cleanup_plugin N E s)"
  by (auto simp: ids_ok_def split: option.split)

lemma ids_ok_run:
  assumes "ids_ok s" "run_openvpn L N gl E s = Some (r, s')"
  shows "ids_ok s'"
  using assms(1) run_openvpn_frame [OF assms(2)] run_openvpn_process [OF assms(2)]
  by (auto simp: ids_ok_def)

lemma ids_ok_simps [simp]:
  "ids_ok (emit c s) = ids_ok s" "ids_ok (clear_connect_timer s) = ids_ok s"
  "ids_ok (s\<lparr>files := f\<rparr>) = ids_ok s" "ids_ok (mark_current_stale L N s) = ids_ok s"
  "ids_ok (s\<lparr>connection := cn, uuid := u\<rparr>) = ids_ok s" "ids_ok (s\<lparr>interactive := b\<rparr>) = ids_ok s"
  "ids_ok (s\<lparr>pid := p\<rparr>) = ids_ok s" "ids_ok (s\<lparr>started := b\<rparr>) = ids_ok s"
  "ids_ok (s\<lparr>connection := cn\<rparr>) = ids_ok s" "ids_ok (s\<lparr>unexpected_drop := b\<rparr>) = ids_ok s"
  "ids_ok (s\<lparr>timers := tm\<rparr>) = ids_ok s" "ids_ok (s\<lparr>connect_timer := n\<rparr>) = ids_ok s"
  "ids_ok (s\<lparr>fetches := fs\<rparr>) = ids_ok s" "ids_ok (s\<lparr>child_watches := cw\<rparr>) = ids_ok s" "ids_ok (s\<lparr>kill_timers := kt\<rparr>) = ids_ok s"
  by (simp_all add: ids_ok_def)

text \<open>The shape of a successful connect: a clean plugin, then nothing, a launch or a fetch.\<close>

lemma connect_common_shape:
  assumes "connect_common L N gl E c s = Some (r, s')"
  obtains (refused) "\<not> accepted c" "s' = s"
  | (prepared) s2 f where "accepted c" "s2 = (cleanup_plugin N E s)\<lparr>connection := Some c, uuid := Some (nc_uuid c), files := f\<rparr>"
      "f = snd (g_mkdir_with_parents L (NM_AIRVPN_STATEDIR N) o0700 (files s))"
      "s' = s2 \<or> (\<exists>r2. run_openvpn L N gl E s2 = Some (r2, s')) \<or> (\<exists>params key. s' = start_fetch params key s2)"
proof (cases "accepted c")
  case False
  with assms have "s' = s"
    by (auto simp: connect_common_def accepted_def split: option.splits)
  with False refused show ?thesis by blast
next
  case True
  then obtain v where v: "nc_setting_vpn c = Some v" "nm_airvpn_properties_validate v = None"
    "nm_airvpn_properties_validate_secrets v = None" by (auto simp: accepted_def)
  obtain m f where mk: "g_mkdir_with_parents L (NM_AIRVPN_STATEDIR N) o0700 (files s) = (m, f)"
    by (meson surj_pair)
  let ?s2 = "(cleanup_plugin N E s)\<lparr>connection := Some c, uuid := Some (nc_uuid c), files := f\<rparr>"
  have "s' = ?s2 \<or> (\<exists>r2. run_openvpn L N gl E ?s2 = Some (r2, s'))
      \<or> (\<exists>params key. s' = start_fetch params key ?s2)"
    using assms v mk
    by (auto simp: connect_common_def Let_def simp del: cleanup_simps(8) split: option.splits if_splits)
  with True mk show ?thesis by (intro prepared [of ?s2 f]) simp_all
qed

lemma start_fetch_simps:
  "next_id (start_fetch params key s) = Suc (next_id s)"
  "fetch_cancellable (start_fetch params key s) = Some (next_id s)"
  "cancelled (start_fetch params key s) = cancelled s" "pid (start_fetch params key s) = pid s"
  "connection (start_fetch params key s) = connection s" "started (start_fetch params key s) = started s"
  "table (start_fetch params key s) = table s"
  "unexpected_drop (start_fetch params key s) = unexpected_drop s"
  by (simp_all add: start_fetch_def Let_def)

lemma ids_ok_connect:
  assumes "ids_ok s" "connect_common L N gl E c s = Some (r, s')"
  shows "ids_ok s'"
  using assms(2)
proof (cases rule: connect_common_shape)
  case (prepared s2 f)
  have "ids_ok s2" unfolding prepared(2)
    using ids_ok_cleanup [OF assms(1), of N E] by (simp add: ids_ok_def)
  then have "ids_ok (start_fetch params key s2)" for params key
    by (auto simp: ids_ok_def start_fetch_simps)
  with prepared(4) \<open>ids_ok s2\<close> show ?thesis by (auto intro: ids_ok_run)
qed (use assms(1) in simp)

text \<open>What the end of a fetch leads to.\<close>

lemma fetch_done_shape:
  assumes "fetch_done_cb L N gl E (nm_airvpn_generator_fetch_finish canc ret) s = Some s'"
  obtains (ignored) "canc \<or> cancelled_return ret" "s' = s"
  | (over) f where "\<not> canc" "s' = s\<lparr>fetch_cancellable := None\<rparr>
      \<or> (\<exists>fl. s' = emit (Failure fl) (s\<lparr>fetch_cancellable := None, files := f\<rparr>))"
      "umask_ok (files s) \<and> fs_doc L \<longrightarrow> umask_ok f"
  | (launch) f r s1 where "\<not> canc" "run_openvpn L N gl E (s\<lparr>fetch_cancellable := None, files := f\<rparr>) = Some (r, s1)"
      "s' = s1 \<or> s' = emit (Failure CONNECT_FAILED) s1" "umask_ok (files s) \<and> fs_doc L \<longrightarrow> umask_ok f"
proof (cases "is_cancelled_error (snd (nm_airvpn_generator_fetch_finish canc ret))")
  case True
  with assms have "s' = s" by (simp add: fetch_done_cb_def split_def)
  with True ignored show ?thesis by (cases canc) (simp_all add: cancelled_return_def)
next
  case False
  then have canc: "\<not> canc"
    by (auto simp: nm_airvpn_generator_fetch_finish_def is_cancelled_error_def cancelled_error_def)
  let ?s1 = "s\<lparr>fetch_cancellable := None\<rparr>"
  have start: thesis if "start_after_fetch L N gl E (?s1\<lparr>files := f\<rparr>) = Some s'"
      "umask_ok (files s) \<and> fs_doc L \<longrightarrow> umask_ok f" for f
  proof -
    from that(1) obtain r s1 where run: "run_openvpn L N gl E (?s1\<lparr>files := f\<rparr>) = Some (r, s1)"
        "s' = s1 \<or> s' = emit (Failure CONNECT_FAILED) s1"
      by (auto simp: start_after_fetch_def split: option.splits)
    show thesis by (rule launch [of f r s1]) (use canc run that(2) in simp_all)
  qed
  have start0: thesis if "start_after_fetch L N gl E ?s1 = Some s'"
    using start [of "files s"] that by simp
  have stored: "umask_ok (files s) \<and> fs_doc L \<longrightarrow> umask_ok f"
    if "nm_airvpn_cache_store L tm d u p c (files s) = (x, f)" for tm d u p c x f
    using store_umask_ok [of L "files s" tm d u p c] that by simp
  have fin: thesis if "s' = ?s1 \<or> (\<exists>fl. s' = emit (Failure fl) (?s1\<lparr>files := f\<rparr>))"
      "umask_ok (files s) \<and> fs_doc L \<longrightarrow> umask_ok f" for f
    by (rule over [OF canc _ that(2)]) (use that(1) in simp)
  have fin0: thesis if "s' = ?s1 \<or> (\<exists>fl. s' = emit (Failure fl) ?s1)"
    by (rule fin [of "files s"]) (use that in simp_all)
  obtain config error where r: "nm_airvpn_generator_fetch_finish canc ret = (config, error)" by (meson surj_pair)
  with False have nc: "\<not> is_cancelled_error error" by simp
  note cb = assms [unfolded r fetch_done_cb_def prod.case Let_def]
  show thesis
  proof (cases "connection s")
    case None
    with cb nc show thesis by (intro fin0) simp
  next
    case (Some c)
    with cb nc obtain v u where v: "nc_setting_vpn c = Some v" "uuid s = Some u"
      by (cases "nc_setting_vpn c"; cases "uuid s") simp_all
    show thesis
    proof (cases config)
      case None
      show thesis
      proof (cases "nm_airvpn_cache_exists L (e_real_time E) (NM_AIRVPN_STATEDIR N) u (get_generator_params v) (files s)")
        case True
        with cb nc Some v None show thesis by (intro start0) (simp split: if_splits)
      next
        case False
        with cb nc Some v None show thesis by (intro fin0) (auto split: option.splits)
      qed
    next
      case config: (Some cfg)
      obtain x f where st: "nm_airvpn_cache_store L (e_real_time E) (NM_AIRVPN_STATEDIR N) u
          (get_generator_params v) cfg (files s) = (x, f)" by (meson surj_pair)
      show thesis
      proof (cases x)
        case None
        with cb nc Some v config st show thesis by (intro start [OF _ stored [OF st]]) simp
      next
        case (Some e)
        with cb nc \<open>connection s = Some c\<close> v config st show thesis by (intro fin [OF _ stored [OF st]]) auto
      qed
    qed
  qed
qed

lemma ids_ok_fetch_done:
  assumes "ids_ok s" "fetch_done_cb L N gl E (nm_airvpn_generator_fetch_finish canc ret) s = Some s'"
  shows "ids_ok s'"
proof -
  have base: "ids_ok (s\<lparr>fetch_cancellable := None, files := f\<rparr>)" for f
    using assms(1) by (simp add: ids_ok_def)
  from assms(2) show ?thesis
  proof (cases rule: fetch_done_shape)
    case (over f)
    with base [of f] base [of "files s"] show ?thesis by auto
  next
    case (launch f r s1)
    with ids_ok_run [OF base launch(2)] show ?thesis by auto
  qed (use assms(1) in simp)
qed

lemma ids_ok_step:
  assumes "ids_ok s" "svc_step L N gl s e s'"
  shows "ids_ok s'"
proof -
  have conn: "ids_ok s'" if "e = Connect c \<or> e = ConnectInteractive c \<or> e = NewSecrets c" for c
  proof -
    from step_connect_like [OF assms(2) that] obtain E r s1
      where "connect_common L N gl E c s = Some (r, s1)" "s' = s1 \<or> s' = s1\<lparr>interactive := True\<rparr>" by metis
    with ids_ok_connect [OF assms(1)] show ?thesis by auto
  qed
  from assms(2) show ?thesis
  proof (cases rule: svc_step.cases)
    case (disconnect E)
    with assms(1) show ?thesis by (simp add: real_disconnect_def Let_def ids_ok_cleanup)
  next
    case (state_changed st)
    with assms(1) show ?thesis by (cases st) (simp_all add: state_changed_cb_def)
  next
    case (child_exit p st)
    with assms(1) show ?thesis by (simp add: openvpn_watch_cb_def mark_stale_and_fail_def Let_def split_def)
  next
    case (connect_timeout i E)
    with assms(1) show ?thesis by (simp add: connect_timeout_cb_def mark_stale_and_fail_def Let_def)
  next
    case (kill_timeout p E)
    with assms(1) show ?thesis by (simp add: ensure_killed_def split_def)
  next
    case (fetch_done E i params key ret)
    from ids_ok_fetch_done [OF _ fetch_done(4)] assms(1) show ?thesis by simp
  qed (use conn in auto)
qed

text \<open>Every attempt to start openvpn is an abstract one.\<close>

lemma run_launches:
  assumes "svc_doc L N" "ks_inv L N s" "env_ok E s" "pid s = 0" "fetch_cancellable s = None"
    and "run_openvpn L N gl E s = Some (r, s')"
  shows "launches (session_of s) (session_of s')"
proof -
  note frame = run_openvpn_frame [OF assms(6)]
  note sup = ks_inv_supersede [OF assms(1,2)]
  have inv: "ks_inv L N s'" by (rule ks_inv_run [OF assms(1,2,6)])
  have lost: "launches (session_of s) (session_of s')"
    if "\<not> kill_switch_active s'" "\<not> unexpected_drop s'" "pid s' = pid s"
  proof -
    have "table s' = []" using inv that(1) assms(1) by (simp add: ks_inv_iff)
    with that frame have "session_of s' = (session_of s)\<lparr>ss_guard := False, ss_dropped := False\<rparr>"
      by (simp add: session_defs)
    then show ?thesis by (simp add: launches.failed)
  qed
  from assms(6) show ?thesis
  proof (cases rule: run_openvpn_cases)
    case no_binary
    then show ?thesis by (simp add: launches.impossible)
  next
    case (not_armed c u e)
    from arm_kill_switch_frame [OF not_armed(4)] have "\<not> unexpected_drop s'" "pid s' = pid s" by auto
    with arm_kill_switch_effect [OF assms(1) sup _ not_armed(4)] not_armed(3) lost show ?thesis by simp
  next
    case (spawned c u b s1)
    from arm_kill_switch_frame [OF spawned(4)] have s1: "\<not> unexpected_drop s1" "pid s1 = pid s" by auto
    from arm_kill_switch_effect [OF assms(1) sup _ spawned(4)]
    have act: "kill_switch_active s1 = wants_guard c" by (simp add: wants_guard_def)
    have drop: "\<not> unexpected_drop s'" using spawn_frame(8) [OF spawned(5)] s1(1) by simp
    show ?thesis
    proof (cases r)
      case None
      with spawn_result [OF spawned(5)] have p: "\<exists>argv. e_spawn_async E argv = Inr (pid s')"
          "kill_switch_active s' = kill_switch_active s1" by auto
      then have "0 < pid s'" using assms(3) unfolding env_ok_def by blast
      moreover have "table s' \<noteq> [] \<longleftrightarrow> wants_guard c"
        using inv p(2) act assms(1) by (simp add: ks_inv_iff)
      ultimately have "session_of s' =
          (session_of s)\<lparr>ss_phase := Running (pid s'), ss_guard := wants_guard c, ss_dropped := False\<rparr>"
        using frame drop by (simp add: session_defs)
      with \<open>0 < pid s'\<close> spawned(1) show ?thesis
        using launches.launched [of "session_of s" c "pid s'"] by (simp add: session_of_def)
    next
      case (Some e)
      with spawn_result [OF spawned(5)] have "\<not> kill_switch_active s'" "pid s' = pid s1" by auto
      with lost drop s1 show ?thesis by simp
    qed
  qed
qed

lemma connect_refines:
  assumes "svc_doc L N" "svc_inv s" "ks_inv L N s" "env_ok E s" "connect_of e = Some c"
    and "connect_common L N gl E c s = Some (r, s')"
  shows "session_step (session_of s) e (session_of s')"
  using assms(6)
proof (cases rule: connect_common_shape)
  case refused
  with assms(5) show ?thesis by (simp add: session_step.refused)
next
  case (prepared s2 f)
  have f: "f = files s" using prepared(3) mkdir_id [of L "NM_AIRVPN_STATEDIR N" o0700 "files s"] assms(1)
    by (simp add: svc_doc_def)
  have inv2: "ks_inv L N s2"
    using ks_inv_cleanup [OF assms(1,3), of E] by (simp add: prepared(2) f ks_inv_def)
  have "table s2 \<noteq> [] \<longleftrightarrow> table s \<noteq> [] \<and> unexpected_drop s"
    using inv2 assms(1,3) by (auto simp: ks_inv_iff prepared(2))
  then have s2: "session_of s2 = (vacated (session_of s))\<lparr>ss_owner := Some c\<rparr>"
    by (simp add: session_defs vacated_def prepared(2))
  have idle: "env_ok E s2" "pid s2 = 0" "fetch_cancellable s2 = None"
    using assms(4) by (simp_all add: prepared(2) env_ok_def)
  note attempt = session_step.attempt [OF assms(5) prepared(1)]
  from prepared(4) show ?thesis
  proof (elim disjE exE)
    assume "s' = s2"
    with attempt s2 show ?thesis by (simp add: launches.impossible)
  next
    fix r2 assume "run_openvpn L N gl E s2 = Some (r2, s')"
    from run_launches [OF assms(1) inv2 idle this] attempt s2 show ?thesis by simp
  next
    fix params key assume s': "s' = start_fetch params key s2"
    have "session_of s' = (session_of s2)\<lparr>ss_phase := Fetching (next_id s2)\<rparr>"
      using idle by (simp add: session_defs s' start_fetch_simps)
    with s2 session_step.fetch [OF assms(5) prepared(1)] show ?thesis by simp
  qed
qed

lemma fetch_refines:
  assumes "svc_doc L N" "svc_inv s" "ks_inv L N s" "ids_ok s" "svc_step L N gl s (FetchDone i ret) s'"
  shows "session_step (session_of s) (FetchDone i ret) (session_of s')"
proof -
  let ?s0 = "s\<lparr>fetches := filter (\<lambda>f. fst f \<noteq> i) (fetches s)\<rparr>"
  have same: "session_of ?s0 = session_of s" by (simp add: session_defs)
  from assms(5) obtain E params key where env: "env_ok E s" and task: "(i, params, key) \<in> set (fetches s)"
    and cb: "fetch_done_cb L N gl E (nm_airvpn_generator_fetch_finish (i \<in> set (cancelled s)) ret) ?s0 = Some s'"
    by (rule step_FetchDoneE)
  have current: "phase_of s = Fetching i" "pid s = 0" if "i \<notin> set (cancelled s)"
  proof -
    show "pid s = 0" using assms(2) that task by (auto simp: svc_inv_defs)
    moreover have "fetch_cancellable s = Some i" using assms(2) that task by (auto simp: svc_inv_defs)
    ultimately show "phase_of s = Fetching i" by (simp add: phase_of_def)
  qed
  have over: "session_of (?s0\<lparr>fetch_cancellable := None, files := f\<rparr>) = (session_of s)\<lparr>ss_phase := Idle\<rparr>"
    if "pid s = 0" for f using that by (simp add: session_defs)
  from cb show ?thesis
  proof (cases rule: fetch_done_shape)
    case ignored
    have "phase_of s \<noteq> Fetching i" if "i \<in> set (cancelled s)"
      using assms(4) that by (auto simp: phase_of_def ids_ok_def split: option.split)
    with ignored same show ?thesis by (auto intro!: session_step.fetch_ignored simp: session_of_def)
  next
    case (over f)
    note cur = current [OF over(1)]
    have "session_of s' = (session_of s)\<lparr>ss_phase := Idle\<rparr>"
      using over(2) cur by (auto simp: session_defs)
    with session_step.fetch_failed [of "session_of s" i ret] cur show ?thesis by (simp add: session_of_def)
  next
    case (launch f r s1)
    note cur = current [OF launch(1)]
    let ?s2 = "?s0\<lparr>fetch_cancellable := None, files := f\<rparr>"
    have "umask_ok f" using launch(4) assms(1,3) by (simp add: ks_inv_iff svc_doc_def)
    then have "ks_inv L N ?s2" using assms(1,3) by (simp add: ks_inv_iff)
    from run_launches [OF assms(1) this _ _ _ launch(2)] env cur
    have "launches ((session_of s)\<lparr>ss_phase := Idle\<rparr>) (session_of s1)"
      by (simp add: env_ok_def session_defs)
    moreover have "session_of s' = session_of s1" using launch(3) by (auto simp: session_defs)
    ultimately show ?thesis
      using session_step.fetch_done [of "session_of s" i "session_of s1" ret] cur by (simp add: session_of_def)
  qed
qed

lemma exited_refines:
  assumes "svc_inv s"
  shows "session_step (session_of s) (ChildExit p st)
     (session_of (openvpn_watch_cb L N p st (s\<lparr>child_watches := w\<rparr>)))"
proof -
  have one: "pid s \<noteq> 0 \<Longrightarrow> fetch_cancellable s = None" using assms by (auto simp: svc_inv_defs)
  have bad: "exit_error st \<noteq> (0, False) \<longleftrightarrow> fst (exit_error st) \<noteq> 0 \<or> snd (exit_error st)"
    by (cases "exit_error st") auto
  have "session_of (openvpn_watch_cb L N p st (s\<lparr>child_watches := w\<rparr>)) =
      (session_of s)\<lparr>ss_phase := stopped (phase_of s),
        ss_dropped := unexpected_drop s \<or> started s \<and> exit_error st \<noteq> (0, False)\<rparr>"
    unfolding bad using one
    by (simp add: session_defs stopped_def openvpn_watch_cb_def mark_stale_and_fail_def Let_def split_def
        split: option.split)
  with session_step.exited [of "session_of s" p st] show ?thesis by (simp add: session_of_def)
qed

definition spec_inv :: "('k, 'g) kflib_scheme \<Rightarrow> 'n netlib_scheme \<Rightarrow> process \<Rightarrow> bool" where
  "spec_inv L N s \<longleftrightarrow> svc_doc L N \<and> svc_inv s \<and> ks_inv L N s \<and> ids_ok s"

lemma spec_inv_step: "spec_inv L N s \<Longrightarrow> svc_step L N gl s e s' \<Longrightarrow> spec_inv L N s'"
  unfolding spec_inv_def by (blast intro: svc_inv_step ks_inv_step ids_ok_step)

lemma spec_inv_start: "svc_doc L N \<Longrightarrow> umask_ok f \<Longrightarrow> spec_inv L N (main_start N f t)"
  using guarded_start [of f L N t]
  by (simp add: spec_inv_def guarded_inv_def) (simp add: ids_ok_def main_start_def nm_airvpn_plugin_init_def)

lemma session_start: "svc_doc L N \<Longrightarrow> session_of (main_start N f t) = idle_session"
  by (simp add: session_defs main_start_def nm_airvpn_plugin_init_def idle_session_def svc_disarm)

lemma svc_step_refines:
  assumes "spec_inv L N s" "svc_step L N gl s e s'"
  shows "session_step (session_of s) e (session_of s')"
proof -
  note inv = assms(1) [unfolded spec_inv_def]
  have conn: ?thesis if "e = Connect c \<or> e = ConnectInteractive c \<or> e = NewSecrets c" for c
  proof -
    from step_connect_like [OF assms(2) that] obtain E r s1
      where c: "connect_common L N gl E c s = Some (r, s1)" and "env_ok E s"
        and "s' = s1 \<or> s' = s1\<lparr>interactive := True\<rparr>" by metis
    moreover from this have "session_of s' = session_of s1" by (auto simp: session_defs)
    moreover have "connect_of e = Some c" using that by auto
    ultimately show ?thesis using connect_refines [of L N s E e c] inv by simp
  qed
  from assms(2) show ?thesis
  proof (cases rule: svc_step.cases)
    case (disconnect E)
    then have "session_of s' = vacated (session_of s)"
      using inv by (auto simp: session_defs vacated_def real_disconnect_def Let_def svc_disarm ks_inv_iff)
    with disconnect show ?thesis by (simp add: session_step.ended)
  next
    case (state_changed st)
    have "session_of (state_changed_cb st s) = (if st = STARTED then (session_of s)\<lparr>ss_up := True\<rparr>
        else if st = STARTING then session_of s else (session_of s)\<lparr>ss_owner := None\<rparr>)"
      by (cases st) (simp_all add: session_defs state_changed_cb_def)
    with state_changed show ?thesis
      by (auto intro: session_step.tunnel_up session_step.starting session_step.released)
  next
    case (child_exit p st)
    with inv show ?thesis by (simp add: exited_refines)
  next
    case (connect_timeout i E)
    then have "session_of s' = session_of s"
      by (simp add: session_defs connect_timeout_cb_def mark_stale_and_fail_def Let_def)
    with connect_timeout show ?thesis by (simp add: session_step.timed_out)
  next
    case (kill_timeout p E)
    then have "session_of s' = session_of s" by (simp add: session_defs ensure_killed_def split_def)
    with kill_timeout show ?thesis by (simp add: session_step.reaped)
  next
    case (fetch_done E i params key ret)
    with fetch_refines [of L N s gl i ret s'] inv assms(2) show ?thesis by simp
  qed (use conn in auto)
qed

interpretation session: refined_loop "spec_inv L N" "svc_step L N gl" session_of session_step
  for L :: "('k, 'g) kflib_scheme" and N :: "'n netlib_scheme" and gl
  by unfold_locales (rule spec_inv_step, assumption+, rule svc_step_refines)

interpretation numbering: event_loop ids_ok "svc_step L N gl"
  for L :: "('k, 'g) kflib_scheme" and N :: "'n netlib_scheme" and gl
  by unfold_locales (rule ids_ok_step)

lemma reachable_ids: "reaches L N gl f t es s \<Longrightarrow> ids_ok s"
  unfolding reaches_def
  by (rule numbering.run_inv) (simp_all add: ids_ok_def main_start_def nm_airvpn_plugin_init_def)

lemma reachable_spec:
  assumes "svc_doc L N" "umask_ok f" "reaches L N gl f t es s"
  shows "spec_inv L N s" "guard_matches (session_of s)"
proof -
  note start = spec_inv_start [OF assms(1,2)] and run = assms(3) [unfolded reaches_def]
  show "spec_inv L N s" by (rule session.run_inv [OF start run])
  have "guard_matches (session_of (main_start N f t))"
    by (simp add: session_start [OF assms(1)] guard_matches_def idle_session_def)
  from session.run_keeps_abs [of guard_matches, OF session_step_matches this start run]
  show "guard_matches (session_of s)" .
qed

text \<open>The events with which the machine gives up its guard.\<close>

lemma guard_ends:
  assumes "session_step a e b" "ss_guard a" "\<not> ss_guard b"
  shows "e = Disconnect \<and> \<not> ss_dropped a \<or> (\<exists>c. connect_of e = Some c \<and> accepted c)
    \<or> (\<exists>i ret. e = FetchDone i ret \<and> ss_phase a = Fetching i)"
  using assms by (induction rule: session_step.induct) (auto simp: vacated_def)

section \<open>Properties\<close>

text \<open>
  C4. The daemon refines the abstract session machine: with libraries that behave as documented,
  every run from the start of \<open>main\<close>, whatever events come in whatever order and whatever the
  system answers, is a run of that machine on the same events, which starts idle and unguarded.
\<close>

theorem daemon_refines_session:
  assumes "svc_doc L N" "umask_ok f" "reaches L N gl f t es s"
  shows "run_of session_step idle_session es (session_of s)"
  using session.run_refines [OF spec_inv_start [OF assms(1,2)] assms(3) [unfolded reaches_def]]
  by (simp add: session_start [OF assms(1)])

lemma daemon_refines_session_witness:
  "\<exists>a. run_of session_step idle_session
      [Connect (conn_of guarded_setting), StateChanged STARTED, ChildExit 100 256] a
    \<and> ss_guard a \<and> ss_dropped a"
proof -
  from demo_dropped obtain s where r: "reaches ref_lib ref_net demo_gl cached_fs []
      [Connect (conn_of guarded_setting), StateChanged STARTED, ChildExit 100 256] s"
    and s: "kill_switch_active s" "unexpected_drop s" by blast
  have "table s \<noteq> []"
    by (rule kill_switch_flag [OF demo_svc_doc reaches_ks [OF r cached_umask demo_svc_doc] s(1)])
  with daemon_refines_session [OF demo_svc_doc cached_umask r] s(2) show ?thesis
    by (intro exI [of _ "session_of s"]) (simp add: session_of_def)
qed

text \<open>
  C3. In every reachable state in which openvpn runs for a connection, the kernel blocks other
  traffic exactly when that connection asks for the kill switch, and no drop is pending.
\<close>

theorem running_guarded_as_asked:
  assumes "svc_doc L N" "umask_ok f" "reaches L N gl f t es s" "pid s \<noteq> 0" "connection s = Some c"
  shows "(table s \<noteq> [] \<longleftrightarrow> item (nc_setting_vpn c) KEY_KILL_SWITCH = Some ''yes'') \<and> \<not> unexpected_drop s"
  using reachable_spec(2) [OF assms(1-3)] assms(4,5)
  by (auto simp: guard_matches_def session_defs wants_guard_def)

lemma running_guarded_as_asked_witness:
  "\<exists>s :: process. pid s = 100 \<and> connection s = Some (conn_of guarded_setting) \<and> table s \<noteq> []"
proof -
  from demo_running [of guarded_setting] obtain s
    where r: "reaches ref_lib ref_net demo_gl cached_fs [] [Connect (conn_of guarded_setting)] s"
      and s: "pid s = 100" "connection s = Some (conn_of guarded_setting)" by blast
  from running_guarded_as_asked [OF demo_svc_doc cached_umask r _ s(2)] s show ?thesis
    by (auto simp: conn_of_def demo_items)
qed

text \<open>
  C5. The protection ends only on purpose: whenever a step out of a reachable state takes the
  kill-switch table away, it was a disconnect with no drop pending, an attempt to connect that
  passed validation, or the end of the fetch such an attempt was waiting for. No timer, no exit of
  a process and no other state change does it.
\<close>

theorem protection_ends_on_purpose:
  assumes "svc_doc L N" "umask_ok f" "reaches L N gl f t es s" "svc_step L N gl s e s'"
    and "table s \<noteq> []" "table s' = []"
  shows "e = Disconnect \<and> \<not> unexpected_drop s \<or> (\<exists>c. connect_of e = Some c \<and> accepted c)
    \<or> (\<exists>i ret. e = FetchDone i ret \<and> pid s = 0 \<and> fetch_cancellable s = Some i)"
  using guard_ends [OF svc_step_refines [OF reachable_spec(1) [OF assms(1-3)] assms(4)]] assms(5,6)
  by (auto simp: session_defs split: if_splits option.splits)

lemma protection_ends_on_purpose_witness:
  "\<exists>(s :: process) (s' :: process). svc_step ref_lib ref_net demo_gl s Disconnect s' \<and> table s \<noteq> [] \<and> table s' = []
    \<and> \<not> unexpected_drop s"
proof -
  from demo_running [of guarded_setting] obtain s
    where r: "reaches ref_lib ref_net demo_gl cached_fs [] [Connect (conn_of guarded_setting)] s"
      and s: "pid s = 100" "connection s = Some (conn_of guarded_setting)" "kill_switch_active s" by blast
  note spec = reachable_spec [OF demo_svc_doc cached_umask r]
  have t: "table s \<noteq> []"
    by (rule kill_switch_flag [OF demo_svc_doc reaches_ks [OF r cached_umask demo_svc_doc] s(3)])
  let ?s' = "real_disconnect ref_lib ref_net (demo_env 1) s"
  have st: "svc_step ref_lib ref_net demo_gl s Disconnect ?s'" by (rule svc_step.disconnect)
  have "\<not> unexpected_drop s" using spec(2) s(1) by (simp add: guard_matches_def session_defs)
  then have "table ?s' = []" using s(3) by (simp add: real_disconnect_def Let_def svc_disarm [OF demo_svc_doc])
  from protection_ends_on_purpose [OF demo_svc_doc cached_umask r st t this] st t this show ?thesis by auto
qed

end
