(* ===== verification/Airvpn_Supervision.thy ===== *)
theory Airvpn_Supervision
  imports Airvpn_Session_Spec
begin

text \<open>
  No attempt of \<open>src/nm-airvpn-service.c\<close> hangs unnoticed: while openvpn runs for a connection and
  the tunnel is not up, the connect timer is armed, or the process has been told to end since it
  was started.
\<close>

section \<open>The calls since the last start\<close>

fun is_spawn :: "call \<Rightarrow> bool" where
  "is_spawn (Spawn argv p) = True"
| "is_spawn _ = False"

definition since_spawn :: "process \<Rightarrow> call list" where
  "since_spawn s = takeWhile (\<lambda>c. \<not> is_spawn c) (rev (calls s))"

definition signalled :: "process \<Rightarrow> bool" where
  "signalled s \<longleftrightarrow> Kill (pid s) SIGTERM \<in> set (since_spawn s)"

definition timed :: "process \<Rightarrow> bool" where
  "timed s \<longleftrightarrow> connect_timer s \<noteq> 0 \<and> connect_timer s \<in> set (timers s)"

definition attempting :: "process \<Rightarrow> bool" where
  "attempting s \<longleftrightarrow> pid s \<noteq> 0 \<and> \<not> started s \<and> connection s \<noteq> None"

definition supervised :: "process \<Rightarrow> bool" where
  "supervised s \<longleftrightarrow> (attempting s \<longrightarrow> timed s \<or> signalled s)"

lemma since_spawn_append:
  assumes "calls s' = calls s @ new" "list_all (\<lambda>c. \<not> is_spawn c) new"
  shows "since_spawn s' = rev new @ since_spawn s"
proof -
  have "\<not> is_spawn c" if "c \<in> set (rev new)" for c
    using assms(2) that by (simp add: list_all_iff)
  then show ?thesis unfolding since_spawn_def assms(1) rev_append by (intro takeWhile_append2)
qed

lemma signalled_append:
  "signalled s \<Longrightarrow> pid s' = pid s \<Longrightarrow> calls s' = calls s @ new \<Longrightarrow> list_all (\<lambda>c. \<not> is_spawn c) new \<Longrightarrow> signalled s'"
  by (simp add: signalled_def since_spawn_append)

section \<open>Every step keeps it\<close>

lemma idle_supervised: "pid s = 0 \<Longrightarrow> supervised s"
  by (simp add: supervised_def attempting_def)

lemma run_supervised:
  assumes "svc_inv s" "pid s = 0" "run_openvpn L N gl E s = Some (r, s')"
  shows "supervised s'"
  using run_openvpn_process [OF assms(3)]
proof (elim disjE exE)
  fix argv p
  assume p: "r = None \<and> e_spawn_async E argv = Inr p \<and> pid s' = p \<and> child_watches s' = p # child_watches s
    \<and> timers s' = next_id s # timers (clear_connect_timer s) \<and> connect_timer s' = next_id s
    \<and> next_id s' = Suc (next_id s)"
  moreover have "0 < next_id s" using assms(1) by (simp add: svc_inv_defs)
  ultimately show ?thesis by (simp add: supervised_def timed_def)
qed (use assms(2) in \<open>simp add: idle_supervised\<close>)

lemma supervised_frame:
  assumes "supervised s" "pid s' = pid s" "started s' = started s" "connection s' = connection s"
    and "connect_timer s' = connect_timer s" "timers s' = timers s"
    and "calls s' = calls s @ new" "list_all (\<lambda>c. \<not> is_spawn c) new"
  shows "supervised s'"
  using assms signalled_append [of s s' new] by (auto simp: supervised_def attempting_def timed_def)

lemma connect_supervised:
  assumes "svc_inv s" "supervised s" "connect_common L N gl E c s = Some (r, s')"
  shows "supervised s'"
  using assms(3)
proof (cases rule: connect_common_shape)
  case (prepared s2 f)
  have "pid s2 = 0" by (simp add: prepared(2))
  moreover have "svc_inv s2" unfolding prepared(2)
    using svc_inv_cleanup [OF assms(1), of N E] prepared(1) by (simp add: svc_inv_defs)
  ultimately show ?thesis
    using prepared(4) run_supervised by (auto simp: idle_supervised start_fetch_simps)
qed (use assms(2) in simp)

lemma fetch_supervised:
  assumes "svc_inv s" "supervised s" "svc_step L N gl s (FetchDone i ret) s'"
  shows "supervised s'"
proof (cases "pid s = 0")
  case False
  from fetch_done_while_running [OF assms(1) False assms(3)] show ?thesis
    by (intro supervised_frame [OF assms(2), of s' "[]"]) simp_all
next
  case True
  let ?s0 = "s\<lparr>fetches := filter (\<lambda>f. fst f \<noteq> i) (fetches s)\<rparr>"
  have inv: "svc_inv (?s0\<lparr>fetch_cancellable := None, files := f\<rparr>)"
    if "fetch_cancellable s = Some i \<or> fetch_cancellable s = None" for f
    using assms(1) that True by (auto simp: svc_inv_defs)
  from assms(3) obtain E params key where task: "(i, params, key) \<in> set (fetches s)"
    and cb: "fetch_done_cb L N gl E (nm_airvpn_generator_fetch_finish (i \<in> set (cancelled s)) ret) ?s0 = Some s'"
    by (rule step_FetchDoneE)
  from cb show ?thesis
  proof (cases rule: fetch_done_shape)
    case (launch f r s1)
    have "fetch_cancellable s = Some i" using assms(1) launch(1) task by (auto simp: svc_inv_defs)
    with inv have "svc_inv (?s0\<lparr>fetch_cancellable := None, files := f\<rparr>)" by blast
    from run_supervised [OF this _ launch(2)] True have "supervised s1" by simp
    with launch(3) show ?thesis using supervised_frame [of s1 s' "[Failure CONNECT_FAILED]"] by auto
  qed (use True in \<open>auto simp: idle_supervised\<close>)
qed

lemma timeout_effect:
  assumes "attempting s" "s' = connect_timeout_cb L N E (s\<lparr>timers := w\<rparr>)"
  shows "signalled s' \<and> pid s' = pid s \<and> last (calls s') = Failure CONNECT_FAILED"
proof -
  have c: "calls s' = calls s @ [Kill (pid s) SIGTERM, Failure CONNECT_FAILED]" "pid s' = pid s"
    using assms by (simp_all add: connect_timeout_cb_def attempting_def Let_def)
  then show ?thesis by (simp add: signalled_def since_spawn_append)
qed

lemma supervised_step:
  assumes "svc_inv s" "supervised s" "svc_step L N gl s e s'"
  shows "supervised s'"
proof -
  have conn: "supervised s'" if "e = Connect c \<or> e = ConnectInteractive c \<or> e = NewSecrets c" for c
  proof -
    from step_connect_like [OF assms(3) that] obtain E r s1
      where c: "connect_common L N gl E c s = Some (r, s1)" and s': "s' = s1 \<or> s' = s1\<lparr>interactive := True\<rparr>"
      by metis
    have s1: "supervised s1" by (rule connect_supervised [OF assms(1,2) c])
    have "supervised (s1\<lparr>interactive := True\<rparr>)"
      by (rule supervised_frame [OF s1, of _ "[]"]) simp_all
    with s1 s' show ?thesis by metis
  qed
  from assms(3) show ?thesis
  proof (cases rule: svc_step.cases)
    case (disconnect E)
    then show ?thesis by (simp add: real_disconnect_def Let_def idle_supervised)
  next
    case (state_changed st)
    with assms(2) show ?thesis
      by (cases st) (simp_all add: state_changed_cb_def supervised_def attempting_def)
  next
    case (child_exit p st)
    then show ?thesis by (simp add: openvpn_watch_cb_def Let_def split_def idle_supervised)
  next
    case (connect_timeout i E)
    show ?thesis
    proof (cases "attempting s")
      case True
      from timeout_effect [OF this connect_timeout(2)] show ?thesis by (simp add: supervised_def)
    next
      case False
      then have "\<not> attempting s'"
        by (auto simp: connect_timeout attempting_def connect_timeout_cb_def mark_stale_and_fail_def Let_def)
      then show ?thesis by (simp add: supervised_def)
    qed
  next
    case (kill_timeout p E)
    then show ?thesis
      by (intro supervised_frame [OF assms(2), of s' "if e_kill E p then [Kill p 0, Kill p SIGKILL] else [Kill p 0]"])
        (simp_all add: ensure_killed_def split_def)
  next
    case (fetch_done E i params key ret)
    with fetch_supervised [OF assms(1,2)] assms(3) show ?thesis by simp
  qed (use conn in auto)
qed

interpretation supervision: event_loop "\<lambda>s. svc_inv s \<and> supervised s" "svc_step L N gl"
  for L :: "('k, 'g) kflib_scheme" and N :: "'n netlib_scheme" and gl
  by unfold_locales (auto intro: svc_inv_step supervised_step)

section \<open>Properties\<close>

text \<open>
  C6. In every reachable state in which openvpn runs for a connection and the tunnel is not up, the
  attempt cannot hang unnoticed: either the process was sent \<open>SIGTERM\<close> since it was started, or
  the connect timer can fire, and when it fires the process is sent \<open>SIGTERM\<close> and the failure is
  reported.
\<close>

theorem attempt_supervised:
  assumes "reaches L N gl f t es s" "pid s \<noteq> 0" "\<not> started s" "connection s \<noteq> None"
  shows "signalled s \<or> (\<exists>s'. svc_step L N gl s (ConnectTimeout (connect_timer s)) s'
    \<and> pid s' = pid s \<and> signalled s' \<and> last (calls s') = Failure CONNECT_FAILED)"
proof -
  have start: "svc_inv (main_start N f t) \<and> supervised (main_start N f t)"
    by (simp add: svc_inv_start idle_supervised) (simp add: main_start_def nm_airvpn_plugin_init_def idle_supervised)
  have "supervised s"
    using supervision.run_inv [OF start assms(1) [unfolded reaches_def]] by simp
  moreover have a: "attempting s" using assms(2-4) by (simp add: attempting_def)
  ultimately have "timed s \<or> signalled s" by (simp add: supervised_def)
  moreover have ?thesis if "timed s"
  proof -
    have "connect_timer s \<in> set (timers s)" using that by (simp add: timed_def)
    from svc_step.connect_timeout [OF this] timeout_effect [OF a refl] show ?thesis by metis
  qed
  ultimately show ?thesis by blast
qed

lemma attempt_supervised_witness:
  "\<exists>s :: process. pid s = 100 \<and> (signalled s
    \<or> (\<exists>s'. svc_step ref_lib ref_net demo_gl s (ConnectTimeout (connect_timer s)) s'
      \<and> pid s' = pid s \<and> signalled s' \<and> last (calls s') = Failure CONNECT_FAILED))"
proof -
  from demo_running [of demo_setting] obtain s :: process
    where r: "reaches ref_lib ref_net demo_gl cached_fs [] [Connect (conn_of demo_setting)] s"
      and s: "pid s = 100" "connection s = Some (conn_of demo_setting)" "\<not> started s" by blast
  have "pid s \<noteq> 0" "connection s \<noteq> None" using s by simp_all
  from attempt_supervised [OF r this(1) s(3) this(2)] s(1) show ?thesis by blast
qed

end
