(* ===== verification/NM_Addresses.thy ===== *)
theory NM_Addresses
  imports NM_Shared_Utils
begin

text \<open>
  The address helpers of \<open>shared/nm-utils/nm-shared-utils.c\<close>: IPv4 masks and classes, site-local
  addresses, and the parsing of addresses with and without a prefix length. \<open>in_addr_t\<close> is a
  32-bit word as the host reads it from memory; the byte order of the host is a parameter, true
  for big-endian. The conversions \<open>inet_pton\<close> and \<open>inet_ntop\<close> of libc are parameters.
\<close>


section \<open>Byte order\<close>

type_synonym in_addr = "32 word"

definition swap_bytes :: "32 word \<Rightarrow> 32 word" where
  "swap_bytes w = push_bit 24 (w AND 0xFF) OR push_bit 8 (w AND 0xFF00)
     OR drop_bit 8 (w AND 0xFF0000) OR drop_bit 24 (w AND 0xFF000000)"

definition htonl :: "bool \<Rightarrow> 32 word \<Rightarrow> 32 word" where
  "htonl be w = (if be then w else swap_bytes w)"

definition ntohl :: "bool \<Rightarrow> 32 word \<Rightarrow> 32 word" where
  "ntohl be w = (if be then w else swap_bytes w)"

section \<open>IPv4 masks and classes\<close>

definition nm_utils_ip4_prefix_to_netmask :: "bool \<Rightarrow> 32 word \<Rightarrow> in_addr" where
  "nm_utils_ip4_prefix_to_netmask be plen =
     (if plen < 32 then NOT (htonl be (drop_bit (unat plen) 0xFFFFFFFF)) else 0xFFFFFFFF)"

definition nm_utils_ip4_get_default_prefix :: "bool \<Rightarrow> in_addr \<Rightarrow> 32 word" where
  "nm_utils_ip4_get_default_prefix be ip =
     (if drop_bit 24 (ntohl be ip AND 0xFF000000) \<le> 127 then 8
      else if drop_bit 24 (ntohl be ip AND 0xFF000000) \<le> 191 then 16
      else 24)"

datatype af = AF_UNSPEC | AF_INET | AF_INET6 | AF_OTHER int

text \<open>The members of the union \<open>NMIPAddr\<close> that are in use; \<open>in6_addr\<close> is its 16 bytes.\<close>

datatype ipaddr = Addr4 in_addr | Addr6 "8 word list"

text \<open>
  \<open>fec0::/10\<close>, the test of \<open>IN6_IS_ADDR_SITELOCAL\<close>. Reading an address of the other family is
  outside the model (\<open>None\<close>).
\<close>

definition IN6_IS_ADDR_SITELOCAL :: "8 word list \<Rightarrow> bool" where
  "IN6_IS_ADDR_SITELOCAL a \<longleftrightarrow> a ! 0 = 0xFE \<and> a ! 1 AND 0xC0 = 0xC0"

definition nm_utils_ip_is_site_local :: "bool \<Rightarrow> af \<Rightarrow> ipaddr \<Rightarrow> bool option" where
  "nm_utils_ip_is_site_local be addr_family address =
     (case (addr_family, address) of
        (AF_INET, Addr4 a) \<Rightarrow>
          (let addr4 = ntohl be a
           in Some (addr4 AND 0xff000000 = 0x0a000000
                    \<or> addr4 AND 0xfff00000 = 0xac100000
                    \<or> addr4 AND 0xffff0000 = 0xc0a80000))
      | (AF_INET6, Addr6 a) \<Rightarrow> Some (IN6_IS_ADDR_SITELOCAL a)
      | (AF_UNSPEC, _) \<Rightarrow> Some False
      | (AF_OTHER _, _) \<Rightarrow> Some False
      | _ \<Rightarrow> None)"

section \<open>Parsing\<close>

record libc =
  inet_pton :: "af \<Rightarrow> string \<Rightarrow> ipaddr option"
  inet_ntop :: "af \<Rightarrow> ipaddr \<Rightarrow> cstr"

text \<open>
  The results are \<open>None\<close> for the \<open>FALSE\<close> return and otherwise what is stored behind the output
  pointers; the prefix length is -1 when the text has none.
\<close>

definition guess_family :: "string \<Rightarrow> af" where
  "guess_family txt = (if strchr txt CHR '':'' \<noteq> None then AF_INET6 else AF_INET)"

definition nm_utils_parse_inaddr_bin :: "'c libc_scheme \<Rightarrow> af \<Rightarrow> cstr \<Rightarrow> ipaddr option" where
  "nm_utils_parse_inaddr_bin C addr_family txt =
     (case txt of
        None \<Rightarrow> None
      | Some txt \<Rightarrow>
          (case addr_family of
             AF_UNSPEC \<Rightarrow> inet_pton C (guess_family txt) txt
           | AF_INET \<Rightarrow> inet_pton C AF_INET txt
           | AF_INET6 \<Rightarrow> inet_pton C AF_INET6 txt
           | AF_OTHER _ \<Rightarrow> None))"

definition nm_utils_parse_inaddr :: "'c libc_scheme \<Rightarrow> af \<Rightarrow> cstr \<Rightarrow> cstr option" where
  "nm_utils_parse_inaddr C addr_family txt =
     (case nm_utils_parse_inaddr_bin C addr_family txt of
        None \<Rightarrow> None
      | Some addrbin \<Rightarrow> Some (inet_ntop C addr_family addrbin))"

text \<open>The text after the slash, and the part before it.\<close>

definition before_slash :: "string \<Rightarrow> string" where
  "before_slash txt = takeWhile (\<lambda>c. c \<noteq> CHR ''/'') txt"

definition parse_addr_prefix ::
  "'g glib_scheme \<Rightarrow> 'c libc_scheme \<Rightarrow> af \<Rightarrow> int \<Rightarrow> string \<Rightarrow> (ipaddr \<times> int) option" where
  "parse_addr_prefix L C family max_prefix txt =
     (let slash = strchr txt CHR ''/'';
          addrstr = (case slash of Some _ \<Rightarrow> before_slash txt | None \<Rightarrow> txt)
      in case inet_pton C family addrstr of
           None \<Rightarrow> None
         | Some addrbin \<Rightarrow>
             (case slash of
                None \<Rightarrow> Some (addrbin, - 1)
              | Some s \<Rightarrow>
                  (let plen = ascii_to_int64 L (Some (tl s)) 10 0 max_prefix (- 1)
                   in if plen = - 1 then None else Some (addrbin, plen))))"

definition nm_utils_parse_inaddr_prefix_bin ::
  "'g glib_scheme \<Rightarrow> 'c libc_scheme \<Rightarrow> af \<Rightarrow> cstr \<Rightarrow> (ipaddr \<times> int) option" where
  "nm_utils_parse_inaddr_prefix_bin L C addr_family txt =
     (case txt of
        None \<Rightarrow> None
      | Some txt \<Rightarrow>
          (case (if addr_family = AF_UNSPEC then guess_family txt else addr_family) of
             AF_INET \<Rightarrow> parse_addr_prefix L C AF_INET 32 txt
           | AF_INET6 \<Rightarrow> parse_addr_prefix L C AF_INET6 128 txt
           | _ \<Rightarrow> None))"

definition nm_utils_parse_inaddr_prefix ::
  "'g glib_scheme \<Rightarrow> 'c libc_scheme \<Rightarrow> af \<Rightarrow> cstr \<Rightarrow> (cstr \<times> int) option" where
  "nm_utils_parse_inaddr_prefix L C addr_family txt =
     (case nm_utils_parse_inaddr_prefix_bin L C addr_family txt of
        None \<Rightarrow> None
      | Some (addrbin, plen) \<Rightarrow> Some (inet_ntop C addr_family addrbin, plen))"

section \<open>Facts\<close>

lemma byte_masks:
  "(0xFF :: 32 word) = mask 8" "(0xFF00 :: 32 word) = push_bit 8 (mask 8)"
  "(0xFF0000 :: 32 word) = push_bit 16 (mask 8)" "(0xFF000000 :: 32 word) = push_bit 24 (mask 8)"
  by (simp_all add: mask_eq_exp_minus_1 push_bit_eq_mult)

text \<open>The position of a bit after swapping the bytes.\<close>

definition swap_pos :: "nat \<Rightarrow> nat" where
  "swap_pos n = 8 * (3 - n div 8) + n mod 8"

lemma swap_pos: "n < 32 \<Longrightarrow> swap_pos n < 32" "n < 32 \<Longrightarrow> swap_pos (swap_pos n) = n"
  by (auto simp: swap_pos_def)

lemma bit_swap_bytes: "bit (swap_bytes w) n \<longleftrightarrow> n < 32 \<and> bit w (swap_pos n)"
proof (cases "n < 32")
  case True
  then have "n = 8 * (n div 8) + n mod 8" "n div 8 < 4" "n mod 8 < 8" by auto
  then obtain k r where n: "n = 8 * k + r" "k < 4" "r < 8" by blast
  then have d: "swap_pos n = 8 * (3 - k) + r" by (simp add: swap_pos_def)
  from n(2) consider "k = 0" | "k = 1" | "k = 2" | "k = 3" by linarith
  then show ?thesis
    using n(3) unfolding d unfolding n(1)
    by cases (auto simp: swap_bytes_def byte_masks bit_simps)
qed (use bit_imp_le_length in \<open>fastforce\<close>)

lemma swap_swap [simp]: "swap_bytes (swap_bytes w) = w"
  by (rule bit_word_eqI) (simp add: bit_swap_bytes swap_pos)

lemma swap_not [simp]: "swap_bytes (NOT w) = NOT (swap_bytes w)"
  by (rule bit_word_eqI) (simp add: bit_swap_bytes bit_not_iff swap_pos) 

lemma ntohl_htonl [simp]: "ntohl be (htonl be w) = w" "htonl be (ntohl be w) = w"
  and ntohl_not [simp]: "ntohl be (NOT w) = NOT (ntohl be w)"
  by (simp_all add: ntohl_def htonl_def)

lemma ntohl_all_ones: "ntohl be 0xFFFFFFFF = 0xFFFFFFFF"
proof -
  have "(0xFFFFFFFF :: 32 word) = NOT 0" by simp
  moreover have "ntohl be 0 = 0" by (simp add: ntohl_def swap_bytes_def)
  ultimately show ?thesis by (metis ntohl_not)
qed

lemma bit_all_ones: "bit (0xFFFFFFFF :: int) n \<longleftrightarrow> n < 32"
proof -
  have "(0xFFFFFFFF :: int) = mask 32" by (simp add: mask_eq_exp_minus_1)
  then show ?thesis by (simp only: bit_mask_iff) simp
qed

lemma parse_addr_prefix_plain:
  assumes "CHR ''/'' \<notin> set s"
  shows "parse_addr_prefix L C family hi s = map_option (\<lambda>a. (a, - 1)) (inet_pton C family s)"
  using assms strchr_Some_iff [of s "CHR ''/''"]
  by (auto simp: parse_addr_prefix_def Let_def split: option.splits)

lemma strchr_at: "c \<notin> set s \<Longrightarrow> strchr (s @ c # r) c = Some (c # r)"
  by (induction s) auto

lemma before_slash_at: "CHR ''/'' \<notin> set s \<Longrightarrow> before_slash (s @ CHR ''/'' # r) = s"
  by (induction s) (auto simp: before_slash_def)

lemma parse_addr_prefix_slash:
  assumes "CHR ''/'' \<notin> set s"
  shows "parse_addr_prefix L C family hi (s @ CHR ''/'' # r) =
    (let p = ascii_to_int64 L (Some r) 10 0 hi (- 1)
     in if p = - 1 then None else map_option (\<lambda>a. (a, p)) (inet_pton C family s))"
  using assms
  by (auto simp: parse_addr_prefix_def Let_def strchr_at before_slash_at split: option.splits)

lemma prefix_bin_range:
  assumes "nm_utils_parse_inaddr_prefix_bin L C family txt = Some (a, p)"
  shows "- 1 \<le> p \<and> p \<le> 128"
proof -
  have *: "- 1 \<le> p \<and> p \<le> hi"
    if "parse_addr_prefix L C f hi t = Some (a, p)" "0 \<le> hi" for f hi t
    using that ascii_to_int64_range [of L "Some r" 10 0 hi "- 1" for r]
    by (fastforce simp: parse_addr_prefix_def Let_def split: option.splits if_splits)
  from assms show ?thesis
    by (auto simp: nm_utils_parse_inaddr_prefix_bin_def
        split: option.splits af.splits if_splits dest!: *)
qed

section \<open>A reference instance\<close>

text \<open>
  Dotted quads and eight groups of four hexadecimal digits, on a little-endian host; the short
  forms of IPv6 are left out, which no hypothesis here excludes.
\<close>

definition ref_byte :: "string \<Rightarrow> nat option" where
  "ref_byte s =
     (if s \<noteq> [] \<and> list_all is_digit s \<and> (length s = 1 \<or> hd s \<noteq> CHR ''0'') \<and> nat_of_digits s 0 \<le> 255
      then Some (nat_of_digits s 0) else None)"

definition ref_pton4 :: "string \<Rightarrow> in_addr option" where
  "ref_pton4 s =
     (case map ref_byte (split_on CHR ''.'' s) of
        [Some a, Some b, Some c, Some d] \<Rightarrow> Some (of_nat (a + 256 * b + 65536 * c + 16777216 * d))
      | _ \<Rightarrow> None)"

definition ref_hex :: "char \<Rightarrow> nat option" where
  "ref_hex c =
     (let n = of_char c
      in if 48 \<le> n \<and> n \<le> 57 then Some (n - 48)
         else if 97 \<le> n \<and> n \<le> 102 then Some (n - 87) else None)"

definition ref_group :: "string \<Rightarrow> 8 word list option" where
  "ref_group s =
     (case map ref_hex s of
        [Some a, Some b, Some c, Some d] \<Rightarrow> Some [of_nat (16 * a + b), of_nat (16 * c + d)]
      | _ \<Rightarrow> None)"

definition ref_pton6 :: "string \<Rightarrow> 8 word list option" where
  "ref_pton6 s =
     (let gs = map ref_group (split_on CHR '':'' s)
      in if length gs = 8 \<and> None \<notin> set gs then Some (concat (map the gs)) else None)"

definition ref_ntop4 :: "in_addr \<Rightarrow> string" where
  "ref_ntop4 w = (let n = unat w in
     dec_of_nat (n mod 256) @ ''.'' @ dec_of_nat (n div 256 mod 256) @ ''.''
     @ dec_of_nat (n div 65536 mod 256) @ ''.'' @ dec_of_nat (n div 16777216))"

definition ref_digit :: "nat \<Rightarrow> char" where
  "ref_digit n = (if n < 10 then char_of (48 + n) else char_of (87 + n))"

fun ref_ntop6 :: "8 word list \<Rightarrow> string" where
  "ref_ntop6 (a # b # r) =
     [ref_digit (unat a div 16), ref_digit (unat a mod 16), ref_digit (unat b div 16),
      ref_digit (unat b mod 16)] @ (if r = [] then [] else CHR '':'' # ref_ntop6 r)"
| "ref_ntop6 _ = []"

definition ref_libc :: libc where
  "ref_libc =
     \<lparr>inet_pton = (\<lambda>f s. case f of AF_INET \<Rightarrow> map_option Addr4 (ref_pton4 s)
        | AF_INET6 \<Rightarrow> map_option Addr6 (ref_pton6 s) | _ \<Rightarrow> None),
      inet_ntop = (\<lambda>f a. case (f, a) of (AF_INET, Addr4 w) \<Rightarrow> Some (ref_ntop4 w)
        | (AF_INET6, Addr6 b) \<Rightarrow> Some (ref_ntop6 b) | _ \<Rightarrow> None)\<rparr>"

lemma ref_pton_sel: "inet_pton ref_libc AF_INET s = map_option Addr4 (ref_pton4 s)"
  "inet_pton ref_libc AF_INET6 s = map_option Addr6 (ref_pton6 s)"
  by (simp_all add: ref_libc_def)

section \<open>Properties\<close>

text \<open>
  The netmask of a prefix length has, in host byte order, exactly its upper bits set; from
  32 on all of them. This holds on hosts of either byte order.
\<close>

theorem netmask_bits:
  "bit (ntohl be (nm_utils_ip4_prefix_to_netmask be p)) n \<longleftrightarrow> n < 32 \<and> 32 - unat p \<le> n"
proof -
  have "p < 32 \<longleftrightarrow> unat p < 32" by (simp add: word_less_nat_alt)
  then show ?thesis
    by (auto simp: nm_utils_ip4_prefix_to_netmask_def ntohl_all_ones bit_simps bit_all_ones)
qed

text \<open>
  An address followed by a slash and a number is parsed to that address and number if the
  number is at most the width of the address family, whatever white space surrounds the number,
  and refused otherwise; without a slash the prefix length is -1.
\<close>

theorem inaddr_prefix_roundtrip:
  assumes "ascii_doc L" "CHR ''/'' \<notin> set s" "family \<in> {AF_INET, AF_INET6}"
    and "\<forall>c \<in> set (pre @ post). ascii_space c" "int n \<le> LONG_MAX"
  shows "nm_utils_parse_inaddr_prefix_bin L C family (Some (s @ CHR ''/'' # pre @ dec_of_nat n @ post)) =
      (if n \<le> (if family = AF_INET then 32 else 128)
       then map_option (\<lambda>a. (a, int n)) (inet_pton C family s) else None)
    \<and> nm_utils_parse_inaddr_prefix_bin L C family (Some s) =
      map_option (\<lambda>a. (a, - 1)) (inet_pton C family s)"
proof -
  have "post = [] \<or> \<not> is_digit (hd post)"
    using assms(4) by (cases post) (auto dest: digit_not_ascii_space)
  moreover have "dropWhile ascii_space post = []" using assms(4) by simp
  ultimately have "ascii_to_int64 L (Some (pre @ dec_of_nat n @ post)) 10 0 hi (- 1) =
      (if hi < int n then - 1 else int n)" for hi
    using int64_of_dec [OF assms(1) assms(5), of pre post 0 hi "- 1"] assms(4)
    by (simp add: ascii_to_int64_def)
  then show ?thesis
    using assms(2,3)
    by (auto simp: nm_utils_parse_inaddr_prefix_bin_def parse_addr_prefix_plain
        parse_addr_prefix_slash Let_def)
qed

theorem inaddr_prefix_roundtrip_witness:
  "nm_utils_parse_inaddr_prefix_bin ref_lib ref_libc AF_INET (Some ''10.0.0.1/ 24 '')
     = Some (Addr4 0x0100000A, 24)
   \<and> nm_utils_parse_inaddr_prefix_bin ref_lib ref_libc AF_INET (Some ''10.0.0.1/33'') = None"
proof -
  have d: "dec_of_nat 24 = ''24''" "dec_of_nat 33 = ''33''" by code_simp+
  have p: "ref_pton4 ''10.0.0.1'' = Some 0x0100000A"
    by (simp add: ref_pton4_def ref_byte_def is_digit_def digit_val_def)
  have "nm_utils_parse_inaddr_prefix_bin ref_lib ref_libc AF_INET
      (Some (''10.0.0.1'' @ CHR ''/'' # '' '' @ dec_of_nat 24 @ '' '')) = Some (Addr4 0x0100000A, 24)"
    using inaddr_prefix_roundtrip [OF ref_ascii_doc, of "''10.0.0.1''" AF_INET "'' ''" "'' ''" 24 ref_libc] p
    by (simp add: ref_pton_sel ascii_space_def LONG_MAX_def)
  moreover have "nm_utils_parse_inaddr_prefix_bin ref_lib ref_libc AF_INET
      (Some (''10.0.0.1'' @ CHR ''/'' # [] @ dec_of_nat 33 @ [])) = None"
    using inaddr_prefix_roundtrip [OF ref_ascii_doc, of "''10.0.0.1''" AF_INET "[]" "[]" 33 ref_libc]
    by (simp add: LONG_MAX_def)
  ultimately show ?thesis unfolding d by simp
qed

end
