(* ===== verification/Airvpn_Helper.thy ===== *)
theory Airvpn_Helper
  imports NM_Addresses Airvpn_Properties
begin

text \<open>
  The program openvpn runs when the tunnel is up, \<open>src/nm-airvpn-service-openvpn-helper.c\<close>: it
  reads the options of the daemon and the environment of openvpn, and sends one configuration
  (or one failure) to the daemon over D-Bus. One definition per function of the C file; \<open>main\<close>
  is cut into stages over the record of its local variables. A stage may stop with the reason
  given to \<open>helper_failed\<close>. \<open>None\<close> stands for undefined behaviour. Log output is not modelled.
\<close>

section \<open>Data\<close>

text \<open>The entries of the three dictionaries, named after the macros of libnm that name them.\<close>

datatype config_key = EXT_GATEWAY | CAN_PERSIST | TUNDEV | MTU | HAS_IP4 | HAS_IP6

datatype ip_key = INT_GATEWAY | ADDRESS | PTP | PREFIX | ROUTES | PRESERVE_ROUTES | DNS | NBNS | DOMAINS

datatype gvalue =
    VBool bool
  | VUint32 "32 word"
  | VString string
  | VBytes "8 word list"
  | VArray "gvalue list"
  | VStrv "string list"
  | VLib nat

record addrinfo =
  ai_family :: af
  ai_addrlen :: nat
  ai_addr :: ipaddr

text \<open>
  What libc, GLib, GDBus and libnm answer. \<open>VLib\<close> is the variant libnm builds from IPv6 routes.
\<close>

record 'r helperlib = libc +
  getaddrinfo4 :: "string \<Rightarrow> addrinfo list option"
  g_utf8_validate :: "string \<Rightarrow> bool"
  g_convert :: "cstr \<Rightarrow> string \<Rightarrow> string \<Rightarrow> cstr"
  g_dbus_is_name :: "string \<Rightarrow> bool"
  g_dbus_proxy_new :: "string \<Rightarrow> bool"
  nm_utils_ip4_netmask_to_prefix :: "in_addr \<Rightarrow> 32 word"
  nm_ip_route_new :: "af \<Rightarrow> cstr \<Rightarrow> int \<Rightarrow> cstr \<Rightarrow> int \<Rightarrow> 'r option"
  nm_utils_ip6_routes_to_variant :: "'r list \<Rightarrow> gvalue"

text \<open>The environment, and the calls on the D-Bus proxy in order; their failures are only logged.\<close>

type_synonym environ = "(string \<times> string) list"

definition getenv :: "environ \<Rightarrow> string \<Rightarrow> cstr" where
  "getenv E name = map_of E name"

datatype helper_call =
    SetFailure string
  | SetConfig "(config_key \<times> gvalue) list"
  | SetIp4Config "(ip_key \<times> gvalue) list"
  | SetIp6Config "(ip_key \<times> gvalue) list"

text \<open>What \<open>helper_failed\<close> sends before it exits with status 1.\<close>

definition helper_failed :: "string \<Rightarrow> int \<times> helper_call list" where
  "helper_failed reason = (1, [SetFailure reason])"

definition send_config ::
  "(config_key \<times> gvalue) list \<Rightarrow> (ip_key \<times> gvalue) list option \<Rightarrow> (ip_key \<times> gvalue) list option
     \<Rightarrow> helper_call list" where
  "send_config config ip4config ip6config =
     [SetConfig config]
     @ (case ip4config of Some c \<Rightarrow> [SetIp4Config c] | None \<Rightarrow> [])
     @ (case ip6config of Some c \<Rightarrow> [SetIp6Config c] | None \<Rightarrow> [])"

section \<open>Values\<close>

definition g_variant_new_string :: "('r, 'h) helperlib_scheme \<Rightarrow> string \<Rightarrow> gvalue option" where
  "g_variant_new_string H s = (if g_utf8_validate H s then Some (VString s) else None)"

definition str_to_gvariant :: "('r, 'h) helperlib_scheme \<Rightarrow> cstr \<Rightarrow> bool \<Rightarrow> gvalue option" where
  "str_to_gvariant H str try_convert =
     (if \<not> nonempty_str str then None
      else
        (let str' =
           (if g_utf8_validate H (the str) then str
            else if try_convert
            then (case g_convert H str ''ISO-8859-1'' ''UTF-8'' of
                    None \<Rightarrow> g_convert H None ''C'' ''UTF-8''
                  | Some s \<Rightarrow> Some s)
            else str)
         in case str' of None \<Rightarrow> None | Some s \<Rightarrow> g_variant_new_string H s))"

definition pton4 :: "('r, 'h) helperlib_scheme \<Rightarrow> string \<Rightarrow> in_addr option" where
  "pton4 H s = (case inet_pton H AF_INET s of Some (Addr4 a) \<Rightarrow> Some a | _ \<Rightarrow> None)"

definition pton6 :: "('r, 'h) helperlib_scheme \<Rightarrow> string \<Rightarrow> 8 word list option" where
  "pton6 H s = (case inet_pton H AF_INET6 s of Some (Addr6 a) \<Rightarrow> Some a | _ \<Rightarrow> None)"

definition addr4_to_gvariant :: "('r, 'h) helperlib_scheme \<Rightarrow> cstr \<Rightarrow> gvalue option" where
  "addr4_to_gvariant H str =
     (if \<not> nonempty_str str then None else map_option VUint32 (pton4 H (the str)))"

definition addr6_to_gvariant :: "('r, 'h) helperlib_scheme \<Rightarrow> cstr \<Rightarrow> gvalue option" where
  "addr6_to_gvariant H str =
     (if \<not> nonempty_str str then None else map_option VBytes (pton6 H (the str)))"

text \<open>An array that is \<open>NULL\<close> takes no addresses of its family.\<close>

fun add_addrs ::
  "('r, 'h) helperlib_scheme \<Rightarrow> string list \<Rightarrow> gvalue list option \<times> gvalue list option
     \<Rightarrow> gvalue list option \<times> gvalue list option" where
  "add_addrs H [] (array4, array6) = (array4, array6)"
| "add_addrs H (t # ts) (array4, array6) =
     (case (array4, addr4_to_gvariant H (Some t)) of
        (Some a4, Some v) \<Rightarrow> add_addrs H ts (Some (a4 @ [v]), array6)
      | _ \<Rightarrow>
          (case (array6, addr6_to_gvariant H (Some t)) of
             (Some a6, Some v) \<Rightarrow> add_addrs H ts (array4, Some (a6 @ [v]))
           | _ \<Rightarrow> add_addrs H ts (array4, array6)))"

definition parse_addr_list ::
  "'g glib_scheme \<Rightarrow> ('r, 'h) helperlib_scheme \<Rightarrow> gvalue list option \<times> gvalue list option \<Rightarrow> string
     \<Rightarrow> gvalue list option \<times> gvalue list option" where
  "parse_addr_list L H arrays str =
     (if str = [] then arrays else add_addrs H (g_strsplit L str '' '') arrays)"

definition is_domain_valid :: "cstr \<Rightarrow> bool" where
  "is_domain_valid str =
     (case str of None \<Rightarrow> False | Some s \<Rightarrow> 1 \<le> length s \<and> length s \<le> 255)"

section \<open>Numbered variables\<close>

text \<open>
  The three loops \<open>for (i = 1; ; i++)\<close> over \<open>name_1\<close>, \<open>name_2\<close>, \<open>...\<close> stop at the first variable
  that is missing or empty; \<open>body\<close> is the rest of the loop, where \<open>continue\<close> returns the state it
  got. There are fewer variables than an \<open>int\<close> can count.
\<close>

definition later_keys :: "environ \<Rightarrow> string \<Rightarrow> nat \<Rightarrow> string set" where
  "later_keys E name i = {k \<in> fst ` set E. \<exists>j\<ge>i. k = name @ dec_of_nat j}"

lemma later_keys_shrink:
  assumes "getenv E (name @ dec_of_nat i) = Some v"
  shows "later_keys E name (Suc i) \<subset> later_keys E name i"
proof -
  have "name @ dec_of_nat i \<in> later_keys E name i"
    using assms by (force simp: later_keys_def getenv_def dest: map_of_SomeD)
  moreover have "name @ dec_of_nat i \<notin> later_keys E name (Suc i)" by (auto simp: later_keys_def)
  moreover have "later_keys E name (Suc i) \<subseteq> later_keys E name i"
    by (auto simp: later_keys_def intro: Suc_leD)
  ultimately show ?thesis by blast
qed

function env_loop ::
  "environ \<Rightarrow> string \<Rightarrow> (nat \<Rightarrow> string \<Rightarrow> 's \<Rightarrow> 's) \<Rightarrow> nat \<Rightarrow> 's \<Rightarrow> 's" where
  "env_loop E name body i s =
     (case getenv E (name @ dec_of_nat i) of
        None \<Rightarrow> s
      | Some v \<Rightarrow> if v = [] then s else env_loop E name body (Suc i) (body i v s))"
  by pat_completeness auto
termination
proof (relation "measure (\<lambda>(E, name, body, i, s). card (later_keys E name i))")
  fix E name i v
  assume "getenv E (name @ dec_of_nat i) = Some v"
  then have "later_keys E name (Suc i) \<subset> later_keys E name i" by (rule later_keys_shrink)
  moreover have "finite (later_keys E name i)" by (auto simp: later_keys_def)
  ultimately have "card (later_keys E name (Suc i)) < card (later_keys E name i)"
    by (simp add: psubset_card_mono)
  then show "((E, name, body, Suc i, body i v s), (E, name, body, i, s))
      \<in> measure (\<lambda>(E, name, body, i, s). card (later_keys E name i))" for body :: "nat \<Rightarrow> string \<Rightarrow> 's \<Rightarrow> 's" and s
    by simp
qed simp

declare env_loop.simps [simp del]

section \<open>Routes\<close>

definition var :: "environ \<Rightarrow> string \<Rightarrow> nat \<Rightarrow> cstr" where
  "var E name i = getenv E (name @ dec_of_nat i)"

definition G_MAXUINT32 :: int where "G_MAXUINT32 = 4294967295"

text \<open>One round of the loop for IPv4; \<open>None\<close> for the routes that are ignored.\<close>

definition route_gateway :: "('r, 'h) helperlib_scheme \<Rightarrow> cstr \<Rightarrow> in_addr option" where
  "route_gateway H tmp = (case tmp of None \<Rightarrow> Some 0 | Some t \<Rightarrow> pton4 H t)"

definition route_metric :: "'g glib_scheme \<Rightarrow> cstr \<Rightarrow> 32 word option" where
  "route_metric L tmp =
     (if nonempty_str tmp
      then (let (metric, errno) = nm_utils_ascii_str_to_int64 L tmp 10 0 G_MAXUINT32 0
            in if errno \<noteq> ENONE then None else Some (of_int metric))
      else Some 0)"

definition ip4_route ::
  "'g glib_scheme \<Rightarrow> ('r, 'h) helperlib_scheme \<Rightarrow> environ \<Rightarrow> nat \<Rightarrow> string \<Rightarrow> gvalue option" where
  "ip4_route L H E i tmp =
     (case pton4 H tmp of
        None \<Rightarrow> None
      | Some network \<Rightarrow>
     (case Option.bind (var E ''route_netmask_'' i) (pton4 H) of
        None \<Rightarrow> None
      | Some netmask \<Rightarrow>
     (case route_gateway H (var E ''route_gateway_'' i) of
        None \<Rightarrow> None
      | Some gateway \<Rightarrow>
     (case route_metric L (var E ''route_metric_'' i) of
        None \<Rightarrow> None
      | Some metric \<Rightarrow>
          Some (VArray (map VUint32
            [network, nm_utils_ip4_netmask_to_prefix H netmask, gateway, metric]))))))"

definition add_route :: "'v option \<Rightarrow> 'v list \<Rightarrow> 'v list" where
  "add_route route routes = (case route of None \<Rightarrow> routes | Some r \<Rightarrow> routes @ [r])"

definition get_ip4_routes ::
  "'g glib_scheme \<Rightarrow> ('r, 'h) helperlib_scheme \<Rightarrow> environ \<Rightarrow> gvalue option" where
  "get_ip4_routes L H E =
     (let routes = env_loop E ''route_network_'' (\<lambda>i tmp. add_route (ip4_route L H E i tmp)) 1 []
      in if routes = [] then None else Some (VArray routes))"

definition ip6_route ::
  "'g glib_scheme \<Rightarrow> ('r, 'h) helperlib_scheme \<Rightarrow> environ \<Rightarrow> cstr \<Rightarrow> nat \<Rightarrow> string \<Rightarrow> 'r option" where
  "ip6_route L H E fallback_gateway i tmp =
     (case nm_utils_parse_inaddr_prefix L H AF_INET6 (Some tmp) of
        None \<Rightarrow> None
      | Some (dst, plen) \<Rightarrow>
          if plen = - 1 then None
          else nm_ip_route_new H AF_INET6 dst plen
                 (case var E ''route_ipv6_gateway_'' i of None \<Rightarrow> fallback_gateway | Some t \<Rightarrow> Some t)
                 (- 1))"

definition get_ip6_routes ::
  "'g glib_scheme \<Rightarrow> ('r, 'h) helperlib_scheme \<Rightarrow> environ \<Rightarrow> cstr \<Rightarrow> gvalue option" where
  "get_ip6_routes L H E fallback_gateway =
     (let routes = env_loop E ''route_ipv6_network_''
                     (\<lambda>i tmp. add_route (ip6_route L H E fallback_gateway i tmp)) 1 []
      in if routes = [] then None else Some (nm_utils_ip6_routes_to_variant H routes))"

section \<open>The gateway\<close>

definition is_hostname :: "string \<Rightarrow> bool" where
  "is_hostname p = list_ex (\<lambda>c. c \<noteq> CHR ''.'' \<and> \<not> is_digit c) p"

definition sizeof_sockaddr_in :: nat where "sizeof_sockaddr_in = 16"

text \<open>The address of the first entry for IPv4, and 0 without one.\<close>

fun first_in_addr :: "addrinfo list \<Rightarrow> in_addr" where
  "first_in_addr [] = 0"
| "first_in_addr (rp # rps) =
     (case (ai_family rp = AF_INET \<and> ai_addrlen rp = sizeof_sockaddr_in, ai_addr rp) of
        (True, Addr4 a) \<Rightarrow> a
      | _ \<Rightarrow> first_in_addr rps)"

definition trusted_remote_to_gvariant ::
  "('r, 'h) helperlib_scheme \<Rightarrow> environ \<Rightarrow> gvalue option" where
  "trusted_remote_to_gvariant H E =
     (case getenv E ''trusted_ip6'' of
        Some tmp \<Rightarrow> addr6_to_gvariant H (Some tmp)
      | None \<Rightarrow>
          (case (case getenv E ''trusted_ip'' of None \<Rightarrow> getenv E ''remote_1'' | Some t \<Rightarrow> Some t) of
             None \<Rightarrow> None
           | Some tmp \<Rightarrow>
               if is_hostname tmp
               then (case getaddrinfo4 H tmp of
                       None \<Rightarrow> None
                     | Some result \<Rightarrow>
                         (let addr = first_in_addr result
                          in if addr \<noteq> 0 then Some (VUint32 addr) else None))
               else addr4_to_gvariant H (Some tmp)))"

section \<open>Options\<close>

text \<open>The statics \<open>gl\<close>, the locals set by options, and the arguments openvpn added.\<close>

record cmdline =
  cl_log_level :: int
  cl_log_prefix_token :: cstr
  cl_tapdev :: int
  cl_bus_name :: string
  cl_args :: "string list"

definition cmdline_init :: cmdline where
  "cmdline_init = \<lparr>cl_log_level = 0, cl_log_prefix_token = None, cl_tapdev = - 1,
     cl_bus_name = NM_DBUS_SERVICE_AIRVPN, cl_args = []\<rparr>"

text \<open>\<open>None\<close> for the exits with status 1.\<close>

fun parse_options ::
  "'g glib_scheme \<Rightarrow> ('r, 'h) helperlib_scheme \<Rightarrow> string list \<Rightarrow> cmdline \<Rightarrow> cmdline option" where
  "parse_options L H [] opt = Some (opt\<lparr>cl_args := []\<rparr>)"
| "parse_options L H (a # as) opt =
     (if a = ''--'' then Some (opt\<lparr>cl_args := as\<rparr>)
      else if a = ''--debug''
      then (case as of
              level # token # as \<Rightarrow>
                parse_options L H as
                  (opt\<lparr>cl_log_level := ascii_to_int64 L (Some level) 10 0 LOG_DEBUG 0,
                     cl_log_prefix_token := Some token\<rparr>)
            | _ \<Rightarrow> None)
      else if a = ''--tun'' then parse_options L H as (opt\<lparr>cl_tapdev := 0\<rparr>)
      else if a = ''--tap'' then parse_options L H as (opt\<lparr>cl_tapdev := 1\<rparr>)
      else if a = ''--bus-name''
      then (case as of
              name # as \<Rightarrow>
                (if \<not> g_dbus_is_name H name then None
                 else parse_options L H as (opt\<lparr>cl_bus_name := name\<rparr>))
            | [] \<Rightarrow> None)
      else Some (opt\<lparr>cl_args := a # as\<rparr>))"

text \<open>
  \<open>argv[k]\<close> after the shift, for \<open>k\<close> from 1: the argument, the \<open>NULL\<close> at \<open>argv[argc]\<close>, or a read
  past the end of the array, which is undefined.
\<close>

definition argv :: "string list \<Rightarrow> nat \<Rightarrow> cstr option" where
  "argv args k =
     (if k \<le> length args then Some (Some (args ! (k - 1)))
      else if k = Suc (length args) then Some None
      else None)"

definition is_restart :: "string list \<Rightarrow> bool option" where
  "is_restart args =
     (if Suc (length args) \<ge> 7
      then (case argv args 6 of
              None \<Rightarrow> None
            | Some a \<Rightarrow> Some (a = Some ''restart''))
      else Some False)"

section \<open>The stages of main\<close>

text \<open>The three dictionary builders and the local variables that later stages read.\<close>

record hstate =
  config :: "(config_key \<times> gvalue) list"
  ip4 :: "(ip_key \<times> gvalue) list"
  ip6 :: "(ip_key \<times> gvalue) list"
  tapdev :: int
  has_ip4_prefix :: bool
  has_ip4_address :: bool
  has_ip6_address :: bool

definition hstate_init :: "int \<Rightarrow> hstate" where
  "hstate_init tap = \<lparr>config = [], ip4 = [], ip6 = [], tapdev = tap, has_ip4_prefix = False,
     has_ip4_address = False, has_ip6_address = False\<rparr>"

definition add_config :: "config_key \<Rightarrow> gvalue \<Rightarrow> hstate \<Rightarrow> hstate" where
  "add_config k v s = s\<lparr>config := config s @ [(k, v)]\<rparr>"

definition add_ip4 :: "ip_key \<Rightarrow> gvalue \<Rightarrow> hstate \<Rightarrow> hstate" where
  "add_ip4 k v s = s\<lparr>ip4 := ip4 s @ [(k, v)]\<rparr>"

definition add_ip6 :: "ip_key \<Rightarrow> gvalue \<Rightarrow> hstate \<Rightarrow> hstate" where
  "add_ip6 k v s = s\<lparr>ip6 := ip6 s @ [(k, v)]\<rparr>"

definition ext_gateway ::
  "('r, 'h) helperlib_scheme \<Rightarrow> environ \<Rightarrow> hstate \<Rightarrow> string + hstate" where
  "ext_gateway H E s =
     (case trusted_remote_to_gvariant H E of
        Some val \<Rightarrow> Inr (add_config EXT_GATEWAY val s)
      | None \<Rightarrow> Inl ''VPN Gateway'')"

definition int_gateway :: "('r, 'h) helperlib_scheme \<Rightarrow> environ \<Rightarrow> hstate \<Rightarrow> hstate" where
  "int_gateway H E s =
     (let tmp = getenv E ''route_vpn_gateway''
      in case addr4_to_gvariant H tmp of
           Some val \<Rightarrow> add_ip4 INT_GATEWAY val s
         | None \<Rightarrow>
             (case addr6_to_gvariant H tmp of
                Some val \<Rightarrow> add_ip6 INT_GATEWAY val s
              | None \<Rightarrow> s))"

definition can_persist :: "hstate \<Rightarrow> hstate" where
  "can_persist s = add_config CAN_PERSIST (VBool True) s"

definition tunnel_device ::
  "('r, 'h) helperlib_scheme \<Rightarrow> environ \<Rightarrow> hstate \<Rightarrow> string + hstate" where
  "tunnel_device H E s =
     (let tmp = getenv E ''dev''
      in case str_to_gvariant H tmp False of
           None \<Rightarrow> Inl ''Tunnel Device''
         | Some val \<Rightarrow>
             (let s = add_config TUNDEV val s
              in Inr (if tapdev s = - 1
                      then s\<lparr>tapdev := (if has_prefix (or_empty tmp) ''tap'' then 1 else 0)\<rparr>
                      else s)))"

text \<open>A variable that openvpn does not set on a restart is taken from its arguments.\<close>

definition env_or_arg :: "environ \<Rightarrow> bool \<Rightarrow> string list \<Rightarrow> string \<Rightarrow> nat \<Rightarrow> cstr option" where
  "env_or_arg E restart args name k =
     (case getenv E name of
        Some t \<Rightarrow> Some (Some t)
      | None \<Rightarrow> if restart then argv args k else Some None)"

text \<open>The two stages get the value their local variable \<open>tmp\<close> has been given by \<open>env_or_arg\<close>.\<close>

definition ip4_address ::
  "('r, 'h) helperlib_scheme \<Rightarrow> cstr \<Rightarrow> hstate \<Rightarrow> string + hstate" where
  "ip4_address H tmp s =
     (if nonempty_str tmp
      then (case addr4_to_gvariant H tmp of
              Some val \<Rightarrow> Inr (add_ip4 ADDRESS val (s\<lparr>has_ip4_address := True\<rparr>))
            | None \<Rightarrow> Inl ''IP4 Address'')
      else Inr s)"

definition ptp_address ::
  "('r, 'h) helperlib_scheme \<Rightarrow> cstr \<Rightarrow> hstate \<Rightarrow> hstate" where
  "ptp_address H tmp s =
     (case addr4_to_gvariant H tmp of
        Some (VUint32 addr) \<Rightarrow>
          (if has_prefix (or_empty tmp) ''255.''
           then add_ip4 PREFIX (VUint32 (nm_utils_ip4_netmask_to_prefix H addr))
                  (s\<lparr>has_ip4_prefix := True\<rparr>)
           else add_ip4 PTP (VUint32 addr) s)
      | _ \<Rightarrow> s)"

definition ip4_netmask :: "('r, 'h) helperlib_scheme \<Rightarrow> environ \<Rightarrow> hstate \<Rightarrow> hstate" where
  "ip4_netmask H E s =
     (case Option.bind (getenv E ''ifconfig_netmask'') (pton4 H) of
        Some addr \<Rightarrow> add_ip4 PREFIX (VUint32 (nm_utils_ip4_netmask_to_prefix H addr)) s
      | None \<Rightarrow>
          if tapdev s = 0
          then (if has_ip4_address s \<and> \<not> has_ip4_prefix s then add_ip4 PREFIX (VUint32 32) s else s)
          else s)"

definition ip4_routes ::
  "'g glib_scheme \<Rightarrow> ('r, 'h) helperlib_scheme \<Rightarrow> environ \<Rightarrow> bool \<Rightarrow> hstate \<Rightarrow> hstate" where
  "ip4_routes L H E restart s =
     (case get_ip4_routes L H E of
        Some val \<Rightarrow> add_ip4 ROUTES val s
      | None \<Rightarrow> if restart then add_ip4 PRESERVE_ROUTES (VBool True) s else s)"

definition ip6_address ::
  "('r, 'h) helperlib_scheme \<Rightarrow> environ \<Rightarrow> hstate \<Rightarrow> string + hstate" where
  "ip6_address H E s =
     (let tmp = getenv E ''ifconfig_ipv6_local''
      in if nonempty_str tmp
         then (case addr6_to_gvariant H tmp of
                 Some val \<Rightarrow> Inr ((add_ip6 ADDRESS val s)\<lparr>has_ip6_address := True\<rparr>)
               | None \<Rightarrow> Inl ''IP6 Address'')
         else Inr s)"

definition ip6_netbits :: "environ \<Rightarrow> hstate \<Rightarrow> hstate" where
  "ip6_netbits E s =
     (let tmp = getenv E ''ifconfig_ipv6_netbits''
      in if nonempty_str tmp
         then (let (netbits, _, errno) = strtol10 (the tmp)
               in if errno \<noteq> ENONE \<or> netbits < 0 \<or> netbits > 128 then s
                  else add_ip6 PREFIX (VUint32 (of_int netbits)) s)
         else s)"

definition ip6_routes ::
  "'g glib_scheme \<Rightarrow> ('r, 'h) helperlib_scheme \<Rightarrow> environ \<Rightarrow> bool \<Rightarrow> hstate \<Rightarrow> hstate" where
  "ip6_routes L H E restart s =
     (case get_ip6_routes L H E (getenv E ''ifconfig_ipv6_remote'') of
        Some val \<Rightarrow> add_ip6 ROUTES val s
      | None \<Rightarrow> if restart then add_ip6 PRESERVE_ROUTES (VBool True) s else s)"

text \<open>The lists the options pushed by the server are collected in.\<close>

record pushed =
  dns4_list :: "gvalue list"
  dns6_list :: "gvalue list"
  nbns_list :: "gvalue list"
  dns_domains :: "string list"
  dns_domain_search :: "string list"

definition after :: "string \<Rightarrow> string \<Rightarrow> string" where
  "after p s = drop (length p) s"

definition foreign_option ::
  "'g glib_scheme \<Rightarrow> ('r, 'h) helperlib_scheme \<Rightarrow> nat \<Rightarrow> string \<Rightarrow> pushed \<Rightarrow> pushed" where
  "foreign_option L H i tmp p =
     (if \<not> has_prefix tmp ''dhcp-option '' then p
      else
        (let tmp = after ''dhcp-option '' tmp
         in if has_prefix tmp ''DNS ''
            then (let (a4, a6) = parse_addr_list L H (Some (dns4_list p), Some (dns6_list p))
                                   (after ''DNS '' tmp)
                  in p\<lparr>dns4_list := the a4, dns6_list := the a6\<rparr>)
            else if has_prefix tmp ''WINS ''
            then (let (a4, _) = parse_addr_list L H (Some (nbns_list p), None) (after ''WINS '' tmp)
                  in p\<lparr>nbns_list := the a4\<rparr>)
            else if has_prefix tmp ''DOMAIN '' \<and> is_domain_valid (Some (after ''DOMAIN '' tmp))
            then p\<lparr>dns_domains := dns_domains p @ [after ''DOMAIN '' tmp]\<rparr>
            else if has_prefix tmp ''DOMAIN-SEARCH '' \<and> is_domain_valid (Some (after ''DOMAIN-SEARCH '' tmp))
            then p\<lparr>dns_domain_search := dns_domain_search p @ [after ''DOMAIN-SEARCH '' tmp]\<rparr>
            else p))"

definition foreign_options ::
  "'g glib_scheme \<Rightarrow> ('r, 'h) helperlib_scheme \<Rightarrow> environ \<Rightarrow> pushed" where
  "foreign_options L H E =
     env_loop E ''foreign_option_'' (foreign_option L H) 1
       \<lparr>dns4_list = [], dns6_list = [], nbns_list = [], dns_domains = [], dns_domain_search = []\<rparr>"

text \<open>\<open>g_variant_new_strv\<close> requires valid UTF-8; with other strings its behaviour is undefined.\<close>

definition g_variant_new_strv :: "('r, 'h) helperlib_scheme \<Rightarrow> string list \<Rightarrow> gvalue option" where
  "g_variant_new_strv H strv = (if list_all (g_utf8_validate H) strv then Some (VStrv strv) else None)"

definition add_when :: "bool \<Rightarrow> (hstate \<Rightarrow> hstate) \<Rightarrow> hstate \<Rightarrow> hstate" where
  "add_when c f s = (if c then f s else s)"

definition add_servers :: "pushed \<Rightarrow> hstate \<Rightarrow> hstate" where
  "add_servers p s =
     (let s = add_when (dns4_list p \<noteq> []) (add_ip4 DNS (VArray (dns4_list p))) s;
          s = add_when (has_ip6_address s \<and> dns6_list p \<noteq> []) (add_ip6 DNS (VArray (dns6_list p))) s
      in add_when (nbns_list p \<noteq> []) (add_ip4 NBNS (VArray (nbns_list p))) s)"

definition add_domains ::
  "('r, 'h) helperlib_scheme \<Rightarrow> string list \<Rightarrow> hstate \<Rightarrow> hstate option" where
  "add_domains H domains s =
     (if domains = [] then Some s
      else (case g_variant_new_strv H domains of
              None \<Rightarrow> None
            | Some val \<Rightarrow>
                (let s = add_ip4 DOMAINS val s
                 in Some (add_when (has_ip6_address s) (add_ip6 DOMAINS val) s))))"

text \<open>The search domains follow the others.\<close>

definition add_pushed :: "('r, 'h) helperlib_scheme \<Rightarrow> pushed \<Rightarrow> hstate \<Rightarrow> hstate option" where
  "add_pushed H p s = add_domains H (dns_domains p @ dns_domain_search p) (add_servers p s)"

definition tunnel_mtu :: "'g glib_scheme \<Rightarrow> environ \<Rightarrow> hstate \<Rightarrow> hstate" where
  "tunnel_mtu L E s =
     (let tmp = getenv E ''tun_mtu''
      in if nonempty_str tmp
         then (let (mtu, errno) = nm_utils_ascii_str_to_int64 L tmp 10 0 G_MAXUINT32 0
               in if errno \<noteq> ENONE then s else add_config MTU (VUint32 (of_int mtu)) s)
         else s)"

text \<open>A dictionary without an address is dropped.\<close>

definition finish_config :: "hstate \<Rightarrow> int \<times> helper_call list" where
  "finish_config s =
     (let (ip4config, s) = (if ip4 s = [] \<or> \<not> has_ip4_address s then (None, s)
                            else (Some (ip4 s), add_config HAS_IP4 (VBool True) s));
          (ip6config, s) = (if ip6 s = [] \<or> \<not> has_ip6_address s then (None, s)
                            else (Some (ip6 s), add_config HAS_IP6 (VBool True) s))
      in if tapdev s = 0 \<and> ip4config = None \<and> ip6config = None
         then helper_failed ''IPv4 or IPv6 configuration''
         else (0, send_config (config s) ip4config ip6config))"

text \<open>The exit status and the calls made, after the options and the proxy.\<close>

definition configure ::
  "'g glib_scheme \<Rightarrow> ('r, 'h) helperlib_scheme \<Rightarrow> environ \<Rightarrow> bool \<Rightarrow> cmdline
     \<Rightarrow> (int \<times> helper_call list) option" where
  "configure L H E restart opt =
     (let args = cl_args opt
      in case ext_gateway H E (hstate_init (cl_tapdev opt)) of
           Inl reason \<Rightarrow> Some (helper_failed reason)
         | Inr s \<Rightarrow>
        (case tunnel_device H E (can_persist (int_gateway H E s)) of
           Inl reason \<Rightarrow> Some (helper_failed reason)
         | Inr s \<Rightarrow>
        (case env_or_arg E restart args ''ifconfig_local'' 4 of
           None \<Rightarrow> None
         | Some local \<Rightarrow>
        (case ip4_address H local s of
           Inl reason \<Rightarrow> Some (helper_failed reason)
         | Inr s \<Rightarrow>
        (case env_or_arg E restart args ''ifconfig_remote'' 5 of
           None \<Rightarrow> None
         | Some remote \<Rightarrow>
        (case ip6_address H E (ip4_routes L H E restart (ip4_netmask H E (ptp_address H remote s))) of
           Inl reason \<Rightarrow> Some (helper_failed reason)
         | Inr s \<Rightarrow>
        (case add_pushed H (foreign_options L H E) (ip6_routes L H E restart (ip6_netbits E s)) of
           None \<Rightarrow> None
         | Some s \<Rightarrow> Some (finish_config (tunnel_mtu L E s)))))))))"

definition helper_main ::
  "'g glib_scheme \<Rightarrow> ('r, 'h) helperlib_scheme \<Rightarrow> environ \<Rightarrow> string list
     \<Rightarrow> (int \<times> helper_call list) option" where
  "helper_main L H E args =
     (case parse_options L H args cmdline_init of
        None \<Rightarrow> Some (1, [])
      | Some opt \<Rightarrow>
     (case is_restart (cl_args opt) of
        None \<Rightarrow> None
      | Some restart \<Rightarrow>
          if \<not> g_dbus_proxy_new H (cl_bus_name opt) then Some (1, [])
          else configure L H E restart opt))"

section \<open>Facts\<close>

lemma env_loop_fold:
  "\<exists>n. i \<le> n \<and> \<not> nonempty_str (var E name n) \<and> list_all (\<lambda>j. nonempty_str (var E name j)) [i..<n]
     \<and> env_loop E name body i s = fold (\<lambda>j. body j (the (var E name j))) [i..<n] s"
proof (induction E name body i s rule: env_loop.induct)
  case (1 E name body i s)
  show ?case
  proof (cases "nonempty_str (var E name i)")
    case True
    then obtain v where v: "getenv E (name @ dec_of_nat i) = Some v" "v \<noteq> []"
      by (auto simp: var_def nonempty_str_def split: option.splits)
    from 1 [OF v] obtain n where n: "Suc i \<le> n" "\<not> nonempty_str (var E name n)"
        "list_all (\<lambda>j. nonempty_str (var E name j)) [Suc i..<n]"
        "env_loop E name body (Suc i) (body i v s)
           = fold (\<lambda>j. body j (the (var E name j))) [Suc i..<n] (body i v s)" by blast
    have "env_loop E name body i s = env_loop E name body (Suc i) (body i v s)"
      using v by (simp add: env_loop.simps [of E name body i s])
    moreover have "[i..<n] = i # [Suc i..<n]" using n(1) by (simp add: upt_conv_Cons)
    ultimately show ?thesis using n v True
      by (intro exI [of _ n]) (simp add: var_def)
  next
    case False
    then have "env_loop E name body i s = s"
      by (auto simp: env_loop.simps [of E name body i s] var_def split: option.splits)
    with False show ?thesis by (intro exI [of _ i]) simp
  qed
qed

text \<open>The loop looks at no more variables than there are.\<close>

lemma present_bound:
  assumes "list_all (\<lambda>j. nonempty_str (var E name j)) [i..<n]" "i \<le> n"
  shows "n \<le> i + length E"
proof -
  have "(\<lambda>j. name @ dec_of_nat j) ` set [i..<n] \<subseteq> fst ` set E"
    using assms(1)
    by (force simp: list_all_iff var_def getenv_def nonempty_str_def
        split: option.splits dest: map_of_SomeD)
  moreover have "inj_on (\<lambda>j. name @ dec_of_nat j) (set [i..<n])" by (auto simp: inj_on_def)
  ultimately have "card (set [i..<n]) \<le> card (fst ` set E)"
    by (meson List.finite_set card_inj_on_le finite_imageI)
  also have "\<dots> \<le> length E" by (meson List.finite_set card_image_le card_length le_trans)
  finally show ?thesis using assms(2) by simp
qed

lemma fold_add_route:
  "fold (\<lambda>j. add_route (f j)) js acc = acc @ List.map_filter f js"
  by (induction js arbitrary: acc) (auto simp: add_route_def map_filter_simps split: option.splits)

abbreviation ip4_keys :: "hstate \<Rightarrow> ip_key set" where "ip4_keys s \<equiv> fst ` set (ip4 s)"
abbreviation ip6_keys :: "hstate \<Rightarrow> ip_key set" where "ip6_keys s \<equiv> fst ` set (ip6 s)"
abbreviation config_keys :: "hstate \<Rightarrow> config_key list" where "config_keys s \<equiv> map fst (config s)"

text \<open>What every stage keeps: the flags tell which entries there are.\<close>

definition hstate_inv :: "hstate \<Rightarrow> bool" where
  "hstate_inv s \<longleftrightarrow> (has_ip4_address s \<longleftrightarrow> ADDRESS \<in> ip4_keys s)
     \<and> (has_ip6_address s \<longleftrightarrow> ADDRESS \<in> ip6_keys s)
     \<and> (has_ip4_prefix s \<longrightarrow> PREFIX \<in> ip4_keys s)"

lemmas add_defs = add_config_def add_ip4_def add_ip6_def

text \<open>What a stage that adds no address and no entry of the main dictionary keeps.\<close>

definition keeps :: "hstate \<Rightarrow> hstate \<Rightarrow> bool" where
  "keeps s s' \<longleftrightarrow> (hstate_inv s \<longrightarrow> hstate_inv s') \<and> config s' = config s \<and> tapdev s' = tapdev s
     \<and> has_ip4_address s' = has_ip4_address s \<and> ip4_keys s \<subseteq> ip4_keys s'"

lemma keepsD:
  assumes "keeps s s'"
  shows "hstate_inv s \<Longrightarrow> hstate_inv s'" "config s' = config s" "tapdev s' = tapdev s"
    "has_ip4_address s' = has_ip4_address s" "k \<in> ip4_keys s \<Longrightarrow> k \<in> ip4_keys s'"
  using assms unfolding keeps_def by blast+

lemma keeps_refl [intro, simp]: "keeps s s"
  by (simp add: keeps_def)

lemma keeps_trans [trans]: "keeps s t \<Longrightarrow> keeps t u \<Longrightarrow> keeps s u"
  by (auto simp: keeps_def)

lemma keeps_add [intro]:
  "k \<noteq> ADDRESS \<Longrightarrow> keeps s (add_ip4 k v s)" "k \<noteq> ADDRESS \<Longrightarrow> keeps s (add_ip6 k v s)"
  by (auto simp: keeps_def hstate_inv_def add_defs)

lemma keeps_when [intro]: "(\<And>s. keeps s (f s)) \<Longrightarrow> keeps s (add_when c f s)"
  by (simp add: add_when_def)

lemma int_gateway_keeps: "keeps s (int_gateway H E s)"
  by (auto simp: int_gateway_def Let_def split: option.split)

lemma ptp_address_keeps: "keeps s (ptp_address H tmp s)"
proof -
  have "keeps s (add_ip4 PREFIX v (s\<lparr>has_ip4_prefix := True\<rparr>))" for v
    by (auto simp: keeps_def hstate_inv_def add_defs)
  then show ?thesis
    by (auto simp: ptp_address_def Let_def split: option.split gvalue.split)
qed

lemma ip4_netmask_keeps: "keeps s (ip4_netmask H E s)"
  by (auto simp: ip4_netmask_def split: option.split)

lemma ip4_netmask_prefix:
  "hstate_inv s \<Longrightarrow> tapdev s = 0 \<Longrightarrow> has_ip4_address s \<Longrightarrow> PREFIX \<in> ip4_keys (ip4_netmask H E s)"
  by (auto simp: ip4_netmask_def hstate_inv_def add_defs split: option.splits)

lemma ip4_routes_keeps: "keeps s (ip4_routes L H E restart s)"
  by (auto simp: ip4_routes_def split: option.split)

lemma ip6_address_keeps: "ip6_address H E s = Inr s' \<Longrightarrow> keeps s s'"
  by (auto simp: ip6_address_def keeps_def hstate_inv_def add_defs Let_def split: option.splits if_splits)

lemma ip6_netbits_keeps: "keeps s (ip6_netbits E s)"
  by (auto simp: ip6_netbits_def Let_def split: prod.split)

lemma ip6_routes_keeps: "keeps s (ip6_routes L H E restart s)"
  by (auto simp: ip6_routes_def split: option.split)

lemma add_servers_keeps: "keeps s (add_servers p s)"
proof -
  let ?s1 = "add_when (dns4_list p \<noteq> []) (add_ip4 DNS (VArray (dns4_list p))) s"
  let ?s2 = "add_when (has_ip6_address ?s1 \<and> dns6_list p \<noteq> []) (add_ip6 DNS (VArray (dns6_list p))) ?s1"
  have "keeps s ?s1" by (intro keeps_when keeps_add) simp
  also have "keeps ?s1 ?s2" by (intro keeps_when keeps_add) simp
  also have "keeps ?s2 (add_servers p s)"
    unfolding add_servers_def Let_def by (intro keeps_when keeps_add) simp
  finally show ?thesis .
qed

lemma add_domains_keeps:
  assumes "add_domains H ds s = Some s'"
  shows "keeps s s'"
proof -
  have "keeps s (add_when c (add_ip6 DOMAINS v) (add_ip4 DOMAINS v s))" for c v
    by (rule keeps_trans [of _ "add_ip4 DOMAINS v s"]) auto
  with assms show ?thesis
    by (auto simp: add_domains_def Let_def split: if_splits option.splits)
qed

lemma add_pushed_keeps: "add_pushed H p s = Some s' \<Longrightarrow> keeps s s'"
  unfolding add_pushed_def by (blast intro: keeps_trans add_servers_keeps add_domains_keeps)

text \<open>The other stages: the gateways, the device, the address, the MTU.\<close>

lemma hstate_init_inv: "hstate_inv (hstate_init t)" "config_keys (hstate_init t) = []"
    "tapdev (hstate_init t) = t"
  by (simp_all add: hstate_inv_def hstate_init_def)

lemma add_config_simps [simp]:
  "hstate_inv (add_config k v s) = hstate_inv s" "config_keys (add_config k v s) = config_keys s @ [k]"
  "tapdev (add_config k v s) = tapdev s" "ip4 (add_config k v s) = ip4 s" "ip6 (add_config k v s) = ip6 s"
  "has_ip4_address (add_config k v s) = has_ip4_address s"
  "has_ip6_address (add_config k v s) = has_ip6_address s"
  by (simp_all add: hstate_inv_def add_defs)

lemma ext_gateway_stage: "ext_gateway H E s = Inr s' \<Longrightarrow> \<exists>v. s' = add_config EXT_GATEWAY v s"
  by (auto simp: ext_gateway_def split: option.splits)

lemma tunnel_device_stage:
  "tunnel_device H E s = Inr s' \<Longrightarrow>
     (hstate_inv s \<longrightarrow> hstate_inv s') \<and> config_keys s' = config_keys s @ [TUNDEV]
     \<and> (tapdev s \<noteq> - 1 \<longrightarrow> tapdev s' = tapdev s)"
  by (cases "tapdev s = - 1")
     (auto simp: tunnel_device_def hstate_inv_def add_defs Let_def split: option.splits)

lemma ip4_address_stage:
  "ip4_address H tmp s = Inr s' \<Longrightarrow>
     (hstate_inv s \<longrightarrow> hstate_inv s') \<and> config_keys s' = config_keys s \<and> tapdev s' = tapdev s"
  by (auto simp: ip4_address_def hstate_inv_def add_defs Let_def split: option.splits if_splits)

lemma tunnel_mtu_stage:
  "(\<exists>v. tunnel_mtu L E s = add_config MTU v s) \<or> tunnel_mtu L E s = s"
  by (auto simp: tunnel_mtu_def Let_def split: prod.splits)

text \<open>A configuration that is sent comes from a state that satisfies the invariant.\<close>

definition complete :: "int \<Rightarrow> hstate \<Rightarrow> bool" where
  "complete tap s \<longleftrightarrow> hstate_inv s
     \<and> config_keys s \<in> (\<lambda>m. [EXT_GATEWAY, CAN_PERSIST, TUNDEV] @ m) ` {[], [MTU]}
     \<and> (tap \<noteq> - 1 \<longrightarrow> tapdev s = tap)
     \<and> (tapdev s = 0 \<and> has_ip4_address s \<longrightarrow> PREFIX \<in> ip4_keys s)"

lemma first_stages:
  assumes "ext_gateway H E (hstate_init tap) = Inr s1"
    "tunnel_device H E (can_persist (int_gateway H E s1)) = Inr s2" "ip4_address H tmp s2 = Inr s3"
  shows "hstate_inv s3" "config_keys s3 = [EXT_GATEWAY, CAN_PERSIST, TUNDEV]"
    "tap \<noteq> - 1 \<longrightarrow> tapdev s3 = tap"
  using ext_gateway_stage [OF assms(1)] tunnel_device_stage [OF assms(2)] ip4_address_stage [OF assms(3)]
    keepsD [OF int_gateway_keeps [of s1 H E]]
  by (auto simp: can_persist_def hstate_init_inv)

lemma last_stages:
  assumes "hstate_inv s" "config_keys s = [EXT_GATEWAY, CAN_PERSIST, TUNDEV]"
      "tap \<noteq> - 1 \<longrightarrow> tapdev s = tap"
    and "ip6_address H E (ip4_routes L H E restart (ip4_netmask H E (ptp_address H tmp s))) = Inr s1"
    and "add_pushed H p (ip6_routes L H E restart (ip6_netbits E s1)) = Some s2"
  shows "complete tap (tunnel_mtu L E s2)"
proof -
  let ?p = "ptp_address H tmp s"
  let ?n = "ip4_netmask H E ?p"
  have "keeps ?n (ip4_routes L H E restart ?n)" by (rule ip4_routes_keeps)
  also have "keeps \<dots> s1" using assms(4) by (rule ip6_address_keeps)
  also have "keeps s1 (ip6_netbits E s1)" by (rule ip6_netbits_keeps)
  also have "keeps \<dots> (ip6_routes L H E restart \<dots>)" by (rule ip6_routes_keeps)
  also have "keeps \<dots> s2" using assms(5) by (rule add_pushed_keeps)
  finally have k: "keeps ?n s2" .
  note p = keepsD [OF ptp_address_keeps [of s H tmp]]
  note n = keepsD [OF ip4_netmask_keeps [of ?p H E]]
  have "tapdev s2 = 0 \<and> has_ip4_address s2 \<longrightarrow> PREFIX \<in> ip4_keys s2"
    using keepsD [OF k] n p assms(1) ip4_netmask_prefix [of ?p H E] by auto
  moreover have "hstate_inv s2" "config_keys s2 = config_keys s" "tapdev s2 = tapdev s"
    using keepsD [OF k] n p assms(1) by simp_all
  ultimately show ?thesis
    using tunnel_mtu_stage [of L E s2] assms(2,3) by (auto simp: complete_def)
qed

lemma configure_cases:
  assumes "configure L H E restart opt = Some r"
  obtains (failed) reason where "r = helper_failed reason"
  | (sent) s where "r = finish_config s" "complete (cl_tapdev opt) s"
  using assms unfolding configure_def Let_def
  by (auto split: sum.splits option.splits dest: last_stages [OF first_stages])


text \<open>What is announced is sent, once, and each configuration of an address family has an address.\<close>

definition sent_ok ::
  "(config_key \<times> gvalue) list \<Rightarrow> (ip_key \<times> gvalue) list option \<Rightarrow> (ip_key \<times> gvalue) list option
     \<Rightarrow> bool" where
  "sent_ok c i4 i6 \<longleftrightarrow>
     map fst c \<in> (\<lambda>m. [EXT_GATEWAY, CAN_PERSIST, TUNDEV] @ m
         @ (if i4 = None then [] else [HAS_IP4]) @ (if i6 = None then [] else [HAS_IP6])) ` {[], [MTU]}
     \<and> pred_option (\<lambda>d. ADDRESS \<in> fst ` set d) i4
     \<and> pred_option (\<lambda>d. ADDRESS \<in> fst ` set d) i6"

lemma finish_complete:
  assumes "complete tap s"
  obtains "finish_config s = helper_failed ''IPv4 or IPv6 configuration''" "tapdev s = 0"
  | c i4 i6 where "finish_config s = (0, send_config c i4 i6)" "sent_ok c i4 i6"
      "tapdev s = 0 \<longrightarrow> pred_option (\<lambda>d. PREFIX \<in> fst ` set d) i4"
proof -
  have inv: "has_ip4_address s \<longleftrightarrow> ADDRESS \<in> ip4_keys s" "has_ip6_address s \<longleftrightarrow> ADDRESS \<in> ip6_keys s"
      "tapdev s = 0 \<and> has_ip4_address s \<longrightarrow> PREFIX \<in> ip4_keys s"
    using assms(1) by (simp_all add: complete_def hstate_inv_def)
  obtain m where m: "config_keys s = [EXT_GATEWAY, CAN_PERSIST, TUNDEV] @ m" "m \<in> {[], [MTU]}"
    using assms(1) unfolding complete_def by blast
  define i4 where "i4 = (if ip4 s = [] \<or> \<not> has_ip4_address s then None else Some (ip4 s))"
  define i6 where "i6 = (if ip6 s = [] \<or> \<not> has_ip6_address s then None else Some (ip6 s))"
  define s4 where "s4 = (if i4 = None then s else add_config HAS_IP4 (VBool True) s)"
  define s6 where "s6 = (if i6 = None then s4 else add_config HAS_IP6 (VBool True) s4)"
  have fin: "finish_config s = (if tapdev s = 0 \<and> i4 = None \<and> i6 = None
      then helper_failed ''IPv4 or IPv6 configuration'' else (0, send_config (config s6) i4 i6))"
    by (simp add: finish_config_def i4_def i6_def s4_def s6_def)
  have keys: "map fst (config s6) = [EXT_GATEWAY, CAN_PERSIST, TUNDEV] @ m
      @ (if i4 = None then [] else [HAS_IP4]) @ (if i6 = None then [] else [HAS_IP6])"
    using m(1) by (simp add: s4_def s6_def)
  have ok: "sent_ok (config s6) i4 i6"
    unfolding sent_ok_def
  proof (intro conjI image_eqI [of _ _ m])
    show "pred_option (\<lambda>d. ADDRESS \<in> fst ` set d) i4" "pred_option (\<lambda>d. ADDRESS \<in> fst ` set d) i6"
      using inv by (simp_all add: i4_def i6_def)
  qed (rule keys, rule m(2))
  have pre: "tapdev s = 0 \<longrightarrow> pred_option (\<lambda>d. PREFIX \<in> fst ` set d) i4"
    using inv by (simp add: i4_def)
  show thesis
  proof (cases "tapdev s = 0 \<and> i4 = None \<and> i6 = None")
    case True
    with fin show thesis by (intro that(1)) simp_all
  next
    case False
    with fin ok pre show thesis by (intro that(2)) simp_all
  qed
qed

lemma helper_main_cases:
  assumes "helper_main L H E args = Some r"
  obtains (silent) "r = (1, [])"
  | (failed) reason where "r = helper_failed reason"
  | (sent) opt s where "parse_options L H args cmdline_init = Some opt" "r = finish_config s"
      "complete (cl_tapdev opt) s"
  using assms unfolding helper_main_def
  by (auto split: option.splits if_splits elim: configure_cases)

text \<open>The domains collected come from options of the server.\<close>

definition pushed_domain :: "environ \<Rightarrow> string \<Rightarrow> nat \<Rightarrow> bool" where
  "pushed_domain E d i \<longleftrightarrow> var E ''foreign_option_'' i \<in>
     {Some (''dhcp-option DOMAIN '' @ d), Some (''dhcp-option DOMAIN-SEARCH '' @ d)}"

lemma has_prefix_after: "has_prefix s p \<Longrightarrow> s = p @ after p s"
  unfolding has_prefix_def after_def by (metis append_take_drop_id)

lemma foreign_option_domains:
  assumes "d \<in> set (dns_domains (foreign_option L H i tmp p) @ dns_domain_search (foreign_option L H i tmp p))"
  shows "d \<in> set (dns_domains p @ dns_domain_search p)
    \<or> tmp \<in> {''dhcp-option DOMAIN '' @ d, ''dhcp-option DOMAIN-SEARCH '' @ d}"
proof (cases "has_prefix tmp ''dhcp-option ''")
  case True
  let ?t = "after ''dhcp-option '' tmp"
  have tmp: "tmp = ''dhcp-option '' @ ?t" using True by (rule has_prefix_after)
  have "?t = ''DOMAIN '' @ d \<or> ?t = ''DOMAIN-SEARCH '' @ d"
    if "d \<notin> set (dns_domains p @ dns_domain_search p)"
    using assms that True has_prefix_after [of ?t "''DOMAIN ''"] has_prefix_after [of ?t "''DOMAIN-SEARCH ''"]
    by (auto simp: foreign_option_def Let_def split: if_splits prod.splits)
  then show ?thesis using tmp by fastforce
next
  case False
  with assms show ?thesis by (simp add: foreign_option_def)
qed

lemma foreign_options_domains:
  assumes "d \<in> set (dns_domains (foreign_options L H E) @ dns_domain_search (foreign_options L H E))"
  shows "\<exists>i. pushed_domain E d i"
proof -
  let ?f = "\<lambda>j. foreign_option L H j (the (var E ''foreign_option_'' j))"
  let ?ds = "\<lambda>p. set (dns_domains p @ dns_domain_search p)"
  have step: "d \<in> ?ds (fold ?f js p) \<Longrightarrow> d \<in> ?ds p \<or> (\<exists>i \<in> set js. the (var E ''foreign_option_'' i)
      \<in> {''dhcp-option DOMAIN '' @ d, ''dhcp-option DOMAIN-SEARCH '' @ d})" for js p
  proof (induction js arbitrary: p)
    case (Cons j js)
    from Cons.IH [of "?f j p"] Cons.prems show ?case
      using foreign_option_domains [of d L H j "the (var E ''foreign_option_'' j)" p] by auto
  qed simp
  obtain n where n: "list_all (\<lambda>j. nonempty_str (var E ''foreign_option_'' j)) [1..<n]"
      "foreign_options L H E = fold ?f [1..<n]
        \<lparr>dns4_list = [], dns6_list = [], nbns_list = [], dns_domains = [], dns_domain_search = []\<rparr>"
    using env_loop_fold [of 1 E "''foreign_option_''" "foreign_option L H"
        "\<lparr>dns4_list = [], dns6_list = [], nbns_list = [], dns_domains = [], dns_domain_search = []\<rparr>"]
    unfolding foreign_options_def by blast
  from step [OF assms [unfolded n(2)]] obtain i where "i \<in> set [1..<n]"
      "the (var E ''foreign_option_'' i)
        \<in> {''dhcp-option DOMAIN '' @ d, ''dhcp-option DOMAIN-SEARCH '' @ d}" by auto
  moreover from this n(1) have "var E ''foreign_option_'' i \<noteq> None"
    by (auto simp: list_all_iff nonempty_str_def split: option.splits)
  ultimately show ?thesis unfolding pushed_domain_def by (intro exI [of _ i]) auto
qed

section \<open>A concrete run\<close>

definition demo_helper :: "nat helperlib" where
  "demo_helper = \<lparr>inet_pton = (\<lambda>f s. case f of
        AF_INET \<Rightarrow> map_option Addr4 (map_of
          [(''10.8.0.2'', 0x0200080A), (''192.0.2.1'', 0x010200C0), (''10.0.0.0'', 0x0000000A),
           (''255.0.0.0'', 0x000000FF)] s)
      | _ \<Rightarrow> None),
    inet_ntop = (\<lambda>_ _. None),
    getaddrinfo4 = (\<lambda>_. None),
    g_utf8_validate = list_all (\<lambda>c. of_char c < (128 :: nat)),
    g_convert = (\<lambda>_ _ _. None),
    g_dbus_is_name = (\<lambda>s. s \<noteq> []),
    g_dbus_proxy_new = (\<lambda>_. True),
    nm_utils_ip4_netmask_to_prefix = (\<lambda>_. 8),
    nm_ip_route_new = (\<lambda>_ _ _ _ _. None),
    nm_utils_ip6_routes_to_variant = (\<lambda>rs. VLib (length rs))\<rparr>"

definition demo_environ :: environ where
  "demo_environ = [(''trusted_ip'', ''192.0.2.1''), (''dev'', ''tun0''), (''ifconfig_local'', ''10.8.0.2''),
     (''route_network_1'', ''bad''), (''route_network_2'', ''10.0.0.0''), (''route_netmask_2'', ''255.0.0.0'')]"

lemma demo_options:
  "parse_options ref_lib demo_helper [''--tun'', ''--''] cmdline_init
     = Some (cmdline_init\<lparr>cl_tapdev := 0\<rparr>)"
  by (simp add: cmdline_init_def)

lemma dec_one_to_three: "dec_of_nat 1 = ''1''" "dec_of_nat (Suc 0) = ''1''" "dec_of_nat 2 = ''2''" "dec_of_nat 3 = ''3''"
    "dec_of_nat (Suc (Suc 0)) = ''2''" "dec_of_nat (Suc (Suc (Suc 0))) = ''3''"
  by code_simp+

definition demo_ip4 :: "(ip_key \<times> gvalue) list" where
  "demo_ip4 = [(ADDRESS, VUint32 0x0200080A), (PREFIX, VUint32 32),
     (ROUTES, VArray [VArray [VUint32 0x0000000A, VUint32 8, VUint32 0, VUint32 0]])]"

definition demo_calls :: "helper_call list" where
  "demo_calls = [SetConfig [(EXT_GATEWAY, VUint32 0x010200C0), (CAN_PERSIST, VBool True),
       (TUNDEV, VString ''tun0''), (HAS_IP4, VBool True)], SetIp4Config demo_ip4]"

lemma demo_run:
  "helper_main ref_lib demo_helper demo_environ [''--tun'', ''--''] = Some (0, demo_calls)"
  by code_simp

definition latin1_environ :: environ where
  "latin1_environ = demo_environ @ [(''foreign_option_1'', ''dhcp-option DOMAIN '' @ [CHR 0xE9])]"

lemma latin1_run: "helper_main ref_lib demo_helper latin1_environ [''--tun'', ''--''] = None"
  by code_simp

section \<open>Properties\<close>

text \<open>
  C29. The helper ends in one of two ways. With exit status 1 it has sent nothing, or one failure
  and nothing else. With exit status 0 it has sent one main configuration, first, with the
  gateway, the persistence flag and the device, at most one MTU and no entry twice; it
  announces an IPv4 (IPv6) configuration exactly when it then sends one, and each of those has
  an address.
\<close>

theorem helper_outcome:
  assumes "helper_main L H E args = Some (st, calls)"
  shows "st = 1 \<and> (calls = [] \<or> (\<exists>reason. calls = [SetFailure reason]))
    \<or> st = 0 \<and> (\<exists>c i4 i6. calls = send_config c i4 i6 \<and> sent_ok c i4 i6)"
  using assms
proof (cases rule: helper_main_cases)
  case (sent opt s)
  from sent(3) show ?thesis
    by (cases rule: finish_complete) (use sent(2) in \<open>auto simp: helper_failed_def\<close>)
qed (auto simp: helper_failed_def)

theorem helper_outcome_witness:
  "\<exists>c i4 i6. demo_calls = send_config c i4 i6 \<and> sent_ok c i4 i6"
  using helper_outcome [OF demo_run] by simp

text \<open>
  Started with \<open>--tun\<close>, as the daemon does, the helper never sends an IPv4 configuration
  without a prefix length.
\<close>

theorem tun_has_prefix:
  assumes "helper_main L H E args = Some (0, calls)" "parse_options L H args cmdline_init = Some opt"
    and "cl_tapdev opt = 0" "SetIp4Config d \<in> set calls"
  shows "PREFIX \<in> fst ` set d"
  using assms(1)
proof (cases rule: helper_main_cases)
  case (sent opt' s)
  have tap: "tapdev s = 0" using sent(1,3) assms(2,3) by (auto simp: complete_def)
  from sent(3) show ?thesis
  proof (cases rule: finish_complete)
    case (2 c i4 i6)
    then have "calls = send_config c i4 i6" using sent(2) by simp
    with assms(4) have "i4 = Some d" by (auto simp: send_config_def split: option.splits)
    with 2(3) tap show ?thesis by simp
  qed (use sent(2) in \<open>simp add: helper_failed_def\<close>)
qed (simp_all add: helper_failed_def)


theorem tun_has_prefix_witness: "PREFIX \<in> fst ` set demo_ip4"
  by (rule tun_has_prefix [OF demo_run demo_options]) (simp_all add: demo_calls_def)

text \<open>
  C31. The IPv4 routes are those of the variables \<open>route_network_1\<close>, \<open>route_network_2\<close>, \<open>...\<close> up to
  the first that is missing or empty, in this order and without those a field of which is not
  valid; there is no entry when none remains. The loop ends after at most as many rounds as
  there are variables.
\<close>

theorem ip4_routes_exact:
  "\<exists>n. 1 \<le> n \<and> n \<le> Suc (length E) \<and> \<not> nonempty_str (var E ''route_network_'' n)
     \<and> list_all (\<lambda>j. nonempty_str (var E ''route_network_'' j)) [1..<n]
     \<and> get_ip4_routes L H E =
         (case List.map_filter (\<lambda>j. ip4_route L H E j (the (var E ''route_network_'' j))) [1..<n] of
            [] \<Rightarrow> None | r # rs \<Rightarrow> Some (VArray (r # rs)))"
proof -
  let ?name = "''route_network_''"
  obtain n where n: "1 \<le> n" "\<not> nonempty_str (var E ?name n)"
      "list_all (\<lambda>j. nonempty_str (var E ?name j)) [1..<n]"
      "env_loop E ?name (\<lambda>i tmp. add_route (ip4_route L H E i tmp)) 1 []
         = fold (\<lambda>j. add_route (ip4_route L H E j (the (var E ?name j)))) [1..<n] []"
    using env_loop_fold [of 1 E ?name "\<lambda>i tmp. add_route (ip4_route L H E i tmp)" "[]"] by blast
  have "n \<le> Suc (length E)" using present_bound [OF n(3,1)] by simp
  with n show ?thesis
    by (intro exI [of _ n]) (simp add: get_ip4_routes_def fold_add_route Let_def split: list.split)
qed

text \<open>No argument is read past the end of \<open>argv\<close>: the check of \<open>argc\<close> guards all three reads.\<close>

lemma is_restart_defined: "\<exists>restart. is_restart args = Some restart \<and> (restart \<longrightarrow> 6 \<le> length args)"
  by (cases "6 \<le> length args") (auto simp: is_restart_def argv_def)

lemma env_or_arg_defined:
  "(restart \<longrightarrow> 6 \<le> length args) \<Longrightarrow> k \<le> 6 \<Longrightarrow> \<exists>t. env_or_arg E restart args name k = Some t"
  by (auto simp: env_or_arg_def argv_def split: option.split)

text \<open>
  Whatever arguments openvpn adds, the helper reads none that is not there; it leaves the behaviour
  that is defined in the model only through a domain pushed by the server that is not valid UTF-8,
  which it passes on to GLib unchecked.
\<close>

theorem helper_undefined_only_domain:
  assumes "helper_main L H E args = None"
  shows "\<exists>d i. pushed_domain E d i \<and> \<not> g_utf8_validate H d"
proof -
  let ?p = "foreign_options L H E"
  obtain opt where opt: "parse_options L H args cmdline_init = Some opt"
    using assms by (auto simp: helper_main_def split: option.splits)
  obtain restart where r: "is_restart (cl_args opt) = Some restart" "restart \<longrightarrow> 6 \<le> length (cl_args opt)"
    using is_restart_defined by blast
  obtain t4 t5 where t: "env_or_arg E restart (cl_args opt) ''ifconfig_local'' 4 = Some t4"
      "env_or_arg E restart (cl_args opt) ''ifconfig_remote'' 5 = Some t5"
    using env_or_arg_defined [OF r(2)] by fastforce
  have "configure L H E restart opt = None"
    using assms by (simp add: helper_main_def opt r(1) split: if_splits)
  then obtain s where "add_domains H (dns_domains ?p @ dns_domain_search ?p) s = None"
    by (auto simp: configure_def add_pushed_def t Let_def split: option.splits sum.splits)
  then obtain d where "d \<in> set (dns_domains ?p @ dns_domain_search ?p)" "\<not> g_utf8_validate H d"
    by (auto simp: add_domains_def g_variant_new_strv_def list_all_iff Let_def split: if_splits option.splits)
  with foreign_options_domains show ?thesis by blast
qed

theorem helper_undefined_only_domain_witness:
  "helper_main ref_lib demo_helper latin1_environ [''--tun'', ''--''] = None
   \<and> (\<exists>d i. pushed_domain latin1_environ d i \<and> \<not> g_utf8_validate demo_helper d)"
  using helper_undefined_only_domain [OF latin1_run] latin1_run by simp

end
