(* ===== verification/Airvpn_Helper_Types.thy ===== *)
theory Airvpn_Helper_Types
  imports Airvpn_Helper
begin

text \<open>
  The types of the values \<open>src/nm-airvpn-service-openvpn-helper.c\<close> sends. A dictionary of D-Bus is
  a list of variants, so no compiler checks that an entry has the type its reader expects; here
  the types are those of the property names of libnm, and a stage of \<open>main\<close> is typed when it adds
  only entries of the right type and range.
\<close>

section \<open>Types of variants\<close>

text \<open>\<open>Ty_in6\<close> is the byte array of an IPv6 address, \<open>Ty_lib\<close> what libnm builds from IPv6 routes.\<close>

datatype gtype = Ty_b | Ty_u | Ty_s | Ty_as | Ty_in6 | Ty_lib | Ty_array gtype

fun has_type :: "gvalue \<Rightarrow> gtype \<Rightarrow> bool" where
  "has_type (VBool _) Ty_b \<longleftrightarrow> True"
| "has_type (VUint32 _) Ty_u \<longleftrightarrow> True"
| "has_type (VString _) Ty_s \<longleftrightarrow> True"
| "has_type (VStrv _) Ty_as \<longleftrightarrow> True"
| "has_type (VBytes bs) Ty_in6 \<longleftrightarrow> length bs = 16"
| "has_type (VLib _) Ty_lib \<longleftrightarrow> True"
| "has_type (VArray vs) (Ty_array t) \<longleftrightarrow> list_all (\<lambda>v. has_type v t) vs"
| "has_type _ _ \<longleftrightarrow> False"

text \<open>The gateway of the tunnel is an address of either family.\<close>

fun config_types :: "config_key \<Rightarrow> gtype list" where
  "config_types EXT_GATEWAY = [Ty_u, Ty_in6]"
| "config_types CAN_PERSIST = [Ty_b]"
| "config_types TUNDEV = [Ty_s]"
| "config_types MTU = [Ty_u]"
| "config_types HAS_IP4 = [Ty_b]"
| "config_types HAS_IP6 = [Ty_b]"

fun ip4_type :: "ip_key \<Rightarrow> gtype" where
  "ip4_type INT_GATEWAY = Ty_u"
| "ip4_type ADDRESS = Ty_u"
| "ip4_type PTP = Ty_u"
| "ip4_type PREFIX = Ty_u"
| "ip4_type ROUTES = Ty_array (Ty_array Ty_u)"
| "ip4_type PRESERVE_ROUTES = Ty_b"
| "ip4_type DNS = Ty_array Ty_u"
| "ip4_type NBNS = Ty_array Ty_u"
| "ip4_type DOMAINS = Ty_as"

text \<open>There is no remote address and no name server of NetBIOS for IPv6.\<close>

fun ip6_type :: "ip_key \<Rightarrow> gtype option" where
  "ip6_type INT_GATEWAY = Some Ty_in6"
| "ip6_type ADDRESS = Some Ty_in6"
| "ip6_type PREFIX = Some Ty_u"
| "ip6_type ROUTES = Some Ty_lib"
| "ip6_type PRESERVE_ROUTES = Some Ty_b"
| "ip6_type DNS = Some (Ty_array Ty_in6)"
| "ip6_type DOMAINS = Some Ty_as"
| "ip6_type _ = None"

fun prefix_upto :: "nat \<Rightarrow> ip_key \<times> gvalue \<Rightarrow> bool" where
  "prefix_upto m (PREFIX, VUint32 p) \<longleftrightarrow> unat p \<le> m"
| "prefix_upto m _ \<longleftrightarrow> True"

fun config_entry :: "config_key \<times> gvalue \<Rightarrow> bool" where
  "config_entry (k, v) \<longleftrightarrow> list_ex (has_type v) (config_types k)"

fun ip4_entry :: "ip_key \<times> gvalue \<Rightarrow> bool" where
  "ip4_entry (k, v) \<longleftrightarrow> has_type v (ip4_type k) \<and> prefix_upto 32 (k, v)"

fun ip6_entry :: "ip_key \<times> gvalue \<Rightarrow> bool" where
  "ip6_entry (k, v) \<longleftrightarrow> pred_option (has_type v) (ip6_type k) \<and> ip6_type k \<noteq> None \<and> prefix_upto 128 (k, v)"

definition failure_reasons :: "string list" where
  "failure_reasons = [''VPN Gateway'', ''Tunnel Device'', ''IP4 Address'', ''IP6 Address'',
     ''IPv4 or IPv6 configuration'']"

fun call_typed :: "helper_call \<Rightarrow> bool" where
  "call_typed (SetFailure reason) \<longleftrightarrow> reason \<in> set failure_reasons"
| "call_typed (SetConfig d) \<longleftrightarrow> list_all config_entry d"
| "call_typed (SetIp4Config d) \<longleftrightarrow> list_all ip4_entry d"
| "call_typed (SetIp6Config d) \<longleftrightarrow> list_all ip6_entry d"

text \<open>
  What libc and libnm promise: an IPv6 address has 16 bytes, a prefix length of IPv4 is at most
  32, and the routes of IPv6 become a variant of their own type.
\<close>

definition helper_lib_doc :: "('r, 'h) helperlib_scheme \<Rightarrow> bool" where
  "helper_lib_doc H \<longleftrightarrow> (\<forall>s b. inet_pton H AF_INET6 s = Some (Addr6 b) \<longrightarrow> length b = 16)
     \<and> (\<forall>a. unat (nm_utils_ip4_netmask_to_prefix H a) \<le> 32)
     \<and> (\<forall>rs. has_type (nm_utils_ip6_routes_to_variant H rs) Ty_lib)"

lemma helper_lib_docD:
  assumes "helper_lib_doc H"
  shows "inet_pton H AF_INET6 s = Some (Addr6 b) \<Longrightarrow> length b = 16"
    "unat (nm_utils_ip4_netmask_to_prefix H a) \<le> 32"
    "has_type (nm_utils_ip6_routes_to_variant H rs) Ty_lib"
  using assms unfolding helper_lib_doc_def by blast+

section \<open>The values are typed\<close>

lemma addr4_type: "addr4_to_gvariant H str = Some v \<Longrightarrow> has_type v Ty_u"
  by (auto simp: addr4_to_gvariant_def split: if_splits)

lemma addr6_type:
  assumes "helper_lib_doc H" "addr6_to_gvariant H str = Some v"
  shows "has_type v Ty_in6"
  using assms(2) helper_lib_docD(1) [OF assms(1)]
  by (auto simp: addr6_to_gvariant_def pton6_def split: if_splits option.splits ipaddr.splits)

lemma str_type: "str_to_gvariant H str c = Some v \<Longrightarrow> has_type v Ty_s"
  by (auto simp: str_to_gvariant_def g_variant_new_string_def Let_def split: if_splits option.splits)

abbreviation all_of :: "gtype \<Rightarrow> gvalue list \<Rightarrow> bool" where
  "all_of t \<equiv> list_all (\<lambda>v. has_type v t)"

lemma add_addrs_types:
  assumes "helper_lib_doc H" "pred_option (all_of Ty_u) a4" "pred_option (all_of Ty_in6) a6"
  shows "pred_option (all_of Ty_u) (fst (add_addrs H ts (a4, a6)))
    \<and> pred_option (all_of Ty_in6) (snd (add_addrs H ts (a4, a6)))"
  using assms(2,3)
proof (induction ts arbitrary: a4 a6)
  case (Cons t ts)
  then show ?case
    using addr4_type [of H "Some t"] addr6_type [OF assms(1), of "Some t"]
    by (auto split: option.split)
qed simp

lemma add_addrs_present:
  "(fst (add_addrs H ts (a4, a6)) = None \<longleftrightarrow> a4 = None)
   \<and> (snd (add_addrs H ts (a4, a6)) = None \<longleftrightarrow> a6 = None)"
  by (induction ts arbitrary: a4 a6) (auto split: option.split)

lemma parse_addr_list_types:
  assumes "helper_lib_doc H" "pred_option (all_of Ty_u) a4" "pred_option (all_of Ty_in6) a6"
    "parse_addr_list L H (a4, a6) str = (b4, b6)"
  shows "pred_option (all_of Ty_u) b4" "pred_option (all_of Ty_in6) b6"
    "b4 = None \<longleftrightarrow> a4 = None" "b6 = None \<longleftrightarrow> a6 = None"
  using assms(2-4) add_addrs_types [OF assms(1-3), of "g_strsplit L str '' ''"]
    add_addrs_present [of H "g_strsplit L str '' ''" a4 a6]
  by (auto simp: parse_addr_list_def split: if_splits)

section \<open>The stages are typed\<close>

definition typed :: "hstate \<Rightarrow> bool" where
  "typed s \<longleftrightarrow> list_all config_entry (config s) \<and> list_all ip4_entry (ip4 s) \<and> list_all ip6_entry (ip6 s)"

lemma typed_init: "typed (hstate_init tap)"
  by (simp add: typed_def hstate_init_def)

lemma typed_update [simp]:
  "typed (s\<lparr>tapdev := t\<rparr>) = typed s" "typed (s\<lparr>has_ip4_prefix := b\<rparr>) = typed s"
  "typed (s\<lparr>has_ip4_address := b\<rparr>) = typed s" "typed (s\<lparr>has_ip6_address := b\<rparr>) = typed s"
  by (simp_all add: typed_def)

lemma typed_add [simp]:
  "typed (add_config ck v s) \<longleftrightarrow> typed s \<and> config_entry (ck, v)"
  "typed (add_ip4 k v s) \<longleftrightarrow> typed s \<and> ip4_entry (k, v)"
  "typed (add_ip6 k v s) \<longleftrightarrow> typed s \<and> ip6_entry (k, v)"
  by (auto simp: typed_def add_defs)

lemma typed_when: "typed s \<Longrightarrow> (c \<Longrightarrow> typed (f s)) \<Longrightarrow> typed (add_when c f s)"
  by (simp add: add_when_def)

lemma ext_gateway_typed:
  assumes "helper_lib_doc H" "ext_gateway H E s = Inr s'" "typed s"
  shows "typed s'"
proof -
  have "has_type v Ty_u \<or> has_type v Ty_in6" if "trusted_remote_to_gvariant H E = Some v" for v
    using that addr4_type addr6_type [OF assms(1)]
    by (auto simp: trusted_remote_to_gvariant_def Let_def split: option.splits if_splits)
  with assms(2,3) show ?thesis by (auto simp: ext_gateway_def split: option.splits)
qed

lemma int_gateway_typed:
  assumes "helper_lib_doc H" "typed s"
  shows "typed (int_gateway H E s)"
  using assms(2) addr4_type addr6_type [OF assms(1)]
  by (auto simp: int_gateway_def Let_def split: option.split)

lemma tunnel_device_typed: "tunnel_device H E s = Inr s' \<Longrightarrow> typed s \<Longrightarrow> typed s'"
  by (auto simp: tunnel_device_def Let_def dest: str_type split: option.splits if_splits)

lemma ip4_address_typed: "ip4_address H tmp s = Inr s' \<Longrightarrow> typed s \<Longrightarrow> typed s'"
  by (auto simp: ip4_address_def Let_def dest: addr4_type split: option.splits if_splits)

lemma ptp_address_typed:
  assumes "helper_lib_doc H" "typed s"
  shows "typed (ptp_address H tmp s)"
  using assms(2) helper_lib_docD(2) [OF assms(1)]
  by (auto simp: ptp_address_def Let_def split: option.split gvalue.split)

lemma ip4_netmask_typed:
  assumes "helper_lib_doc H" "typed s"
  shows "typed (ip4_netmask H E s)"
  using assms(2) helper_lib_docD(2) [OF assms(1)]
  by (auto simp: ip4_netmask_def split: option.split)

lemma ip4_route_type: "ip4_route L H E i tmp = Some v \<Longrightarrow> has_type v (Ty_array Ty_u)"
  by (auto simp: ip4_route_def split: option.splits)

lemma ip4_routes_type:
  assumes "get_ip4_routes L H E = Some v"
  shows "has_type v (Ty_array (Ty_array Ty_u))"
proof -
  let ?f = "\<lambda>j. ip4_route L H E j (the (var E ''route_network_'' j))"
  obtain n where "env_loop E ''route_network_'' (\<lambda>i tmp. add_route (ip4_route L H E i tmp)) 1 []
      = List.map_filter ?f [1..<n]"
    using env_loop_fold [of 1 E "''route_network_''" "\<lambda>i tmp. add_route (ip4_route L H E i tmp)" "[]"]
    by (auto simp: fold_add_route)
  moreover have "all_of (Ty_array Ty_u) (List.map_filter ?f js)" for js
    by (induction js) (auto simp: map_filter_simps split: option.split dest: ip4_route_type simp del: has_type.simps)
  ultimately show ?thesis using assms
    by (auto simp: get_ip4_routes_def Let_def split: if_splits)
qed

lemma ip4_routes_typed: "typed s \<Longrightarrow> typed (ip4_routes L H E restart s)"
  by (auto simp: ip4_routes_def dest: ip4_routes_type split: option.split simp del: has_type.simps(7))

lemma ip6_address_typed:
  assumes "helper_lib_doc H" "ip6_address H E s = Inr s'" "typed s"
  shows "typed s'"
  using assms(2,3) addr6_type [OF assms(1)]
  by (auto simp: ip6_address_def Let_def split: option.splits if_splits)

lemma netbits_range:
  assumes "0 \<le> n" "n \<le> 128"
  shows "unat (word_of_int n :: 32 word) \<le> 128"
  using assms by (simp add: unsigned_of_int take_bit_int_eq_self nat_le_iff)

lemma ip6_netbits_typed: "typed s \<Longrightarrow> typed (ip6_netbits E s)"
  by (auto simp: ip6_netbits_def Let_def netbits_range split: prod.split)

lemma ip6_routes_typed:
  assumes "helper_lib_doc H" "typed s"
  shows "typed (ip6_routes L H E restart s)"
  using assms(2) helper_lib_docD(3) [OF assms(1)]
  by (auto simp: ip6_routes_def get_ip6_routes_def Let_def split: option.split if_splits)

text \<open>The lists the options of the server are collected in.\<close>

definition pushed_typed :: "pushed \<Rightarrow> bool" where
  "pushed_typed p \<longleftrightarrow> all_of Ty_u (dns4_list p) \<and> all_of Ty_in6 (dns6_list p) \<and> all_of Ty_u (nbns_list p)"

lemma foreign_option_typed:
  assumes "helper_lib_doc H" "pushed_typed p"
  shows "pushed_typed (foreign_option L H i tmp p)"
proof -
  have dns: "all_of Ty_u (the a4)" "all_of Ty_in6 (the a6)"
    if "parse_addr_list L H (Some (dns4_list p), Some (dns6_list p)) str = (a4, a6)" for str a4 a6
    using parse_addr_list_types [OF assms(1) _ _ that] assms(2) by (auto simp: pushed_typed_def)
  have wins: "all_of Ty_u (the a4)"
    if "parse_addr_list L H (Some (nbns_list p), None) str = (a4, a6)" for str a4 a6
    using parse_addr_list_types [OF assms(1) _ _ that] assms(2) by (auto simp: pushed_typed_def)
  show ?thesis
    using assms(2) by (auto simp: foreign_option_def pushed_typed_def Let_def dns wins split: prod.split)
qed

lemma foreign_options_typed:
  assumes "helper_lib_doc H"
  shows "pushed_typed (foreign_options L H E)"
proof -
  let ?f = "\<lambda>j. foreign_option L H j (the (var E ''foreign_option_'' j))"
  let ?empty = "\<lparr>dns4_list = [], dns6_list = [], nbns_list = [], dns_domains = [], dns_domain_search = []\<rparr>"
  have step: "pushed_typed p \<Longrightarrow> pushed_typed (fold ?f js p)" for js p
    by (induction js arbitrary: p) (simp_all add: foreign_option_typed [OF assms])
  obtain n where "foreign_options L H E = fold ?f [1..<n] ?empty"
    using env_loop_fold [of 1 E "''foreign_option_''" "foreign_option L H" ?empty]
    unfolding foreign_options_def by blast
  moreover have "pushed_typed ?empty" by (simp add: pushed_typed_def)
  ultimately show ?thesis by (simp add: step)
qed

lemma add_servers_typed: "pushed_typed p \<Longrightarrow> typed s \<Longrightarrow> typed (add_servers p s)"
  by (auto simp: add_servers_def pushed_typed_def Let_def intro!: typed_when)

lemma add_domains_typed: "add_domains H ds s = Some s' \<Longrightarrow> typed s \<Longrightarrow> typed s'"
  by (auto simp: add_domains_def g_variant_new_strv_def Let_def intro!: typed_when split: if_splits option.splits)

lemma add_pushed_typed: "add_pushed H p s = Some s' \<Longrightarrow> pushed_typed p \<Longrightarrow> typed s \<Longrightarrow> typed s'"
  unfolding add_pushed_def by (rule add_domains_typed [OF _ add_servers_typed])

lemma tunnel_mtu_typed: "typed s \<Longrightarrow> typed (tunnel_mtu L E s)"
  by (auto simp: tunnel_mtu_def Let_def split: prod.split)

lemma failing_stage:
  "ext_gateway H E s = Inl r \<Longrightarrow> r \<in> set failure_reasons"
  "tunnel_device H E s = Inl r \<Longrightarrow> r \<in> set failure_reasons"
  "ip4_address H tmp s = Inl r \<Longrightarrow> r \<in> set failure_reasons"
  "ip6_address H E s = Inl r \<Longrightarrow> r \<in> set failure_reasons"
  by (auto simp: ext_gateway_def tunnel_device_def ip4_address_def ip6_address_def failure_reasons_def Let_def
      split: option.splits if_splits)

lemma configure_typed:
  assumes "helper_lib_doc H" "configure L H E restart opt = Some (st, calls)"
  shows "list_all call_typed calls"
proof -
  note doc = assms(1)
  have failed: "list_all call_typed (snd (helper_failed r))" if "r \<in> set failure_reasons" for r
    using that by (simp add: helper_failed_def)
  have finished: "list_all call_typed (snd (finish_config s))" if "typed s" for s
    using that by (auto simp: finish_config_def send_config_def helper_failed_def failure_reasons_def
        typed_def add_defs Let_def)
  have "list_all call_typed (snd r)" if run: "configure L H E restart opt = Some r" for r
  proof -
    consider (failed) reason where "reason \<in> set failure_reasons" "r = helper_failed reason"
      | (ended) s1 s2 s3 s4 s5 local remote where "ext_gateway H E (hstate_init (cl_tapdev opt)) = Inr s1"
        "tunnel_device H E (can_persist (int_gateway H E s1)) = Inr s2" "ip4_address H local s2 = Inr s3"
        "ip6_address H E (ip4_routes L H E restart (ip4_netmask H E (ptp_address H remote s3))) = Inr s4"
        "add_pushed H (foreign_options L H E) (ip6_routes L H E restart (ip6_netbits E s4)) = Some s5"
        "r = finish_config (tunnel_mtu L E s5)"
      using run unfolding configure_def Let_def
      by (auto dest: failing_stage split: sum.splits option.splits)
    then show ?thesis
    proof cases
      case ended
      have "typed s1" using ext_gateway_typed [OF doc ended(1) typed_init] .
      then have "typed (can_persist (int_gateway H E s1))"
        by (simp add: can_persist_def int_gateway_typed [OF doc])
      then have "typed s3" using tunnel_device_typed [OF ended(2)] ip4_address_typed [OF ended(3)] by blast
      then have "typed (ip4_routes L H E restart (ip4_netmask H E (ptp_address H remote s3)))"
        by (intro ip4_routes_typed ip4_netmask_typed [OF doc] ptp_address_typed [OF doc])
      then have "typed s4" by (rule ip6_address_typed [OF doc ended(4)])
      then have "typed (ip6_routes L H E restart (ip6_netbits E s4))"
        by (intro ip6_routes_typed [OF doc] ip6_netbits_typed)
      then have "typed s5" by (rule add_pushed_typed [OF ended(5) foreign_options_typed [OF doc]])
      then show ?thesis using finished tunnel_mtu_typed ended(6) by blast
    qed (simp add: failed)
  qed
  from this [OF assms(2)] show ?thesis by simp
qed

section \<open>A library that keeps its promises\<close>

text \<open>The library of the concrete run knows no IPv6 address; this one knows some.\<close>

definition loopback6 :: "8 word list" where
  "loopback6 = replicate 15 0 @ [1]"

definition typed_helper :: "nat helperlib" where
  "typed_helper = demo_helper\<lparr>inet_pton := (\<lambda>f s. case f of
        AF_INET6 \<Rightarrow> if s = ''::1'' then Some (Addr6 loopback6) else None
      | _ \<Rightarrow> inet_pton demo_helper f s)\<rparr>"

definition typed_environ :: environ where
  "typed_environ = demo_environ @ [(''ifconfig_ipv6_local'', ''::1''), (''ifconfig_ipv6_netbits'', ''64''),
     (''foreign_option_1'', ''dhcp-option DNS 10.8.0.2 ::1''), (''tun_mtu'', ''1320'')]"

lemma typed_helper_doc: "helper_lib_doc typed_helper"
  by (auto simp: helper_lib_doc_def typed_helper_def demo_helper_def loopback6_def)

definition typed_calls :: "helper_call list" where
  "typed_calls = [SetConfig [(EXT_GATEWAY, VUint32 0x010200C0), (CAN_PERSIST, VBool True),
       (TUNDEV, VString ''tun0''), (MTU, VUint32 1320), (HAS_IP4, VBool True), (HAS_IP6, VBool True)],
     SetIp4Config (demo_ip4 @ [(DNS, VArray [VUint32 0x0200080A])]),
     SetIp6Config [(ADDRESS, VBytes loopback6), (PREFIX, VUint32 64), (DNS, VArray [VBytes loopback6])]]"

lemma typed_run:
  "helper_main ref_lib typed_helper typed_environ [''--tun'', ''--''] = Some (0, typed_calls)"
  by code_simp

section \<open>Properties\<close>

text \<open>
  C30. Every entry of the three dictionaries has the type its name stands for: an address is a
  32-bit word in the dictionary of IPv4 and 16 bytes in that of IPv6, a prefix length is at most
  32 and 128, every list holds elements of one family, and the dictionary of IPv6 has no entry
  only IPv4 has. A failure names one of the five reasons.
\<close>

theorem helper_sends_typed:
  assumes "helper_lib_doc H" "helper_main L H E args = Some (st, calls)"
  shows "list_all call_typed calls"
  using assms(2) configure_typed [OF assms(1)]
  by (auto simp: helper_main_def split: option.splits if_splits)

theorem helper_sends_typed_witness: "list_all call_typed typed_calls"
  by (rule helper_sends_typed [OF typed_helper_doc typed_run])

end
