(* ===== verification/NM_Compare.thy ===== *)
theory NM_Compare
  imports NM_Shared_Utils "HOL-Library.Multiset"
begin

text \<open>
  Comparison functions of \<open>shared/nm-utils/nm-shared-utils.c\<close> and what sorts with them: the
  laws of a three-way comparison are the interface \<open>three_way\<close>, its extension \<open>three_way_eq\<close>
  that of one that tells all values apart; both are interpreted on the functions of the code.
  The sorting function of GLib is a parameter.
\<close>

section \<open>The interface\<close>

locale three_way =
  fixes cmp :: "'a \<Rightarrow> 'a \<Rightarrow> int"
  assumes flip: "sgn (cmp b a) = - sgn (cmp a b)"
    and trans: "cmp a b \<le> 0 \<Longrightarrow> cmp b c \<le> 0 \<Longrightarrow> cmp a c \<le> 0"
begin

lemma le_flip: "cmp a b \<le> 0 \<longleftrightarrow> 0 \<le> cmp b a"
  using flip [of b a] by (auto simp: sgn_if split: if_splits)

lemma self [simp]: "cmp a a = 0"
  using flip [of a a] by (auto simp: sgn_if split: if_splits)

lemma total: "cmp a b \<le> 0 \<or> cmp b a \<le> 0"
  using le_flip [of a b] by linarith

lemma equal_flip: "cmp a b = 0 \<longleftrightarrow> cmp b a = 0"
  using flip [of b a] by (auto simp: sgn_if split: if_splits)

end

locale three_way_eq = three_way +
  assumes same: "cmp a b = 0 \<Longrightarrow> a = b"
begin

lemma antisym: "cmp a b \<le> 0 \<Longrightarrow> cmp b a \<le> 0 \<Longrightarrow> a = b"
  using le_flip [of b a] by (intro same) linarith

text \<open>A list has only one sorted permutation.\<close>

lemma sorted_unique:
  assumes "sorted_wrt (\<lambda>a b. cmp a b \<le> 0) xs" "sorted_wrt (\<lambda>a b. cmp a b \<le> 0) ys" "mset xs = mset ys"
  shows "xs = ys"
  using assms
proof (induction xs arbitrary: ys)
  case (Cons x xs)
  then obtain y ys' where ys: "ys = y # ys'" by (cases ys) auto
  have "x \<in> set ys" "y \<in> set (x # xs)"
    using Cons.prems(3) ys by (metis list.set_intros(1) set_mset_mset)+
  then have "x = y" using Cons.prems(1,2) ys antisym by (cases "x = y") auto
  with Cons ys show ?case by simp
qed simp

end

section \<open>The comparison functions\<close>

text \<open>\<open>NM_CMP_RETURN\<close> and \<open>NM_CMP_DIRECT\<close>: the sign of a difference.\<close>

definition NM_CMP_DIRECT :: "'a::linorder \<Rightarrow> 'a \<Rightarrow> int" where
  "NM_CMP_DIRECT a b = (if a \<noteq> b then (if a < b then - 1 else 1) else 0)"

definition nm_strcmp_p_with_data :: "string \<Rightarrow> string \<Rightarrow> int" where
  "nm_strcmp_p_with_data s1 s2 = strcmp s1 s2"

definition nm_cmp_uint32_p_with_data :: "32 word \<Rightarrow> 32 word \<Rightarrow> int" where
  "nm_cmp_uint32_p_with_data a b = (if a < b then - 1 else if b < a then 1 else 0)"

text \<open>\<open>GPOINTER_TO_INT\<close> keeps the lower half of a pointer of 64 bits.\<close>

definition GPOINTER_TO_INT :: "64 word \<Rightarrow> int" where
  "GPOINTER_TO_INT p = sint (ucast p :: 32 word)"

definition nm_cmp_int2ptr_p_with_data :: "64 word \<Rightarrow> 64 word \<Rightarrow> int" where
  "nm_cmp_int2ptr_p_with_data p_a p_b =
     (let a = GPOINTER_TO_INT p_a; b = GPOINTER_TO_INT p_b
      in if a < b then - 1 else if a > b then 1 else 0)"

definition nm_utf8_collate0 :: "(string \<Rightarrow> string \<Rightarrow> int) \<Rightarrow> cstr \<Rightarrow> cstr \<Rightarrow> int" where
  "nm_utf8_collate0 collate a b =
     (case (a, b) of
        (None, None) \<Rightarrow> 0
      | (None, Some _) \<Rightarrow> - 1
      | (Some _, None) \<Rightarrow> 1
      | (Some x, Some y) \<Rightarrow> collate x y)"

lemma sgn_strcmp_flip: "sgn (strcmp b a) = - sgn (strcmp a b)"
  by (subst strcmp_swap) simp

interpretation str: three_way_eq nm_strcmp_p_with_data
proof unfold_locales
  show "sgn (nm_strcmp_p_with_data b a) = - sgn (nm_strcmp_p_with_data a b)" for a b
    unfolding nm_strcmp_p_with_data_def by (rule sgn_strcmp_flip)
  show "nm_strcmp_p_with_data a c \<le> 0" if "nm_strcmp_p_with_data a b \<le> 0" "nm_strcmp_p_with_data b c \<le> 0" for a b c
    using that strcmp_trans unfolding nm_strcmp_p_with_data_def by blast
  show "a = b" if "nm_strcmp_p_with_data a b = 0" for a b
    using that by (simp add: nm_strcmp_p_with_data_def)
qed

interpretation u32: three_way_eq nm_cmp_uint32_p_with_data
  by unfold_locales (auto simp: nm_cmp_uint32_p_with_data_def split: if_splits)

interpretation ptr: three_way nm_cmp_int2ptr_p_with_data
  by unfold_locales (auto simp: nm_cmp_int2ptr_p_with_data_def Let_def split: if_splits)

text \<open>The order of \<open>NULL\<close> and strings inherits the laws of the collation.\<close>

lemma collate0_three_way:
  assumes "three_way collate"
  shows "three_way (nm_utf8_collate0 collate)"
proof unfold_locales
  note flip = three_way.flip [OF assms] and trans = three_way.trans [OF assms]
  show "sgn (nm_utf8_collate0 collate b a) = - sgn (nm_utf8_collate0 collate a b)" for a b
    by (auto simp: nm_utf8_collate0_def intro: flip split: option.split)
  show "nm_utf8_collate0 collate a c \<le> 0"
    if "nm_utf8_collate0 collate a b \<le> 0" "nm_utf8_collate0 collate b c \<le> 0" for a b c
    using that trans [of "the a" "the b" "the c"]
    by (auto simp: nm_utf8_collate0_def split: option.splits)
qed

section \<open>Sorting\<close>

text \<open>
  \<open>g_qsort_with_data\<close> with a comparison that satisfies the laws gives a sorted permutation.
\<close>

definition qsort_doc :: "(('a \<Rightarrow> 'a \<Rightarrow> int) \<Rightarrow> 'a list \<Rightarrow> 'a list) \<Rightarrow> bool" where
  "qsort_doc qsort \<longleftrightarrow> (\<forall>cmp xs. three_way cmp \<longrightarrow>
     mset (qsort cmp xs) = mset xs \<and> sorted_wrt (\<lambda>a b. cmp a b \<le> 0) (qsort cmp xs))"

text \<open>An array of \<open>len\<close> strings, all of them for a negative \<open>len\<close>; \<open>None\<close> for reads beyond it.\<close>

definition nm_utils_strv_sort ::
  "((string \<Rightarrow> string \<Rightarrow> int) \<Rightarrow> string list \<Rightarrow> string list) \<Rightarrow> string list \<Rightarrow> int \<Rightarrow> string list option" where
  "nm_utils_strv_sort qsort strv len =
     (let l = (if len < 0 then length strv else nat len)
      in if l \<le> 1 then Some strv
         else if l > length strv then None
         else Some (qsort nm_strcmp_p_with_data (take l strv) @ drop l strv))"

text \<open>
  A hash table is the list of its entries in the order of iteration, with distinct keys; the
  table may be \<open>NULL\<close>. The results are arrays with their length, \<open>NULL\<close> when empty.
\<close>

type_synonym ('k, 'v) hash_table = "('k \<times> 'v) list option"

definition named_entry_cmp :: "string \<times> 'v \<Rightarrow> string \<times> 'v \<Rightarrow> int" where
  "named_entry_cmp a b = nm_strcmp_p_with_data (fst a) (fst b)"

definition nm_utils_named_values_from_str_dict ::
  "((string \<times> 'v \<Rightarrow> string \<times> 'v \<Rightarrow> int) \<Rightarrow> (string \<times> 'v) list \<Rightarrow> (string \<times> 'v) list)
     \<Rightarrow> (string, 'v) hash_table \<Rightarrow> (string \<times> 'v) list option \<times> nat" where
  "nm_utils_named_values_from_str_dict qsort hash =
     (case hash of
        None \<Rightarrow> (None, 0)
      | Some es \<Rightarrow>
          if es = [] then (None, 0)
          else (Some (if length es > 1 then qsort named_entry_cmp es else es), length es))"

definition nm_utils_hash_keys_to_array ::
  "(('k \<Rightarrow> 'k \<Rightarrow> int) \<Rightarrow> 'k list \<Rightarrow> 'k list) \<Rightarrow> ('k, 'v) hash_table \<Rightarrow> ('k \<Rightarrow> 'k \<Rightarrow> int) option
     \<Rightarrow> 'k list option \<times> nat" where
  "nm_utils_hash_keys_to_array qsort hash compare_func =
     (case hash of
        None \<Rightarrow> (None, 0)
      | Some es \<Rightarrow>
          if es = [] then (None, 0)
          else
            (let keys = map fst es
             in (Some (case compare_func of
                         Some cmp \<Rightarrow> if length keys > 1 then qsort cmp keys else keys
                       | None \<Rightarrow> keys), length keys)))"

definition nm_utils_strdict_get_keys ::
  "((string \<Rightarrow> string \<Rightarrow> int) \<Rightarrow> string list \<Rightarrow> string list) \<Rightarrow> (string, 'v) hash_table \<Rightarrow> bool
     \<Rightarrow> string list option \<times> nat" where
  "nm_utils_strdict_get_keys qsort hash in_order =
     nm_utils_hash_keys_to_array qsort hash (if in_order then Some nm_strcmp_p_with_data else None)"

section \<open>D-Bus paths\<close>

definition nm_utils_dbus_path_get_last_component :: "cstr \<Rightarrow> cstr" where
  "nm_utils_dbus_path_get_last_component dbus_path =
     (case dbus_path of
        None \<Rightarrow> None
      | Some p \<Rightarrow> (case strrchr p CHR ''/'' of None \<Rightarrow> None | Some s \<Rightarrow> Some (tl s)))"

definition G_MAXINT64 :: int where "G_MAXINT64 = 9223372036854775807"

definition dbus_path_component_as_num :: "'g glib_scheme \<Rightarrow> string \<Rightarrow> int" where
  "dbus_path_component_as_num L p =
     (case p of
        [] \<Rightarrow> - 1
      | c # cs \<Rightarrow>
          if c = CHR ''0'' then (if cs \<noteq> [] then - 1 else 0)
          else if \<not> is_digit c then - 1
          else if \<not> list_all is_digit cs then - 1
          else ascii_to_int64 L (Some p) 10 0 G_MAXINT64 (- 1))"

text \<open>\<open>comp_full\<close> and \<open>comp_l\<close> of the code are the comparisons by \<open>strcmp0\<close>.\<close>

definition nm_utils_dbus_path_cmp :: "'g glib_scheme \<Rightarrow> cstr \<Rightarrow> cstr \<Rightarrow> int" where
  "nm_utils_dbus_path_cmp L dbus_path_a dbus_path_b =
     (case (dbus_path_a, dbus_path_b) of
        (None, None) \<Rightarrow> 0
      | (None, Some _) \<Rightarrow> - 1
      | (Some _, None) \<Rightarrow> 1
      | (Some a, Some b) \<Rightarrow>
     (case (nm_utils_dbus_path_get_last_component (Some a), nm_utils_dbus_path_get_last_component (Some b)) of
        (Some l_a, Some l_b) \<Rightarrow>
          (let plen = length a - length l_a
           in if plen \<noteq> length b - length l_b then sgn (strcmp a b)
              else
                (let c = strcmp (take plen a) (take plen b)
                 in if c \<noteq> 0 then sgn c
                    else
                      (let n_a = dbus_path_component_as_num L l_a;
                           n_b = dbus_path_component_as_num L l_b
                       in if n_a = - 1 \<and> n_b = - 1 then sgn (strcmp l_a l_b)
                          else if n_a = - 1 then - 1
                          else if n_b = - 1 then 1
                          else NM_CMP_DIRECT n_a n_b)))
      | _ \<Rightarrow> sgn (strcmp a b)))"

definition nm_utils_dbus_normalize_object_path :: "cstr \<Rightarrow> cstr" where
  "nm_utils_dbus_normalize_object_path path = (if path = Some ''/'' then None else path)"

section \<open>Facts\<close>

lemma named_entry_three_way: "three_way named_entry_cmp"
proof unfold_locales
  show "sgn (named_entry_cmp b a) = - sgn (named_entry_cmp a b)" for a b :: "string \<times> 'v"
    unfolding named_entry_cmp_def by (rule str.flip)
  show "named_entry_cmp a c \<le> 0" if "named_entry_cmp a b \<le> 0" "named_entry_cmp b c \<le> 0"
    for a b c :: "string \<times> 'v"
    using that unfolding named_entry_cmp_def by (rule str.trans)
qed

text \<open>Two arrays of entries with the same keys in the same order and the same values are equal.\<close>

lemma entries_eq:
  assumes "map fst xs = map fst ys" "distinct (map fst xs)" "map_of xs = map_of ys"
  shows "xs = ys"
proof -
  have d: "distinct (map fst ys)" using assms(1,2) by simp
  have "\<forall>i < length xs. xs ! i = ys ! i"
  proof (intro allI impI)
    fix i assume i: "i < length xs"
    then have i': "i < length ys" using assms(1) by (metis length_map)
    have "map_of xs (fst (xs ! i)) = Some (snd (xs ! i))"
      using i assms(2) by (simp add: map_of_eq_Some_iff)
    moreover have "map_of ys (fst (ys ! i)) = Some (snd (ys ! i))"
      using i' d by (simp add: map_of_eq_Some_iff)
    moreover have "fst (xs ! i) = fst (ys ! i)" using i i' assms(1) by (metis nth_map)
    ultimately show "xs ! i = ys ! i" using assms(3) by (simp add: prod_eq_iff)
  qed
  then show ?thesis using assms(1) by (metis length_map nth_equalityI)
qed

lemma sorted_entries:
  assumes "qsort_doc qsort" "nm_utils_named_values_from_str_dict qsort (Some es) = (Some vs, n)"
  shows "mset vs = mset es" "sorted_wrt (\<lambda>a b. nm_strcmp_p_with_data a b \<le> 0) (map fst vs)" "n = length es"
proof -
  have q: "mset (qsort named_entry_cmp es) = mset es"
      "sorted_wrt (\<lambda>a b. named_entry_cmp a b \<le> 0) (qsort named_entry_cmp es)"
    using assms(1) named_entry_three_way unfolding qsort_doc_def by blast+
  have s: "sorted_wrt (\<lambda>a b. nm_strcmp_p_with_data a b \<le> 0) (map fst us)"
    if "sorted_wrt (\<lambda>a b. named_entry_cmp a b \<le> 0) us" for us :: "(string \<times> 'a) list"
    using that by (simp add: sorted_wrt_map named_entry_cmp_def)
  have "vs = (if length es > 1 then qsort named_entry_cmp es else es)" "n = length es"
    using assms(2) by (auto simp: nm_utils_named_values_from_str_dict_def split: if_splits)
  moreover have "sorted_wrt (\<lambda>a b. named_entry_cmp a b \<le> 0) es" if "\<not> length es > 1"
    using that by (cases es) auto
  ultimately show "mset vs = mset es" "sorted_wrt (\<lambda>a b. nm_strcmp_p_with_data a b \<le> 0) (map fst vs)"
      "n = length es"
    using q s by auto
qed

lemma leading_zero: "hd (dec_of_nat n) = CHR ''0'' \<Longrightarrow> n = 0"
proof (induction n rule: dec_of_nat.induct)
  case (1 n)
  show ?case
  proof (cases "n < 10")
    case True
    then have "char_of (48 + n) = CHR ''0''" using "1.prems" by (simp add: dec_of_nat.simps [of n])
    then have "(of_char (char_of (48 + n) :: char) :: nat) = 48" by simp
    then show ?thesis using True by (simp only: of_char_digit)
  next
    case False
    then have "hd (dec_of_nat (n div 10)) = CHR ''0''"
      using "1.prems" by (simp add: dec_of_nat.simps [of n])
    with "1.IH" False show ?thesis by auto
  qed
qed

lemma component_of_number:
  assumes "ascii_doc L" "int n \<le> G_MAXINT64"
  shows "dbus_path_component_as_num L (dec_of_nat n) = int n"
proof -
  obtain c cs where c: "dec_of_nat n = c # cs" "is_digit c" using dec_of_nat_hd by blast
  have digits: "list_all is_digit cs"
    using dec_of_nat_digits [of _ n] c(1) by (auto simp: list_all_iff)
  have v: "ascii_to_int64 L (Some (dec_of_nat n)) 10 0 G_MAXINT64 (- 1) = int n"
    using int64_of_dec [OF assms(1), of n "[]" "[]" 0 G_MAXINT64 "- 1"] assms(2)
    by (simp add: ascii_to_int64_def G_MAXINT64_def LONG_MAX_def)
  have "cs = [] \<and> n = 0" if "c = CHR ''0''"
  proof -
    have "n = 0" using leading_zero [of n] c(1) that by simp
    with c(1) dec_of_nat.simps [of 0] show ?thesis by simp
  qed
  with c v digits show ?thesis by (auto simp: dbus_path_component_as_num_def)
qed

lemma last_component_of:
  assumes "CHR ''/'' \<notin> set l"
  shows "nm_utils_dbus_path_get_last_component (Some (p @ CHR ''/'' # l)) = Some l"
proof -
  have "strrchr (CHR ''/'' # l) CHR ''/'' = Some (CHR ''/'' # l)"
    using assms strrchr_None_iff [of l "CHR ''/''"] by simp
  then have "strrchr (p @ CHR ''/'' # l) CHR ''/'' = Some (CHR ''/'' # l)"
    by (induction p) simp_all
  then show ?thesis by (simp add: nm_utils_dbus_path_get_last_component_def)
qed

lemma number_no_slash: "CHR ''/'' \<notin> set (dec_of_nat n)"
  using dec_of_nat_digits [of "CHR ''/''" n] by (auto simp: is_digit_def)

lemma path_cmp_siblings:
  assumes "CHR ''/'' \<notin> set x" "CHR ''/'' \<notin> set y"
  shows "nm_utils_dbus_path_cmp L (Some (p @ CHR ''/'' # x)) (Some (p @ CHR ''/'' # y)) =
    (let n_a = dbus_path_component_as_num L x; n_b = dbus_path_component_as_num L y
     in if n_a = - 1 \<and> n_b = - 1 then sgn (strcmp x y)
        else if n_a = - 1 then - 1 else if n_b = - 1 then 1 else NM_CMP_DIRECT n_a n_b)"
  using last_component_of [OF assms(1)] last_component_of [OF assms(2)]
  by (simp add: nm_utils_dbus_path_cmp_def Let_def)

lemma path_cmp_numbers:
  assumes "ascii_doc L" "int m \<le> G_MAXINT64" "int n \<le> G_MAXINT64"
  shows "nm_utils_dbus_path_cmp L (Some (p @ CHR ''/'' # dec_of_nat m)) (Some (p @ CHR ''/'' # dec_of_nat n))
    = sgn (int m - int n)"
  using component_of_number [OF assms(1,2)] component_of_number [OF assms(1,3)]
  by (simp add: path_cmp_siblings number_no_slash NM_CMP_DIRECT_def)

section \<open>A sorting function\<close>

fun ref_insert :: "('a \<Rightarrow> 'a \<Rightarrow> int) \<Rightarrow> 'a \<Rightarrow> 'a list \<Rightarrow> 'a list" where
  "ref_insert cmp x [] = [x]"
| "ref_insert cmp x (y # ys) = (if cmp x y \<le> 0 then x # y # ys else y # ref_insert cmp x ys)"

definition ref_qsort :: "('a \<Rightarrow> 'a \<Rightarrow> int) \<Rightarrow> 'a list \<Rightarrow> 'a list" where
  "ref_qsort cmp xs = foldr (ref_insert cmp) xs []"

lemma mset_ref_insert: "mset (ref_insert cmp x ys) = add_mset x (mset ys)"
  by (induction ys) auto

lemma set_ref_insert [simp]: "set (ref_insert cmp x ys) = insert x (set ys)"
  by (metis mset_ref_insert set_mset_add_mset_insert set_mset_mset)

lemma sorted_ref_insert:
  assumes "three_way cmp" "sorted_wrt (\<lambda>a b. cmp a b \<le> 0) ys"
  shows "sorted_wrt (\<lambda>a b. cmp a b \<le> 0) (ref_insert cmp x ys)"
  using assms(2)
proof (induction ys)
  case (Cons y ys)
  have "cmp y x \<le> 0" if "\<not> cmp x y \<le> 0" using that three_way.total [OF assms(1)] by blast
  moreover have "\<forall>z \<in> set ys. cmp x z \<le> 0" if "cmp x y \<le> 0"
    using that Cons.prems three_way.trans [OF assms(1)] by fastforce
  ultimately show ?case using Cons by auto
qed simp

lemma ref_qsort_doc: "qsort_doc ref_qsort"
proof -
  have "mset (ref_qsort cmp xs) = mset xs" for cmp :: "'a \<Rightarrow> 'a \<Rightarrow> int" and xs
    by (induction xs) (simp_all add: ref_qsort_def mset_ref_insert)
  moreover have "sorted_wrt (\<lambda>a b. cmp a b \<le> 0) (ref_qsort cmp xs)"
    if "three_way cmp" for cmp :: "'a \<Rightarrow> 'a \<Rightarrow> int" and xs
    by (induction xs) (simp_all add: ref_qsort_def sorted_ref_insert [OF that])
  ultimately show ?thesis unfolding qsort_doc_def by blast
qed

section \<open>Properties\<close>

text \<open>
  The array made of a string dictionary has its entries, each once, ordered by name with
  \<open>strcmp\<close>, and depends only on the contents of the dictionary: not on the order in which the
  hash table happens to be iterated.
\<close>

theorem named_values_deterministic:
  assumes "qsort_doc qsort" "distinct (map fst es)" "distinct (map fst fs)" "map_of es = map_of fs" "es \<noteq> []"
  shows "\<exists>vs. nm_utils_named_values_from_str_dict qsort (Some es) = (Some vs, length es)
    \<and> mset vs = mset es \<and> sorted_wrt (\<lambda>a b. nm_strcmp_p_with_data a b \<le> 0) (map fst vs)
    \<and> nm_utils_named_values_from_str_dict qsort (Some fs)
        = nm_utils_named_values_from_str_dict qsort (Some es)"
proof -
  have "set es = set fs" using assms(2-4) by (metis map_of_inject_set)
  then have perm: "mset es = mset fs" and ne: "fs \<noteq> []"
    using assms(2,3,5) by (auto simp: set_eq_iff_mset_eq_distinct [symmetric] distinct_map)
  obtain vs n where vs: "nm_utils_named_values_from_str_dict qsort (Some es) = (Some vs, n)"
    using assms(5) by (auto simp: nm_utils_named_values_from_str_dict_def)
  obtain us k where us: "nm_utils_named_values_from_str_dict qsort (Some fs) = (Some us, k)"
    using ne by (auto simp: nm_utils_named_values_from_str_dict_def)
  note e = sorted_entries [OF assms(1) vs] and f = sorted_entries [OF assms(1) us]
  have m: "mset vs = mset us" using e(1) f(1) perm by simp
  then have "mset (map fst vs) = mset (map fst us)" by simp
  then have keys: "map fst vs = map fst us" by (rule str.sorted_unique [OF e(2) f(2)])
  have "distinct (map fst vs)"
    using e(1) assms(2) by (metis mset_map mset_eq_imp_distinct_iff)
  moreover have "map_of vs = map_of us"
    using m keys \<open>distinct (map fst vs)\<close> by (metis map_of_inject_set set_mset_mset)
  ultimately have "vs = us" using keys entries_eq by blast
  moreover have "length es = length fs" using perm by (metis size_mset)
  ultimately show ?thesis using vs us e f by auto
qed

theorem named_values_deterministic_witness:
  "nm_utils_named_values_from_str_dict ref_qsort (Some [(''b'', 1 :: nat), (''a'', 2)])
     = nm_utils_named_values_from_str_dict ref_qsort (Some [(''a'', 2), (''b'', 1)])"
proof -
  have "map_of [(''a'', 2 :: nat), (''b'', 1)] = map_of [(''b'', 1), (''a'', 2)]"
    by (rule ext) simp
  from named_values_deterministic [OF ref_qsort_doc _ _ this] show ?thesis
    by simp (elim exE conjE, simp)
qed

text \<open>
  Object paths that differ only in a final number are ordered by the number, not by its
  digits.
\<close>

theorem dbus_path_cmp_numbers:
  assumes "ascii_doc L" "int m \<le> G_MAXINT64" "int n \<le> G_MAXINT64"
  shows "nm_utils_dbus_path_cmp L (Some (p @ CHR ''/'' # dec_of_nat m)) (Some (p @ CHR ''/'' # dec_of_nat n))
    = sgn (int m - int n)"
  using assms by (rule path_cmp_numbers)

theorem dbus_path_cmp_numbers_witness:
  "nm_utils_dbus_path_cmp ref_lib (Some ''/dev/9'') (Some ''/dev/10'') = - 1"
proof -
  have d: "dec_of_nat 9 = ''9''" "dec_of_nat 10 = ''10''" by code_simp+
  show ?thesis
    using dbus_path_cmp_numbers [OF ref_ascii_doc, of 9 10 "''/dev''"] by (simp add: d G_MAXINT64_def)
qed

text \<open>
  Against its comment, the comparison of object paths is not a total order: there are three
  paths each of which is smaller than the next, around a cycle.
\<close>

theorem dbus_path_cmp_cycle:
  assumes "ascii_doc L"
  shows "\<exists>a b c. nm_utils_dbus_path_cmp L a b < 0 \<and> nm_utils_dbus_path_cmp L b c < 0
    \<and> nm_utils_dbus_path_cmp L c a < 0"
proof -
  have d: "dec_of_nat 9 = ''9''" "dec_of_nat 10 = ''10''" by code_simp+
  have num: "int 9 \<le> G_MAXINT64" "int 10 \<le> G_MAXINT64" by (simp_all add: G_MAXINT64_def)
  have 1: "nm_utils_dbus_path_cmp L (Some ''/x/9'') (Some ''/x/10'') < 0"
    using path_cmp_numbers [OF assms num, of "''/x''"] by (simp add: d)
  have 2: "nm_utils_dbus_path_cmp L (Some ''/x/10'') (Some ''/x/5/z'') < 0"
    by (simp add: nm_utils_dbus_path_cmp_def nm_utils_dbus_path_get_last_component_def)
  have 3: "nm_utils_dbus_path_cmp L (Some ''/x/5/z'') (Some ''/x/9'') < 0"
    by (simp add: nm_utils_dbus_path_cmp_def nm_utils_dbus_path_get_last_component_def)
  from 1 2 3 show ?thesis by blast
qed

theorem dbus_path_cmp_cycle_witness:
  "\<exists>a b c. nm_utils_dbus_path_cmp ref_lib a b < 0 \<and> nm_utils_dbus_path_cmp ref_lib b c < 0
    \<and> nm_utils_dbus_path_cmp ref_lib c a < 0"
  by (rule dbus_path_cmp_cycle [OF ref_ascii_doc])

end
