(* ===== verification/Airvpn_Server_List.thy ===== *)
theory Airvpn_Server_List
  imports Airvpn_Api NM_Compare
begin

text \<open>
  The server list of the editor, \<open>properties/nm-airvpn-server-list.c\<close>: the two transfers, the
  device names of an account, and the filling of the server combo box. libcurl and json-glib are
  the parameters \<open>C\<close> and \<open>J\<close>, the combo box of GTK is the parameter \<open>W\<close> on an opaque state, and
  sorting and collation are \<open>qsort\<close> and \<open>collate\<close>. A \<open>NULL\<close> dereference is \<open>None\<close>.
\<close>

section \<open>GTK's combo box and the nodes of json-glib\<close>

text \<open>
  \<open>cb_rows\<close> is the view of the rows (id and text) that specifications use; the other fields are
  the functions the code calls. \<open>cb_text_cells\<close> tells which cells are text renderers.
\<close>

record 'c combolib =
  cb_append :: "string \<Rightarrow> string \<Rightarrow> 'c \<Rightarrow> 'c"
  cb_set_active_id :: "string \<Rightarrow> 'c \<Rightarrow> bool \<times> 'c"
  cb_remove_all :: "'c \<Rightarrow> 'c"
  cb_active_id :: "'c \<Rightarrow> cstr"
  cb_active :: "'c \<Rightarrow> int"
  cb_text_cells :: "'c \<Rightarrow> bool list"
  cb_ellipsize :: "nat \<Rightarrow> int \<Rightarrow> 'c \<Rightarrow> 'c"
  cb_rows :: "'c \<Rightarrow> (string \<times> string) list"

record ('n, 'o, 'a, 'm) nodelib = "('n, 'o, 'a) jsonlib" +
  js_get_member :: "'o \<Rightarrow> string \<Rightarrow> 'm"
  js_holds_value :: "'m \<Rightarrow> bool"
  js_node_string :: "'m \<Rightarrow> cstr"
  js_node_int :: "'m \<Rightarrow> int"

section \<open>Transfers\<close>

definition AIRVPN_STATUS_URL :: string where
  "AIRVPN_STATUS_URL = ''https://airvpn.org/api/status/''"

definition LIST_DEVICES_URL :: string where
  "LIST_DEVICES_URL = ''https://airvpn.org/api/devices/''"

definition LIST_MAX_RESPONSE_SIZE :: nat where
  "LIST_MAX_RESPONSE_SIZE = 8 * 1024 * 1024"

definition list_write_cb :: write_callback where
  "list_write_cb = limited_write LIST_MAX_RESPONSE_SIZE"

definition io_error :: "err_code \<Rightarrow> string \<Rightarrow> gerror" where
  "io_error code msg = GError G_IO_ERROR code msg"

definition list_request :: "string \<Rightarrow> cstr \<Rightarrow> curl_request" where
  "list_request url api_key =
     \<lparr>cr_url = url, cr_headers = (if nonempty_str api_key then [''API-KEY: '' @ the api_key] else []),
      cr_follow_location = False, cr_timeout = 30, cr_connect_timeout = 15,
      cr_useragent = ''networkmanager-airvpn/'' @ VERSION, cr_protocols = ''https''\<rparr>"

definition list_http_get :: "curllib \<Rightarrow> string \<Rightarrow> cstr \<Rightarrow> gerror + string" where
  "list_http_get C url api_key =
     (if \<not> curl_easy_init C 0 then Inl (io_error E_FAILED ''Could not initialize libcurl.'')
      else
        (let (res, body) = curl_easy_perform C (list_request url api_key) list_write_cb []
         in if co_code res \<noteq> 0 \<or> co_status res \<noteq> 200
            then Inl (io_error E_FAILED (''Could not reach airvpn.org: '' @
                   (if co_errbuf res \<noteq> [] then co_errbuf res else curl_easy_strerror C (co_code res))))
            else Inr (c_str body)))"

definition nm_airvpn_server_list_fetch :: "curllib \<Rightarrow> gerror + string" where
  "nm_airvpn_server_list_fetch C = list_http_get C AIRVPN_STATUS_URL None"

section \<open>The devices of an account\<close>

definition device_name :: "('n, 'o, 'a, 'm, 'j) nodelib_scheme \<Rightarrow> 'a \<Rightarrow> nat \<Rightarrow> string list" where
  "device_name J devices i =
     (let item = js_array_object J devices i;
          name = (if js_has_member J item ''name'' then js_string_member J item ''name'' else None)
      in if nonempty_str name then [the name] else [])"

definition nm_airvpn_device_list_fetch ::
  "('n, 'o, 'a, 'm, 'j) nodelib_scheme \<Rightarrow> curllib \<Rightarrow> cstr \<Rightarrow> gerror + string list" where
  "nm_airvpn_device_list_fetch J C api_key =
     (case list_http_get C LIST_DEVICES_URL api_key of
        Inl e \<Rightarrow> Inl e
      | Inr json \<Rightarrow>
     (if json \<noteq> [] \<and> hd json = CHR ''{'' \<and> contains json ''\"error\"'' \<and> contains json ''Not authorized''
      then Inl (io_error E_PERMISSION_DENIED
             (''AirVPN rejected the API key (get a key at '' @ API_SETTINGS_URL @ '').''))
      else
     (case js_load_from_data J json of
        Inl e \<Rightarrow> Inl e
      | Inr parser \<Rightarrow>
     (case (case js_root_object J parser of
              None \<Rightarrow> None
            | Some root \<Rightarrow> if js_has_member J root ''devices''
                then js_array_member J root ''devices'' else None) of
        None \<Rightarrow> Inl (io_error E_INVALID_DATA ''Unexpected AirVPN devices list format.'')
      | Some devices \<Rightarrow>
          Inr (concat (map (device_name J devices) [0..<js_array_length J devices]))))))"

section \<open>The combo box\<close>

definition member_string :: "('n, 'o, 'a, 'm, 'j) nodelib_scheme \<Rightarrow> 'o \<Rightarrow> string \<Rightarrow> cstr" where
  "member_string J obj name =
     (if \<not> js_has_member J obj name then None
      else let node = js_get_member J obj name
           in if \<not> js_holds_value J node then None else js_node_string J node)"

definition member_int :: "('n, 'o, 'a, 'm, 'j) nodelib_scheme \<Rightarrow> 'o \<Rightarrow> string \<Rightarrow> int" where
  "member_int J obj name =
     (if \<not> js_has_member J obj name then - 1
      else let node = js_get_member J obj name
           in if \<not> js_holds_value J node then - 1 else js_node_int J node)"

text \<open>The combo box and whether the token has been selected.\<close>

record 'c fill_info =
  fi_combo :: 'c
  fi_selected :: bool

definition combo_add ::
  "('c, 'w) combolib_scheme \<Rightarrow> 'g glib_scheme \<Rightarrow> cstr \<Rightarrow> string \<Rightarrow> string \<Rightarrow> 'c fill_info \<Rightarrow> 'c fill_info" where
  "combo_add W L select_token token display info =
     (let combo = cb_append W token display (fi_combo info)
      in if (case select_token of None \<Rightarrow> False | Some t \<Rightarrow> g_strcaseeq L t token)
         then \<lparr>fi_combo = snd (cb_set_active_id W token combo), fi_selected = True\<rparr>
         else info\<lparr>fi_combo := combo\<rparr>)"

definition constrain_combo_display_width :: "('c, 'w) combolib_scheme \<Rightarrow> int \<Rightarrow> 'c \<Rightarrow> 'c" where
  "constrain_combo_display_width W max_chars combo =
     fold (\<lambda>(i, is_text) c. if is_text then cb_ellipsize W i max_chars c else c)
       (enumerate 0 (cb_text_cells W combo)) combo"

text \<open>An em dash, in UTF-8.\<close>

definition dash :: string where "dash = '' '' @ [CHR 0xE2, CHR 0x80, CHR 0x94] @ '' ''"

definition newline :: char where "newline = CHR 0x0A"

text \<open>The objects of an array of the list; an array that is missing or none has no elements.\<close>

definition elements :: "('n, 'o, 'a, 'm, 'j) nodelib_scheme \<Rightarrow> 'o \<Rightarrow> string \<Rightarrow> 'o list" where
  "elements J root name =
     (if js_has_member J root name
      then (case js_array_member J root name of
              None \<Rightarrow> []
            | Some arr \<Rightarrow> map (js_array_object J arr) [0..<js_array_length J arr])
      else [])"

definition continent_row :: "('n, 'o, 'a, 'm, 'j) nodelib_scheme \<Rightarrow> 'o \<Rightarrow> (string \<times> string) list" where
  "continent_row J item =
     (case member_string J item ''public_name'' of
        None \<Rightarrow> []
      | Some name \<Rightarrow> [(map ascii_lower name, name @ dash @ ''best server'')])"

definition country_line :: "('n, 'o, 'a, 'm, 'j) nodelib_scheme \<Rightarrow> 'o \<Rightarrow> string list" where
  "country_line J item =
     (let name = member_string J item ''country_name'';
          code = member_string J item ''country_code'';
          n_servers = member_int J item ''servers''
      in case (name, code) of
           (Some name, Some code) \<Rightarrow>
             [code @ newline # name @ '' ('' @ dec_of_int (max n_servers 0) @ '')'']
         | _ \<Rightarrow> [])"

definition server_line :: "('n, 'o, 'a, 'm, 'j) nodelib_scheme \<Rightarrow> 'o \<Rightarrow> string list" where
  "server_line J item =
     (let country = member_string J item ''country_name'';
          location = member_string J item ''location'';
          load = member_int J item ''currentload'';
          health = member_string J item ''health'';
          ill = (case health of None \<Rightarrow> False | Some h \<Rightarrow> h \<noteq> ''ok'')
      in case member_string J item ''public_name'' of
           None \<Rightarrow> []
         | Some name \<Rightarrow>
             [name @ newline # name @ dash @ (case country of None \<Rightarrow> ''?'' | Some c \<Rightarrow> c) @ '', ''
              @ (case location of None \<Rightarrow> ''?'' | Some l \<Rightarrow> l) @ '' ('' @ dec_of_int (max load 0) @ ''%''
              @ (if ill then '', '' else []) @ (if ill then the health else []) @ '')''])"

text \<open>A line is cut at its first newline.\<close>

definition cut_line :: "string \<Rightarrow> (string \<times> string) option" where
  "cut_line line =
     (case strchr line newline of
        None \<Rightarrow> None
      | Some nl \<Rightarrow> Some (take (length line - length nl) line, tl nl))"

fun add_lines ::
  "('c, 'w) combolib_scheme \<Rightarrow> 'g glib_scheme \<Rightarrow> cstr \<Rightarrow> string list \<Rightarrow> 'c fill_info \<Rightarrow> 'c fill_info option" where
  "add_lines W L select_token [] info = Some info"
| "add_lines W L select_token (line # lines) info =
     (case cut_line line of
        None \<Rightarrow> None
      | Some (token, display) \<Rightarrow>
          add_lines W L select_token lines (combo_add W L select_token token display info))"

definition fill_earth :: "('c, 'w) combolib_scheme \<Rightarrow> 'g glib_scheme \<Rightarrow> cstr \<Rightarrow> 'c \<Rightarrow> 'c fill_info" where
  "fill_earth W L select_token combo =
     combo_add W L select_token ''earth'' (''Earth'' @ dash @ ''any server'')
       \<lparr>fi_combo = constrain_combo_display_width W 22 (cb_remove_all W combo), fi_selected = False\<rparr>"

definition fill_finish :: "('c, 'w) combolib_scheme \<Rightarrow> 'g glib_scheme \<Rightarrow> cstr \<Rightarrow> 'c fill_info \<Rightarrow> 'c" where
  "fill_finish W L select_token info =
     (let combo =
        (if nonempty_str select_token \<and> \<not> fi_selected info
         then snd (cb_set_active_id W (the select_token)
                (fi_combo (combo_add W L select_token (the select_token) (the select_token) info)))
         else fi_combo info)
      in if cb_active W combo < 0 then snd (cb_set_active_id W ''earth'' combo) else combo)"

text \<open>The combo box, and the error of a \<open>FALSE\<close> return.\<close>

definition nm_airvpn_server_list_fill_combo ::
  "('c, 'w) combolib_scheme \<Rightarrow> 'g glib_scheme \<Rightarrow> ('n, 'o, 'a, 'm, 'j) nodelib_scheme
     \<Rightarrow> ((string \<Rightarrow> string \<Rightarrow> int) \<Rightarrow> string list \<Rightarrow> string list) \<Rightarrow> (string \<Rightarrow> string \<Rightarrow> int)
     \<Rightarrow> 'c \<Rightarrow> string \<Rightarrow> int \<Rightarrow> cstr \<Rightarrow> ('c \<times> gerror option) option" where
  "nm_airvpn_server_list_fill_combo W L J qsort collate combo json_text json_len select_token =
     (case js_load_from_data J (if json_len < 0 then json_text else take (nat json_len) json_text) of
        Inl e \<Rightarrow> Some (combo, Some e)
      | Inr parser \<Rightarrow>
     (case js_root_object J parser of
        None \<Rightarrow> Some (combo, Some (io_error E_INVALID_DATA ''Unexpected server list format.''))
      | Some root \<Rightarrow>
          (let info = fill_earth W L select_token combo;
               info = fold (\<lambda>(token, display). combo_add W L select_token token display)
                        (concat (map (continent_row J) (elements J root ''continents''))) info;
               countries = qsort collate (concat (map (country_line J) (elements J root ''countries'')));
               servers = qsort collate (concat (map (server_line J) (elements J root ''servers'')))
           in Option.bind (add_lines W L select_token countries info) (\<lambda>info.
              Option.bind (add_lines W L select_token servers info) (\<lambda>info.
                Some (fill_finish W L select_token info, None))))))"

section \<open>Facts\<close>

text \<open>
  Documented behaviour of \<open>GtkComboBoxText\<close> whose rows all have an id: rows are appended at the
  end and leave the selection alone; an id is selected if there is a row with it; removing all
  rows removes the selection.
\<close>

definition combo_doc :: "('c, 'w) combolib_scheme \<Rightarrow> bool" where
  "combo_doc W \<longleftrightarrow> (\<forall>c i t n w.
     cb_rows W (cb_append W i t c) = cb_rows W c @ [(i, t)]
   \<and> cb_active_id W (cb_append W i t c) = cb_active_id W c
   \<and> cb_set_active_id W i c = (i \<in> fst ` set (cb_rows W c), snd (cb_set_active_id W i c))
   \<and> cb_rows W (snd (cb_set_active_id W i c)) = cb_rows W c
   \<and> cb_active_id W (snd (cb_set_active_id W i c)) =
       (if i \<in> fst ` set (cb_rows W c) then Some i else cb_active_id W c)
   \<and> cb_rows W (cb_remove_all W c) = [] \<and> cb_active_id W (cb_remove_all W c) = None
   \<and> cb_rows W (cb_ellipsize W n w c) = cb_rows W c
   \<and> cb_active_id W (cb_ellipsize W n w c) = cb_active_id W c
   \<and> (cb_active W c < 0 \<longleftrightarrow> cb_active_id W c = None))"

lemma combo_docD:
  assumes "combo_doc W"
  shows "cb_rows W (cb_append W i t c) = cb_rows W c @ [(i, t)]"
    and "cb_active_id W (cb_append W i t c) = cb_active_id W c"
    and "fst (cb_set_active_id W i c) \<longleftrightarrow> i \<in> fst ` set (cb_rows W c)"
    and "cb_rows W (snd (cb_set_active_id W i c)) = cb_rows W c"
    and "cb_active_id W (snd (cb_set_active_id W i c)) =
      (if i \<in> fst ` set (cb_rows W c) then Some i else cb_active_id W c)"
    and "cb_rows W (cb_remove_all W c) = []" "cb_active_id W (cb_remove_all W c) = None"
    and "cb_rows W (cb_ellipsize W n w c) = cb_rows W c"
    and "cb_active_id W (cb_ellipsize W n w c) = cb_active_id W c"
    and "cb_active W c < 0 \<longleftrightarrow> cb_active_id W c = None"
  using assms unfolding combo_doc_def by (simp_all add: prod_eq_iff)

lemma constrain_keeps:
  assumes "combo_doc W"
  shows "cb_rows W (constrain_combo_display_width W n c) = cb_rows W c"
    "cb_active_id W (constrain_combo_display_width W n c) = cb_active_id W c"
proof -
  have "cb_rows W (fold (\<lambda>(i, b) c. if b then cb_ellipsize W i n c else c) xs c) = cb_rows W c
      \<and> cb_active_id W (fold (\<lambda>(i, b) c. if b then cb_ellipsize W i n c else c) xs c) = cb_active_id W c" for xs
    by (induction xs arbitrary: c) (auto simp: combo_docD [OF assms])
  then show "cb_rows W (constrain_combo_display_width W n c) = cb_rows W c"
    "cb_active_id W (constrain_combo_display_width W n c) = cb_active_id W c"
    by (simp_all add: constrain_combo_display_width_def)
qed

text \<open>Lines are always cut, since they are made with a newline.\<close>

definition line_row :: "string \<Rightarrow> string \<times> string" where
  "line_row line = (takeWhile (\<lambda>c. c \<noteq> newline) line, tl (dropWhile (\<lambda>c. c \<noteq> newline) line))"

lemma strchr_dropWhile: "c \<in> set s \<Longrightarrow> strchr s c = Some (dropWhile (\<lambda>x. x \<noteq> c) s)"
  by (induction s) auto

lemma cut_line_eq: "newline \<in> set line \<Longrightarrow> cut_line line = Some (line_row line)"
proof -
  assume "newline \<in> set line"
  then have "strchr line newline = Some (dropWhile (\<lambda>c. c \<noteq> newline) line)" by (rule strchr_dropWhile)
  moreover have "take (length line - length (dropWhile (\<lambda>c. c \<noteq> newline) line)) line = takeWhile (\<lambda>c. c \<noteq> newline) line"
    by (metis add_diff_cancel_right' append_eq_conv_conj length_append takeWhile_dropWhile_id)
  ultimately show ?thesis by (simp add: cut_line_def line_row_def)
qed

lemma country_line_newline: "l \<in> set (country_line J item) \<Longrightarrow> newline \<in> set l"
  by (auto simp: country_line_def Let_def split: option.splits)

lemma server_line_newline: "l \<in> set (server_line J item) \<Longrightarrow> newline \<in> set l"
  by (auto simp: server_line_def Let_def split: option.splits)

definition add_rows ::
  "('c, 'w) combolib_scheme \<Rightarrow> 'g glib_scheme \<Rightarrow> cstr \<Rightarrow> (string \<times> string) list \<Rightarrow> 'c fill_info \<Rightarrow> 'c fill_info" where
  "add_rows W L t = fold (\<lambda>(token, display). combo_add W L t token display)"

lemma add_lines_eq: "\<forall>l \<in> set lines. newline \<in> set l \<Longrightarrow> add_lines W L t lines info = Some (add_rows W L t (map line_row lines) info)"
  by (induction lines arbitrary: info) (auto simp: cut_line_eq add_rows_def line_row_def)

text \<open>The rows of a list after the first, and the whole of a successful run.\<close>

definition list_rows ::
  "('n, 'o, 'a, 'm, 'j) nodelib_scheme \<Rightarrow> ((string \<Rightarrow> string \<Rightarrow> int) \<Rightarrow> string list \<Rightarrow> string list)
     \<Rightarrow> (string \<Rightarrow> string \<Rightarrow> int) \<Rightarrow> 'o \<Rightarrow> (string \<times> string) list" where
  "list_rows J qsort collate root =
     (''earth'', ''Earth'' @ dash @ ''any server'')
     # concat (map (continent_row J) (elements J root ''continents''))
     @ map line_row (qsort collate (concat (map (country_line J) (elements J root ''countries''))))
     @ map line_row (qsort collate (concat (map (server_line J) (elements J root ''servers''))))"

lemma add_rows_rows:
  assumes "combo_doc W"
  shows "cb_rows W (fi_combo (add_rows W L t rs info)) = cb_rows W (fi_combo info) @ rs"
proof (induction rs arbitrary: info)
  case (Cons r rs)
  have "cb_rows W (fi_combo (combo_add W L t (fst r) (snd r) info)) = cb_rows W (fi_combo info) @ [r]" for info
    by (simp add: combo_add_def Let_def combo_docD [OF assms])
  with Cons.IH [of "combo_add W L t (fst r) (snd r) info"] show ?case
    by (simp add: add_rows_def case_prod_beta)
qed (simp add: add_rows_def)

lemma add_rows_append: "add_rows W L t (xs @ ys) info = add_rows W L t ys (add_rows W L t xs info)"
  by (simp add: add_rows_def)

text \<open>What is selected while the rows are added.\<close>

definition same_token :: "cstr \<Rightarrow> string \<Rightarrow> bool" where
  "same_token t a \<longleftrightarrow> (case t of None \<Rightarrow> False | Some s \<Rightarrow> map ascii_lower s = map ascii_lower a)"

definition selection_ok :: "('c, 'w) combolib_scheme \<Rightarrow> cstr \<Rightarrow> 'c fill_info \<Rightarrow> bool" where
  "selection_ok W t info \<longleftrightarrow>
     (if fi_selected info
      then (\<exists>a \<in> fst ` set (cb_rows W (fi_combo info)). same_token t a \<and> cb_active_id W (fi_combo info) = Some a)
      else cb_active_id W (fi_combo info) = None
        \<and> (\<forall>a \<in> fst ` set (cb_rows W (fi_combo info)). \<not> same_token t a))"

lemma combo_add_ok:
  assumes "combo_doc W" "ascii_doc L" "selection_ok W t info"
  shows "selection_ok W t (combo_add W L t token display info)"
proof -
  have eq: "(case t of None \<Rightarrow> False | Some s \<Rightarrow> g_strcaseeq L s token) \<longleftrightarrow> same_token t token"
    using assms(2) by (simp add: same_token_def ascii_doc_def split: option.split)
  show ?thesis
  proof (cases "same_token t token")
    case True
    then show ?thesis
      unfolding combo_add_def Let_def eq
      by (simp add: selection_ok_def combo_docD [OF assms(1)])
  next
    case False
    with assms(3) show ?thesis
      unfolding combo_add_def Let_def eq
      by (auto simp: selection_ok_def combo_docD [OF assms(1)] split: if_splits)
  qed
qed

lemma add_rows_ok:
  assumes "combo_doc W" "ascii_doc L" "selection_ok W t info"
  shows "selection_ok W t (add_rows W L t rs info)"
  using assms(3) combo_add_ok [OF assms(1,2)]
  by (induction rs arbitrary: info) (auto simp: add_rows_def)

lemma fill_earth_eq:
  "fill_earth W L t c = add_rows W L t [(''earth'', ''Earth'' @ dash @ ''any server'')]
     \<lparr>fi_combo = constrain_combo_display_width W 22 (cb_remove_all W c), fi_selected = False\<rparr>"
  by (simp add: fill_earth_def add_rows_def)

lemma fill_start_ok:
  "combo_doc W \<Longrightarrow> selection_ok W t \<lparr>fi_combo = constrain_combo_display_width W 22 (cb_remove_all W c), fi_selected = False\<rparr>"
  by (simp add: selection_ok_def constrain_keeps combo_docD)

text \<open>The whole run is one sequence of rows with its selection.\<close>

lemma fill_combo_eq:
  assumes "combo_doc W" "qsort_doc qsort" "three_way collate"
    and "js_load_from_data J (if n < 0 then json else take (nat n) json) = Inr p" "js_root_object J p = Some root"
  shows "nm_airvpn_server_list_fill_combo W L J qsort collate c json n t =
    Some (fill_finish W L t (add_rows W L t (list_rows J qsort collate root)
      \<lparr>fi_combo = constrain_combo_display_width W 22 (cb_remove_all W c), fi_selected = False\<rparr>), None)"
proof -
  have q: "set (qsort collate xs) = set xs" for xs
    using assms(2,3) unfolding qsort_doc_def by (metis set_mset_mset)
  have c: "\<forall>l \<in> set (qsort collate (concat (map (country_line J) (elements J root ''countries'')))). newline \<in> set l"
    and s: "\<forall>l \<in> set (qsort collate (concat (map (server_line J) (elements J root ''servers'')))). newline \<in> set l"
    unfolding q by (auto intro: country_line_newline server_line_newline)
  show ?thesis
    by (simp add: nm_airvpn_server_list_fill_combo_def assms(4,5) Let_def fill_earth_eq list_rows_def
        add_lines_eq [OF c] add_lines_eq [OF s] add_rows_append flip: add_rows_def)
      (simp add: add_rows_def)
qed

lemma fill_finish_cases:
  assumes "combo_doc W" "ascii_doc L" "selection_ok W t info" "''earth'' \<in> fst ` set (cb_rows W (fi_combo info))"
  shows "\<exists>a. cb_active_id W (fill_finish W L t info) = Some a \<and> a \<in> fst ` set (cb_rows W (fill_finish W L t info))
    \<and> (if nonempty_str t then same_token t a else same_token t a \<or> a = ''earth'')
    \<and> cb_rows W (fill_finish W L t info) = cb_rows W (fi_combo info)
        @ (if nonempty_str t \<and> \<not> (\<exists>b \<in> fst ` set (cb_rows W (fi_combo info)). same_token t b)
           then [(the t, the t)] else [])"
proof -
  note W = combo_docD [OF assms(1)]
  consider (selected) "fi_selected info" | (unknown) "\<not> fi_selected info" "nonempty_str t"
    | (none) "\<not> fi_selected info" "\<not> nonempty_str t" by blast
  then show ?thesis
  proof cases
    case selected
    with assms(3) obtain a where a: "a \<in> fst ` set (cb_rows W (fi_combo info))" "same_token t a"
        "cb_active_id W (fi_combo info) = Some a" by (auto simp: selection_ok_def)
    have "fill_finish W L t info = fi_combo info"
      using selected a by (simp add: fill_finish_def W Let_def)
    with a show ?thesis by auto
  next
    case unknown
    then obtain s where s: "t = Some s" by (cases t) auto
    let ?c = "fi_combo (combo_add W L t s s info)"
    have r: "cb_rows W ?c = cb_rows W (fi_combo info) @ [(s, s)]" by (simp add: combo_add_def Let_def W)
    moreover have "fill_finish W L t info = snd (cb_set_active_id W s ?c)"
      using unknown s r by (simp add: fill_finish_def W Let_def)
    ultimately show ?thesis
      using unknown s assms(3) by (intro exI [of _ s]) (auto simp: W same_token_def selection_ok_def)
  next
    case none
    with assms(3) have "cb_active_id W (fi_combo info) = None" by (simp add: selection_ok_def)
    with none have "fill_finish W L t info = snd (cb_set_active_id W ''earth'' (fi_combo info))"
      by (simp add: fill_finish_def W Let_def)
    with none assms(4) show ?thesis by (intro exI [of _ "''earth''"]) (simp add: W)
  qed
qed

section \<open>A reference instance, for witnesses\<close>

record ref_combo_state =
  rc_rows :: "(string \<times> string) list"
  rc_active :: cstr

definition ref_combo :: "ref_combo_state combolib" where
  "ref_combo = \<lparr>
     cb_append = (\<lambda>i t c. c\<lparr>rc_rows := rc_rows c @ [(i, t)]\<rparr>),
     cb_set_active_id = (\<lambda>i c. if i \<in> fst ` set (rc_rows c) then (True, c\<lparr>rc_active := Some i\<rparr>) else (False, c)),
     cb_remove_all = (\<lambda>c. c\<lparr>rc_rows := [], rc_active := None\<rparr>),
     cb_active_id = rc_active,
     cb_active = (\<lambda>c. if rc_active c = None then - 1 else 0),
     cb_text_cells = (\<lambda>_. [True]),
     cb_ellipsize = (\<lambda>_ _ c. c),
     cb_rows = rc_rows\<rparr>"

lemma ref_combo_doc: "combo_doc ref_combo"
  by (simp add: combo_doc_def ref_combo_def)

definition no_combo :: ref_combo_state where "no_combo = \<lparr>rc_rows = [], rc_active = None\<rparr>"

text \<open>An answer with one server, and one with one device.\<close>

definition ref_nodes :: "(unit, bool, unit, string) nodelib" where
  "ref_nodes = \<lparr>
     js_load_from_data = (\<lambda>s. if s = [] then Inl (io_error E_INVALID_DATA ''no JSON'') else Inr ()),
     js_root_object = (\<lambda>_. Some True),
     js_has_member = (\<lambda>is_root name. if is_root then name \<in> {''servers'', ''devices''}
                                       else name \<in> {''public_name'', ''name''}),
     js_array_member = (\<lambda>_ _. Some ()),
     js_array_length = (\<lambda>_. 1),
     js_array_object = (\<lambda>_ _. False),
     js_string_member = (\<lambda>_ _. Some ''Laptop''),
     js_get_member = (\<lambda>_ name. name),
     js_holds_value = (\<lambda>_. True),
     js_node_string = (\<lambda>_. Some ''Achernar''),
     js_node_int = (\<lambda>_. 5)\<rparr>"

section \<open>Properties\<close>

text \<open>
  C39. Filling the combo box with a list shows exactly the rows of the list: earth, the
  continents, the countries and servers in their sorted orders. The token asked for is selected, up to the case of
  letters, and gets a row of its own if the list has none; without a token earth is selected. The
  run dereferences no \<open>NULL\<close>, whatever the list holds.
\<close>

theorem fill_combo_result:
  assumes "combo_doc W" "ascii_doc L" "qsort_doc qsort" "three_way collate"
    and "js_load_from_data J (if n < 0 then json else take (nat n) json) = Inr p" "js_root_object J p = Some root"
  shows "\<exists>c' a. nm_airvpn_server_list_fill_combo W L J qsort collate c json n t = Some (c', None)
    \<and> cb_active_id W c' = Some a \<and> a \<in> fst ` set (cb_rows W c')
    \<and> (if nonempty_str t then same_token t a else same_token t a \<or> a = ''earth'')
    \<and> cb_rows W c' = list_rows J qsort collate root
        @ (if nonempty_str t \<and> \<not> (\<exists>b \<in> fst ` set (list_rows J qsort collate root). same_token t b)
           then [(the t, the t)] else [])"
proof -
  let ?start = "\<lparr>fi_combo = constrain_combo_display_width W 22 (cb_remove_all W c), fi_selected = False\<rparr>"
  let ?info = "add_rows W L t (list_rows J qsort collate root) ?start"
  have rows: "cb_rows W (fi_combo ?info) = list_rows J qsort collate root"
    by (simp add: add_rows_rows [OF assms(1)] constrain_keeps [OF assms(1)] combo_docD [OF assms(1)])
  have ok: "selection_ok W t ?info"
    by (rule add_rows_ok [OF assms(1,2) fill_start_ok [OF assms(1)]])
  have "''earth'' \<in> fst ` set (cb_rows W (fi_combo ?info))" unfolding rows by (simp add: list_rows_def)
  from fill_finish_cases [OF assms(1,2) ok this, unfolded rows] fill_combo_eq [OF assms(1,3-6)]
  show ?thesis by blast
qed

theorem fill_combo_result_witness:
  "\<exists>c'. nm_airvpn_server_list_fill_combo ref_combo ref_lib ref_nodes ref_qsort nm_strcmp_p_with_data no_combo ''{'' (- 1) (Some ''ACHERNAR'')
     = Some (c', None) \<and> same_token (Some ''ACHERNAR'') (the (cb_active_id ref_combo c'))"
proof -
  have l: "js_load_from_data ref_nodes (if (- 1 :: int) < 0 then ''{'' else take (nat (- 1)) ''{'') = Inr ()"
      "js_root_object ref_nodes () = Some True"
    by (simp_all add: ref_nodes_def)
  show ?thesis
    using fill_combo_result [OF ref_combo_doc ref_ascii_doc ref_qsort_doc str.three_way_axioms l, of no_combo "Some ''ACHERNAR''"]
    by (elim exE conjE) (simp)
qed

text \<open>
  Where the list cannot be read, the combo box is left as it is.
\<close>

lemma fill_combo_error:
  "nm_airvpn_server_list_fill_combo W L J qsort collate c json n t = Some (c', Some e) \<Longrightarrow> c' = c"
  by (auto simp: nm_airvpn_server_list_fill_combo_def Let_def bind_eq_Some_conv split: sum.splits option.splits)

end
