(* ===== verification/NM_Strings.thy ===== *)
theory NM_Strings
  imports NM_Shared_Utils "HOL-Library.Sublist"
begin

text \<open>
  String vectors and escaping of \<open>shared/nm-utils/nm-shared-utils.c\<close>: splitting at a set of
  delimiters, searching and cleaning vectors, and the reversible escaping of strings that need
  not be valid UTF-8. UTF-8 validation and \<open>g_strcompress\<close> are parameters.
\<close>

section \<open>Splitting\<close>

text \<open>The words of a string that starts with one; \<open>P\<close> is the lookup table of delimiters.\<close>

function words_loop :: "(char \<Rightarrow> bool) \<Rightarrow> string \<Rightarrow> string list" where
  "words_loop P s =
     (let w = takeWhile (\<lambda>c. \<not> P c) s;
          r = dropWhile P (dropWhile (\<lambda>c. \<not> P c) s)
      in if r = [] then [w] else w # words_loop P r)"
  by pat_completeness auto
termination
proof (relation "measure (\<lambda>(P, s). length s)")
  fix P :: "char \<Rightarrow> bool" and s r
  assume r: "r = dropWhile P (dropWhile (\<lambda>c. \<not> P c) s)" "r \<noteq> []"
  have "length r < length s"
  proof (cases "dropWhile (\<lambda>c. \<not> P c) s")
    case Nil
    with r show ?thesis by simp
  next
    case (Cons c cs)
    then have "P c" using hd_dropWhile [of "\<lambda>c. \<not> P c" s] by simp
    then have "length r \<le> length cs" using r(1) Cons length_dropWhile_le [of P cs] by simp
    also have "\<dots> < length s" using Cons length_dropWhile_le [of "\<lambda>c. \<not> P c" s] by simp
    finally show ?thesis .
  qed
  then show "((P, r), (P, s)) \<in> measure (\<lambda>(P, s). length s)" by simp
qed simp

declare words_loop.simps [simp del]

text \<open>The delimiters default to blank, tab and newline; \<open>None\<close> is the \<open>NULL\<close> result.\<close>

definition default_delimiters :: string where "default_delimiters = [CHR '' '', CHR 0x09, CHR 0x0A]"

definition nm_utils_strsplit_set :: "cstr \<Rightarrow> cstr \<Rightarrow> string list option" where
  "nm_utils_strsplit_set str delimiters =
     (case str of
        None \<Rightarrow> None
      | Some str \<Rightarrow>
          (let P = (\<lambda>c. c \<in> set (case delimiters of None \<Rightarrow> default_delimiters | Some d \<Rightarrow> d));
               str = dropWhile P str
           in if str = [] then None else Some (words_loop P str)))"

section \<open>String vectors\<close>

text \<open>
  An array of a known length may hold \<open>NULL\<close>; one without ends at the first \<open>NULL\<close>. Reading
  behind the end of the array is \<open>None\<close>.
\<close>

fun find_counted :: "cstr list \<Rightarrow> nat \<Rightarrow> cstr \<Rightarrow> int \<Rightarrow> int option" where
  "find_counted xs 0 needle i = Some (- 1)"
| "find_counted [] (Suc n) needle i = None"
| "find_counted (x # xs) (Suc n) needle i =
     (if x = needle then Some i else find_counted xs n needle (i + 1))"

fun find_terminated :: "cstr list \<Rightarrow> string \<Rightarrow> int \<Rightarrow> int option" where
  "find_terminated [] needle i = None"
| "find_terminated (None # xs) needle i = Some (- 1)"
| "find_terminated (Some x # xs) needle i =
     (if x = needle then Some i else find_terminated xs needle (i + 1))"

definition nm_utils_strv_find_first :: "cstr list option \<Rightarrow> int \<Rightarrow> cstr \<Rightarrow> int option" where
  "nm_utils_strv_find_first lst len needle =
     (if len > 0
      then (case lst of None \<Rightarrow> Some (- 1) | Some xs \<Rightarrow> find_counted xs (nat len) needle 0)
      else if len < 0
      then (case needle of
              None \<Rightarrow> Some (- 1)
            | Some n \<Rightarrow> (case lst of None \<Rightarrow> Some (- 1) | Some xs \<Rightarrow> find_terminated xs n 0))
      else Some (- 1))"

text \<open>
  The vector is the strings before its \<open>NULL\<close>; \<open>kept\<close> are the first \<open>j\<close> of them after the
  removals so far.
\<close>

fun cleanup_loop :: "bool \<Rightarrow> bool \<Rightarrow> string list \<Rightarrow> string list \<Rightarrow> string list option" where
  "cleanup_loop skip_empty skip_repeated kept [] = Some kept"
| "cleanup_loop skip_empty skip_repeated kept (s # ss) =
     (if skip_empty \<and> s = [] then cleanup_loop skip_empty skip_repeated kept ss
      else if skip_repeated
      then (case nm_utils_strv_find_first (Some (map Some kept)) (int (length kept)) (Some s) of
              None \<Rightarrow> None
            | Some i \<Rightarrow>
                if i \<ge> 0 then cleanup_loop skip_empty skip_repeated kept ss
                else cleanup_loop skip_empty skip_repeated (kept @ [s]) ss)
      else cleanup_loop skip_empty skip_repeated (kept @ [s]) ss)"

definition nm_utils_strv_cleanup ::
  "'g glib_scheme \<Rightarrow> string list option \<Rightarrow> bool \<Rightarrow> bool \<Rightarrow> bool \<Rightarrow> string list option option" where
  "nm_utils_strv_cleanup L strv strip_whitespace skip_empty skip_repeated =
     (case strv of
        None \<Rightarrow> Some None
      | Some ss \<Rightarrow>
          if ss = [] then Some (Some ss)
          else
            (let ss = (if strip_whitespace then map (g_strstrip L) ss else ss)
             in if \<not> skip_empty \<and> \<not> skip_repeated then Some (Some ss)
                else map_option Some (cleanup_loop skip_empty skip_repeated [] ss)))"

text \<open>The copies of the strings are the strings.\<close>

definition nm_utils_strv_make_deep_copied :: "string list option \<Rightarrow> string list option" where
  "nm_utils_strv_make_deep_copied strv = (case strv of None \<Rightarrow> None | Some ss \<Rightarrow> Some ss)"

definition nm_utils_strv_make_deep_copied_nonnull :: "string list option \<Rightarrow> string list" where
  "nm_utils_strv_make_deep_copied_nonnull strv =
     (case nm_utils_strv_make_deep_copied strv of None \<Rightarrow> [] | Some ss \<Rightarrow> ss)"

definition nm_utils_is_separator :: "char \<Rightarrow> bool" where
  "nm_utils_is_separator c = (c \<in> {CHR '' '', CHR 0x09})"

section \<open>Escaping\<close>

text \<open>
  \<open>utf8_prefix\<close> is the number of bytes \<open>g_utf8_validate\<close> accepts; \<open>char_signed\<close> tells whether
  the type \<open>char\<close> of the platform is signed, which decides \<open>ch < ' '\<close> for bytes from 128 on.
\<close>

record utf8lib =
  utf8_prefix :: "string \<Rightarrow> nat"
  char_signed :: bool
  g_strcompress :: "string \<Rightarrow> string"

definition below_space :: "bool \<Rightarrow> char \<Rightarrow> bool" where
  "below_space sgnd ch =
     (let n = of_char ch :: nat in n < 32 \<or> (sgnd \<and> 128 \<le> n))"

definition ESCAPE_CTRL :: "32 word" where "ESCAPE_CTRL = 1"
definition ESCAPE_NON_ASCII :: "32 word" where "ESCAPE_NON_ASCII = 2"

definition octal_digit :: "nat \<Rightarrow> char" where
  "octal_digit n = char_of (48 + n)"

definition str_append_escape :: "char \<Rightarrow> string" where
  "str_append_escape ch =
     (let n = of_char ch :: nat
      in [CHR 0x5C, octal_digit (n div 64 mod 8), octal_digit (n div 8 mod 8), octal_digit (n mod 8)])"

definition must_escape :: "'u utf8lib_scheme \<Rightarrow> 32 word \<Rightarrow> char \<Rightarrow> bool" where
  "must_escape U flags ch \<longleftrightarrow>
     (flags AND ESCAPE_CTRL \<noteq> 0 \<and> below_space (char_signed U) ch)
     \<or> (flags AND ESCAPE_NON_ASCII \<noteq> 0 \<and> (of_char ch :: nat) \<ge> 127)"

definition escape_char :: "'u utf8lib_scheme \<Rightarrow> 32 word \<Rightarrow> char \<Rightarrow> string" where
  "escape_char U flags ch =
     (if ch = CHR 0x5C then [CHR 0x5C, CHR 0x5C]
      else if must_escape U flags ch then str_append_escape ch
      else [ch])"

text \<open>The outer loop: a valid stretch, then one byte that is not.\<close>

function escape_loop :: "'u utf8lib_scheme \<Rightarrow> 32 word \<Rightarrow> string \<Rightarrow> string" where
  "escape_loop U flags str =
     (let n = utf8_prefix U str
      in concat (map (escape_char U flags) (take n str))
         @ (case drop n str of
              [] \<Rightarrow> []
            | c # r \<Rightarrow> str_append_escape c @ escape_loop U flags r))"
  by pat_completeness auto
termination
proof (relation "measure (\<lambda>(U, flags, str). length str)")
  fix U :: "'u utf8lib_scheme" and flags :: "32 word" and str n c r
  assume "n = utf8_prefix U str" "drop n str = c # r"
  then have "length str - n = Suc (length r)" by (metis length_Cons length_drop)
  then show "((U, flags, r), (U, flags, str)) \<in> measure (\<lambda>(U, flags, str). length str)" by simp
qed simp

declare escape_loop.simps [simp del]

definition nm_utils_str_utf8safe_escape :: "'u utf8lib_scheme \<Rightarrow> cstr \<Rightarrow> 32 word \<Rightarrow> cstr" where
  "nm_utils_str_utf8safe_escape U str flags =
     (if \<not> nonempty_str str then str
      else
        (let s = the str
         in if utf8_prefix U s \<ge> length s
               \<and> \<not> list_ex (\<lambda>ch. ch = CHR 0x5C \<or> must_escape U flags ch) s
            then str
            else Some (escape_loop U flags s)))"

definition nm_utils_str_utf8safe_unescape :: "'u utf8lib_scheme \<Rightarrow> cstr \<Rightarrow> cstr" where
  "nm_utils_str_utf8safe_unescape U str =
     (case str of
        None \<Rightarrow> None
      | Some s \<Rightarrow> if strchr s CHR 0x5C = None then Some s else Some (g_strcompress U s))"

text \<open>The variants that return a copy.\<close>

definition nm_utils_str_utf8safe_escape_cp :: "'u utf8lib_scheme \<Rightarrow> cstr \<Rightarrow> 32 word \<Rightarrow> cstr" where
  "nm_utils_str_utf8safe_escape_cp U str flags = nm_utils_str_utf8safe_escape U str flags"

definition nm_utils_str_utf8safe_unescape_cp :: "'u utf8lib_scheme \<Rightarrow> cstr \<Rightarrow> cstr" where
  "nm_utils_str_utf8safe_unescape_cp U str = map_option (g_strcompress U) str"

definition nm_utils_str_utf8safe_escape_take :: "'u utf8lib_scheme \<Rightarrow> cstr \<Rightarrow> 32 word \<Rightarrow> cstr" where
  "nm_utils_str_utf8safe_escape_take U str flags = nm_utils_str_utf8safe_escape U str flags"

section \<open>Facts\<close>

definition nonempty_words :: "(char \<Rightarrow> bool) \<Rightarrow> string \<Rightarrow> string list" where
  "nonempty_words P s = filter (\<lambda>w. w \<noteq> []) (split_by P s)"

lemma nonempty_words_skip: "nonempty_words P (dropWhile P s) = nonempty_words P s"
  by (induction s) (auto simp: nonempty_words_def)

lemma words_loop_nonempty: "words_loop P s \<noteq> []"
proof -
  have "(if b then [w] else w # ws) \<noteq> []" for b and w :: string and ws by simp
  then show ?thesis unfolding words_loop.simps [of P s] Let_def .
qed

lemma words_loop_eq:
  assumes "s \<noteq> []" "\<not> P (hd s)"
  shows "words_loop P s = nonempty_words P s"
  using assms
proof (induction P s rule: words_loop.induct)
  case (1 P s)
  let ?w = "takeWhile (\<lambda>c. \<not> P c) s"
  let ?d = "dropWhile (\<lambda>c. \<not> P c) s"
  have w: "?w \<noteq> []" "\<forall>c \<in> set ?w. \<not> P c"
    using "1.prems" by (cases s; auto dest: set_takeWhileD)+
  show ?case
  proof (cases ?d)
    case Nil
    then have "?w = s" by (metis append_Nil2 takeWhile_dropWhile_id)
    moreover from this have "words_loop P s = [s]"
      unfolding words_loop.simps [of P s] Let_def Nil by simp
    ultimately show ?thesis using w "1.prems" by (simp add: nonempty_words_def split_by_none)
  next
    case (Cons c d)
    then have c: "P c" using hd_dropWhile [of "\<lambda>c. \<not> P c" s] by simp
    have s: "s = ?w @ c # d" using Cons by (metis takeWhile_dropWhile_id)
    have "split_by P s = [?w] @ split_by P d"
      by (subst s) (simp add: split_by_append c split_by_none w(2))
    then have eq: "nonempty_words P s = ?w # nonempty_words P (dropWhile P d)"
      using w(1) nonempty_words_skip [of P d] by (simp add: nonempty_words_def)
    have r: "dropWhile P ?d = dropWhile P d" using Cons c by simp
    show ?thesis
    proof (cases "dropWhile P d = []")
      case True
      have "words_loop P s = [?w]" unfolding words_loop.simps [of P s] Let_def r True by simp
      moreover have "nonempty_words P (dropWhile P d) = []" unfolding True by (simp add: nonempty_words_def)
      ultimately show ?thesis using eq by simp
    next
      case False
      then have "\<not> P (hd (dropWhile P d))" by (rule hd_dropWhile)
      with "1.IH" [OF refl refl] False r have "words_loop P (dropWhile P d) = nonempty_words P (dropWhile P d)"
        by simp
      moreover have "words_loop P s = ?w # words_loop P (dropWhile P d)"
        unfolding words_loop.simps [of P s] Let_def r by (simp only: False if_False)
      ultimately show ?thesis using eq by simp
    qed
  qed
qed

lemma find_counted_Some:
  "length xs = n \<Longrightarrow> \<exists>j. find_counted (map Some xs) n (Some s) i = Some j \<and> (0 \<le> i \<longrightarrow> (0 \<le> j \<longleftrightarrow> s \<in> set xs))"
proof (induction xs arbitrary: n i)
  case (Cons x xs)
  then obtain m where n: "n = Suc m" "length xs = m" by auto
  from Cons.IH [OF n(2), of "i + 1"] obtain j where
    "find_counted (map Some xs) m (Some s) (i + 1) = Some j" "0 \<le> i + 1 \<longrightarrow> (0 \<le> j \<longleftrightarrow> s \<in> set xs)" by blast
  then show ?case using n by auto
qed auto

lemma find_in_kept:
  "\<exists>j. nm_utils_strv_find_first (Some (map Some kept)) (int (length kept)) (Some s) = Some j
     \<and> (0 \<le> j \<longleftrightarrow> s \<in> set kept)"
  using find_counted_Some [of kept "length kept" s 0]
  by (cases "kept = []") (auto simp: nm_utils_strv_find_first_def)

text \<open>The first occurrence of every string.\<close>

fun firsts :: "'a list \<Rightarrow> 'a list \<Rightarrow> 'a list" where
  "firsts seen [] = []"
| "firsts seen (x # xs) = (if x \<in> set seen then firsts seen xs else x # firsts (seen @ [x]) xs)"

lemma set_firsts: "set (firsts seen xs) = set xs - set seen"
  by (induction xs arbitrary: seen) auto

lemma distinct_firsts: "distinct (firsts seen xs)"
  by (induction xs arbitrary: seen) (auto simp: set_firsts)

lemma subseq_firsts: "subseq (firsts seen xs) xs"
  by (induction xs arbitrary: seen) auto

lemma cleanup_loop_eq:
  "cleanup_loop skip_empty skip_repeated kept ss = Some (kept @
     (let ss = (if skip_empty then filter (\<lambda>s. s \<noteq> []) ss else ss)
      in if skip_repeated then firsts kept ss else ss))"
proof (induction ss arbitrary: kept)
  case (Cons s ss)
  obtain j where "nm_utils_strv_find_first (Some (map Some kept)) (int (length kept)) (Some s) = Some j"
      "0 \<le> j \<longleftrightarrow> s \<in> set kept" using find_in_kept by blast
  with Cons show ?case by (auto simp: Let_def)
qed simp

text \<open>
  Documented behaviour of \<open>g_strcompress\<close>: a doubled backslash is one, a backslash and three octal
  digits are a byte, other bytes stand for themselves.
\<close>

definition compress_doc :: "'u utf8lib_scheme \<Rightarrow> bool" where
  "compress_doc U \<longleftrightarrow>
     g_strcompress U [] = []
   \<and> (\<forall>c r. c \<noteq> CHR 0x5C \<longrightarrow> g_strcompress U (c # r) = c # g_strcompress U r)
   \<and> (\<forall>r. g_strcompress U (CHR 0x5C # CHR 0x5C # r) = CHR 0x5C # g_strcompress U r)
   \<and> (\<forall>c r. c \<noteq> CHR 0x00 \<longrightarrow> g_strcompress U (str_append_escape c @ r) = c # g_strcompress U r)"

lemma compress_docD:
  assumes "compress_doc U"
  shows "g_strcompress U [] = []" "c \<noteq> CHR 0x5C \<Longrightarrow> g_strcompress U (c # r) = c # g_strcompress U r"
    "g_strcompress U (CHR 0x5C # CHR 0x5C # r) = CHR 0x5C # g_strcompress U r"
    "c \<noteq> CHR 0x00 \<Longrightarrow> g_strcompress U (str_append_escape c @ r) = c # g_strcompress U r"
  using assms unfolding compress_doc_def by blast+

lemma compress_escape_char:
  assumes "compress_doc U" "c \<noteq> CHR 0x00"
  shows "g_strcompress U (escape_char U flags c @ r) = c # g_strcompress U r"
  using compress_docD [OF assms(1)] assms(2) by (auto simp: escape_char_def)

lemma compress_escape_chars:
  assumes "compress_doc U" "CHR 0x00 \<notin> set s"
  shows "g_strcompress U (concat (map (escape_char U flags) s) @ r) = s @ g_strcompress U r"
  using assms(2)
  by (induction s) (auto simp: compress_escape_char [OF assms(1)])

lemma compress_escape_loop:
  assumes "compress_doc U" "CHR 0x00 \<notin> set s"
  shows "g_strcompress U (escape_loop U flags s) = s"
  using assms
proof (induction U flags s rule: escape_loop.induct)
  case (1 U flags s)
  let ?n = "utf8_prefix U s"
  have t: "CHR 0x00 \<notin> set (take ?n s)" using "1.prems"(2) by (auto dest: in_set_takeD)
  show ?case
  proof (cases "drop ?n s")
    case Nil
    then have "take ?n s = s" by simp
    with Nil show ?thesis
      using compress_escape_chars [OF "1.prems", of flags "[]"] compress_docD(1) [OF "1.prems"(1)]
      by (simp add: escape_loop.simps [of U flags s] Let_def)
  next
    case (Cons c r)
    have s: "s = take ?n s @ c # r" using Cons by (metis append_take_drop_id)
    have z: "c \<noteq> CHR 0x00" "CHR 0x00 \<notin> set r"
      using "1.prems"(2) arg_cong [OF s, of set] by auto
    have "g_strcompress U (escape_loop U flags r) = r" using "1.IH" [OF refl Cons "1.prems"(1) z(2)] .
    then have "g_strcompress U (escape_loop U flags s) = take ?n s @ c # r"
      using Cons compress_escape_chars [OF "1.prems"(1) t] compress_docD(4) [OF "1.prems"(1) z(1)]
      by (simp add: escape_loop.simps [of U flags s] Let_def)
    with s show ?thesis by simp
  qed
qed

lemma compress_plain:
  assumes "compress_doc U" "CHR 0x5C \<notin> set s"
  shows "g_strcompress U s = s"
  using assms(2) by (induction s) (auto simp: compress_docD [OF assms(1)])

lemma unescape_eq_compress:
  "compress_doc U \<Longrightarrow> nm_utils_str_utf8safe_unescape U (Some s) = Some (g_strcompress U s)"
  using strchr_Some_iff [of s "CHR 0x5C"]
  by (auto simp: nm_utils_str_utf8safe_unescape_def compress_plain)

lemma octal_low: "n < 8 \<Longrightarrow> (of_char (octal_digit n) :: nat) < 128"
  by (simp add: octal_digit_def)

lemma escape_low: "\<forall>x \<in> set (str_append_escape c). (of_char x :: nat) < 128"
  using octal_low by (simp add: str_append_escape_def Let_def)

lemma must_escape_high:
  assumes "(of_char c :: nat) \<ge> 128"
    and "flags AND ESCAPE_NON_ASCII \<noteq> 0 \<or> flags AND ESCAPE_CTRL \<noteq> 0 \<and> char_signed U"
  shows "must_escape U flags c"
  using assms by (auto simp: must_escape_def below_space_def Let_def)

lemma escape_char_low:
  assumes "flags AND ESCAPE_NON_ASCII \<noteq> 0 \<or> flags AND ESCAPE_CTRL \<noteq> 0 \<and> char_signed U"
  shows "\<forall>x \<in> set (escape_char U flags c). (of_char x :: nat) < 128"
proof (cases "128 \<le> (of_char c :: nat)")
  case True
  then show ?thesis using must_escape_high [OF _ assms] escape_low by (simp add: escape_char_def)
next
  case False
  then show ?thesis using escape_low by (auto simp: escape_char_def)
qed

lemma escape_loop_low:
  assumes "flags AND ESCAPE_NON_ASCII \<noteq> 0 \<or> flags AND ESCAPE_CTRL \<noteq> 0 \<and> char_signed U"
  shows "\<forall>x \<in> set (escape_loop U flags s). (of_char x :: nat) < 128"
  using assms
proof (induction U flags s rule: escape_loop.induct)
  case (1 U flags s)
  have low: "\<forall>x \<in> set (concat (map (escape_char U flags) u)). (of_char x :: nat) < 128" for u
    using escape_char_low [OF "1.prems"] by auto
  show ?case
  proof (cases "drop (utf8_prefix U s) s")
    case Nil
    then show ?thesis using low by (simp add: escape_loop.simps [of U flags s] Let_def)
  next
    case (Cons c r)
    from "1.IH" [OF refl Cons "1.prems"] low [of "take (utf8_prefix U s) s"] escape_low [of c] Cons
    show ?thesis by (auto simp: escape_loop.simps [of U flags s] Let_def)
  qed
qed

section \<open>A reference instance\<close>

fun ref_compress :: "string \<Rightarrow> string" where
  "ref_compress [] = []"
| "ref_compress (c # r) =
     (if c \<noteq> CHR 0x5C then c # ref_compress r
      else case r of
          [] \<Rightarrow> []
        | d # r \<Rightarrow>
            if d = CHR 0x5C then CHR 0x5C # ref_compress r
            else (case r of
                d2 # d3 # r \<Rightarrow> char_of (64 * (of_char d - 48) + 8 * (of_char d2 - 48) + (of_char d3 - 48 :: nat))
                  # ref_compress r
              | _ \<Rightarrow> []))"

text \<open>ASCII counts as valid, other bytes as invalid.\<close>

definition ref_utf8 :: "bool \<Rightarrow> utf8lib" where
  "ref_utf8 sgnd = \<lparr>utf8_prefix = (\<lambda>s. length (takeWhile (\<lambda>c. of_char c < (128 :: nat)) s)),
     char_signed = sgnd, g_strcompress = ref_compress\<rparr>"

lemma octal_value: "n < 8 \<Longrightarrow> (of_char (octal_digit n) :: nat) = 48 + n"
  by (simp add: octal_digit_def)

lemma octal_not_backslash: "n < 8 \<Longrightarrow> octal_digit n \<noteq> CHR 0x5C"
proof
  assume n: "n < 8" "octal_digit n = CHR 0x5C"
  have "(of_char (octal_digit n) :: nat) = 92" unfolding n(2) by simp
  with octal_value [OF n(1)] n(1) show False by simp
qed

lemma ref_compress_doc: "compress_doc (ref_utf8 sgnd)"
proof -
  have "ref_compress (str_append_escape c @ r) = c # ref_compress r" for c r
  proof -
    let ?n = "of_char c :: nat"
    have n: "?n < 256" by (rule nat_of_char_less_256)
    have "8 * (?n div 8) + ?n mod 8 = ?n" "8 * (?n div 8 div 8) + ?n div 8 mod 8 = ?n div 8"
      by (rule mult_div_mod_eq)+
    moreover have "?n div 8 div 8 = ?n div 64" by (simp add: div_mult2_eq [symmetric])
    moreover have "?n div 64 < 8" by (rule less_mult_imp_div_less) (rule less_trans [OF n], simp)
    then have "?n div 64 mod 8 = ?n div 64" by (rule mod_less)
    ultimately have "64 * (?n div 64 mod 8) + 8 * (?n div 8 mod 8) + ?n mod 8 = ?n" by linarith
    then have "char_of (64 * (?n div 64 mod 8) + 8 * (?n div 8 mod 8) + ?n mod 8) = char_of ?n"
      by (rule arg_cong)
    then have "char_of (64 * (?n div 64 mod 8) + 8 * (?n div 8 mod 8) + ?n mod 8) = c"
      unfolding char_of_char .
    then show ?thesis
      by (simp add: str_append_escape_def Let_def octal_value octal_not_backslash)
  qed
  then show ?thesis by (simp add: compress_doc_def ref_utf8_def)
qed

section \<open>Properties\<close>

text \<open>
  Splitting at a set of delimiters gives the non-empty words that \<open>g_strsplit_set\<close> gives, in
  order, and \<open>NULL\<close> when there is none; without delimiters it splits at blanks, tabs and
  newlines. The loop over the words ends.
\<close>

theorem strsplit_set_words:
  assumes "split_doc L"
  shows "nm_utils_strsplit_set (Some str) delims =
    (case filter (\<lambda>w. w \<noteq> []) (g_strsplit_set L str (case delims of None \<Rightarrow> default_delimiters | Some d \<Rightarrow> d)) of
       [] \<Rightarrow> None | w # ws \<Rightarrow> Some (w # ws))"
proof -
  let ?d = "case delims of None \<Rightarrow> default_delimiters | Some d \<Rightarrow> d"
  let ?P = "\<lambda>c. c \<in> set ?d"
  let ?s = "dropWhile ?P str"
  have g: "filter (\<lambda>w. w \<noteq> []) (g_strsplit_set L str ?d) = nonempty_words ?P ?s"
    unfolding nonempty_words_skip by (simp add: strsplit_set_eq [OF assms] nonempty_words_def)
  show ?thesis
  proof (cases "?s = []")
    case True
    have "nm_utils_strsplit_set (Some str) delims = None"
      unfolding nm_utils_strsplit_set_def Let_def option.case using True by (rule if_P)
    then show ?thesis unfolding g unfolding True by (simp add: nonempty_words_def)
  next
    case False
    then have h: "\<not> ?P (hd ?s)" by (rule hd_dropWhile)
    have "words_loop ?P ?s = nonempty_words ?P ?s" using False h by (rule words_loop_eq)
    moreover have "words_loop ?P ?s \<noteq> []" by (rule words_loop_nonempty)
    moreover have "nm_utils_strsplit_set (Some str) delims = Some (words_loop ?P ?s)"
      unfolding nm_utils_strsplit_set_def Let_def option.case using False by (rule if_not_P)
    ultimately show ?thesis
      unfolding g by (cases "nonempty_words ?P ?s") simp_all
  qed
qed

theorem strsplit_set_words_witness:
  "nm_utils_strsplit_set (Some ''  a bc '') None = Some [''a'', ''bc'']"
  using strsplit_set_words [OF ref_split_doc, of "''  a bc ''" None]
  by (simp add: strsplit_set_eq [OF ref_split_doc] default_delimiters_def)

text \<open>
  Cleaning a vector never reads outside it; with both removals requested the result has
  the non-empty strings, each once, in the order of their first occurrences.
\<close>

theorem strv_cleanup_firsts:
  "\<exists>ys. nm_utils_strv_cleanup L (Some xs) strip True True = Some (Some ys) \<and> distinct ys
     \<and> set ys = set (if strip then map (g_strstrip L) xs else xs) - {[]}
     \<and> subseq ys (if strip then map (g_strstrip L) xs else xs)"
proof (cases "xs = []")
  case False
  let ?xs = "if strip then map (g_strstrip L) xs else xs"
  let ?ys = "firsts [] (filter (\<lambda>s. s \<noteq> []) ?xs)"
  have "nm_utils_strv_cleanup L (Some xs) strip True True = Some (Some ?ys)"
    using False by (simp add: nm_utils_strv_cleanup_def cleanup_loop_eq Let_def)
  moreover have "subseq ?ys ?xs"
    by (meson subseq_firsts subseq_filter_left subseq_order.order_trans)
  moreover have "set ?ys = set ?xs - {[]}" unfolding set_firsts by auto
  ultimately show ?thesis using distinct_firsts by blast
qed (simp add: nm_utils_strv_cleanup_def)

text \<open>
  C34. Unescaping reverts the escaping of every string, valid UTF-8 or not, whatever the flags.
\<close>

theorem utf8safe_roundtrip:
  assumes "compress_doc U" "CHR 0x00 \<notin> set s"
  shows "nm_utils_str_utf8safe_unescape U (nm_utils_str_utf8safe_escape U (Some s) flags) = Some s"
proof (cases "nonempty_str (Some s) \<and> (utf8_prefix U s < length s
    \<or> list_ex (\<lambda>ch. ch = CHR 0x5C \<or> must_escape U flags ch) s)")
  case True
  then have "nm_utils_str_utf8safe_escape U (Some s) flags = Some (escape_loop U flags s)"
    by (auto simp: nm_utils_str_utf8safe_escape_def)
  then show ?thesis
    using compress_escape_loop [OF assms] by (simp add: unescape_eq_compress [OF assms(1)])
next
  case False
  then have "nm_utils_str_utf8safe_escape U (Some s) flags = Some s"
    by (cases "s = []") (simp_all add: nm_utils_str_utf8safe_escape_def not_less)
  moreover have "CHR 0x5C \<notin> set s" using False by (cases "s = []") (auto simp: list_ex_iff)
  ultimately show ?thesis
    using compress_plain [OF assms(1)] by (simp add: unescape_eq_compress [OF assms(1)])
qed

theorem utf8safe_roundtrip_witness:
  "nm_utils_str_utf8safe_unescape (ref_utf8 True)
     (nm_utils_str_utf8safe_escape (ref_utf8 True) (Some [CHR ''a'', CHR 0x5C, CHR 0xFF, CHR 0x07]) ESCAPE_CTRL)
   = Some [CHR ''a'', CHR 0x5C, CHR 0xFF, CHR 0x07]"
  by (rule utf8safe_roundtrip [OF ref_compress_doc]) simp

text \<open>
  Where \<open>char\<close> is signed, asking to escape control characters escapes every byte that is not
  ASCII as well, against the documentation: the result is ASCII, as with the flag meant for
  that.
\<close>

theorem escape_ctrl_is_ascii:
  assumes "char_signed U" "flags AND ESCAPE_CTRL \<noteq> 0"
    and "nm_utils_str_utf8safe_escape U (Some s) flags = Some r"
  shows "list_all (\<lambda>x. (of_char x :: nat) < 128) r"
proof -
  have f: "flags AND ESCAPE_NON_ASCII \<noteq> 0 \<or> flags AND ESCAPE_CTRL \<noteq> 0 \<and> char_signed U"
    using assms by simp
  consider "r = escape_loop U flags s" | "r = s" "\<forall>c \<in> set s. \<not> must_escape U flags c"
    using assms(3) by (auto simp: nm_utils_str_utf8safe_escape_def list_ex_iff Let_def split: if_splits)
  then show ?thesis
  proof cases
    case 1
    then show ?thesis using escape_loop_low [OF f] by (simp add: list_all_iff)
  next
    case 2
    then show ?thesis using must_escape_high [OF _ f] by (force simp: list_all_iff not_le [symmetric])
  qed
qed

theorem escape_ctrl_is_ascii_witness:
  "\<exists>r. nm_utils_str_utf8safe_escape (ref_utf8 True) (Some [CHR 0xC3, CHR 0xA9]) ESCAPE_CTRL = Some r
     \<and> list_all (\<lambda>x. (of_char x :: nat) < 128) r"
proof -
  have "nm_utils_str_utf8safe_escape (ref_utf8 True) (Some [CHR 0xC3, CHR 0xA9]) ESCAPE_CTRL \<noteq> None"
    by (simp add: nm_utils_str_utf8safe_escape_def Let_def)
  moreover have "char_signed (ref_utf8 True)" "ESCAPE_CTRL AND ESCAPE_CTRL \<noteq> 0"
    by (simp_all add: ref_utf8_def ESCAPE_CTRL_def)
  ultimately show ?thesis using escape_ctrl_is_ascii by blast
qed

end
