(* ===== verification/NM_Process.thy ===== *)
theory NM_Process
  imports NM_Strings
begin

text \<open>
  The helpers of \<open>shared/nm-utils/nm-shared-utils.c\<close> that talk to the system, with
  \<open>nm-vpn-plugin-macros.h\<close>: waiting for and reading from a file descriptor, the start time of a
  process, cancellation errors, checked setting of properties, and log levels. The answers of
  the kernel and of GObject are parameters.
\<close>

section \<open>File descriptors\<close>

text \<open>The values of \<open>errno\<close> on Linux.\<close>

fun errno_value :: "errno \<Rightarrow> int" where
  "errno_value ENONE = 0"
| "errno_value EINTR = 4"
| "errno_value EIO = 5"
| "errno_value EAGAIN = 11"
| "errno_value EINVAL = 22"
| "errno_value ERANGE = 34"
| "errno_value (EOTHER n) = int n"

definition NM_UTILS_NS_PER_SECOND :: int where "NM_UTILS_NS_PER_SECOND = 1000000000"

text \<open>\<open>ppoll\<close> gets the event and the time as seconds and nanoseconds, or none.\<close>

definition nm_utils_fd_wait_for_event ::
  "(int \<Rightarrow> int \<Rightarrow> (int \<times> int) option \<Rightarrow> errno + int \<times> int) \<Rightarrow> int \<Rightarrow> int \<Rightarrow> int \<Rightarrow> int" where
  "nm_utils_fd_wait_for_event ppoll fd event timeout_ns =
     (let pts = (if timeout_ns < 0 then None
                 else Some (timeout_ns div NM_UTILS_NS_PER_SECOND, timeout_ns mod NM_UTILS_NS_PER_SECOND))
      in case ppoll fd event pts of
           Inl e \<Rightarrow> - errno_value e
         | Inr (r, revents) \<Rightarrow> if r = 0 then 0 else revents)"

text \<open>
  The \<open>i\<close>-th call of \<open>read\<close> for \<open>n\<close> bytes fails or gives bytes, none at the end of the file. A
  loop that reads for ever is \<open>None\<close>, as is the failed assertion for more bytes than asked for.
  The result is the returned number and the bytes in the buffer. \<open>continue\<close> goes to the
  condition of the loop.
\<close>

type_synonym read_calls = "nat \<Rightarrow> nat \<Rightarrow> errno + string"

definition retried :: "bool \<Rightarrow> errno \<Rightarrow> bool" where
  "retried do_poll e \<longleftrightarrow> e = EINTR \<or> (e = EAGAIN \<and> do_poll)"

partial_function (option) read_loop ::
  "read_calls \<Rightarrow> bool \<Rightarrow> nat \<Rightarrow> nat \<Rightarrow> string \<Rightarrow> (int \<times> string) option" where
  "read_loop R do_poll i nbytes got =
     (case R i nbytes of
        Inl e \<Rightarrow>
          if retried do_poll e
          then (if nbytes > 0 then read_loop R do_poll (Suc i) nbytes got else Some (int (length got), got))
          else Some (if length got > 0 then int (length got) else - errno_value e, got)
      | Inr s \<Rightarrow>
          if s = [] then Some (int (length got), got)
          else if length s > nbytes then None
          else if nbytes - length s > 0
          then read_loop R do_poll (Suc i) (nbytes - length s) (got @ s)
          else Some (int (length (got @ s)), got @ s))"

definition SSIZE_MAX :: nat where "SSIZE_MAX = 9223372036854775807"

definition nm_utils_fd_read_loop ::
  "read_calls \<Rightarrow> int \<Rightarrow> nat \<Rightarrow> bool \<Rightarrow> (int \<times> string) option" where
  "nm_utils_fd_read_loop R fd nbytes do_poll =
     (if fd < 0 then Some (- errno_value EINVAL, [])
      else if nbytes > SSIZE_MAX then Some (- errno_value EINVAL, [])
      else read_loop R do_poll 0 nbytes [])"

definition nm_utils_fd_read_loop_exact ::
  "read_calls \<Rightarrow> int \<Rightarrow> nat \<Rightarrow> bool \<Rightarrow> (int \<times> string) option" where
  "nm_utils_fd_read_loop_exact R fd nbytes do_poll =
     (case nm_utils_fd_read_loop R fd nbytes do_poll of
        None \<Rightarrow> None
      | Some (n, buf) \<Rightarrow>
          Some (if n < 0 then n else if n \<noteq> int nbytes then - errno_value EIO else 0, buf))"

section \<open>The start time of a process\<close>

definition G_MAXINT :: int where "G_MAXINT = 2147483647"
definition MAXINT64 :: int where "MAXINT64 = 9223372036854775807"

text \<open>
  The contents of \<open>/proc/PID/stat\<close>, if it can be read; the time with the state character and the
  parent, which is looked at only on request. On failure they are 0, blank and 0; a pid that is not
  positive is refused before anything is stored.
\<close>

definition start_time_failed :: "int \<times> (char \<times> int) option" where
  "start_time_failed = (0, Some (CHR '' '', 0))"

definition nm_utils_get_start_time_for_pid ::
  "'g glib_scheme \<Rightarrow> (string \<Rightarrow> cstr) \<Rightarrow> int \<Rightarrow> bool \<Rightarrow> int \<times> (char \<times> int) option" where
  "nm_utils_get_start_time_for_pid L get_contents pid want_ppid =
     (if \<not> pid > 0 then (0, None)
      else case get_contents (''/proc/'' @ dec_of_nat (nat pid) @ ''/stat'') of
        None \<Rightarrow> start_time_failed
      | Some contents \<Rightarrow>
     (case strrchr contents CHR '')'' of
        None \<Rightarrow> start_time_failed
      | Some r \<Rightarrow>
          if length contents - length r + 2 \<ge> length contents then start_time_failed
          else
            (let p = drop 2 r;
                 state = hd p
             in case nm_utils_strsplit_set (Some p) (Some '' '') of
                  None \<Rightarrow> start_time_failed
                | Some tokens \<Rightarrow>
                    if length tokens < 20 then start_time_failed
                    else
                      (let ppid = (if want_ppid
                                   then ascii_to_int64 L (Some (tokens ! 1)) 10 1 G_MAXINT 0 else 0);
                           start_time = ascii_to_int64 L (Some (tokens ! 19)) 10 1 MAXINT64 0
                       in if want_ppid \<and> ppid = 0 then start_time_failed
                          else if start_time = 0 then start_time_failed
                          else (start_time, Some (state, ppid))))))"

section \<open>Errors\<close>

definition NM_UTILS_ERROR_UNKNOWN :: err_code where "NM_UTILS_ERROR_UNKNOWN = E_LIBRARY 0"
definition NM_UTILS_ERROR_CANCELLED_DISPOSING :: err_code where
  "NM_UTILS_ERROR_CANCELLED_DISPOSING = E_LIBRARY 1"

definition nm_utils_error_set_cancelled :: "bool \<Rightarrow> cstr \<Rightarrow> gerror" where
  "nm_utils_error_set_cancelled is_disposing instance_name =
     (if is_disposing
      then GError NM_UTILS_ERROR NM_UTILS_ERROR_CANCELLED_DISPOSING
             (''Disposing '' @ (if nonempty_str instance_name then the instance_name else ''source'')
              @ '' instance'')
      else GError G_IO_ERROR E_CANCELLED ''Request cancelled'')"

definition error_matches :: "gerror \<Rightarrow> err_domain \<Rightarrow> err_code \<Rightarrow> bool" where
  "error_matches e d c \<longleftrightarrow> err_domain e = d \<and> err_code e = c"

definition nm_utils_error_is_cancelled :: "gerror option \<Rightarrow> bool \<Rightarrow> bool" where
  "nm_utils_error_is_cancelled error consider_is_disposing =
     (case error of
        None \<Rightarrow> False
      | Some e \<Rightarrow>
          if error_matches e G_IO_ERROR E_CANCELLED then True
          else if consider_is_disposing \<and> error_matches e NM_UTILS_ERROR NM_UTILS_ERROR_CANCELLED_DISPOSING
          then True
          else False)"

section \<open>Properties of objects\<close>

record param_spec =
  ps_name :: string
  ps_writable :: bool
  ps_construct_only :: bool
  ps_lax_validation :: bool
  ps_owner_class :: bool
  ps_owner_type :: string
  ps_value_type :: string

text \<open>
  What GObject answers: the specification of a property, conversion of a value to a type, and
  validation, which may change the value and tells whether it did.
\<close>

record 'v gobjlib =
  type_name :: string
  find_property :: "string \<Rightarrow> param_spec option"
  value_type_name :: "'v \<Rightarrow> string"
  value_transform :: "'v \<Rightarrow> string \<Rightarrow> 'v option"
  value_validate :: "param_spec \<Rightarrow> 'v \<Rightarrow> bool \<times> 'v"
  value_contents :: "'v \<Rightarrow> string"

definition utils_error :: "string \<Rightarrow> gerror" where
  "utils_error msg = GError NM_UTILS_ERROR NM_UTILS_ERROR_UNKNOWN msg"

text \<open>The error of the \<open>FALSE\<close> return, or the value that is set.\<close>

definition nm_g_object_set_property ::
  "('v, 'o) gobjlib_scheme \<Rightarrow> string \<Rightarrow> 'v \<Rightarrow> gerror + 'v" where
  "nm_g_object_set_property G property_name v =
     (case find_property G property_name of
        None \<Rightarrow> Inl (utils_error (''object class '' @ CHR 0x27 # type_name G
          @ CHR 0x27 # '' has no property named '' @ CHR 0x27 # property_name @ [CHR 0x27]))
      | Some pspec \<Rightarrow>
     (if \<not> ps_writable pspec
      then Inl (utils_error (''property '' @ CHR 0x27 # ps_name pspec @ CHR 0x27 # '' of object class ''
        @ CHR 0x27 # type_name G @ CHR 0x27 # '' is not writable''))
      else if ps_construct_only pspec
      then Inl (utils_error (''construct property '' @ CHR 0x22 # ps_name pspec @ CHR 0x22 # '' for object ''
        @ CHR 0x27 # type_name G @ CHR 0x27 # '' can'' @ CHR 0x27 # ''t be set after construction''))
      else if \<not> ps_owner_class pspec
      then Inl (utils_error (CHR 0x27 # ps_owner_type pspec @ ''::'' @ ps_name pspec @ CHR 0x27
        # '' is not a valid property name; '' @ CHR 0x27 # ps_owner_type pspec @ CHR 0x27
        # '' is not a GObject subtype''))
      else
        (case value_transform G v (ps_value_type pspec) of
           None \<Rightarrow> Inl (utils_error (''unable to set property '' @ CHR 0x27 # ps_name pspec @ CHR 0x27
             # '' of type '' @ CHR 0x27 # ps_value_type pspec @ CHR 0x27 # '' from value of type ''
             @ CHR 0x27 # value_type_name G v @ [CHR 0x27]))
         | Some tmp_value \<Rightarrow>
             (let (changed, tmp_value) = value_validate G pspec tmp_value
              in if changed \<and> \<not> ps_lax_validation pspec
                 then Inl (utils_error (''value '' @ CHR 0x22 # value_contents G v @ CHR 0x22 # '' of type ''
                   @ CHR 0x27 # value_type_name G v @ CHR 0x27 # '' is invalid or out of range for property ''
                   @ CHR 0x27 # ps_name pspec @ CHR 0x27 # '' of type '' @ CHR 0x27 # ps_value_type pspec
                   @ [CHR 0x27]))
                 else Inr tmp_value))))"

text \<open>\<open>bool_value\<close> and \<open>uint_value\<close> make a value of the type \<open>gboolean\<close> and \<open>guint\<close>.\<close>

definition nm_g_object_set_property_boolean ::
  "('v, 'o) gobjlib_scheme \<Rightarrow> (bool \<Rightarrow> 'v) \<Rightarrow> string \<Rightarrow> int \<Rightarrow> gerror + 'v" where
  "nm_g_object_set_property_boolean G bool_value property_name value_arg =
     nm_g_object_set_property G property_name (bool_value (value_arg \<noteq> 0))"

definition nm_g_object_set_property_uint ::
  "('v, 'o) gobjlib_scheme \<Rightarrow> (32 word \<Rightarrow> 'v) \<Rightarrow> string \<Rightarrow> 32 word \<Rightarrow> gerror + 'v" where
  "nm_g_object_set_property_uint G uint_value property_name value_arg =
     nm_g_object_set_property G property_name (uint_value value_arg)"

section \<open>Packed arguments\<close>

definition nm_utils_user_data_pack :: "'p list \<Rightarrow> 'p list" where
  "nm_utils_user_data_pack args = map id args"

text \<open>\<open>None\<close> when more is unpacked than there is.\<close>

definition nm_utils_user_data_unpack :: "'p list \<Rightarrow> nat \<Rightarrow> 'p list option" where
  "nm_utils_user_data_unpack data nargs = (if nargs \<le> length data then Some (take nargs data) else None)"

section \<open>Log levels\<close>

definition nm_utils_syslog_coerce_from_nm :: "int \<Rightarrow> int" where
  "nm_utils_syslog_coerce_from_nm syslog_level =
     (if syslog_level = LOG_INFO then LOG_DEBUG
      else if syslog_level = LOG_NOTICE then LOG_INFO
      else syslog_level)"

definition nm_utils_syslog_to_str :: "int \<Rightarrow> string" where
  "nm_utils_syslog_to_str syslog_level =
     (if syslog_level \<ge> LOG_DEBUG then ''<trace>''
      else if syslog_level \<ge> LOG_INFO then ''<debug>''
      else if syslog_level \<ge> LOG_NOTICE then ''<info>''
      else if syslog_level \<ge> LOG_WARNING then ''<warn>''
      else ''<error>'')"

section \<open>Facts\<close>

definition read_ok :: "nat \<Rightarrow> string \<Rightarrow> int \<times> string \<Rightarrow> bool" where
  "read_ok nbytes got res \<longleftrightarrow> length (snd res) \<le> length got + nbytes
     \<and> (fst res = int (length (snd res)) \<or> snd res = [] \<and> fst res \<le> 0)"

lemma errno_value_nonneg: "0 \<le> errno_value e"
  by (cases e) auto

lemma read_loop_ok:
  assumes "read_loop R p i nbytes got = Some res"
  shows "read_ok nbytes got res"
proof (rule read_loop.raw_induct [where P = "\<lambda>R p i nbytes got res. read_ok nbytes got res", OF _ assms])
  fix f R p i nbytes got res
  assume IH: "\<And>R p i nbytes got res. f R p i nbytes got = Some res \<Longrightarrow> read_ok nbytes got res"
    and eq: "(case R i nbytes of
        Inl e \<Rightarrow>
          if retried p e
          then (if nbytes > 0 then f R p (Suc i) nbytes got else Some (int (length got), got))
          else Some (if length got > 0 then int (length got) else - errno_value e, got)
      | Inr s \<Rightarrow>
          if s = [] then Some (int (length got), got)
          else if length s > nbytes then None
          else if nbytes - length s > 0 then f R p (Suc i) (nbytes - length s) (got @ s)
          else Some (int (length (got @ s)), got @ s)) = Some res"
  show "read_ok nbytes got res"
  proof (cases "R i nbytes")
    case (Inl e)
    with eq IH errno_value_nonneg [of e] show ?thesis by (auto simp: read_ok_def split: if_splits)
  next
    case (Inr s)
    show ?thesis
    proof (cases "f R p (Suc i) (nbytes - length s) (got @ s) = Some res")
      case True
      from IH [OF this] Inr eq show ?thesis by (auto simp: read_ok_def split: if_splits)
    next
      case False
      with Inr eq show ?thesis by (auto simp: read_ok_def split: if_splits)
    qed
  qed
qed

text \<open>The kernel never gives more bytes than asked for.\<close>

definition read_doc :: "read_calls \<Rightarrow> bool" where
  "read_doc R \<longleftrightarrow> (\<forall>i n s. R i n = Inr s \<longrightarrow> length s \<le> n)"

definition answers :: "bool \<Rightarrow> errno + string \<Rightarrow> bool" where
  "answers p r = (case r of Inl e \<Rightarrow> \<not> retried p e | Inr _ \<Rightarrow> True)"

lemma read_loop_defined:
  assumes "read_doc R" "\<And>i. \<exists>j \<ge> i. \<forall>m. answers p (R j m)"
  shows "read_loop R p i nbytes got \<noteq> None"
proof (induction nbytes arbitrary: i got rule: less_induct)
  case (less nbytes)
  have "read_loop R p k nbytes got \<noteq> None" if "k \<le> j" "\<forall>m. answers p (R j m)" for k j
    using that
  proof (induction "j - k" arbitrary: k)
    case 0
    then have a: "answers p (R k nbytes)" by simp
    show ?case
    proof (cases "R k nbytes")
      case (Inl e)
      with a show ?thesis by (simp add: read_loop.simps [of R p k] answers_def)
    next
      case (Inr s)
      then have "length s \<le> nbytes" using assms(1) by (auto simp: read_doc_def)
      with Inr less [of "nbytes - length s"] show ?thesis
        by (cases s) (auto simp: read_loop.simps [of R p k])
    qed
  next
    case (Suc d)
    then have later: "read_loop R p (Suc k) nbytes got \<noteq> None" by simp
    show ?case
    proof (cases "R k nbytes")
      case (Inl e)
      with later show ?thesis by (simp add: read_loop.simps [of R p k])
    next
      case (Inr s)
      then have "length s \<le> nbytes" using assms(1) by (auto simp: read_doc_def)
      with Inr less [of "nbytes - length s"] show ?thesis
        by (cases s) (auto simp: read_loop.simps [of R p k])
    qed
  qed
  with assms(2) [of i] show ?case by blast
qed

lemma strrchr_last: "c \<notin> set r \<Longrightarrow> strrchr (a @ c # r) c = Some (c # r)"
proof -
  assume "c \<notin> set r"
  then have "strrchr (c # r) c = Some (c # r)" using strrchr_None_iff [of r c] by simp
  then show ?thesis by (induction a) simp_all
qed

section \<open>Properties\<close>

text \<open>
  Reading exactly \<open>nbytes\<close> reports success only when that many bytes are in the buffer, and
  never stores more, whatever the kernel answers; and it does return, provided the calls of
  \<open>read\<close> are not interrupted or put off for ever.
\<close>

theorem fd_read_loop_exact_sound:
  assumes "read_doc R" "\<And>i. \<exists>j \<ge> i. \<forall>m. answers p (R j m)"
  shows "\<exists>r buf. nm_utils_fd_read_loop_exact R fd nbytes p = Some (r, buf) \<and> r \<le> 0
    \<and> length buf \<le> nbytes \<and> (r \<noteq> 0 \<or> length buf = nbytes)"
proof (cases "fd < 0 \<or> nbytes > SSIZE_MAX")
  case True
  then show ?thesis by (auto simp: nm_utils_fd_read_loop_exact_def nm_utils_fd_read_loop_def)
next
  case False
  obtain n buf where r: "read_loop R p 0 nbytes [] = Some (n, buf)"
    using read_loop_defined [OF assms, of 0 nbytes "[]"] by auto
  have "nm_utils_fd_read_loop_exact R fd nbytes p
      = Some (if n < 0 then n else if n \<noteq> int nbytes then - errno_value EIO else 0, buf)"
    using False r by (simp add: nm_utils_fd_read_loop_exact_def nm_utils_fd_read_loop_def)
  with read_loop_ok [OF r] show ?thesis by (auto simp: read_ok_def)
qed

text \<open>
  The start time and state of a process are read behind the last closing parenthesis of its
  \<open>stat\<close> file: nothing before it, such as a name chosen by the process itself, has an influence.
\<close>

theorem start_time_ignores_name:
  assumes "CHR '')'' \<notin> set r" "path = ''/proc/'' @ dec_of_nat (nat pid) @ ''/stat''"
    and "f path = Some (a @ CHR '')'' # r)" "g path = Some (b @ CHR '')'' # r)"
  shows "nm_utils_get_start_time_for_pid L f pid want = nm_utils_get_start_time_for_pid L g pid want"
  using assms(2-4) strrchr_last [OF assms(1)]
  by (simp add: nm_utils_get_start_time_for_pid_def)

theorem fd_read_loop_exact_sound_witness:
  "\<exists>r buf. nm_utils_fd_read_loop_exact (\<lambda>i n. if i = 0 then Inl EINTR else Inr (take n ''ab'')) 3 4 False = Some (r, buf)
     \<and> length buf \<le> 4"
proof -
  let ?R = "\<lambda>i n. if i = (0 :: nat) then Inl EINTR else Inr (take n ''ab'')"
  have "read_doc ?R" by (simp add: read_doc_def)
  moreover have "\<exists>j \<ge> i. \<forall>m. answers False (?R j m)" for i
    by (intro exI [of _ "Suc i"]) (simp add: answers_def)
  ultimately show ?thesis using fd_read_loop_exact_sound by blast
qed

theorem start_time_ignores_name_witness:
  "nm_utils_get_start_time_for_pid ref_lib (\<lambda>_. Some ''1 (x) S 1 2 3'') 7 True
     = nm_utils_get_start_time_for_pid ref_lib (\<lambda>_. Some ''1 (a) R 9) S 1 2 3'') 7 True"
  by (rule start_time_ignores_name [of "'' S 1 2 3''", OF _ refl, of _ _ "''1 (x''" _ "''1 (a) R 9''"]) simp_all

end
