(* ===== verification/Airvpn_Editor.thy ===== *)
theory Airvpn_Editor
  imports Airvpn_Server_List NM_Process NM_Event_Loop "HOL-Library.AList"
begin

text \<open>
  The connection editor, \<open>properties/nm-airvpn-editor.c\<close>: the widgets and what is read from and
  written to a connection, the background tasks that load the servers and devices, and the
  chain of callbacks behind ``Apply & Reconnect''. The widgets are a record of their contents;
  combo boxes are GTK's (parameter \<open>W\<close>). Main loop, threads and NetworkManager's client are
  represented by the outstanding callbacks; a callback gets the library's answer as an
  argument. \<open>None\<close> stands for undefined behaviour: using a widget after the builder is gone, or a
  \<open>ReconnectCtx\<close> after it has been freed.
\<close>

section \<open>Connections\<close>

record editor_connection =
  ec_uuid :: cstr
  ec_vpn :: "(string \<times> vpn_setting) option"
  ec_other :: string

text \<open>\<open>nm_setting_vpn_new\<close>, and its items and secrets, kept in hash tables.\<close>

definition setting_vpn_new :: vpn_setting where
  "setting_vpn_new = \<lparr>vpn_data = [], vpn_secrets = [], vpn_secret_flags = (\<lambda>_. 0)\<rparr>"

definition add_data_item :: "string \<Rightarrow> string \<Rightarrow> vpn_setting \<Rightarrow> vpn_setting" where
  "add_data_item k v s = s\<lparr>vpn_data := AList.update k v (vpn_data s)\<rparr>"

definition add_secret :: "string \<Rightarrow> string \<Rightarrow> vpn_setting \<Rightarrow> vpn_setting" where
  "add_secret k v s = s\<lparr>vpn_secrets := AList.update k v (vpn_secrets s)\<rparr>"

definition SECRET_FLAG_NONE :: nat where "SECRET_FLAG_NONE = 0"
definition SECRET_FLAG_AGENT_OWNED :: nat where "SECRET_FLAG_AGENT_OWNED = 1"

text \<open>
  Libraries: \<open>nma_utils_setup_password_storage\<close> initialises the storage menu of the key's
  entry from the setting, \<open>nm_setting_set_secret_flags\<close> stores flags, and \<open>g_find_program_in_path\<close>
  looks for nft.
\<close>

record editor_env =
  nma_initial_flags :: "vpn_setting option \<Rightarrow> string \<Rightarrow> nat"
  nm_set_secret_flags :: "string \<Rightarrow> nat \<Rightarrow> vpn_setting \<Rightarrow> vpn_setting"
  nft_path :: cstr

section \<open>The widgets\<close>

datatype control =
    IntervalSpin | RestartSpin | AllowLanCheck | KillSwitchCheck
  | RefreshButton | DevicesButton | ReconnectButton

record 'c widgets =
  w_api_key :: string
  w_api_key_flags :: nat
  w_device :: 'c
  w_device_text :: string
  w_server :: 'c
  w_protocol :: 'c
  w_port :: 'c
  w_keepalive :: bool
  w_interval :: int
  w_restart :: int
  w_kill_switch :: bool
  w_allow_lan :: bool
  w_directives :: string
  w_sensitive :: "control \<Rightarrow> bool"
  w_tooltip :: "control \<Rightarrow> string"
  w_reconnect_label :: string
  w_underline :: bool
  w_unavailable_visible :: bool

text \<open>The range of the two spin buttons, to which a value is clamped.\<close>

definition spin_value :: "int \<Rightarrow> int" where
  "spin_value v = max 1 (min 3600 v)"

datatype editor_call =
    EmitChanged
  | CommitChanges editor_connection
  | DeactivateConnection cstr
  | ActivateConnection "editor_connection option"
  | CancelOperation nat

text \<open>\<open>ReconnectCtx\<close> with its address, and the callback that waits with it.\<close>

record reconnect_ctx =
  rx_addr :: nat
  rx_client :: bool
  rx_remote :: "editor_connection option"
  rx_poll_id :: bool
  rx_poll_count :: nat

datatype reconnect_op =
    OpClientReady reconnect_ctx
  | OpCommitDone reconnect_ctx
  | OpDeactivateDone reconnect_ctx
  | OpPoll reconnect_ctx
  | OpActivateDone reconnect_ctx

record 'c editor =
  builder :: "'c widgets option"
  new_connection :: bool
  refresh_cancellable :: "nat option"
  devices_cancellable :: "nat option"
  ed_uuid :: cstr
  reconnect_cancellable :: "nat option"
  reconnect_busy :: bool

text \<open>
  Around the editor: the cancellables so far and those cancelled, the running tasks with their
  cancellables, the outstanding callbacks of the reconnection, the contexts that are allocated (a
  context has the number of its attempt's cancellable for an address), and the calls made.
\<close>

record 'c desktop = "'c editor" +
  next_cancellable :: nat
  cancelled_ones :: "nat list"
  refresh_tasks :: "nat list"
  devices_tasks :: "(nat \<times> string) list"
  reconnect_ops :: "reconnect_op list"
  contexts :: "nat list"
  editor_calls :: "editor_call list"

text \<open>What is done to widgets found with \<open>gtk_builder_get_object (priv->builder, ...)\<close>.\<close>

definition with_widgets :: "('c widgets \<Rightarrow> 'c widgets) \<Rightarrow> 'c desktop \<Rightarrow> 'c desktop option" where
  "with_widgets f st =
     (case builder st of
        None \<Rightarrow> None
      | Some w \<Rightarrow> Some (st\<lparr>builder := Some (f w)\<rparr>))"

definition set_sensitive :: "control \<Rightarrow> bool \<Rightarrow> 'c widgets \<Rightarrow> 'c widgets" where
  "set_sensitive c b w = w\<lparr>w_sensitive := (w_sensitive w)(c := b)\<rparr>"

definition set_tooltip :: "control \<Rightarrow> string \<Rightarrow> 'c widgets \<Rightarrow> 'c widgets" where
  "set_tooltip c t w = w\<lparr>w_tooltip := (w_tooltip w)(c := t)\<rparr>"

definition ed_emit :: "editor_call \<Rightarrow> 'c desktop \<Rightarrow> 'c desktop" where
  "ed_emit c st = st\<lparr>editor_calls := editor_calls st @ [c]\<rparr>"

section \<open>Changes\<close>

definition stuff_changed_cb :: "'c desktop \<Rightarrow> 'c desktop" where
  "stuff_changed_cb st = ed_emit EmitChanged st"

definition keepalive_toggled_cb :: "'c desktop \<Rightarrow> 'c desktop option" where
  "keepalive_toggled_cb st =
     map_option stuff_changed_cb (with_widgets (\<lambda>w.
       set_sensitive RestartSpin (w_keepalive w) (set_sensitive IntervalSpin (w_keepalive w) w)) st)"

definition kill_switch_toggled_cb :: "'c desktop \<Rightarrow> 'c desktop option" where
  "kill_switch_toggled_cb st =
     map_option stuff_changed_cb (with_widgets (\<lambda>w. set_sensitive AllowLanCheck (w_kill_switch w) w) st)"

definition password_storage_changed_cb :: "'c desktop \<Rightarrow> 'c desktop" where
  "password_storage_changed_cb st = stuff_changed_cb st"

section \<open>The server list\<close>

definition is_cancelled_error :: "gerror \<Rightarrow> bool" where
  "is_cancelled_error e = error_matches e G_IO_ERROR E_CANCELLED"

definition refresh_thread_cb :: "curllib \<Rightarrow> gerror + string" where
  "refresh_thread_cb C = nm_airvpn_server_list_fetch C"

definition refresh_done_cb ::
  "('c, 'w) combolib_scheme \<Rightarrow> 'g glib_scheme \<Rightarrow> ('n, 'o, 'a, 'm, 'j) nodelib_scheme
     \<Rightarrow> ((string \<Rightarrow> string \<Rightarrow> int) \<Rightarrow> string list \<Rightarrow> string list) \<Rightarrow> (string \<Rightarrow> string \<Rightarrow> int)
     \<Rightarrow> gerror + string \<Rightarrow> 'c desktop \<Rightarrow> 'c desktop option" where
  "refresh_done_cb W L J qsort collate result st =
     (if (case result of Inl e \<Rightarrow> is_cancelled_error e | Inr _ \<Rightarrow> False) then Some st
      else case builder st of
        None \<Rightarrow> None
      | Some w \<Rightarrow>
          (let w = set_sensitive RefreshButton True w;
               st = st\<lparr>refresh_cancellable := None, builder := Some w\<rparr>
           in case result of
                Inl e \<Rightarrow> Some st
              | Inr json \<Rightarrow>
                  (case nm_airvpn_server_list_fill_combo W L J qsort collate (w_server w) json (- 1)
                          (cb_active_id W (w_server w)) of
                     None \<Rightarrow> None
                   | Some (combo, _) \<Rightarrow> Some (st\<lparr>builder := Some (w\<lparr>w_server := combo\<rparr>)\<rparr>))))"

definition refresh_button_clicked_cb :: "'c desktop \<Rightarrow> 'c desktop option" where
  "refresh_button_clicked_cb st =
     (if refresh_cancellable st \<noteq> None then Some st
      else
        (let c = next_cancellable st
         in map_option (\<lambda>st. st\<lparr>refresh_cancellable := Some c, next_cancellable := Suc c,
                refresh_tasks := refresh_tasks st @ [c]\<rparr>)
              (with_widgets (set_sensitive RefreshButton False) st)))"

section \<open>The devices\<close>

definition devices_thread_cb ::
  "('n, 'o, 'a, 'm, 'j) nodelib_scheme \<Rightarrow> curllib \<Rightarrow> string \<Rightarrow> gerror + string list" where
  "devices_thread_cb J C api_key = nm_airvpn_device_list_fetch J C (Some api_key)"

definition devices_done_cb ::
  "('c, 'w) combolib_scheme \<Rightarrow> gerror + string list \<Rightarrow> 'c desktop \<Rightarrow> 'c desktop option" where
  "devices_done_cb W result st =
     (if (case result of Inl e \<Rightarrow> is_cancelled_error e | Inr _ \<Rightarrow> False) then Some st
      else case builder st of
        None \<Rightarrow> None
      | Some w \<Rightarrow>
          (let w = set_sensitive DevicesButton True w;
               st = st\<lparr>devices_cancellable := None\<rparr>
           in case result of
                Inl e \<Rightarrow> Some (st\<lparr>builder := Some (set_tooltip DevicesButton (err_message e) w)\<rparr>)
              | Inr names \<Rightarrow>
                  Some (st\<lparr>builder := Some (w\<lparr>w_device :=
                    fold (\<lambda>name c. cb_append W name name c) names (cb_remove_all W (w_device w))\<rparr>)\<rparr>)))"

definition devices_button_clicked_cb :: "'c desktop \<Rightarrow> 'c desktop option" where
  "devices_button_clicked_cb st =
     (if devices_cancellable st \<noteq> None then Some st
      else case builder st of
        None \<Rightarrow> None
      | Some w \<Rightarrow>
          if w_api_key w = []
          then with_widgets (set_tooltip DevicesButton ''Enter your API key first (see the link above).'') st
          else
            (let c = next_cancellable st
             in map_option (\<lambda>st. st\<lparr>devices_cancellable := Some c, next_cancellable := Suc c,
                    devices_tasks := devices_tasks st @ [(c, w_api_key w)]\<rparr>)
                  (with_widgets (set_sensitive DevicesButton False) st)))"

section \<open>Widgets and connection\<close>

text \<open>\<open>str && str[0]\<close> guards most items.\<close>

definition add_if_text :: "string \<Rightarrow> cstr \<Rightarrow> vpn_setting \<Rightarrow> vpn_setting" where
  "add_if_text key str s = (if nonempty_str str then add_data_item key (the str) s else s)"

definition add_keepalive :: "'c widgets \<Rightarrow> vpn_setting \<Rightarrow> vpn_setting" where
  "add_keepalive w s =
     (if w_keepalive w
      then add_data_item KEY_PING_RESTART (dec_of_int (w_restart w))
             (add_data_item KEY_PING_INTERVAL (dec_of_int (w_interval w)) s)
      else add_data_item KEY_KEEPALIVE ''no'' s)"

definition add_kill_switch :: "'c widgets \<Rightarrow> vpn_setting \<Rightarrow> vpn_setting" where
  "add_kill_switch w s =
     (if w_kill_switch w
      then (let s = add_data_item KEY_KILL_SWITCH ''yes'' s
            in if w_allow_lan w then add_data_item KEY_ALLOW_LAN ''yes'' s else s)
      else s)"

definition widget_items :: "('c, 'w) combolib_scheme \<Rightarrow> 'c widgets \<Rightarrow> vpn_setting" where
  "widget_items W w =
     add_if_text KEY_CUSTOM_DIRECTIVES (Some (w_directives w))
       (add_kill_switch w (add_keepalive w
         (add_if_text KEY_PORT (cb_active_id W (w_port w))
           (add_if_text KEY_PROTOCOL (cb_active_id W (w_protocol w))
             (add_if_text KEY_DEVICE (Some (w_device_text w))
               (add_if_text KEY_SERVER (cb_active_id W (w_server w)) setting_vpn_new))))))"

text \<open>The connection, and the error of a \<open>FALSE\<close> return.\<close>

definition update_connection ::
  "('c, 'w) combolib_scheme \<Rightarrow> editor_env \<Rightarrow> 'c widgets \<Rightarrow> editor_connection \<Rightarrow> editor_connection \<times> gerror option" where
  "update_connection W E w connection =
     (let s = widget_items W w;
          flags = w_api_key_flags w;
          s = (if flags = SECRET_FLAG_NONE \<or> flags = SECRET_FLAG_AGENT_OWNED
               then (if w_api_key w \<noteq> [] then add_secret KEY_API_KEY (w_api_key w) s else s)
               else s);
          s = nm_set_secret_flags E KEY_API_KEY flags s
      in case nm_airvpn_properties_validate s of
           Some e \<Rightarrow> (connection, Some e)
         | None \<Rightarrow> (connection\<lparr>ec_vpn := Some (NM_DBUS_SERVICE_AIRVPN, s)\<rparr>, None))"

text \<open>\<open>s_vpn ? nm_setting_vpn_get_data_item (s_vpn, key) : NULL\<close>\<close>

definition data_item :: "vpn_setting option \<Rightarrow> string \<Rightarrow> cstr" where
  "data_item s_vpn key = (case s_vpn of None \<Rightarrow> None | Some s \<Rightarrow> get_data_item s key)"

definition init_server ::
  "('c, 'w) combolib_scheme \<Rightarrow> 'g glib_scheme \<Rightarrow> cstr \<Rightarrow> 'c \<Rightarrow> 'c" where
  "init_server W L value_arg combo =
     (let combo = cb_append W ''earth'' (''Earth'' @ dash @ ''any server'') combo
      in if nonempty_str value_arg \<and> \<not> g_strcaseeq L (the value_arg) ''earth''
         then snd (cb_set_active_id W (the value_arg) (cb_append W (the value_arg) (the value_arg) combo))
         else snd (cb_set_active_id W ''earth'' combo))"

definition init_protocol :: "('c, 'w) combolib_scheme \<Rightarrow> cstr \<Rightarrow> 'c \<Rightarrow> 'c" where
  "init_protocol W value_arg combo =
     (case cb_set_active_id W (case value_arg of None \<Rightarrow> PROTOCOL_UDP | Some v \<Rightarrow> v) combo of
        (found, combo) \<Rightarrow> if \<not> found then snd (cb_set_active_id W PROTOCOL_UDP combo) else combo)"

definition init_port :: "('c, 'w) combolib_scheme \<Rightarrow> cstr \<Rightarrow> 'c \<Rightarrow> 'c" where
  "init_port W value_arg combo =
     (if nonempty_str value_arg
      then (case cb_set_active_id W (the value_arg) combo of
              (found, combo) \<Rightarrow>
                if \<not> found
                then snd (cb_set_active_id W (the value_arg) (cb_append W (the value_arg) (the value_arg) combo))
                else combo)
      else snd (cb_set_active_id W DEFAULT_PORT combo))"

definition init_seconds :: "cstr \<Rightarrow> int \<Rightarrow> int" where
  "init_seconds value_arg default_arg =
     spin_value (if nonempty_str value_arg then fst (strtol10 (the value_arg)) else default_arg)"

definition init_widgets ::
  "('c, 'w) combolib_scheme \<Rightarrow> 'g glib_scheme \<Rightarrow> editor_env \<Rightarrow> vpn_setting option \<Rightarrow> 'c widgets \<Rightarrow> 'c widgets" where
  "init_widgets W L E s_vpn w =
     w\<lparr>w_api_key := (case s_vpn of None \<Rightarrow> w_api_key w | Some s \<Rightarrow> or_empty (get_secret s KEY_API_KEY)),
       w_api_key_flags := nma_initial_flags E s_vpn KEY_API_KEY,
       w_device_text := (case data_item s_vpn KEY_DEVICE of
                           None \<Rightarrow> w_device_text w
                         | Some v \<Rightarrow> if v \<noteq> [] then v else w_device_text w),
       w_server := init_server W L (data_item s_vpn KEY_SERVER) (w_server w),
       w_protocol := init_protocol W (data_item s_vpn KEY_PROTOCOL) (w_protocol w),
       w_port := init_port W (data_item s_vpn KEY_PORT) (w_port w),
       w_keepalive := (data_item s_vpn KEY_KEEPALIVE \<noteq> Some ''no''),
       w_interval := init_seconds (data_item s_vpn KEY_PING_INTERVAL) 10,
       w_restart := init_seconds (data_item s_vpn KEY_PING_RESTART) 60,
       w_kill_switch := (nft_path E \<noteq> None \<and> data_item s_vpn KEY_KILL_SWITCH = Some ''yes''),
       w_sensitive := (w_sensitive w)(KillSwitchCheck := nft_path E \<noteq> None),
       w_unavailable_visible := (nft_path E = None),
       w_allow_lan := (data_item s_vpn KEY_ALLOW_LAN = Some ''yes''),
       w_directives := (case data_item s_vpn KEY_CUSTOM_DIRECTIVES of
                          None \<Rightarrow> w_directives w
                        | Some v \<Rightarrow> if v \<noteq> [] then v else w_directives w)\<rparr>"

text \<open>
  The handlers are connected after the values are set; three of them are called once. Setting
  the remaining widgets does not touch what those three look at.
\<close>

definition init_editor_plugin ::
  "('c, 'w) combolib_scheme \<Rightarrow> 'g glib_scheme \<Rightarrow> editor_env \<Rightarrow> editor_connection \<Rightarrow> 'c desktop
     \<Rightarrow> 'c desktop option" where
  "init_editor_plugin W L E connection st =
     Option.bind (with_widgets (init_widgets W L E (map_option snd (ec_vpn connection))) st) (\<lambda>st.
     Option.bind (refresh_button_clicked_cb st) (\<lambda>st.
     Option.bind (keepalive_toggled_cb st) kill_switch_toggled_cb))"

definition UI_ERROR :: gerror where
  "UI_ERROR = GError G_LIBRARY_ERROR (E_LIBRARY 0) ''could not load UI widget''"

text \<open>\<open>ui\<close> is what the builder makes of the resource: an error, or the widgets if the grid is there.\<close>

definition nm_airvpn_editor_new ::
  "('c, 'w) combolib_scheme \<Rightarrow> 'g glib_scheme \<Rightarrow> editor_env \<Rightarrow> gerror + 'c widgets option \<Rightarrow> editor_connection
     \<Rightarrow> (gerror + 'c desktop) option" where
  "nm_airvpn_editor_new W L E ui connection =
     (case ui of
        Inl e \<Rightarrow> Some (Inl e)
      | Inr None \<Rightarrow> Some (Inl UI_ERROR)
      | Inr (Some w) \<Rightarrow>
          map_option Inr (init_editor_plugin W L E connection
            \<lparr>builder = Some w,
             new_connection = (case ec_vpn connection of None \<Rightarrow> True | Some (_, s) \<Rightarrow> vpn_data s = []),
             refresh_cancellable = None, devices_cancellable = None, ed_uuid = ec_uuid connection,
             reconnect_cancellable = None, reconnect_busy = False,
             next_cancellable = 0, cancelled_ones = [], refresh_tasks = [], devices_tasks = [],
             reconnect_ops = [], contexts = [], editor_calls = []\<rparr>))"

section \<open>Apply and reconnect\<close>

definition is_poll :: "reconnect_op \<Rightarrow> bool" where
  "is_poll op = (case op of OpPoll _ \<Rightarrow> True | _ \<Rightarrow> False)"

definition finish_button :: "cstr \<Rightarrow> 'c widgets \<Rightarrow> 'c widgets" where
  "finish_button error_msg w =
     (let w = (set_sensitive ReconnectButton True w)
            \<lparr>w_reconnect_label := (case error_msg of
                 Some _ \<Rightarrow> ''Failed'' @ dash @ ''try again''
               | None \<Rightarrow> ''Appl_y & Reconnect''),
             w_underline := True\<rparr>
      in case error_msg of Some m \<Rightarrow> set_tooltip ReconnectButton m w | None \<Rightarrow> w)"

definition ctx_live :: "reconnect_ctx \<Rightarrow> 'c desktop \<Rightarrow> bool" where
  "ctx_live ctx st \<longleftrightarrow> rx_addr ctx \<in> set (contexts st)"

text \<open>
  The two functions that may run after the editor was disposed of look at the builder first. At the
  end of an attempt its context is freed.
\<close>

definition reconnect_ctx_finish :: "reconnect_ctx \<Rightarrow> cstr \<Rightarrow> 'c desktop \<Rightarrow> 'c desktop option" where
  "reconnect_ctx_finish ctx error_msg st =
     (if \<not> ctx_live ctx st then None
      else
        map_option (\<lambda>st. st
          \<lparr>reconnect_busy := False, reconnect_cancellable := None,
           reconnect_ops := (if rx_poll_id ctx then filter (\<lambda>op. \<not> is_poll op) (reconnect_ops st)
                             else reconnect_ops st),
           contexts := removeAll (rx_addr ctx) (contexts st)\<rparr>)
          (if builder st \<noteq> None then with_widgets (finish_button error_msg) st else Some st))"

definition reconnect_set_label :: "reconnect_ctx \<Rightarrow> string \<Rightarrow> 'c desktop \<Rightarrow> 'c desktop option" where
  "reconnect_set_label ctx label st =
     (if \<not> ctx_live ctx st then None
      else if builder st \<noteq> None then with_widgets (\<lambda>w. w\<lparr>w_reconnect_label := label\<rparr>) st
      else Some st)"

text \<open>The active connections by their uuids; there may be no list.\<close>

definition reconnect_find_active :: "cstr list option \<Rightarrow> 'c desktop \<Rightarrow> cstr option" where
  "reconnect_find_active actives st =
     (case actives of None \<Rightarrow> None | Some us \<Rightarrow> List.find (\<lambda>u. u = ed_uuid st) us)"

definition await :: "reconnect_op \<Rightarrow> 'c desktop \<Rightarrow> 'c desktop" where
  "await op st = st\<lparr>reconnect_ops := reconnect_ops st @ [op]\<rparr>"

definition error_text :: "gerror \<Rightarrow> cstr" where
  "error_text e = (if is_cancelled_error e then None else Some (err_message e))"

definition ellipsis :: string where "ellipsis = [CHR 0xE2, CHR 0x80, CHR 0xA6]"

text \<open>A callback that reads or writes its context first is undefined without it.\<close>

definition reconnect_activate_done :: "gerror option \<Rightarrow> reconnect_ctx \<Rightarrow> 'c desktop \<Rightarrow> 'c desktop option" where
  "reconnect_activate_done err ctx st =
     (case err of
        Some e \<Rightarrow> reconnect_ctx_finish ctx (error_text e) st
      | None \<Rightarrow> reconnect_ctx_finish ctx None st)"

definition reconnect_poll_deactivated ::
  "cstr list option \<Rightarrow> reconnect_ctx \<Rightarrow> 'c desktop \<Rightarrow> 'c desktop option" where
  "reconnect_poll_deactivated actives ctx st =
     (if \<not> ctx_live ctx st then None
      else if reconnect_find_active actives st \<noteq> None
      then
        (let ctx = ctx\<lparr>rx_poll_count := Suc (rx_poll_count ctx)\<rparr>
         in if rx_poll_count ctx > 20
            then reconnect_ctx_finish (ctx\<lparr>rx_poll_id := False\<rparr>)
                   (Some ''The connection did not deactivate in time.'') st
            else Some (await (OpPoll ctx) st))
      else
        (let ctx = ctx\<lparr>rx_poll_id := False\<rparr>
         in map_option (\<lambda>st. await (OpActivateDone ctx) (ed_emit (ActivateConnection (rx_remote ctx)) st))
              (reconnect_set_label ctx (''Reconnecting'' @ ellipsis) st)))"

definition reconnect_deactivate_done ::
  "gerror option \<Rightarrow> reconnect_ctx \<Rightarrow> 'c desktop \<Rightarrow> 'c desktop option" where
  "reconnect_deactivate_done err ctx st =
     (case err of
        Some e \<Rightarrow> reconnect_ctx_finish ctx (error_text e) st
      | None \<Rightarrow>
          if \<not> ctx_live ctx st then None
          else Some (await (OpPoll (ctx\<lparr>rx_poll_count := 0, rx_poll_id := True\<rparr>)) st))"

definition reconnect_commit_done ::
  "gerror option \<Rightarrow> cstr list option \<Rightarrow> reconnect_ctx \<Rightarrow> 'c desktop \<Rightarrow> 'c desktop option" where
  "reconnect_commit_done err actives ctx st =
     (if \<not> ctx_live ctx st then None
      else case err of
        Some e \<Rightarrow> reconnect_ctx_finish ctx (error_text e) st
      | None \<Rightarrow>
     (case reconnect_find_active actives st of
        None \<Rightarrow> reconnect_ctx_finish ctx None st
      | Some u \<Rightarrow>
          map_option (\<lambda>st. await (OpDeactivateDone ctx) (ed_emit (DeactivateConnection u) st))
            (reconnect_set_label ctx (''Disconnecting'' @ ellipsis) st)))"

text \<open>\<open>lookup\<close> is \<open>nm_client_get_connection_by_uuid\<close>, which refuses \<open>NULL\<close>.\<close>

definition reconnect_client_ready ::
  "('c, 'w) combolib_scheme \<Rightarrow> editor_env \<Rightarrow> gerror option \<Rightarrow> (string \<Rightarrow> editor_connection option)
     \<Rightarrow> reconnect_ctx \<Rightarrow> 'c desktop \<Rightarrow> 'c desktop option" where
  "reconnect_client_ready W E err lookup ctx st =
     (if \<not> ctx_live ctx st then None
      else case err of
        Some e \<Rightarrow> reconnect_ctx_finish ctx (error_text e) st
      | None \<Rightarrow>
          (let ctx = ctx\<lparr>rx_client := True\<rparr>
           in case Option.bind (ed_uuid st) lookup of
                None \<Rightarrow> reconnect_ctx_finish ctx
                  (Some ''Save the connection once before using Apply & Reconnect.'') st
              | Some remote \<Rightarrow>
             (case builder st of
                None \<Rightarrow> None
              | Some w \<Rightarrow>
                  (let ctx = ctx\<lparr>rx_remote := Some remote\<rparr>
                   in case update_connection W E w remote of
                        (_, Some e) \<Rightarrow> reconnect_ctx_finish ctx (Some (err_message e)) st
                      | (dup, None) \<Rightarrow>
                          map_option (\<lambda>st. await (OpCommitDone (ctx\<lparr>rx_remote := Some dup\<rparr>))
                              (ed_emit (CommitChanges dup) st))
                            (reconnect_set_label ctx (''Saving'' @ ellipsis) st)))))"

definition ctx_new :: "nat \<Rightarrow> reconnect_ctx" where
  "ctx_new a = \<lparr>rx_addr = a, rx_client = False, rx_remote = None, rx_poll_id = False, rx_poll_count = 0\<rparr>"

definition reconnect_button_clicked_cb :: "'c desktop \<Rightarrow> 'c desktop option" where
  "reconnect_button_clicked_cb st =
     (if reconnect_busy st then Some st
      else if \<not> nonempty_str (ed_uuid st)
      then with_widgets (set_tooltip ReconnectButton
             ''Save the connection once before using Apply & Reconnect.'') st
      else
        (let c = next_cancellable st
         in map_option (\<lambda>st. await (OpClientReady (ctx_new c))
                (st\<lparr>reconnect_busy := True, reconnect_cancellable := Some c, next_cancellable := Suc c,
                  contexts := c # contexts st\<rparr>))
              (with_widgets (\<lambda>w. (set_sensitive ReconnectButton False w)
                 \<lparr>w_reconnect_label := ''Connecting to NetworkManager'' @ ellipsis\<rparr>) st)))"

section \<open>The end\<close>

definition cancel_op :: "nat option \<Rightarrow> 'c desktop \<Rightarrow> 'c desktop" where
  "cancel_op c st =
     (case c of None \<Rightarrow> st
      | Some i \<Rightarrow> ed_emit (CancelOperation i) (st\<lparr>cancelled_ones := i # cancelled_ones st\<rparr>))"

definition ed_dispose :: "'c desktop \<Rightarrow> 'c desktop" where
  "ed_dispose st =
     (let st = (cancel_op (refresh_cancellable st) st)\<lparr>refresh_cancellable := None\<rparr>;
          st = (cancel_op (devices_cancellable st) st)\<lparr>devices_cancellable := None\<rparr>;
          st = cancel_op (reconnect_cancellable st) st
      in st\<lparr>ed_uuid := None, builder := None\<rparr>)"

section \<open>What is written\<close>

text \<open>Flags are stored with the secret, and maybe as one more item that the validation skips.\<close>

definition secret_flags_doc :: "editor_env \<Rightarrow> bool" where
  "secret_flags_doc E \<longleftrightarrow> (\<forall>k f s. vpn_secrets (nm_set_secret_flags E k f s) = vpn_secrets s
     \<and> (\<forall>k'. k' \<noteq> k @ ''-flags'' \<longrightarrow> get_data_item (nm_set_secret_flags E k f s) k' = get_data_item s k'))"

lemma get_added [simp]:
  "get_data_item (add_data_item k v s) k' = (if k' = k then Some v else get_data_item s k')"
  "get_data_item (add_if_text k t s) k' = (if k' = k \<and> nonempty_str t then t else get_data_item s k')"
  "get_data_item (add_secret k v s) k' = get_data_item s k'"
  "get_data_item setting_vpn_new k' = None"
  by (cases t; simp add: get_data_item_def add_data_item_def add_secret_def setting_vpn_new_def add_if_text_def
      update_conv')+

lemma secrets_added [simp]:
  "vpn_secrets (add_data_item k v s) = vpn_secrets s" "vpn_secrets (add_if_text k t s) = vpn_secrets s"
  "get_secret (add_secret k v s) k' = (if k' = k then Some v else get_secret s k')"
  by (simp_all add: add_data_item_def add_if_text_def add_secret_def get_secret_def update_conv')

lemma keys_distinct:
  "distinct [KEY_SERVER, KEY_DEVICE, KEY_PROTOCOL, KEY_PORT, KEY_CUSTOM_DIRECTIVES, KEY_KEEPALIVE,
     KEY_PING_INTERVAL, KEY_PING_RESTART, KEY_KILL_SWITCH, KEY_ALLOW_LAN]"
  "distinct [KEY_ALLOW_LAN, KEY_KILL_SWITCH, KEY_PING_RESTART, KEY_PING_INTERVAL, KEY_KEEPALIVE,
     KEY_CUSTOM_DIRECTIVES, KEY_PORT, KEY_PROTOCOL, KEY_DEVICE, KEY_SERVER]"
  by (simp_all add: key_defs)

lemmas key_neqs = keys_distinct [simplified distinct.simps list.set insert_iff empty_iff de_Morgan_disj simp_thms]

lemma get_switches [simp]:
  "get_data_item (add_keepalive w s) k =
     (if k = KEY_PING_RESTART \<and> w_keepalive w then Some (dec_of_int (w_restart w))
      else if k = KEY_PING_INTERVAL \<and> w_keepalive w then Some (dec_of_int (w_interval w))
      else if k = KEY_KEEPALIVE \<and> \<not> w_keepalive w then Some ''no''
      else get_data_item s k)"
  "get_data_item (add_kill_switch w s) k =
     (if k = KEY_ALLOW_LAN \<and> w_kill_switch w \<and> w_allow_lan w then Some ''yes''
      else if k = KEY_KILL_SWITCH \<and> w_kill_switch w then Some ''yes''
      else get_data_item s k)"
  "vpn_secrets (add_keepalive w s) = vpn_secrets s" "vpn_secrets (add_kill_switch w s) = vpn_secrets s"
  by (simp_all add: add_keepalive_def add_kill_switch_def Let_def)

text \<open>Each item is that of one widget.\<close>

lemma widget_item:
  "get_data_item (widget_items W w) KEY_SERVER =
     (if nonempty_str (cb_active_id W (w_server w)) then cb_active_id W (w_server w) else None)"
  "get_data_item (widget_items W w) KEY_DEVICE = (if w_device_text w \<noteq> [] then Some (w_device_text w) else None)"
  "get_data_item (widget_items W w) KEY_PROTOCOL =
     (if nonempty_str (cb_active_id W (w_protocol w)) then cb_active_id W (w_protocol w) else None)"
  "get_data_item (widget_items W w) KEY_PORT =
     (if nonempty_str (cb_active_id W (w_port w)) then cb_active_id W (w_port w) else None)"
  "get_data_item (widget_items W w) KEY_CUSTOM_DIRECTIVES = (if w_directives w \<noteq> [] then Some (w_directives w) else None)"
  "get_data_item (widget_items W w) KEY_KEEPALIVE = (if w_keepalive w then None else Some ''no'')"
  "get_data_item (widget_items W w) KEY_PING_INTERVAL = (if w_keepalive w then Some (dec_of_int (w_interval w)) else None)"
  "get_data_item (widget_items W w) KEY_PING_RESTART = (if w_keepalive w then Some (dec_of_int (w_restart w)) else None)"
  "get_data_item (widget_items W w) KEY_KILL_SWITCH = (if w_kill_switch w then Some ''yes'' else None)"
  "get_data_item (widget_items W w) KEY_ALLOW_LAN = (if w_kill_switch w \<and> w_allow_lan w then Some ''yes'' else None)"
  by (simp_all add: widget_items_def key_neqs)

lemma widget_item_other:
  assumes "k \<notin> vp_name ` set valid_properties"
  shows "get_data_item (widget_items W w) k = None"
  using assms by (simp add: widget_items_def valid_properties_def)

lemma widget_secrets [simp]: "vpn_secrets (widget_items W w) = []"
  by (simp add: widget_items_def setting_vpn_new_def)

text \<open>The setting that \<open>update_connection\<close> validates and stores.\<close>

definition written_setting :: "('c, 'w) combolib_scheme \<Rightarrow> editor_env \<Rightarrow> 'c widgets \<Rightarrow> vpn_setting" where
  "written_setting W E w =
     nm_set_secret_flags E KEY_API_KEY (w_api_key_flags w)
       (if w_api_key_flags w \<in> {SECRET_FLAG_NONE, SECRET_FLAG_AGENT_OWNED} \<and> w_api_key w \<noteq> []
        then add_secret KEY_API_KEY (w_api_key w) (widget_items W w) else widget_items W w)"

lemma update_connection_eq:
  "update_connection W E w connection =
     (case nm_airvpn_properties_validate (written_setting W E w) of
        Some e \<Rightarrow> (connection, Some e)
      | None \<Rightarrow> (connection\<lparr>ec_vpn := Some (NM_DBUS_SERVICE_AIRVPN, written_setting W E w)\<rparr>, None))"
  by (auto simp: update_connection_def written_setting_def Let_def split: option.split)

lemma written_item:
  assumes "secret_flags_doc E" "\<not> has_suffix k ''-flags''"
  shows "get_data_item (written_setting W E w) k = get_data_item (widget_items W w) k"
proof -
  have "has_suffix (KEY_API_KEY @ ''-flags'') ''-flags''" by (simp add: has_suffix_def)
  then have "k \<noteq> KEY_API_KEY @ ''-flags''" using assms(2) by auto
  with assms(1) show ?thesis by (simp add: written_setting_def secret_flags_doc_def)
qed

lemma key_no_suffix: "k \<in> vp_name ` set valid_properties \<Longrightarrow> \<not> has_suffix k ''-flags''"
  by (auto simp: valid_properties_def key_defs has_suffix_def)

lemma relevant_keys_get: "relevant_keys (vpn_data s) = {k. get_data_item s k \<noteq> None \<and> \<not> has_suffix k ''-flags''}"
  by (auto simp: relevant_keys_def get_data_item_def map_of_eq_None_iff)

lemma key_in_table:
  "k \<in> set [KEY_SERVER, KEY_DEVICE, KEY_PROTOCOL, KEY_PORT, KEY_CUSTOM_DIRECTIVES, KEY_KEEPALIVE,
     KEY_PING_INTERVAL, KEY_PING_RESTART, KEY_KILL_SWITCH, KEY_ALLOW_LAN] \<longleftrightarrow> k \<in> vp_name ` set valid_properties"
  by (auto simp: valid_properties_def)

lemma written_items:
  assumes "secret_flags_doc E" "k \<in> vp_name ` set valid_properties"
  shows "get_data_item (written_setting W E w) k = get_data_item (widget_items W w) k"
  by (rule written_item [OF assms(1) key_no_suffix [OF assms(2)]])

lemma written_keys_ok:
  assumes "secret_flags_doc E" "nonempty_str (cb_active_id W (w_server w))"
  shows "keys_ok valid_properties (vpn_data (written_setting W E w))"
proof -
  have a: "relevant_keys (vpn_data (written_setting W E w)) \<subseteq> vp_name ` set valid_properties"
  proof (rule subsetI, rule ccontr)
    fix k assume that: "k \<in> relevant_keys (vpn_data (written_setting W E w))" and n: "k \<notin> vp_name ` set valid_properties"
    from widget_item_other [OF n, of W w] that written_item [OF assms(1), of k W w] show False
      by (simp add: relevant_keys_get)
  qed
  have r: "vp_name ` {p \<in> set valid_properties. vp_required p} \<subseteq> {KEY_SERVER}"
    by (auto simp: valid_properties_def)
  have "KEY_SERVER \<in> relevant_keys (vpn_data (written_setting W E w))"
  proof -
    have t: "KEY_SERVER \<in> vp_name ` set valid_properties" unfolding key_in_table [symmetric] by simp
    show ?thesis
      using assms(2) key_no_suffix [OF t]
      by (simp add: relevant_keys_get written_items [OF assms(1) t] widget_item nonempty_str_def split: option.splits)
  qed
  then have c: "{KEY_SERVER} \<subseteq> relevant_keys (vpn_data (written_setting W E w))" by simp
  show ?thesis unfolding keys_ok_def by (intro conjI a order_trans [OF r c])
qed

lemma in_range_dec: "0 < i \<Longrightarrow> i \<le> hi \<Longrightarrow> hi \<le> LONG_MAX \<Longrightarrow> in_range hi (dec_of_int i)"
  using in_range_dec_of_nat [of "nat i" hi] by (simp add: dec_of_int_def)

lemma in_table:
  "KEY_SERVER \<in> vp_name ` set valid_properties" "KEY_DEVICE \<in> vp_name ` set valid_properties"
  "KEY_PROTOCOL \<in> vp_name ` set valid_properties" "KEY_PORT \<in> vp_name ` set valid_properties"
  "KEY_CUSTOM_DIRECTIVES \<in> vp_name ` set valid_properties" "KEY_KEEPALIVE \<in> vp_name ` set valid_properties"
  "KEY_PING_INTERVAL \<in> vp_name ` set valid_properties" "KEY_PING_RESTART \<in> vp_name ` set valid_properties"
  "KEY_KILL_SWITCH \<in> vp_name ` set valid_properties" "KEY_ALLOW_LAN \<in> vp_name ` set valid_properties"
  unfolding key_in_table [symmetric] by simp_all

text \<open>What the widgets hold in every editor that was opened and used.\<close>

definition widgets_ok :: "('c, 'w) combolib_scheme \<Rightarrow> 'c widgets \<Rightarrow> bool" where
  "widgets_ok W w \<longleftrightarrow> nonempty_str (cb_active_id W (w_server w))
     \<and> cb_active_id W (w_protocol w) \<in> {Some ''udp'', Some ''tcp''}
     \<and> (\<exists>p. cb_active_id W (w_port w) = Some p \<and> in_range 65535 p)
     \<and> 1 \<le> w_interval w \<and> w_interval w \<le> 3600 \<and> 1 \<le> w_restart w \<and> w_restart w \<le> 3600"

lemma written_valid:
  assumes "secret_flags_doc E" "widgets_ok W w"
  shows "nm_airvpn_properties_validate (written_setting W E w) = None"
proof -
  note i = written_items [OF assms(1) in_table(1), of W w] written_items [OF assms(1) in_table(3), of W w]
    written_items [OF assms(1) in_table(4), of W w] written_items [OF assms(1) in_table(6), of W w]
    written_items [OF assms(1) in_table(7), of W w] written_items [OF assms(1) in_table(8), of W w]
    written_items [OF assms(1) in_table(9), of W w] written_items [OF assms(1) in_table(10), of W w]
  note o = assms(2) [unfolded widgets_ok_def]
  have r: "in_range 3600 (dec_of_int (w_interval w))" "in_range 3600 (dec_of_int (w_restart w))"
    using o by (auto intro!: in_range_dec simp: LONG_MAX_def)
  have "keys_ok valid_properties (vpn_data (written_setting W E w))"
    using written_keys_ok [OF assms(1)] o by blast
  moreover have "opt_all (\<lambda>v. v = ''udp'' \<or> v = ''tcp'') (get_data_item (written_setting W E w) KEY_PROTOCOL)"
    using o by (auto simp: i widget_item)
  moreover have "opt_all (in_range 65535) (get_data_item (written_setting W E w) KEY_PORT)"
    using o by (auto simp: i widget_item)
  ultimately show ?thesis
    unfolding validate_eq_valid valid_connection_def using r by (simp add: i widget_item yes_no_def)
qed

text \<open>What the widgets hold after the editor was opened on a valid connection.\<close>

definition ui_rows :: "('c, 'w) combolib_scheme \<Rightarrow> 'c widgets \<Rightarrow> bool" where
  "ui_rows W w \<longleftrightarrow> map fst (cb_rows W (w_protocol w)) = [''udp'', ''tcp'']
     \<and> map fst (cb_rows W (w_port w)) = [''443'', ''80'', ''1194'', ''41185'']
     \<and> w_device_text w = [] \<and> w_directives w = []"

lemma init_server_id:
  assumes "combo_doc W" "ascii_doc L"
  shows "cb_active_id W (init_server W L v c) =
    Some (if nonempty_str v \<and> map ascii_lower (the v) \<noteq> ''earth'' then the v else ''earth'')"
proof -
  have "map ascii_lower ''earth'' = ''earth''" by (simp add: ascii_lower_def Let_def)
  then have eq: "g_strcaseeq L x ''earth'' \<longleftrightarrow> map ascii_lower x = ''earth''" for x
    using assms(2) by (simp add: ascii_doc_def)
  show ?thesis by (simp add: init_server_def Let_def eq combo_docD [OF assms(1)] image_iff)
qed

lemma init_protocol_id:
  assumes "combo_doc W" "map fst (cb_rows W c) = [''udp'', ''tcp'']"
  shows "cb_active_id W (init_protocol W v c) = Some (if v = Some ''tcp'' then ''tcp'' else ''udp'')"
proof -
  have r: "fst ` set (cb_rows W c) = {''udp'', ''tcp''}"
    using assms(2) by (metis list.set_map list.simps(15) list.set(1))
  have s: "cb_set_active_id W i c = (i \<in> {''udp'', ''tcp''}, snd (cb_set_active_id W i c))" for i
    using combo_docD(3) [OF assms(1), of i c] by (simp add: prod_eq_iff r)
  show ?thesis
    unfolding init_protocol_def PROTOCOL_UDP_def
    by (subst s) (auto simp: combo_docD [OF assms(1)] r split: option.split)
qed

lemma init_port_id:
  assumes "combo_doc W" "map fst (cb_rows W c) = [''443'', ''80'', ''1194'', ''41185'']"
  shows "cb_active_id W (init_port W v c) = Some (if nonempty_str v then the v else ''443'')"
proof -
  have r: "''443'' \<in> fst ` set (cb_rows W c)"
    using assms(2) by (metis list.set_map list.set_intros(1))
  have s: "cb_set_active_id W i c = (i \<in> fst ` set (cb_rows W c), snd (cb_set_active_id W i c))" for i
    using combo_docD(3) [OF assms(1), of i c] by (simp add: prod_eq_iff)
  show ?thesis
    unfolding init_port_def DEFAULT_PORT_def using r
    by (subst s) (simp add: combo_docD [OF assms(1)])
qed

end
