(* ===== verification/Airvpn_Editor_Steps.thy ===== *)
theory Airvpn_Editor_Steps
  imports Airvpn_Editor
begin

text \<open>
  The editor as a state machine: what the user, the background tasks and NetworkManager's
  answers do to it, the invariant of the states it can reach, and the properties of
  ``Apply & Reconnect'' over whole runs.
\<close>

section \<open>Steps\<close>

datatype editor_event =
    Edited | KeepaliveToggled bool | KillSwitchToggled bool
  | RefreshClicked | RefreshDone nat
  | DevicesClicked | DevicesDone nat
  | ReconnectClicked | Reconnect reconnect_op
  | Disposed

text \<open>What the user types and chooses; the checks that enable other widgets have their own events.\<close>

definition same_controls :: "'c widgets \<Rightarrow> 'c widgets \<Rightarrow> bool" where
  "same_controls w w' \<longleftrightarrow> w_sensitive w' = w_sensitive w \<and> w_tooltip w' = w_tooltip w
     \<and> w_reconnect_label w' = w_reconnect_label w \<and> w_underline w' = w_underline w
     \<and> w_unavailable_visible w' = w_unavailable_visible w
     \<and> w_keepalive w' = w_keepalive w \<and> w_kill_switch w' = w_kill_switch w"

text \<open>A cancelled task completes with the error of its cancellable, whatever its thread does.\<close>

definition task_result :: "nat \<Rightarrow> 'c desktop \<Rightarrow> gerror + 'r \<Rightarrow> gerror + 'r" where
  "task_result c st res = (if c \<in> set (cancelled_ones st) then Inl cancelled_error else res)"

inductive ed_step ::
  "('c, 'w) combolib_scheme \<Rightarrow> 'g glib_scheme \<Rightarrow> ('n, 'o, 'a, 'm, 'j) nodelib_scheme
     \<Rightarrow> ((string \<Rightarrow> string \<Rightarrow> int) \<Rightarrow> string list \<Rightarrow> string list) \<Rightarrow> (string \<Rightarrow> string \<Rightarrow> int) \<Rightarrow> editor_env
     \<Rightarrow> 'c desktop \<Rightarrow> editor_event \<Rightarrow> 'c desktop \<Rightarrow> bool"
  for W :: "('c, 'w) combolib_scheme" and L :: "'g glib_scheme" and J :: "('n, 'o, 'a, 'm, 'j) nodelib_scheme"
    and qsort collate and E :: editor_env where
  edited: "builder st = Some w \<Longrightarrow> same_controls w w' \<Longrightarrow>
     ed_step W L J qsort collate E st Edited (stuff_changed_cb (st\<lparr>builder := Some w'\<rparr>))"
| keepalive_toggled: "builder st = Some w \<Longrightarrow>
     keepalive_toggled_cb (st\<lparr>builder := Some (w\<lparr>w_keepalive := b\<rparr>)\<rparr>) = Some st' \<Longrightarrow>
     ed_step W L J qsort collate E st (KeepaliveToggled b) st'"
| kill_switch_toggled: "builder st = Some w \<Longrightarrow> w_sensitive w KillSwitchCheck \<Longrightarrow>
     kill_switch_toggled_cb (st\<lparr>builder := Some (w\<lparr>w_kill_switch := b\<rparr>)\<rparr>) = Some st' \<Longrightarrow>
     ed_step W L J qsort collate E st (KillSwitchToggled b) st'"
| refresh_clicked: "builder st = Some w \<Longrightarrow> w_sensitive w RefreshButton \<Longrightarrow>
     refresh_button_clicked_cb st = Some st' \<Longrightarrow> ed_step W L J qsort collate E st RefreshClicked st'"
| refresh_done: "c \<in> set (refresh_tasks st) \<Longrightarrow>
     refresh_done_cb W L J qsort collate (task_result c st (refresh_thread_cb C))
       (st\<lparr>refresh_tasks := remove1 c (refresh_tasks st)\<rparr>) = Some st' \<Longrightarrow>
     ed_step W L J qsort collate E st (RefreshDone c) st'"
| devices_clicked: "builder st = Some w \<Longrightarrow> w_sensitive w DevicesButton \<Longrightarrow>
     devices_button_clicked_cb st = Some st' \<Longrightarrow> ed_step W L J qsort collate E st DevicesClicked st'"
| devices_done: "(c, key) \<in> set (devices_tasks st) \<Longrightarrow>
     devices_done_cb W (task_result c st (devices_thread_cb J C key))
       (st\<lparr>devices_tasks := remove1 (c, key) (devices_tasks st)\<rparr>) = Some st' \<Longrightarrow>
     ed_step W L J qsort collate E st (DevicesDone c) st'"
| reconnect_clicked: "builder st = Some w \<Longrightarrow> w_sensitive w ReconnectButton \<Longrightarrow>
     reconnect_button_clicked_cb st = Some st' \<Longrightarrow> ed_step W L J qsort collate E st ReconnectClicked st'"
| client_ready: "OpClientReady ctx \<in> set (reconnect_ops st) \<Longrightarrow>
     reconnect_client_ready W E err lookup ctx
       (st\<lparr>reconnect_ops := remove1 (OpClientReady ctx) (reconnect_ops st)\<rparr>) = Some st' \<Longrightarrow>
     ed_step W L J qsort collate E st (Reconnect (OpClientReady ctx)) st'"
| commit_done: "OpCommitDone ctx \<in> set (reconnect_ops st) \<Longrightarrow>
     reconnect_commit_done err actives ctx
       (st\<lparr>reconnect_ops := remove1 (OpCommitDone ctx) (reconnect_ops st)\<rparr>) = Some st' \<Longrightarrow>
     ed_step W L J qsort collate E st (Reconnect (OpCommitDone ctx)) st'"
| deactivate_done: "OpDeactivateDone ctx \<in> set (reconnect_ops st) \<Longrightarrow>
     reconnect_deactivate_done err ctx
       (st\<lparr>reconnect_ops := remove1 (OpDeactivateDone ctx) (reconnect_ops st)\<rparr>) = Some st' \<Longrightarrow>
     ed_step W L J qsort collate E st (Reconnect (OpDeactivateDone ctx)) st'"
| poll: "OpPoll ctx \<in> set (reconnect_ops st) \<Longrightarrow>
     reconnect_poll_deactivated actives ctx
       (st\<lparr>reconnect_ops := remove1 (OpPoll ctx) (reconnect_ops st)\<rparr>) = Some st' \<Longrightarrow>
     ed_step W L J qsort collate E st (Reconnect (OpPoll ctx)) st'"
| activate_done: "OpActivateDone ctx \<in> set (reconnect_ops st) \<Longrightarrow>
     reconnect_activate_done err ctx
       (st\<lparr>reconnect_ops := remove1 (OpActivateDone ctx) (reconnect_ops st)\<rparr>) = Some st' \<Longrightarrow>
     ed_step W L J qsort collate E st (Reconnect (OpActivateDone ctx)) st'"
| disposed: "ed_step W L J qsort collate E st Disposed (ed_dispose st)"

inductive_cases reconnect_stepE: "ed_step W L J qsort collate E st (Reconnect op) st'"

section \<open>The order of the calls\<close>

text \<open>How far the last attempt got, according to the calls; \<open>None\<close> for calls out of order.\<close>

datatype stage = Fresh | Saved editor_connection | Down editor_connection | Up

fun next_stage :: "stage \<Rightarrow> editor_call \<Rightarrow> stage option" where
  "next_stage s EmitChanged = Some s"
| "next_stage s (CancelOperation _) = Some s"
| "next_stage s (CommitChanges c) = Some (Saved c)"
| "next_stage (Saved c) (DeactivateConnection _) = Some (Down c)"
| "next_stage _ (DeactivateConnection _) = None"
| "next_stage (Down c) (ActivateConnection r) = (if r = Some c then Some Up else None)"
| "next_stage _ (ActivateConnection _) = None"

fun stage_from :: "stage \<Rightarrow> editor_call list \<Rightarrow> stage option" where
  "stage_from s [] = Some s"
| "stage_from s (c # cs) = Option.bind (next_stage s c) (\<lambda>s. stage_from s cs)"

lemma stage_from_snoc: "stage_from s (cs @ [c]) = Option.bind (stage_from s cs) (\<lambda>s. next_stage s c)"
  by (induction cs arbitrary: s) (auto split: Option.bind_split)

section \<open>The invariant\<close>

text \<open>A callback waits with a context that fits it and the calls made.\<close>

definition op_ctx :: "reconnect_op \<Rightarrow> reconnect_ctx" where
  "op_ctx op = (case op of OpClientReady ctx \<Rightarrow> ctx | OpCommitDone ctx \<Rightarrow> ctx | OpDeactivateDone ctx \<Rightarrow> ctx
     | OpPoll ctx \<Rightarrow> ctx | OpActivateDone ctx \<Rightarrow> ctx)"

lemma op_ctx_simps [simp]:
  "op_ctx (OpClientReady ctx) = ctx" "op_ctx (OpCommitDone ctx) = ctx" "op_ctx (OpDeactivateDone ctx) = ctx"
  "op_ctx (OpPoll ctx) = ctx" "op_ctx (OpActivateDone ctx) = ctx"
  by (simp_all add: op_ctx_def)

definition op_ok :: "stage \<Rightarrow> reconnect_op \<Rightarrow> bool" where
  "op_ok s op \<longleftrightarrow> (case op of
       OpClientReady ctx \<Rightarrow> (\<exists>a. ctx = ctx_new a)
     | OpCommitDone ctx \<Rightarrow> \<not> rx_poll_id ctx \<and> (\<exists>c. rx_remote ctx = Some c \<and> s = Saved c)
     | OpDeactivateDone ctx \<Rightarrow> \<not> rx_poll_id ctx \<and> (\<exists>c. rx_remote ctx = Some c \<and> s = Down c)
     | OpPoll ctx \<Rightarrow> rx_poll_id ctx \<and> rx_poll_count ctx \<le> 20 \<and> (\<exists>c. rx_remote ctx = Some c \<and> s = Down c)
     | OpActivateDone ctx \<Rightarrow> \<not> rx_poll_id ctx)"

definition reconnect_inv :: "'c desktop \<Rightarrow> bool" where
  "reconnect_inv st \<longleftrightarrow> (\<exists>s. stage_from Fresh (editor_calls st) = Some s
     \<and> (reconnect_busy st \<longleftrightarrow> reconnect_cancellable st \<noteq> None)
     \<and> contexts st = map (\<lambda>op. rx_addr (op_ctx op)) (reconnect_ops st)
     \<and> (if reconnect_busy st then \<exists>op. reconnect_ops st = [op] \<and> op_ok s op else reconnect_ops st = []))"

text \<open>The cancellable is that of the one task which has not been cancelled.\<close>

definition task_inv :: "nat option \<Rightarrow> nat list \<Rightarrow> 'c desktop \<Rightarrow> bool" where
  "task_inv c ids st \<longleftrightarrow> distinct ids
     \<and> set ids - set (cancelled_ones st) = set_option c"

definition ids_ok :: "'c desktop \<Rightarrow> bool" where
  "ids_ok st \<longleftrightarrow> (\<forall>c \<in> set (cancelled_ones st) \<union> set (refresh_tasks st) \<union> fst ` set (devices_tasks st)
       \<union> set_option (reconnect_cancellable st). c < next_cancellable st)
     \<and> set_option (reconnect_cancellable st) \<inter> (set (refresh_tasks st) \<union> fst ` set (devices_tasks st)) = {}
     \<and> set (refresh_tasks st) \<inter> fst ` set (devices_tasks st) = {}"

definition controls_ok :: "'c desktop \<Rightarrow> bool" where
  "controls_ok st \<longleftrightarrow> (case builder st of
       None \<Rightarrow> ed_uuid st = None \<and> refresh_cancellable st = None \<and> devices_cancellable st = None
     | Some w \<Rightarrow>
         (w_sensitive w RefreshButton \<longleftrightarrow> refresh_cancellable st = None)
       \<and> (w_sensitive w DevicesButton \<longleftrightarrow> devices_cancellable st = None)
       \<and> (w_sensitive w ReconnectButton \<longleftrightarrow> \<not> reconnect_busy st)
       \<and> (w_sensitive w IntervalSpin \<longleftrightarrow> w_keepalive w) \<and> (w_sensitive w RestartSpin \<longleftrightarrow> w_keepalive w)
       \<and> (w_sensitive w AllowLanCheck \<longleftrightarrow> w_kill_switch w)
       \<and> (w_kill_switch w \<longrightarrow> w_sensitive w KillSwitchCheck))"

definition ed_inv :: "'c desktop \<Rightarrow> bool" where
  "ed_inv st \<longleftrightarrow> reconnect_inv st
     \<and> task_inv (refresh_cancellable st) (refresh_tasks st) st
     \<and> task_inv (devices_cancellable st) (map fst (devices_tasks st)) st
     \<and> ids_ok st \<and> controls_ok st"

text \<open>The documented behaviour the editor relies on.\<close>

definition editor_docs ::
  "('c, 'w) combolib_scheme \<Rightarrow> 'g glib_scheme \<Rightarrow> ('n, 'o, 'a, 'm, 'j) nodelib_scheme
     \<Rightarrow> ((string \<Rightarrow> string \<Rightarrow> int) \<Rightarrow> string list \<Rightarrow> string list) \<Rightarrow> (string \<Rightarrow> string \<Rightarrow> int) \<Rightarrow> bool" where
  "editor_docs W L J qsort collate \<longleftrightarrow> combo_doc W \<and> ascii_doc L \<and> qsort_doc qsort \<and> three_way collate
     \<and> (\<forall>s e. js_load_from_data J s = Inl e \<longrightarrow> \<not> is_cancelled_error e)"

section \<open>What the handlers change\<close>

text \<open>The effect of the functions that may be undefined, where they are defined.\<close>

definition on_widgets :: "('c widgets \<Rightarrow> 'c widgets) \<Rightarrow> 'c desktop \<Rightarrow> 'c desktop" where
  "on_widgets f st = st\<lparr>builder := map_option f (builder st)\<rparr>"

definition ctx_finished :: "reconnect_ctx \<Rightarrow> cstr \<Rightarrow> 'c desktop \<Rightarrow> 'c desktop" where
  "ctx_finished ctx m st = (on_widgets (finish_button m) st)
     \<lparr>reconnect_busy := False, reconnect_cancellable := None,
      reconnect_ops := (if rx_poll_id ctx then filter (\<lambda>op. \<not> is_poll op) (reconnect_ops st) else reconnect_ops st),
      contexts := removeAll (rx_addr ctx) (contexts st)\<rparr>"

definition labelled :: "string \<Rightarrow> 'c desktop \<Rightarrow> 'c desktop" where
  "labelled l = on_widgets (\<lambda>w. w\<lparr>w_reconnect_label := l\<rparr>)"

lemma with_widgets_Some: "builder st = Some w \<Longrightarrow> with_widgets f st = Some (on_widgets f st)"
  by (simp add: with_widgets_def on_widgets_def)

lemma on_widgets_gone: "builder st = None \<Longrightarrow> on_widgets f st = st"
  by (simp add: on_widgets_def)

lemma ctx_live_simps [simp]:
  "ctx_live (ctx\<lparr>rx_client := b\<rparr>) st = ctx_live ctx st" "ctx_live (ctx\<lparr>rx_remote := r\<rparr>) st = ctx_live ctx st"
  "ctx_live (ctx\<lparr>rx_poll_id := b\<rparr>) st = ctx_live ctx st" "ctx_live (ctx\<lparr>rx_poll_count := n\<rparr>) st = ctx_live ctx st"
  by (simp_all add: ctx_live_def)

lemma finish_eq: "ctx_live ctx st \<Longrightarrow> reconnect_ctx_finish ctx m st = Some (ctx_finished ctx m st)"
  by (cases "builder st") (simp_all add: reconnect_ctx_finish_def ctx_finished_def with_widgets_def on_widgets_def)

lemma set_label_eq: "ctx_live ctx st \<Longrightarrow> reconnect_set_label ctx l st = Some (labelled l st)"
  by (cases "builder st") (simp_all add: reconnect_set_label_def labelled_def with_widgets_def on_widgets_def)

lemma on_widgets_simps [simp]:
  "builder (on_widgets f st) = map_option f (builder st)"
  "new_connection (on_widgets f st) = new_connection st"
  "refresh_cancellable (on_widgets f st) = refresh_cancellable st"
  "devices_cancellable (on_widgets f st) = devices_cancellable st"
  "ed_uuid (on_widgets f st) = ed_uuid st"
  "reconnect_cancellable (on_widgets f st) = reconnect_cancellable st"
  "reconnect_busy (on_widgets f st) = reconnect_busy st"
  "next_cancellable (on_widgets f st) = next_cancellable st"
  "cancelled_ones (on_widgets f st) = cancelled_ones st"
  "refresh_tasks (on_widgets f st) = refresh_tasks st"
  "devices_tasks (on_widgets f st) = devices_tasks st"
  "reconnect_ops (on_widgets f st) = reconnect_ops st"
  "contexts (on_widgets f st) = contexts st"
  "editor_calls (on_widgets f st) = editor_calls st"
  by (simp_all add: on_widgets_def)

lemma ed_emit_simps [simp]:
  "builder (ed_emit c st) = builder st"
  "refresh_cancellable (ed_emit c st) = refresh_cancellable st"
  "devices_cancellable (ed_emit c st) = devices_cancellable st"
  "ed_uuid (ed_emit c st) = ed_uuid st"
  "reconnect_cancellable (ed_emit c st) = reconnect_cancellable st"
  "reconnect_busy (ed_emit c st) = reconnect_busy st"
  "next_cancellable (ed_emit c st) = next_cancellable st"
  "cancelled_ones (ed_emit c st) = cancelled_ones st"
  "refresh_tasks (ed_emit c st) = refresh_tasks st"
  "devices_tasks (ed_emit c st) = devices_tasks st"
  "reconnect_ops (ed_emit c st) = reconnect_ops st"
  "contexts (ed_emit c st) = contexts st"
  "editor_calls (ed_emit c st) = editor_calls st @ [c]"
  by (simp_all add: ed_emit_def)

lemma await_simps [simp]:
  "builder (await op st) = builder st"
  "refresh_cancellable (await op st) = refresh_cancellable st"
  "devices_cancellable (await op st) = devices_cancellable st"
  "ed_uuid (await op st) = ed_uuid st"
  "reconnect_cancellable (await op st) = reconnect_cancellable st"
  "reconnect_busy (await op st) = reconnect_busy st"
  "next_cancellable (await op st) = next_cancellable st"
  "cancelled_ones (await op st) = cancelled_ones st"
  "refresh_tasks (await op st) = refresh_tasks st"
  "devices_tasks (await op st) = devices_tasks st"
  "reconnect_ops (await op st) = reconnect_ops st @ [op]"
  "contexts (await op st) = contexts st"
  "editor_calls (await op st) = editor_calls st"
  by (simp_all add: await_def)

lemma set_control_simps [simp]:
  "w_sensitive (set_sensitive c b w) = (w_sensitive w)(c := b)"
  "w_keepalive (set_sensitive c b w) = w_keepalive w" "w_kill_switch (set_sensitive c b w) = w_kill_switch w"
  "w_sensitive (set_tooltip c t w) = w_sensitive w"
  "w_keepalive (set_tooltip c t w) = w_keepalive w" "w_kill_switch (set_tooltip c t w) = w_kill_switch w"
  "w_server (set_sensitive c b w) = w_server w" "w_device (set_sensitive c b w) = w_device w"
  by (simp_all add: set_sensitive_def set_tooltip_def)

lemma finish_button_simps [simp]:
  "w_sensitive (finish_button m w) = (w_sensitive w)(ReconnectButton := True)"
  "w_keepalive (finish_button m w) = w_keepalive w" "w_kill_switch (finish_button m w) = w_kill_switch w"
  by (simp_all add: finish_button_def Let_def split: option.split)

lemma finish_simps [simp]:
  "builder (ctx_finished ctx m st) = map_option (finish_button m) (builder st)"
  "refresh_cancellable (ctx_finished ctx m st) = refresh_cancellable st"
  "devices_cancellable (ctx_finished ctx m st) = devices_cancellable st"
  "ed_uuid (ctx_finished ctx m st) = ed_uuid st"
  "reconnect_cancellable (ctx_finished ctx m st) = None"
  "\<not> reconnect_busy (ctx_finished ctx m st)"
  "next_cancellable (ctx_finished ctx m st) = next_cancellable st"
  "cancelled_ones (ctx_finished ctx m st) = cancelled_ones st"
  "refresh_tasks (ctx_finished ctx m st) = refresh_tasks st"
  "devices_tasks (ctx_finished ctx m st) = devices_tasks st"
  "reconnect_ops (ctx_finished ctx m st) =
     (if rx_poll_id ctx then filter (\<lambda>op. \<not> is_poll op) (reconnect_ops st) else reconnect_ops st)"
  "contexts (ctx_finished ctx m st) = removeAll (rx_addr ctx) (contexts st)"
  "editor_calls (ctx_finished ctx m st) = editor_calls st"
  by (simp_all add: ctx_finished_def)

lemma labelled_simps [simp]:
  "builder (labelled l st) = map_option (\<lambda>w. w\<lparr>w_reconnect_label := l\<rparr>) (builder st)"
  "refresh_cancellable (labelled l st) = refresh_cancellable st"
  "devices_cancellable (labelled l st) = devices_cancellable st"
  "ed_uuid (labelled l st) = ed_uuid st"
  "reconnect_cancellable (labelled l st) = reconnect_cancellable st"
  "reconnect_busy (labelled l st) = reconnect_busy st"
  "next_cancellable (labelled l st) = next_cancellable st"
  "cancelled_ones (labelled l st) = cancelled_ones st"
  "refresh_tasks (labelled l st) = refresh_tasks st"
  "devices_tasks (labelled l st) = devices_tasks st"
  "reconnect_ops (labelled l st) = reconnect_ops st"
  "contexts (labelled l st) = contexts st"
  "editor_calls (labelled l st) = editor_calls st"
  by (simp_all add: labelled_def)

section \<open>The invariant is kept\<close>

lemma ids_ok_mono:
  assumes "ids_ok st" "next_cancellable st' = next_cancellable st"
    and "set (refresh_tasks st') \<subseteq> set (refresh_tasks st)"
    and "fst ` set (devices_tasks st') \<subseteq> fst ` set (devices_tasks st)"
    and "set_option (reconnect_cancellable st') \<subseteq> set_option (reconnect_cancellable st)"
    and "set (cancelled_ones st') \<subseteq> set (cancelled_ones st) \<union> set (refresh_tasks st)
      \<union> fst ` set (devices_tasks st) \<union> set_option (reconnect_cancellable st)"
  shows "ids_ok st'"
proof -
  have "set (cancelled_ones st') \<union> set (refresh_tasks st') \<union> fst ` set (devices_tasks st')
      \<union> set_option (reconnect_cancellable st')
    \<subseteq> set (cancelled_ones st) \<union> set (refresh_tasks st) \<union> fst ` set (devices_tasks st)
      \<union> set_option (reconnect_cancellable st)" (is "?A' \<subseteq> ?A")
    using assms(3-6) by blast
  moreover have "\<forall>c \<in> ?A. c < next_cancellable st" using assms(1) unfolding ids_ok_def by blast
  ultimately have "\<forall>c \<in> ?A'. c < next_cancellable st'" unfolding assms(2) by blast
  moreover have "set_option (reconnect_cancellable st') \<inter> (set (refresh_tasks st') \<union> fst ` set (devices_tasks st')) = {}"
    using assms(1) assms(3-5) unfolding ids_ok_def by (metis Int_mono Un_mono subset_empty)
  moreover have "set (refresh_tasks st') \<inter> fst ` set (devices_tasks st') = {}"
    using assms(1) assms(3-4) unfolding ids_ok_def by (metis Int_mono subset_empty)
  ultimately show ?thesis unfolding ids_ok_def by simp
qed

text \<open>What one attempt to reconnect does to the rest of the state.\<close>

definition reconnect_only :: "'c desktop \<Rightarrow> 'c desktop \<Rightarrow> bool" where
  "reconnect_only st st' \<longleftrightarrow>
     refresh_cancellable st' = refresh_cancellable st \<and> devices_cancellable st' = devices_cancellable st
   \<and> refresh_tasks st' = refresh_tasks st \<and> devices_tasks st' = devices_tasks st
   \<and> cancelled_ones st' = cancelled_ones st \<and> ed_uuid st' = ed_uuid st
   \<and> next_cancellable st' = next_cancellable st
   \<and> (reconnect_cancellable st' = reconnect_cancellable st \<and> reconnect_busy st' = reconnect_busy st
      \<or> reconnect_cancellable st' = None \<and> \<not> reconnect_busy st')
   \<and> rel_option (\<lambda>w w'. (\<forall>c. c \<noteq> ReconnectButton \<longrightarrow> w_sensitive w' c = w_sensitive w c)
        \<and> w_keepalive w' = w_keepalive w \<and> w_kill_switch w' = w_kill_switch w
        \<and> (w_sensitive w' ReconnectButton \<longleftrightarrow> \<not> reconnect_busy st')) (builder st) (builder st')"

lemma reconnect_only_inv:
  assumes "ed_inv st" "reconnect_only st st'" "reconnect_inv st'"
  shows "ed_inv st'"
proof -
  note r = assms(2) [unfolded reconnect_only_def]
  have "task_inv (refresh_cancellable st') (refresh_tasks st') st'"
      "task_inv (devices_cancellable st') (map fst (devices_tasks st')) st'"
    using assms(1) r by (simp_all add: ed_inv_def task_inv_def)
  note tasks = this
  have sub: "set_option (reconnect_cancellable st') \<subseteq> set_option (reconnect_cancellable st)"
    using r by (auto simp: subset_iff)
  have eqs: "refresh_tasks st' = refresh_tasks st" "devices_tasks st' = devices_tasks st"
      "cancelled_ones st' = cancelled_ones st" "next_cancellable st' = next_cancellable st"
    using r by simp_all
  have "ids_ok st" using assms(1) by (simp add: ed_inv_def)
  then have "ids_ok st'"
    by (rule ids_ok_mono [OF _ _ _ _ sub]) (simp_all add: eqs le_supI1)
  moreover have "controls_ok st'"
  proof (cases "builder st")
    case None
    with r have "builder st' = None" by (auto simp: option_rel_Some1 rel_option_iff split: option.splits)
    with None assms(1) r show ?thesis by (simp add: ed_inv_def controls_ok_def)
  next
    case (Some w)
    with r obtain w' where w': "builder st' = Some w'"
        "\<forall>c. c \<noteq> ReconnectButton \<longrightarrow> w_sensitive w' c = w_sensitive w c"
        "w_keepalive w' = w_keepalive w" "w_kill_switch w' = w_kill_switch w"
        "w_sensitive w' ReconnectButton \<longleftrightarrow> \<not> reconnect_busy st'"
      by (auto simp: option_rel_Some1)
    show ?thesis
      using assms(1) r w'(2-5) by (simp add: ed_inv_def controls_ok_def w'(1) Some)
  qed
  ultimately show ?thesis using assms(3) tasks by (simp add: ed_inv_def)
qed

lemma remove_op_only:
  "reconnect_inv st \<Longrightarrow> op \<in> set (reconnect_ops st) \<Longrightarrow>
   reconnect_busy st \<and> reconnect_cancellable st \<noteq> None \<and> reconnect_ops st = [op]
     \<and> remove1 op (reconnect_ops st) = [] \<and> contexts st = [rx_addr (op_ctx op)]
     \<and> (\<exists>s. stage_from Fresh (editor_calls st) = Some s \<and> op_ok s op)"
  by (auto simp: reconnect_inv_def split: if_splits)

text \<open>The context of the callback that runs is allocated.\<close>

lemma op_ctx_live:
  assumes "ed_inv st" "op \<in> set (reconnect_ops st)"
  shows "ctx_live (op_ctx op) (st\<lparr>reconnect_ops := ops\<rparr>)"
  using remove_op_only [OF _ assms(2)] assms(1) by (simp add: ctx_live_def ed_inv_def)

lemma reconnect_inv_finish:
  assumes "reconnect_inv st" "op \<in> set (reconnect_ops st)" "rx_addr ctx = rx_addr (op_ctx op)"
  shows "reconnect_inv (ctx_finished ctx m (st\<lparr>reconnect_ops := remove1 op (reconnect_ops st)\<rparr>))"
  using remove_op_only [OF assms(1,2)] assms(3) by (auto simp: reconnect_inv_def)

lemma reconnect_only_finish:
  "reconnect_only st (ctx_finished ctx m (st\<lparr>reconnect_ops := ops\<rparr>))"
  by (cases "builder st") (simp_all add: reconnect_only_def)

lemma finish_inv:
  assumes "ed_inv st" "op \<in> set (reconnect_ops st)" "rx_addr ctx = rx_addr (op_ctx op)"
  shows "ed_inv (ctx_finished ctx m (st\<lparr>reconnect_ops := remove1 op (reconnect_ops st)\<rparr>))"
proof -
  have "reconnect_inv st" using assms(1) by (simp add: ed_inv_def)
  from reconnect_inv_finish [OF this assms(2,3)] show ?thesis
    by (rule reconnect_only_inv [OF assms(1) reconnect_only_finish])
qed

text \<open>Going on: a call is made, or none, and the next callback waits.\<close>

lemma reconnect_only_await:
  assumes "controls_ok st" "reconnect_busy st"
  shows "reconnect_only st (await op' (ed_emit c (labelled l (st\<lparr>reconnect_ops := ops\<rparr>))))"
    "reconnect_only st (await op' (st\<lparr>reconnect_ops := ops\<rparr>))"
  using assms by (cases "builder st"; simp add: reconnect_only_def controls_ok_def)+

lemma await_inv:
  assumes "ed_inv st" "op \<in> set (reconnect_ops st)" "rx_addr (op_ctx op') = rx_addr (op_ctx op)"
    and "\<And>s. stage_from Fresh (editor_calls st) = Some s \<Longrightarrow> op_ok s op \<Longrightarrow>
      \<exists>s'. next_stage s c = Some s' \<and> op_ok s' op'"
  shows "ed_inv (await op' (ed_emit c (labelled l (st\<lparr>reconnect_ops := remove1 op (reconnect_ops st)\<rparr>))))"
proof -
  have i: "reconnect_inv st" "controls_ok st" using assms(1) by (simp_all add: ed_inv_def)
  note o = remove_op_only [OF i(1) assms(2)]
  then obtain s s' where s: "stage_from Fresh (editor_calls st) = Some s" "next_stage s c = Some s'" "op_ok s' op'"
    using assms(4) by blast
  have "reconnect_inv (await op' (ed_emit c (labelled l (st\<lparr>reconnect_ops := remove1 op (reconnect_ops st)\<rparr>))))"
    using o s assms(3) by (simp add: reconnect_inv_def stage_from_snoc)
  then show ?thesis
    using reconnect_only_inv [OF assms(1) reconnect_only_await(1) [OF i(2)]] o by blast
qed

lemma await_quiet_inv:
  assumes "ed_inv st" "op \<in> set (reconnect_ops st)" "rx_addr (op_ctx op') = rx_addr (op_ctx op)"
    and "\<And>s. op_ok s op \<Longrightarrow> op_ok s op'"
  shows "ed_inv (await op' (st\<lparr>reconnect_ops := remove1 op (reconnect_ops st)\<rparr>))"
proof -
  have i: "reconnect_inv st" "controls_ok st" using assms(1) by (simp_all add: ed_inv_def)
  note o = remove_op_only [OF i(1) assms(2)]
  then have "reconnect_inv (await op' (st\<lparr>reconnect_ops := remove1 op (reconnect_ops st)\<rparr>))"
    using assms(3,4) by (auto simp: reconnect_inv_def)
  then show ?thesis
    using reconnect_only_inv [OF assms(1) reconnect_only_await(2) [OF i(2)]] o by blast
qed

text \<open>The five callbacks.\<close>

lemma client_ready_inv:
  assumes "ed_inv st" "OpClientReady ctx \<in> set (reconnect_ops st)"
    and "reconnect_client_ready W E err lookup ctx
      (st\<lparr>reconnect_ops := remove1 (OpClientReady ctx) (reconnect_ops st)\<rparr>) = Some st'"
  shows "ed_inv st'"
proof -
  note live = op_ctx_live [OF assms(1,2), simplified] and fin = finish_inv [OF assms(1,2)]
  have go: "ed_inv (await (OpCommitDone (ctx\<lparr>rx_client := True, rx_remote := Some d\<rparr>))
      (ed_emit (CommitChanges d) (labelled l
        (st\<lparr>reconnect_ops := remove1 (OpClientReady ctx) (reconnect_ops st)\<rparr>))))" for d l
    by (rule await_inv [OF assms(1,2)]) (auto simp: op_ok_def ctx_new_def)
  show ?thesis
    using assms(3) fin go
    by (auto simp: reconnect_client_ready_def Let_def live finish_eq set_label_eq split: option.splits prod.splits)
qed

lemma commit_done_inv:
  assumes "ed_inv st" "OpCommitDone ctx \<in> set (reconnect_ops st)"
    and "reconnect_commit_done err actives ctx
      (st\<lparr>reconnect_ops := remove1 (OpCommitDone ctx) (reconnect_ops st)\<rparr>) = Some st'"
  shows "ed_inv st'"
proof -
  note live = op_ctx_live [OF assms(1,2), simplified]
  have "ed_inv (await (OpDeactivateDone ctx) (ed_emit (DeactivateConnection u) (labelled l
      (st\<lparr>reconnect_ops := remove1 (OpCommitDone ctx) (reconnect_ops st)\<rparr>))))" for u l
    by (rule await_inv [OF assms(1,2)]) (auto simp: op_ok_def)
  then show ?thesis
    using assms(3) finish_inv [OF assms(1,2)]
    by (auto simp: reconnect_commit_done_def live finish_eq set_label_eq split: option.splits)
qed

lemma deactivate_done_inv:
  assumes "ed_inv st" "OpDeactivateDone ctx \<in> set (reconnect_ops st)"
    and "reconnect_deactivate_done err ctx
      (st\<lparr>reconnect_ops := remove1 (OpDeactivateDone ctx) (reconnect_ops st)\<rparr>) = Some st'"
  shows "ed_inv st'"
proof -
  note live = op_ctx_live [OF assms(1,2), simplified]
  have "ed_inv (await (OpPoll (ctx\<lparr>rx_poll_count := 0, rx_poll_id := True\<rparr>))
      (st\<lparr>reconnect_ops := remove1 (OpDeactivateDone ctx) (reconnect_ops st)\<rparr>))"
    by (rule await_quiet_inv [OF assms(1,2)]) (auto simp: op_ok_def)
  then show ?thesis
    using assms(3) finish_inv [OF assms(1,2)]
    by (auto simp: reconnect_deactivate_done_def live finish_eq split: option.splits)
qed

lemma poll_inv:
  assumes "ed_inv st" "OpPoll ctx \<in> set (reconnect_ops st)"
    and "reconnect_poll_deactivated actives ctx
      (st\<lparr>reconnect_ops := remove1 (OpPoll ctx) (reconnect_ops st)\<rparr>) = Some st'"
  shows "ed_inv st'"
proof -
  note live = op_ctx_live [OF assms(1,2), simplified]
  have "ed_inv (await (OpPoll (ctx\<lparr>rx_poll_count := Suc (rx_poll_count ctx)\<rparr>))
      (st\<lparr>reconnect_ops := remove1 (OpPoll ctx) (reconnect_ops st)\<rparr>))" if "rx_poll_count ctx < 20"
    by (rule await_quiet_inv [OF assms(1,2)]) (use that in \<open>auto simp: op_ok_def\<close>)
  moreover have "ed_inv (await (OpActivateDone (ctx\<lparr>rx_poll_id := False\<rparr>))
      (ed_emit (ActivateConnection (rx_remote ctx)) (labelled l
        (st\<lparr>reconnect_ops := remove1 (OpPoll ctx) (reconnect_ops st)\<rparr>))))" for l
    by (rule await_inv [OF assms(1,2)]) (auto simp: op_ok_def)
  ultimately show ?thesis
    using assms(3) finish_inv [OF assms(1,2)]
    by (auto simp: reconnect_poll_deactivated_def Let_def live finish_eq set_label_eq split: if_splits)
qed

lemma activate_done_inv:
  assumes "ed_inv st" "OpActivateDone ctx \<in> set (reconnect_ops st)"
    and "reconnect_activate_done err ctx
      (st\<lparr>reconnect_ops := remove1 (OpActivateDone ctx) (reconnect_ops st)\<rparr>) = Some st'"
  shows "ed_inv st'"
  using assms(3) finish_inv [OF assms(1,2)] op_ctx_live [OF assms(1,2), simplified]
  by (auto simp: reconnect_activate_done_def finish_eq split: option.splits)

text \<open>The parts of the invariant depend on a few fields each.\<close>

lemma reconnect_inv_cong:
  assumes "reconnect_inv st" "stage_from Fresh (editor_calls st') = stage_from Fresh (editor_calls st)"
    and "reconnect_busy st' = reconnect_busy st" "reconnect_cancellable st' = reconnect_cancellable st"
    and "reconnect_ops st' = reconnect_ops st" "contexts st' = contexts st"
  shows "reconnect_inv st'"
  using assms(1) unfolding reconnect_inv_def assms(2-6) .

lemma task_inv_cong: "task_inv c ids st \<Longrightarrow> cancelled_ones st' = cancelled_ones st \<Longrightarrow> task_inv c ids st'"
  unfolding task_inv_def by simp

lemma ids_ok_cong:
  assumes "ids_ok st" "next_cancellable st' = next_cancellable st" "refresh_tasks st' = refresh_tasks st"
    and "devices_tasks st' = devices_tasks st" "reconnect_cancellable st' = reconnect_cancellable st"
    and "cancelled_ones st' = cancelled_ones st"
  shows "ids_ok st'"
  using assms unfolding ids_ok_def by simp

lemma ed_invD:
  assumes "ed_inv st"
  shows "reconnect_inv st" "task_inv (refresh_cancellable st) (refresh_tasks st) st"
    "task_inv (devices_cancellable st) (map fst (devices_tasks st)) st" "ids_ok st" "controls_ok st"
  using assms unfolding ed_inv_def by simp_all

text \<open>Changes of widgets, with calls that are no part of an attempt.\<close>

lemma widgets_only_inv:
  assumes "ed_inv st" "controls_ok st'" "stage_from Fresh (editor_calls st') = stage_from Fresh (editor_calls st)"
    and "reconnect_busy st' = reconnect_busy st" "reconnect_cancellable st' = reconnect_cancellable st"
    and "reconnect_ops st' = reconnect_ops st" "next_cancellable st' = next_cancellable st"
    and "refresh_tasks st' = refresh_tasks st" "devices_tasks st' = devices_tasks st"
    and "cancelled_ones st' = cancelled_ones st" "refresh_cancellable st' = refresh_cancellable st"
    and "devices_cancellable st' = devices_cancellable st" "contexts st' = contexts st"
  shows "ed_inv st'"
  unfolding ed_inv_def assms(8,9,11,12)
  using reconnect_inv_cong [OF ed_invD(1) [OF assms(1)] assms(3-6,13)]
    task_inv_cong [OF ed_invD(2) [OF assms(1)] assms(10)] task_inv_cong [OF ed_invD(3) [OF assms(1)] assms(10)]
    ids_ok_cong [OF ed_invD(4) [OF assms(1)] assms(7-9,5,10)] assms(2)
  by blast

lemma stage_changed:
  "stage_from s (cs @ [EmitChanged]) = stage_from s cs" "stage_from s (cs @ [CancelOperation i]) = stage_from s cs"
  by (cases "stage_from s cs"; simp add: stage_from_snoc)+

text \<open>Edits.\<close>

lemma changed_inv:
  assumes "ed_inv st" "controls_ok (st\<lparr>builder := b\<rparr>)"
  shows "ed_inv (ed_emit EmitChanged (st\<lparr>builder := b\<rparr>))"
  using assms(2)
  by (intro widgets_only_inv [OF assms(1)]; cases b) (simp_all add: controls_ok_def stage_changed)

lemma edited_inv:
  assumes "ed_inv st" "builder st = Some w"
  shows "same_controls w w' \<Longrightarrow> ed_inv (stuff_changed_cb (st\<lparr>builder := Some w'\<rparr>))"
    and "keepalive_toggled_cb (st\<lparr>builder := Some (w\<lparr>w_keepalive := b\<rparr>)\<rparr>) = Some st' \<Longrightarrow> ed_inv st'"
    and "w_sensitive w KillSwitchCheck \<Longrightarrow>
      kill_switch_toggled_cb (st\<lparr>builder := Some (w\<lparr>w_kill_switch := b\<rparr>)\<rparr>) = Some st' \<Longrightarrow> ed_inv st'"
proof -
  have c: "controls_ok st" using assms(1) by (simp add: ed_inv_def)
  show "ed_inv (stuff_changed_cb (st\<lparr>builder := Some w'\<rparr>))" if "same_controls w w'"
    unfolding stuff_changed_cb_def using that c assms(2)
    by (intro changed_inv [OF assms(1)]) (simp add: controls_ok_def same_controls_def)
  assume "keepalive_toggled_cb (st\<lparr>builder := Some (w\<lparr>w_keepalive := b\<rparr>)\<rparr>) = Some st'"
  then have st': "st' = ed_emit EmitChanged (st\<lparr>builder := Some (set_sensitive RestartSpin b
      (set_sensitive IntervalSpin b (w\<lparr>w_keepalive := b\<rparr>)))\<rparr>)"
    by (simp add: keepalive_toggled_cb_def stuff_changed_cb_def with_widgets_def)
  show "ed_inv st'"
    unfolding st' by (intro changed_inv [OF assms(1)]) (use c assms(2) in \<open>simp add: controls_ok_def\<close>)
next
  have c: "controls_ok st" using assms(1) by (simp add: ed_inv_def)
  assume s: "w_sensitive w KillSwitchCheck"
    and "kill_switch_toggled_cb (st\<lparr>builder := Some (w\<lparr>w_kill_switch := b\<rparr>)\<rparr>) = Some st'"
  then have st': "st' = ed_emit EmitChanged (st\<lparr>builder := Some (set_sensitive AllowLanCheck b
      (w\<lparr>w_kill_switch := b\<rparr>))\<rparr>)"
    by (simp add: kill_switch_toggled_cb_def stuff_changed_cb_def with_widgets_def)
  show "ed_inv st'"
    unfolding st' by (intro changed_inv [OF assms(1)]) (use c s assms(2) in \<open>simp add: controls_ok_def\<close>)
qed

text \<open>Tasks.\<close>

lemma new_id:
  assumes "ids_ok st"
  shows "next_cancellable st \<notin> set (cancelled_ones st)" "next_cancellable st \<notin> set (refresh_tasks st)"
    "next_cancellable st \<notin> fst ` set (devices_tasks st)"
    "next_cancellable st \<notin> set_option (reconnect_cancellable st)"
  using assms unfolding ids_ok_def by auto

lemma ids_ok_new:
  assumes "ids_ok st" "c = next_cancellable st" "next_cancellable st' = Suc c"
    and "cancelled_ones st' = cancelled_ones st"
    and "refresh_tasks st' = refresh_tasks st @ [c] \<and> devices_tasks st' = devices_tasks st
        \<and> reconnect_cancellable st' = reconnect_cancellable st
      \<or> refresh_tasks st' = refresh_tasks st \<and> devices_tasks st' = devices_tasks st @ [(c, k)]
        \<and> reconnect_cancellable st' = reconnect_cancellable st
      \<or> refresh_tasks st' = refresh_tasks st \<and> devices_tasks st' = devices_tasks st
        \<and> reconnect_cancellable st' = Some c"
  shows "ids_ok st'"
proof -
  note n = new_id [OF assms(1), folded assms(2)]
  have l: "\<forall>i \<in> set (cancelled_ones st) \<union> set (refresh_tasks st) \<union> fst ` set (devices_tasks st)
      \<union> set_option (reconnect_cancellable st). i < Suc c"
    using assms(1,2) unfolding ids_ok_def by (simp add: less_Suc_eq)
  from assms(5) show ?thesis
  proof (elim disjE conjE)
    assume "refresh_tasks st' = refresh_tasks st @ [c]" "devices_tasks st' = devices_tasks st"
      "reconnect_cancellable st' = reconnect_cancellable st"
    with n l assms(1,3,4) show ?thesis unfolding ids_ok_def by simp
  next
    assume "refresh_tasks st' = refresh_tasks st" "devices_tasks st' = devices_tasks st @ [(c, k)]"
      "reconnect_cancellable st' = reconnect_cancellable st"
    with n l assms(1,3,4) show ?thesis unfolding ids_ok_def by simp
  next
    assume "refresh_tasks st' = refresh_tasks st" "devices_tasks st' = devices_tasks st"
      "reconnect_cancellable st' = Some c"
    with n l assms(1,3,4) show ?thesis unfolding ids_ok_def by simp
  qed
qed

lemma task_inv_new:
  "task_inv None ids st \<Longrightarrow> c \<notin> set ids \<Longrightarrow> c \<notin> set (cancelled_ones st') \<Longrightarrow>
   cancelled_ones st' = cancelled_ones st \<Longrightarrow> task_inv (Some c) (ids @ [c]) st'"
  by (auto simp: task_inv_def)

lemma refresh_clicked_inv:
  assumes "ed_inv st" "builder st = Some w" "refresh_button_clicked_cb st = Some st'"
  shows "ed_inv st'"
proof (cases "refresh_cancellable st")
  case None
  note i = ed_invD [OF assms(1)] and n = new_id [OF ed_invD(4) [OF assms(1)]]
  have st: "st' = (on_widgets (set_sensitive RefreshButton False) st)
      \<lparr>refresh_cancellable := Some (next_cancellable st), next_cancellable := Suc (next_cancellable st),
       refresh_tasks := refresh_tasks st @ [next_cancellable st]\<rparr>"
    using assms(3) None by (simp add: refresh_button_clicked_cb_def Let_def with_widgets_Some [OF assms(2)])
  have "reconnect_inv st'" by (rule reconnect_inv_cong [OF i(1)]) (simp_all add: st)
  moreover have "task_inv (refresh_cancellable st') (refresh_tasks st') st'"
    using task_inv_new [OF i(2) [unfolded None] n(2), of st'] n(1) by (simp add: st)
  moreover have "task_inv (devices_cancellable st') (map fst (devices_tasks st')) st'"
    using task_inv_cong [OF i(3), of st'] by (simp add: st)
  moreover have "ids_ok st'" by (intro ids_ok_new [OF i(4) refl]) (simp_all add: st)
  moreover have "controls_ok st'" using i(5) assms(2) by (simp add: st controls_ok_def)
  ultimately show ?thesis unfolding ed_inv_def by blast
qed (use assms in \<open>simp add: refresh_button_clicked_cb_def\<close>)

lemma devices_clicked_inv:
  assumes "ed_inv st" "builder st = Some w" "devices_button_clicked_cb st = Some st'"
  shows "ed_inv st'"
proof -
  note i = ed_invD [OF assms(1)] and n = new_id [OF ed_invD(4) [OF assms(1)]]
  consider "devices_cancellable st \<noteq> None" | "devices_cancellable st = None" "w_api_key w = []"
    | "devices_cancellable st = None" "w_api_key w \<noteq> []" by blast
  then show ?thesis
  proof cases
    case 2
    then have st: "st' = on_widgets (set_tooltip DevicesButton ''Enter your API key first (see the link above).'') st"
      using assms(3) by (simp add: devices_button_clicked_cb_def assms(2) with_widgets_Some [OF assms(2)])
    have "controls_ok st'" using i(5) by (simp add: st assms(2) controls_ok_def)
    then show ?thesis by (rule widgets_only_inv [OF assms(1)]) (simp_all add: st)
  next
    case 3
    then have st: "st' = (on_widgets (set_sensitive DevicesButton False) st)
      \<lparr>devices_cancellable := Some (next_cancellable st), next_cancellable := Suc (next_cancellable st),
       devices_tasks := devices_tasks st @ [(next_cancellable st, w_api_key w)]\<rparr>"
      using assms(3) by (simp add: devices_button_clicked_cb_def Let_def assms(2) with_widgets_Some [OF assms(2)])
    have "reconnect_inv st'" by (rule reconnect_inv_cong [OF i(1)]) (simp_all add: st)
    moreover have "task_inv (refresh_cancellable st') (refresh_tasks st') st'"
      using task_inv_cong [OF i(2), of st'] by (simp add: st)
    moreover have "task_inv (devices_cancellable st') (map fst (devices_tasks st')) st'"
      using task_inv_new [OF i(3) [unfolded 3(1)], of "next_cancellable st" st'] n(1,3) by (simp add: st)
    moreover have "ids_ok st'" by (intro ids_ok_new [OF i(4) refl]) (simp_all add: st)
    moreover have "controls_ok st'" using i(5) assms(2) by (simp add: st controls_ok_def)
    ultimately show ?thesis unfolding ed_inv_def by blast
  qed (use assms in \<open>simp add: devices_button_clicked_cb_def\<close>)
qed

lemma reconnect_clicked_inv:
  assumes "ed_inv st" "builder st = Some w" "reconnect_button_clicked_cb st = Some st'"
  shows "ed_inv st'"
proof -
  note i = ed_invD [OF assms(1)]
  consider "reconnect_busy st" | "\<not> reconnect_busy st" "\<not> nonempty_str (ed_uuid st)"
    | "\<not> reconnect_busy st" "nonempty_str (ed_uuid st)" by blast
  then show ?thesis
  proof cases
    case 2
    then have st: "st' = on_widgets (set_tooltip ReconnectButton
        ''Save the connection once before using Apply & Reconnect.'') st"
      using assms(3) by (simp add: reconnect_button_clicked_cb_def with_widgets_Some [OF assms(2)])
    have "controls_ok st'" using i(5) by (simp add: st assms(2) controls_ok_def)
    then show ?thesis by (rule widgets_only_inv [OF assms(1)]) (simp_all add: st)
  next
    case 3
    let ?c = "next_cancellable st"
    from 3 have st: "st' = await (OpClientReady (ctx_new ?c))
        ((on_widgets (\<lambda>w. (set_sensitive ReconnectButton False w)
            \<lparr>w_reconnect_label := ''Connecting to NetworkManager'' @ ellipsis\<rparr>) st)
          \<lparr>reconnect_busy := True, reconnect_cancellable := Some ?c, next_cancellable := Suc ?c,
           contexts := ?c # contexts st\<rparr>)"
      using assms(3) by (simp add: reconnect_button_clicked_cb_def Let_def with_widgets_Some [OF assms(2)])
    have "reconnect_inv st'"
      using 3 i(1) by (auto simp: st reconnect_inv_def op_ok_def ctx_new_def)
    moreover have "task_inv (refresh_cancellable st') (refresh_tasks st') st'"
      using task_inv_cong [OF i(2), of st'] by (simp add: st)
    moreover have "task_inv (devices_cancellable st') (map fst (devices_tasks st')) st'"
      using task_inv_cong [OF i(3), of st'] by (simp add: st)
    moreover have "ids_ok st'" by (intro ids_ok_new [OF i(4) refl]) (simp_all add: st)
    moreover have "controls_ok st'" using i(5) assms(2) by (simp add: st controls_ok_def)
    ultimately show ?thesis unfolding ed_inv_def by blast
  qed (use assms in \<open>simp add: reconnect_button_clicked_cb_def\<close>)
qed

text \<open>A task that was cancelled leaves the editor alone; the other one belongs to its cancellable.\<close>

lemma fill_never_NULL:
  assumes "editor_docs W L J qsort collate"
  shows "\<exists>r. nm_airvpn_server_list_fill_combo W L J qsort collate c json n t = Some r"
proof (cases "js_load_from_data J (if n < 0 then json else take (nat n) json)")
  case (Inr p)
  show ?thesis
  proof (cases "js_root_object J p")
    case (Some root)
    have "combo_doc W" "qsort_doc qsort" "three_way collate" using assms by (simp_all add: editor_docs_def)
    from fill_combo_eq [OF this Inr Some] show ?thesis by blast
  qed (simp add: nm_airvpn_server_list_fill_combo_def Inr)
qed (simp add: nm_airvpn_server_list_fill_combo_def)

lemma list_errors_not_cancelled:
  "list_http_get C url key = Inl e \<Longrightarrow> \<not> is_cancelled_error e"
  by (auto simp: list_http_get_def io_error_def is_cancelled_error_def error_matches_def Let_def split: if_splits prod.splits)

lemma thread_errors_not_cancelled:
  assumes "editor_docs W L J qsort collate"
  shows "refresh_thread_cb C = Inl e \<Longrightarrow> \<not> is_cancelled_error e"
    and "devices_thread_cb J C key = Inl e \<Longrightarrow> \<not> is_cancelled_error e"
proof -
  show "refresh_thread_cb C = Inl e \<Longrightarrow> \<not> is_cancelled_error e"
    unfolding refresh_thread_cb_def nm_airvpn_server_list_fetch_def by (rule list_errors_not_cancelled)
  assume d: "devices_thread_cb J C key = Inl e"
  have l: "\<forall>s e. js_load_from_data J s = Inl e \<longrightarrow> \<not> is_cancelled_error e" using assms by (simp add: editor_docs_def)
  show "\<not> is_cancelled_error e"
    using d l
    by (auto simp: devices_thread_cb_def nm_airvpn_device_list_fetch_def io_error_def is_cancelled_error_def
        error_matches_def Let_def dest: list_errors_not_cancelled split: if_splits sum.splits option.splits)
qed

lemma task_done:
  assumes "task_inv c ids st" "i \<in> set ids" "cancelled_ones st' = cancelled_ones st"
  shows "i \<in> set (cancelled_ones st) \<Longrightarrow> task_inv c (remove1 i ids) st'"
    and "i \<notin> set (cancelled_ones st) \<Longrightarrow> c = Some i \<and> task_inv None (remove1 i ids) st'"
proof -
  have d: "distinct ids" and eq: "set ids - set (cancelled_ones st) = set_option c"
    using assms(1) by (simp_all add: task_inv_def)
  show "task_inv c (remove1 i ids) st'" if "i \<in> set (cancelled_ones st)"
    using that d eq assms(3) by (auto simp: task_inv_def)
  assume i: "i \<notin> set (cancelled_ones st)"
  with assms(2) eq have "i \<in> set_option c" by blast
  then have c: "c = Some i" by (simp add: elem_set)
  have "set (remove1 i ids) - set (cancelled_ones st) = {}"
    using eq d by (auto simp: c)
  with c d assms(3) show "c = Some i \<and> task_inv None (remove1 i ids) st'" by (simp add: task_inv_def)
qed

lemma cancelled_error_is [simp]: "is_cancelled_error cancelled_error"
  by (simp add: is_cancelled_error_def cancelled_error_def error_matches_def)

lemma builder_of_task:
  "controls_ok st \<Longrightarrow> refresh_cancellable st = Some c \<or> devices_cancellable st = Some d \<Longrightarrow> \<exists>w. builder st = Some w"
  by (cases "builder st") (auto simp: controls_ok_def)

lemma map_fst_remove1:
  "distinct (map fst xs) \<Longrightarrow> (c, k) \<in> set xs \<Longrightarrow> map fst (remove1 (c, k) xs) = remove1 c (map fst xs)"
  by (induction xs) force+

text \<open>The effect of the two callbacks.\<close>

lemma refresh_done_cases:
  assumes "editor_docs W L J qsort collate" "ed_inv st" "c \<in> set (refresh_tasks st)"
  obtains (cancelled) "c \<in> set (cancelled_ones st)"
      "refresh_done_cb W L J qsort collate (task_result c st (refresh_thread_cb C))
        (st\<lparr>refresh_tasks := remove1 c (refresh_tasks st)\<rparr>)
        = Some (st\<lparr>refresh_tasks := remove1 c (refresh_tasks st)\<rparr>)"
  | (finished) w w' where "c \<notin> set (cancelled_ones st)" "builder st = Some w"
      "w_sensitive w' = (w_sensitive w)(RefreshButton := True)"
      "w_keepalive w' = w_keepalive w" "w_kill_switch w' = w_kill_switch w"
      "refresh_done_cb W L J qsort collate (task_result c st (refresh_thread_cb C))
        (st\<lparr>refresh_tasks := remove1 c (refresh_tasks st)\<rparr>)
        = Some (st\<lparr>refresh_tasks := remove1 c (refresh_tasks st), refresh_cancellable := None, builder := Some w'\<rparr>)"
proof (cases "c \<in> set (cancelled_ones st)")
  case True
  with cancelled show thesis by (simp add: refresh_done_cb_def task_result_def)
next
  case False
  note i = ed_invD [OF assms(2)]
  from task_done(2) [OF i(2) assms(3) refl False] have "refresh_cancellable st = Some c" by blast
  with builder_of_task [OF i(5)] obtain w where w: "builder st = Some w" by blast
  have nc: "(case refresh_thread_cb C of Inl e \<Rightarrow> is_cancelled_error e | Inr _ \<Rightarrow> False) = False"
    using thread_errors_not_cancelled(1) [OF assms(1), of C] by (auto split: sum.split)
  show thesis
  proof (cases "refresh_thread_cb C")
    case (Inl e)
    with nc show thesis
      using finished [OF False w, of "set_sensitive RefreshButton True w"] False w
      by (simp add: refresh_done_cb_def task_result_def Let_def)
  next
    case (Inr json)
    obtain combo err where f: "nm_airvpn_server_list_fill_combo W L J qsort collate (w_server w) json (- 1)
        (cb_active_id W (w_server w)) = Some (combo, err)"
      using fill_never_NULL [OF assms(1)] by (metis surj_pair)
    show thesis
      using finished [OF False w, of "(set_sensitive RefreshButton True w)\<lparr>w_server := combo\<rparr>"] False w Inr f
      by (simp add: refresh_done_cb_def task_result_def Let_def)
  qed
qed

lemma devices_done_cases:
  assumes "editor_docs W L J qsort collate" "ed_inv st" "(c, key) \<in> set (devices_tasks st)"
  obtains (cancelled) "c \<in> set (cancelled_ones st)"
      "devices_done_cb W (task_result c st (devices_thread_cb J C key))
        (st\<lparr>devices_tasks := remove1 (c, key) (devices_tasks st)\<rparr>)
        = Some (st\<lparr>devices_tasks := remove1 (c, key) (devices_tasks st)\<rparr>)"
  | (finished) w w' where "c \<notin> set (cancelled_ones st)" "builder st = Some w"
      "w_sensitive w' = (w_sensitive w)(DevicesButton := True)"
      "w_keepalive w' = w_keepalive w" "w_kill_switch w' = w_kill_switch w"
      "devices_done_cb W (task_result c st (devices_thread_cb J C key))
        (st\<lparr>devices_tasks := remove1 (c, key) (devices_tasks st)\<rparr>)
        = Some (st\<lparr>devices_tasks := remove1 (c, key) (devices_tasks st), devices_cancellable := None, builder := Some w'\<rparr>)"
proof (cases "c \<in> set (cancelled_ones st)")
  case True
  with cancelled show thesis by (simp add: devices_done_cb_def task_result_def)
next
  case False
  note i = ed_invD [OF assms(2)]
  have "c \<in> set (map fst (devices_tasks st))" using assms(3) by force
  from task_done(2) [OF i(3) this refl False] have "devices_cancellable st = Some c" by blast
  with builder_of_task [OF i(5)] obtain w where w: "builder st = Some w" by blast
  have nc: "(case devices_thread_cb J C key of Inl e \<Rightarrow> is_cancelled_error e | Inr _ \<Rightarrow> False) = False"
    using thread_errors_not_cancelled(2) [OF assms(1), of C key] by (auto split: sum.split)
  show thesis
  proof (cases "devices_thread_cb J C key")
    case (Inl e)
    with nc show thesis
      using finished [OF False w, of "set_tooltip DevicesButton (err_message e) (set_sensitive DevicesButton True w)"] False w
      by (simp add: devices_done_cb_def task_result_def Let_def)
  next
    case (Inr names)
    show thesis
      using finished [OF False w, of "(set_sensitive DevicesButton True w)\<lparr>w_device :=
          fold (\<lambda>name c. cb_append W name name c) names (cb_remove_all W (w_device w))\<rparr>"] False w Inr
      by (simp add: devices_done_cb_def task_result_def Let_def)
  qed
qed

lemma refresh_done_inv:
  assumes "editor_docs W L J qsort collate" "ed_inv st" "c \<in> set (refresh_tasks st)"
    and "refresh_done_cb W L J qsort collate (task_result c st (refresh_thread_cb C))
      (st\<lparr>refresh_tasks := remove1 c (refresh_tasks st)\<rparr>) = Some st'"
  shows "ed_inv st'"
proof -
  note i = ed_invD [OF assms(2)] and t = task_done [OF ed_invD(2) [OF assms(2)] assms(3)]
  have sub: "set (remove1 c (refresh_tasks st)) \<subseteq> set (refresh_tasks st)" by (rule set_remove1_subset)
  have common: "reconnect_inv st'" "task_inv (devices_cancellable st') (map fst (devices_tasks st')) st'" "ids_ok st'"
    if "st' = st\<lparr>refresh_tasks := remove1 c (refresh_tasks st), refresh_cancellable := r, builder := b\<rparr>" for r b
  proof -
    show "reconnect_inv st'" by (rule reconnect_inv_cong [OF i(1)]) (simp_all add: that)
    show "task_inv (devices_cancellable st') (map fst (devices_tasks st')) st'"
      using task_inv_cong [OF i(3), of st'] by (simp add: that)
    show "ids_ok st'" by (rule ids_ok_mono [OF i(4)]) (use sub in \<open>simp_all add: that le_supI1\<close>)
  qed
  from assms(1-3) show ?thesis
  proof (cases rule: refresh_done_cases [where C = C])
    case cancelled
    then have st': "st' = st\<lparr>refresh_tasks := remove1 c (refresh_tasks st), refresh_cancellable := refresh_cancellable st,
        builder := builder st\<rparr>" using assms(4) by simp
    moreover have "task_inv (refresh_cancellable st') (refresh_tasks st') st'"
      using t(1) [of st'] cancelled(1) by (simp add: st')
    moreover have "controls_ok st'" using i(5) by (simp add: st' controls_ok_def split: option.splits)
    ultimately show ?thesis unfolding ed_inv_def using common by blast
  next
    case (finished w w')
    then have st': "st' = st\<lparr>refresh_tasks := remove1 c (refresh_tasks st), refresh_cancellable := None, builder := Some w'\<rparr>"
      using assms(4) by simp
    moreover have "task_inv (refresh_cancellable st') (refresh_tasks st') st'"
      using t(2) [of st'] finished(1) by (simp add: st')
    moreover have "controls_ok st'" using i(5) finished(2-5) by (simp add: st' controls_ok_def)
    ultimately show ?thesis unfolding ed_inv_def using common by blast
  qed
qed

lemma devices_done_inv:
  assumes "editor_docs W L J qsort collate" "ed_inv st" "(c, key) \<in> set (devices_tasks st)"
    and "devices_done_cb W (task_result c st (devices_thread_cb J C key))
      (st\<lparr>devices_tasks := remove1 (c, key) (devices_tasks st)\<rparr>) = Some st'"
  shows "ed_inv st'"
proof -
  note i = ed_invD [OF assms(2)]
  have c: "c \<in> set (map fst (devices_tasks st))" using assms(3) by force
  note t = task_done [OF i(3) c]
  have d: "distinct (map fst (devices_tasks st))" using i(3) by (simp add: task_inv_def)
  note r = map_fst_remove1 [OF d assms(3)]
  have sub: "fst ` set (remove1 (c, key) (devices_tasks st)) \<subseteq> fst ` set (devices_tasks st)"
    by (intro image_mono set_remove1_subset)
  have common: "reconnect_inv st'" "task_inv (refresh_cancellable st') (refresh_tasks st') st'" "ids_ok st'"
    if "st' = st\<lparr>devices_tasks := remove1 (c, key) (devices_tasks st), devices_cancellable := n, builder := b\<rparr>" for n b
  proof -
    show "reconnect_inv st'" by (rule reconnect_inv_cong [OF i(1)]) (simp_all add: that)
    show "task_inv (refresh_cancellable st') (refresh_tasks st') st'"
      using task_inv_cong [OF i(2), of st'] by (simp add: that)
    show "ids_ok st'" by (rule ids_ok_mono [OF i(4)]) (use sub in \<open>simp_all add: that le_supI1\<close>)
  qed
  from assms(1-3) show ?thesis
  proof (cases rule: devices_done_cases [where C = C])
    case cancelled
    then have st': "st' = st\<lparr>devices_tasks := remove1 (c, key) (devices_tasks st), devices_cancellable := devices_cancellable st,
        builder := builder st\<rparr>" using assms(4) by simp
    moreover have "task_inv (devices_cancellable st') (map fst (devices_tasks st')) st'"
      using t(1) [of st'] cancelled(1) by (simp add: st' r)
    moreover have "controls_ok st'" using i(5) by (simp add: st' controls_ok_def split: option.splits)
    ultimately show ?thesis unfolding ed_inv_def using common by blast
  next
    case (finished w w')
    then have st': "st' = st\<lparr>devices_tasks := remove1 (c, key) (devices_tasks st), devices_cancellable := None, builder := Some w'\<rparr>"
      using assms(4) by simp
    moreover have "task_inv (devices_cancellable st') (map fst (devices_tasks st')) st'"
      using t(2) [of st'] finished(1) by (simp add: st' r)
    moreover have "controls_ok st'" using i(5) finished(2-5) by (simp add: st' controls_ok_def)
    ultimately show ?thesis unfolding ed_inv_def using common by blast
  qed
qed

lemma cancel_op_simps [simp]:
  "builder (cancel_op c st) = builder st" "ed_uuid (cancel_op c st) = ed_uuid st"
  "refresh_cancellable (cancel_op c st) = refresh_cancellable st"
  "devices_cancellable (cancel_op c st) = devices_cancellable st"
  "reconnect_cancellable (cancel_op c st) = reconnect_cancellable st"
  "reconnect_busy (cancel_op c st) = reconnect_busy st"
  "next_cancellable (cancel_op c st) = next_cancellable st"
  "set (cancelled_ones (cancel_op c st)) = set_option c \<union> set (cancelled_ones st)"
  "refresh_tasks (cancel_op c st) = refresh_tasks st" "devices_tasks (cancel_op c st) = devices_tasks st"
  "reconnect_ops (cancel_op c st) = reconnect_ops st" "contexts (cancel_op c st) = contexts st"
  "stage_from s (editor_calls (cancel_op c st)) = stage_from s (editor_calls st)"
  by (cases c; simp add: cancel_op_def stage_changed)+

lemma ed_dispose_inv:
  assumes "ed_inv st"
  shows "ed_inv (ed_dispose st)"
proof -
  note i = ed_invD [OF assms]
  have "reconnect_inv (ed_dispose st)"
    by (rule reconnect_inv_cong [OF i(1)]) (simp_all add: ed_dispose_def Let_def)
  moreover have "task_inv (refresh_cancellable (ed_dispose st)) (refresh_tasks (ed_dispose st)) (ed_dispose st)"
    using i(2) by (auto simp: ed_dispose_def Let_def task_inv_def)
  moreover have "task_inv (devices_cancellable (ed_dispose st)) (map fst (devices_tasks (ed_dispose st))) (ed_dispose st)"
    using i(3) by (auto simp: ed_dispose_def Let_def task_inv_def)
  moreover have "set_option (refresh_cancellable st) \<subseteq> set (refresh_tasks st)"
      "set_option (devices_cancellable st) \<subseteq> fst ` set (devices_tasks st)"
    using i(2,3) by (auto simp: task_inv_def)
  then have "ids_ok (ed_dispose st)"
    by (intro ids_ok_mono [OF i(4)]) (auto simp: ed_dispose_def Let_def)
  moreover have "controls_ok (ed_dispose st)" by (simp add: ed_dispose_def Let_def controls_ok_def)
  ultimately show ?thesis by (simp add: ed_inv_def)
qed

section \<open>Reachable states\<close>

text \<open>The builder makes the buttons sensitive.\<close>

definition ui_ok :: "'c widgets \<Rightarrow> bool" where
  "ui_ok w \<longleftrightarrow> w_sensitive w RefreshButton \<and> w_sensitive w DevicesButton \<and> w_sensitive w ReconnectButton"

lemma editor_new_eq:
  "nm_airvpn_editor_new W L E (Inr (Some w)) connection = Some (Inr
     \<lparr>builder = Some (let u = (set_sensitive RefreshButton False
          (init_widgets W L E (map_option snd (ec_vpn connection)) w)) in
        set_sensitive AllowLanCheck (w_kill_switch u)
          (set_sensitive RestartSpin (w_keepalive u) (set_sensitive IntervalSpin (w_keepalive u) u))),
      new_connection = (case ec_vpn connection of None \<Rightarrow> True | Some (_, s) \<Rightarrow> vpn_data s = []),
      refresh_cancellable = Some 0, devices_cancellable = None, ed_uuid = ec_uuid connection,
      reconnect_cancellable = None, reconnect_busy = False,
      next_cancellable = 1, cancelled_ones = [], refresh_tasks = [0], devices_tasks = [],
      reconnect_ops = [], contexts = [], editor_calls = [EmitChanged, EmitChanged]\<rparr>)"
  by (simp add: nm_airvpn_editor_new_def init_editor_plugin_def kill_switch_toggled_cb_def keepalive_toggled_cb_def
      stuff_changed_cb_def refresh_button_clicked_cb_def with_widgets_def Let_def ed_emit_def)

lemma editor_new_inv:
  assumes "nm_airvpn_editor_new W L E (Inr (Some w)) connection = Some (Inr st)" "ui_ok w"
  shows "ed_inv st"
proof -
  note st = assms(1) [unfolded editor_new_eq option.inject sum.inject, symmetric]
  have "reconnect_inv st" by (simp add: st reconnect_inv_def)
  moreover have "task_inv (refresh_cancellable st) (refresh_tasks st) st"
      "task_inv (devices_cancellable st) (map fst (devices_tasks st)) st" "ids_ok st"
    by (simp_all add: st task_inv_def ids_ok_def)
  moreover have "controls_ok st"
    using assms(2) by (simp add: st Let_def controls_ok_def init_widgets_def ui_ok_def)
  ultimately show ?thesis by (simp add: ed_inv_def)
qed

lemma ed_step_keeps:
  assumes "ed_step W L J qsort collate E st e st'" "editor_docs W L J qsort collate" "ed_inv st"
  shows "ed_inv st'"
  using assms
proof (cases rule: ed_step.cases)
  case (edited w w')
  then show ?thesis using edited_inv(1) assms(3) by blast
next
  case (keepalive_toggled w b)
  then show ?thesis using edited_inv(2) assms(3) by blast
next
  case (kill_switch_toggled w b)
  then show ?thesis using edited_inv(3) assms(3) by blast
next
  case (refresh_clicked w)
  then show ?thesis using refresh_clicked_inv assms(3) by blast
next
  case (refresh_done c C)
  then show ?thesis using refresh_done_inv assms(2,3) by blast
next
  case (devices_clicked w)
  then show ?thesis using devices_clicked_inv assms(3) by blast
next
  case (devices_done c key C)
  then show ?thesis using devices_done_inv assms(2,3) by blast
next
  case (reconnect_clicked w)
  then show ?thesis using reconnect_clicked_inv assms(3) by blast
next
  case (client_ready ctx err lookup)
  then show ?thesis using client_ready_inv assms(3) by blast
next
  case (commit_done ctx err actives)
  then show ?thesis using commit_done_inv assms(3) by blast
next
  case (deactivate_done ctx err)
  then show ?thesis using deactivate_done_inv assms(3) by blast
next
  case (poll ctx actives)
  then show ?thesis using poll_inv assms(3) by blast
next
  case (activate_done ctx err)
  then show ?thesis using activate_done_inv assms(3) by blast
next
  case disposed
  then show ?thesis using ed_dispose_inv assms(3) by blast
qed

definition documented_inv ::
  "('c, 'w) combolib_scheme \<Rightarrow> 'g glib_scheme \<Rightarrow> ('n, 'o, 'a, 'm, 'j) nodelib_scheme
     \<Rightarrow> ((string \<Rightarrow> string \<Rightarrow> int) \<Rightarrow> string list \<Rightarrow> string list) \<Rightarrow> (string \<Rightarrow> string \<Rightarrow> int)
     \<Rightarrow> 'c desktop \<Rightarrow> bool" where
  "documented_inv W L J qsort collate st \<longleftrightarrow> editor_docs W L J qsort collate \<and> ed_inv st"

interpretation editor_loop: event_loop "documented_inv W L J qsort collate" "ed_step W L J qsort collate E"
  by unfold_locales (auto simp: documented_inv_def intro: ed_step_keeps)

definition editor_reachable ::
  "('c, 'w) combolib_scheme \<Rightarrow> 'g glib_scheme \<Rightarrow> ('n, 'o, 'a, 'm, 'j) nodelib_scheme
     \<Rightarrow> ((string \<Rightarrow> string \<Rightarrow> int) \<Rightarrow> string list \<Rightarrow> string list) \<Rightarrow> (string \<Rightarrow> string \<Rightarrow> int) \<Rightarrow> editor_env
     \<Rightarrow> 'c desktop \<Rightarrow> bool" where
  "editor_reachable W L J qsort collate E st \<longleftrightarrow> (\<exists>w connection st0 es.
     nm_airvpn_editor_new W L E (Inr (Some w)) connection = Some (Inr st0) \<and> ui_ok w
   \<and> run_of (ed_step W L J qsort collate E) st0 es st)"

lemma reachable_inv:
  assumes "editor_docs W L J qsort collate" "editor_reachable W L J qsort collate E st"
  shows "ed_inv st"
proof -
  from assms(2) obtain w connection st0 es where r:
      "nm_airvpn_editor_new W L E (Inr (Some w)) connection = Some (Inr st0)" "ui_ok w"
      "run_of (ed_step W L J qsort collate E) st0 es st"
    unfolding editor_reachable_def by blast
  have "documented_inv W L J qsort collate st0"
    using assms(1) editor_new_inv [OF r(1,2)] by (simp add: documented_inv_def)
  from editor_loop.run_inv [OF this r(3)] show ?thesis by (simp add: documented_inv_def)
qed

section \<open>Attempts end\<close>

text \<open>How many callbacks an attempt may still have.\<close>

fun op_rank :: "reconnect_op \<Rightarrow> nat" where
  "op_rank (OpClientReady _) = 25"
| "op_rank (OpCommitDone _) = 24"
| "op_rank (OpDeactivateDone _) = 23"
| "op_rank (OpPoll ctx) = 22 - rx_poll_count ctx"
| "op_rank (OpActivateDone _) = 1"

definition attempt_rank :: "'c desktop \<Rightarrow> nat" where
  "attempt_rank st = sum_list (map op_rank (reconnect_ops st))"

definition is_reconnect :: "editor_event \<Rightarrow> bool" where
  "is_reconnect e = (case e of Reconnect _ \<Rightarrow> True | _ \<Rightarrow> False)"

lemma op_rank_bound: "op_rank op \<le> 25"
  by (cases op) auto

lemma reconnect_rank:
  assumes "ed_step W L J qsort collate E st (Reconnect op) st'" "ed_inv st"
  shows "attempt_rank st' < attempt_rank st"
proof -
  have i: "reconnect_inv st" using assms(2) by (rule ed_invD)
  have ops: "reconnect_ops st = [op] \<and> remove1 op (reconnect_ops st) = [] \<and> (\<exists>s. op_ok s op)
      \<and> ctx_live (op_ctx op) (st\<lparr>reconnect_ops := []\<rparr>)"
    if "op \<in> set (reconnect_ops st)" for op
    using remove_op_only [OF i that] op_ctx_live [OF assms(2) that] by blast
  note simps = finish_eq set_label_eq Let_def attempt_rank_def
  from assms(1) show ?thesis
  proof (cases rule: reconnect_stepE [consumes 1, case_names client commit deactivate polled activate])
    case (client ctx err lookup)
    with ops [OF client(2)] show ?thesis
      by (auto simp: reconnect_client_ready_def simps split: option.splits prod.splits)
  next
    case (commit ctx err actives)
    with ops [OF commit(2)] show ?thesis
      by (auto simp: reconnect_commit_done_def simps split: option.splits)
  next
    case (deactivate ctx err)
    with ops [OF deactivate(2)] show ?thesis
      by (auto simp: reconnect_deactivate_done_def simps split: option.splits)
  next
    case (polled ctx actives)
    with ops [OF polled(2)] show ?thesis
      by (auto simp: reconnect_poll_deactivated_def simps op_ok_def split: if_splits)
  next
    case (activate ctx err)
    with ops [OF activate(2)] show ?thesis
      by (auto simp: reconnect_activate_done_def simps split: option.splits if_splits)
  qed
qed

lemma attempt_length:
  assumes "editor_docs W L J qsort collate" "ed_inv st" "run_of (ed_step W L J qsort collate E) st es st'"
    and "list_all is_reconnect es"
  shows "length es + attempt_rank st' \<le> attempt_rank st"
  using assms(2-4)
proof (induction es arbitrary: st)
  case (Cons e es)
  then obtain t op where t: "ed_step W L J qsort collate E st e t" "run_of (ed_step W L J qsort collate E) t es st'"
      "e = Reconnect op"
    by (auto simp: is_reconnect_def split: editor_event.splits)
  have "ed_inv t" by (rule ed_step_keeps [OF t(1) assms(1) Cons.prems(1)])
  with Cons.IH t(2) Cons.prems(3) have "length es + attempt_rank st' \<le> attempt_rank t" by simp
  with reconnect_rank [OF t(1) [unfolded t(3)] Cons.prems(1)] show ?case by simp
qed simp

lemma rank_bound: "reconnect_inv st \<Longrightarrow> attempt_rank st \<le> 25"
  using op_rank_bound by (auto simp: reconnect_inv_def attempt_rank_def split: if_splits)

text \<open>A waiting callback can always run, whatever it is given.\<close>

definition op_callback ::
  "('c, 'w) combolib_scheme \<Rightarrow> editor_env \<Rightarrow> gerror option \<Rightarrow> cstr list option
     \<Rightarrow> (string \<Rightarrow> editor_connection option) \<Rightarrow> reconnect_op \<Rightarrow> 'c desktop \<Rightarrow> 'c desktop option" where
  "op_callback W E err actives lookup op st =
     (let st = st\<lparr>reconnect_ops := remove1 op (reconnect_ops st)\<rparr>
      in case op of
           OpClientReady ctx \<Rightarrow> reconnect_client_ready W E err lookup ctx st
         | OpCommitDone ctx \<Rightarrow> reconnect_commit_done err actives ctx st
         | OpDeactivateDone ctx \<Rightarrow> reconnect_deactivate_done err ctx st
         | OpPoll ctx \<Rightarrow> reconnect_poll_deactivated actives ctx st
         | OpActivateDone ctx \<Rightarrow> reconnect_activate_done err ctx st)"

lemma client_ready_defined:
  assumes "controls_ok st" "ctx_live ctx (st\<lparr>reconnect_ops := ops\<rparr>)"
  shows "\<exists>st'. reconnect_client_ready W E err lookup ctx (st\<lparr>reconnect_ops := ops\<rparr>) = Some st'"
proof (cases "builder st")
  case None
  with assms have "ed_uuid st = None" by (simp add: controls_ok_def)
  then show ?thesis using assms(2) by (simp add: reconnect_client_ready_def Let_def finish_eq split: option.split)
next
  case (Some w)
  then show ?thesis using assms(2)
    by (simp add: reconnect_client_ready_def Let_def finish_eq set_label_eq split: option.split prod.split)
qed

lemma op_callback_defined:
  assumes "ed_inv st" "op \<in> set (reconnect_ops st)"
  shows "\<exists>st'. op_callback W E err actives lookup op st = Some st'"
proof (cases op)
  case (OpClientReady ctx)
  then show ?thesis
    using client_ready_defined [OF ed_invD(5) [OF assms(1)] op_ctx_live [OF assms]]
    by (simp add: op_callback_def Let_def)
next
  case (OpCommitDone ctx)
  then show ?thesis using op_ctx_live [OF assms]
    by (simp add: op_callback_def Let_def reconnect_commit_done_def finish_eq set_label_eq split: option.split)
next
  case (OpDeactivateDone ctx)
  then show ?thesis using op_ctx_live [OF assms]
    by (simp add: op_callback_def Let_def reconnect_deactivate_done_def finish_eq split: option.split)
next
  case (OpPoll ctx)
  then show ?thesis using op_ctx_live [OF assms]
    by (simp add: op_callback_def Let_def reconnect_poll_deactivated_def finish_eq set_label_eq)
next
  case (OpActivateDone ctx)
  then show ?thesis using op_ctx_live [OF assms]
    by (simp add: op_callback_def Let_def reconnect_activate_done_def finish_eq split: option.split)
qed

lemma op_callback_step:
  assumes "op \<in> set (reconnect_ops st)" "op_callback W E err actives lookup op st = Some st'"
  shows "ed_step W L J qsort collate E st (Reconnect op) st'"
proof -
  note c = assms(2) [unfolded op_callback_def Let_def]
  show ?thesis
  proof (cases op)
    case (OpClientReady ctx)
    show ?thesis using ed_step.client_ready assms(1) c unfolding OpClientReady reconnect_op.case by blast
  next
    case (OpCommitDone ctx)
    show ?thesis using ed_step.commit_done assms(1) c unfolding OpCommitDone reconnect_op.case by blast
  next
    case (OpDeactivateDone ctx)
    show ?thesis using ed_step.deactivate_done assms(1) c unfolding OpDeactivateDone reconnect_op.case by blast
  next
    case (OpPoll ctx)
    show ?thesis using ed_step.poll assms(1) c unfolding OpPoll reconnect_op.case by blast
  next
    case (OpActivateDone ctx)
    show ?thesis using ed_step.activate_done assms(1) c unfolding OpActivateDone reconnect_op.case by blast
  qed
qed

lemma reconnect_progress:
  assumes "ed_inv st" "reconnect_busy st"
  shows "\<exists>op st'. ed_step W L J qsort collate E st (Reconnect op) st'"
proof -
  from assms obtain op where op: "op \<in> set (reconnect_ops st)"
    by (auto simp: ed_inv_def reconnect_inv_def)
  from op_callback_defined [OF assms(1) op, of W E None None "\<lambda>_. None"] obtain st' where
    "op_callback W E None None (\<lambda>_. None) op st = Some st'" by blast
  from op_callback_step [OF op this] show ?thesis by blast
qed

section \<open>A reference instance, for witnesses\<close>

definition ref_editor_env :: editor_env where
  "ref_editor_env = \<lparr>
     nma_initial_flags = (\<lambda>s key. case s of None \<Rightarrow> 0 | Some s \<Rightarrow> vpn_secret_flags s key),
     nm_set_secret_flags = (\<lambda>key f s. s\<lparr>vpn_secret_flags := (vpn_secret_flags s)(key := f),
       vpn_data := AList.update (key @ ''-flags'') (dec_of_nat f) (vpn_data s)\<rparr>),
     nft_path = Some ''/usr/sbin/nft''\<rparr>"

definition ref_ui :: "ref_combo_state widgets" where
  "ref_ui = \<lparr>w_api_key = [], w_api_key_flags = 0, w_device = no_combo, w_device_text = [], w_server = no_combo,
     w_protocol = no_combo\<lparr>rc_rows := [(''udp'', ''UDP (recommended)''), (''tcp'', ''TCP'')]\<rparr>,
     w_port = no_combo\<lparr>rc_rows := [(''443'', ''443''), (''80'', ''80''), (''1194'', ''1194''), (''41185'', ''41185'')]\<rparr>,
     w_keepalive = False, w_interval = 10, w_restart = 60, w_kill_switch = False, w_allow_lan = False,
     w_directives = [], w_sensitive = (\<lambda>_. True), w_tooltip = (\<lambda>_. []), w_reconnect_label = ''_Reconnect'',
     w_underline = True, w_unavailable_visible = False\<rparr>"

definition demo_editor_connection :: editor_connection where
  "demo_editor_connection = \<lparr>ec_uuid = Some ''u'', ec_vpn = None, ec_other = []\<rparr>"

definition demo_editor :: "ref_combo_state desktop" where
  "demo_editor = (case nm_airvpn_editor_new ref_combo ref_lib ref_editor_env (Inr (Some ref_ui)) demo_editor_connection of
     Some (Inr st) \<Rightarrow> st)"

lemma demo_editor_new:
  "nm_airvpn_editor_new ref_combo ref_lib ref_editor_env (Inr (Some ref_ui)) demo_editor_connection
   = Some (Inr demo_editor)"
  by (simp add: demo_editor_def editor_new_eq)

abbreviation demo_step :: "ref_combo_state desktop \<Rightarrow> editor_event \<Rightarrow> ref_combo_state desktop \<Rightarrow> bool" where
  "demo_step \<equiv> ed_step ref_combo ref_lib ref_nodes ref_qsort nm_strcmp_p_with_data ref_editor_env"

lemma ref_editor_docs: "editor_docs ref_combo ref_lib ref_nodes ref_qsort nm_strcmp_p_with_data"
  using ref_combo_doc ref_ascii_doc ref_qsort_doc str.three_way_axioms
  by (simp add: editor_docs_def ref_nodes_def is_cancelled_error_def io_error_def error_matches_def)

lemma demo_reachable:
  assumes "run_of demo_step demo_editor es st"
  shows "editor_reachable ref_combo ref_lib ref_nodes ref_qsort nm_strcmp_p_with_data ref_editor_env st"
proof -
  have "ui_ok ref_ui" by (simp add: ui_ok_def ref_ui_def)
  with demo_editor_new assms show ?thesis unfolding editor_reachable_def by blast
qed

text \<open>The button is clicked, and NetworkManager's answer is that it does not know the connection.\<close>

lemma demo_clicked: "\<exists>st. demo_step demo_editor ReconnectClicked st \<and> OpClientReady (ctx_new 1) \<in> set (reconnect_ops st)"
proof -
  note d = demo_editor_def editor_new_eq Let_def demo_editor_connection_def
  obtain w where w: "builder demo_editor = Some w" "w_sensitive w ReconnectButton"
    by (simp add: d init_widgets_def ref_ui_def)
  obtain st where st: "reconnect_button_clicked_cb demo_editor = Some st"
      "OpClientReady (ctx_new 1) \<in> set (reconnect_ops st)"
    by (simp add: reconnect_button_clicked_cb_def d with_widgets_def nonempty_str_def)
  with ed_step.reconnect_clicked [OF w st(1)] show ?thesis by blast
qed

lemma demo_answer:
  assumes "ed_inv st" "OpClientReady (ctx_new 1) \<in> set (reconnect_ops st)"
  shows "\<exists>st'. demo_step st (Reconnect (OpClientReady (ctx_new 1))) st'"
  using op_callback_defined [OF assms] op_callback_step [OF assms(2)] by blast

section \<open>Properties\<close>

text \<open>
  C35. In whatever order clicks, answers of NetworkManager and the end of the editor come, its calls
  to NetworkManager are in order: a connection is deactivated only after the settings have been
  saved, and what is activated is the connection saved last, after a deactivation.
\<close>

theorem reconnect_order:
  assumes "editor_docs W L J qsort collate" "editor_reachable W L J qsort collate E st"
  shows "stage_from Fresh (editor_calls st) \<noteq> None"
  using ed_invD(1) [OF reachable_inv [OF assms]] by (auto simp: reconnect_inv_def)

theorem reconnect_order_witness:
  "\<exists>st. demo_step demo_editor ReconnectClicked st \<and> stage_from Fresh (editor_calls st) \<noteq> None"
proof -
  obtain st where st: "demo_step demo_editor ReconnectClicked st" using demo_clicked by blast
  then have "run_of demo_step demo_editor [ReconnectClicked] st" by simp
  from reconnect_order [OF ref_editor_docs demo_reachable [OF this]] st show ?thesis by blast
qed

text \<open>
  C36. An attempt to reconnect ends: from any reachable state at most 25 of its callbacks run, the 20
  and one polls of the active connections included, whatever NetworkManager answers. As long as
  the attempt goes on some callback can run; when none is left the button can be used again.
\<close>

theorem reconnect_ends:
  assumes "editor_docs W L J qsort collate" "editor_reachable W L J qsort collate E st"
    and "run_of (ed_step W L J qsort collate E) st es st'" "list_all is_reconnect es"
  shows "length es \<le> 25 \<and> (if reconnect_busy st'
      then \<exists>op st''. ed_step W L J qsort collate E st' (Reconnect op) st''
      else reconnect_ops st' = []
        \<and> (case builder st' of None \<Rightarrow> True | Some w \<Rightarrow> w_sensitive w ReconnectButton))"
proof -
  have i: "ed_inv st" by (rule reachable_inv [OF assms(1,2)])
  have "documented_inv W L J qsort collate st" using assms(1) i by (simp add: documented_inv_def)
  from editor_loop.run_inv [OF this assms(3)] have i': "ed_inv st'" by (simp add: documented_inv_def)
  have "length es \<le> 25"
    using attempt_length [OF assms(1) i assms(3,4)] rank_bound [OF ed_invD(1) [OF i]] by simp
  moreover have "reconnect_busy st' \<Longrightarrow> \<exists>op st''. ed_step W L J qsort collate E st' (Reconnect op) st''"
    by (rule reconnect_progress [OF i'])
  moreover have "\<not> reconnect_busy st' \<Longrightarrow> reconnect_ops st' = []
      \<and> (case builder st' of None \<Rightarrow> True | Some w \<Rightarrow> w_sensitive w ReconnectButton)"
    using ed_invD(1,5) [OF i'] by (auto simp: reconnect_inv_def controls_ok_def split: option.split)
  ultimately show ?thesis by simp
qed

theorem reconnect_ends_witness:
  "\<exists>st st'. demo_step st (Reconnect (OpClientReady (ctx_new 1))) st'
     \<and> length [Reconnect (OpClientReady (ctx_new 1))] \<le> 25"
proof -
  obtain st where st: "demo_step demo_editor ReconnectClicked st" "OpClientReady (ctx_new 1) \<in> set (reconnect_ops st)"
    using demo_clicked by blast
  have r: "editor_reachable ref_combo ref_lib ref_nodes ref_qsort nm_strcmp_p_with_data ref_editor_env st"
    by (rule demo_reachable [of "[ReconnectClicked]"]) (simp add: st)
  obtain st' where st': "demo_step st (Reconnect (OpClientReady (ctx_new 1))) st'"
    using demo_answer [OF reachable_inv [OF ref_editor_docs r] st(2)] by blast
  from reconnect_ends [OF ref_editor_docs r, of "[Reconnect (OpClientReady (ctx_new 1))]" st'] st' show ?thesis
    by (auto simp: is_reconnect_def)
qed

text \<open>
  C37. In any reachable state, every callback that can run is defined, whatever the network and
  NetworkManager answer: the waiting callback of an attempt to reconnect, the callbacks of the two
  tasks, and, while the widgets exist, those of the user. None uses a widget that is gone or a
  context that was freed, and the allocated contexts are those of the waiting callbacks: none leaks.
  A task that completes after the end of the editor changes nothing at all.
\<close>

theorem editor_callbacks_defined:
  assumes "editor_docs W L J qsort collate" "editor_reachable W L J qsort collate E st"
  shows "list_all (\<lambda>op. \<forall>err actives lookup. op_callback W E err actives lookup op st \<noteq> None) (reconnect_ops st)
    \<and> contexts st = map (\<lambda>op. rx_addr (op_ctx op)) (reconnect_ops st)
    \<and> list_all (\<lambda>c. \<forall>C. \<exists>st'. refresh_done_cb W L J qsort collate (task_result c st (refresh_thread_cb C))
          (st\<lparr>refresh_tasks := remove1 c (refresh_tasks st)\<rparr>) = Some st'
        \<and> (builder st = None \<longrightarrow> st' = st\<lparr>refresh_tasks := remove1 c (refresh_tasks st)\<rparr>)) (refresh_tasks st)
    \<and> list_all (\<lambda>(c, key). \<forall>C. \<exists>st'. devices_done_cb W (task_result c st (devices_thread_cb J C key))
          (st\<lparr>devices_tasks := remove1 (c, key) (devices_tasks st)\<rparr>) = Some st'
        \<and> (builder st = None \<longrightarrow> st' = st\<lparr>devices_tasks := remove1 (c, key) (devices_tasks st)\<rparr>)) (devices_tasks st)
    \<and> (builder st \<noteq> None \<longrightarrow> keepalive_toggled_cb st \<noteq> None \<and> kill_switch_toggled_cb st \<noteq> None
        \<and> refresh_button_clicked_cb st \<noteq> None \<and> devices_button_clicked_cb st \<noteq> None
        \<and> reconnect_button_clicked_cb st \<noteq> None)"
proof -
  have i: "ed_inv st" by (rule reachable_inv [OF assms])
  have "list_all (\<lambda>op. \<forall>err actives lookup. op_callback W E err actives lookup op st \<noteq> None) (reconnect_ops st)"
    using op_callback_defined [OF i] by (fastforce simp: list_all_iff)
  moreover have "contexts st = map (\<lambda>op. rx_addr (op_ctx op)) (reconnect_ops st)"
    using ed_invD(1) [OF i] by (auto simp: reconnect_inv_def)
  moreover have "list_all (\<lambda>c. \<forall>C. \<exists>st'. refresh_done_cb W L J qsort collate (task_result c st (refresh_thread_cb C))
          (st\<lparr>refresh_tasks := remove1 c (refresh_tasks st)\<rparr>) = Some st'
        \<and> (builder st = None \<longrightarrow> st' = st\<lparr>refresh_tasks := remove1 c (refresh_tasks st)\<rparr>)) (refresh_tasks st)"
    unfolding list_all_iff
  proof (intro ballI allI)
    fix c C assume "c \<in> set (refresh_tasks st)"
    from assms(1) i this show "\<exists>st'. refresh_done_cb W L J qsort collate (task_result c st (refresh_thread_cb C))
          (st\<lparr>refresh_tasks := remove1 c (refresh_tasks st)\<rparr>) = Some st'
        \<and> (builder st = None \<longrightarrow> st' = st\<lparr>refresh_tasks := remove1 c (refresh_tasks st)\<rparr>)"
      by (cases rule: refresh_done_cases [where C = C]) simp_all
  qed
  moreover have "list_all (\<lambda>(c, key). \<forall>C. \<exists>st'. devices_done_cb W (task_result c st (devices_thread_cb J C key))
          (st\<lparr>devices_tasks := remove1 (c, key) (devices_tasks st)\<rparr>) = Some st'
        \<and> (builder st = None \<longrightarrow> st' = st\<lparr>devices_tasks := remove1 (c, key) (devices_tasks st)\<rparr>)) (devices_tasks st)"
    unfolding list_all_iff case_prod_unfold
  proof (intro ballI allI)
    fix p C assume "p \<in> set (devices_tasks st)"
    then have "(fst p, snd p) \<in> set (devices_tasks st)" by simp
    from assms(1) i this show "\<exists>st'. devices_done_cb W (task_result (fst p) st (devices_thread_cb J C (snd p)))
          (st\<lparr>devices_tasks := remove1 (fst p, snd p) (devices_tasks st)\<rparr>) = Some st'
        \<and> (builder st = None \<longrightarrow> st' = st\<lparr>devices_tasks := remove1 (fst p, snd p) (devices_tasks st)\<rparr>)"
      by (cases rule: devices_done_cases [where C = C]) simp_all
  qed
  moreover have "builder st \<noteq> None \<longrightarrow> keepalive_toggled_cb st \<noteq> None \<and> kill_switch_toggled_cb st \<noteq> None
        \<and> refresh_button_clicked_cb st \<noteq> None \<and> devices_button_clicked_cb st \<noteq> None
        \<and> reconnect_button_clicked_cb st \<noteq> None"
    by (auto simp: keepalive_toggled_cb_def kill_switch_toggled_cb_def refresh_button_clicked_cb_def
        devices_button_clicked_cb_def reconnect_button_clicked_cb_def with_widgets_def Let_def)
  ultimately show ?thesis by (intro conjI)
qed

text \<open>The attempt of the demonstration is answered after the end of the editor.\<close>

theorem editor_callbacks_defined_witness:
  "\<exists>st st'. run_of demo_step demo_editor [ReconnectClicked, Disposed] st \<and> builder st = None
     \<and> OpClientReady (ctx_new 1) \<in> set (reconnect_ops st)
     \<and> op_callback ref_combo ref_editor_env None None (\<lambda>_. None) (OpClientReady (ctx_new 1)) st = Some st'"
proof -
  obtain st where st: "demo_step demo_editor ReconnectClicked st" "OpClientReady (ctx_new 1) \<in> set (reconnect_ops st)"
    using demo_clicked by blast
  have r: "run_of demo_step demo_editor [ReconnectClicked, Disposed] (ed_dispose st)"
    using st(1) ed_step.disposed by (simp, blast)
  have g: "builder (ed_dispose st) = None" "OpClientReady (ctx_new 1) \<in> set (reconnect_ops (ed_dispose st))"
    using st(2) by (simp_all add: ed_dispose_def Let_def)
  have "list_all (\<lambda>op. \<forall>err actives lookup. op_callback ref_combo ref_editor_env err actives lookup op (ed_dispose st)
      \<noteq> None) (reconnect_ops (ed_dispose st))"
    using editor_callbacks_defined [OF ref_editor_docs demo_reachable [OF r]] by (elim conjE)
  with g(2) have "op_callback ref_combo ref_editor_env None None (\<lambda>_. None) (OpClientReady (ctx_new 1)) (ed_dispose st)
      \<noteq> None" unfolding list_all_iff by blast
  then obtain st' where "op_callback ref_combo ref_editor_env None None (\<lambda>_. None) (OpClientReady (ctx_new 1)) (ed_dispose st)
      = Some st'" by blast
  with r g show ?thesis by blast
qed

end
