(* ===== verification/NM_Plugin_Utils.thy ===== *)
theory NM_Plugin_Utils
  imports NM_Libs
begin

text \<open>
  \<open>shared/nm-utils/nm-vpn-plugin-utils.c\<close>: loading the module of an editor once per process, and
  the directory of certificates. The dynamic linker and the file tests are the parameter \<open>E\<close> of
  each call, so they may answer differently every time; GLib is \<open>L\<close>. The static variable \<open>cached\<close>
  and the handles that are open are the state. Callers give a place for the error, which is empty.
\<close>

section \<open>State\<close>

text \<open>A factory sets an error or not, and returns an editor or not.\<close>

type_synonym ('c, 'e) editor_answer = "gerror option \<times> 'e option"
type_synonym ('c, 'e) factory = "'c \<Rightarrow> ('c, 'e) editor_answer"

text \<open>A call of the dynamic linker that fails gives the text \<open>dlerror\<close> returns next.\<close>

record ('m, 'c, 'e) dl_env =
  dl_addr :: "string option"
  path_is_absolute :: "string \<Rightarrow> bool"
  path_get_dirname :: "string \<Rightarrow> string"
  dl_open :: "string \<Rightarrow> string + 'm"
  dl_sym :: "'m \<Rightarrow> string \<Rightarrow> string + ('c, 'e) factory"
  path_exists :: "string \<Rightarrow> bool"
  process_symbol :: "string \<Rightarrow> bool"

record ('m, 'c, 'e) loader =
  cached_factory :: "('c, 'e) factory option"
  cached_module :: "'m option"
  cached_module_name :: cstr
  cached_factory_name :: cstr
  open_handles :: "'m list"

definition new_loader :: "('m, 'c, 'e) loader" where
  "new_loader = \<lparr>cached_factory = None, cached_module = None, cached_module_name = None,
     cached_factory_name = None, open_handles = []\<rparr>"

section \<open>Operations\<close>

definition plugin_failed :: "string \<Rightarrow> gerror" where
  "plugin_failed msg = GError NM_VPN_PLUGIN_ERROR E_FAILED msg"

text \<open>Where \<open>dladdr\<close> fails the code goes on to read the structure it has not set: \<open>None\<close>.\<close>

definition find_module :: "'g glib_scheme \<Rightarrow> ('m, 'c, 'e) dl_env \<Rightarrow> string \<Rightarrow> string option" where
  "find_module L E module_name =
     (if \<not> path_is_absolute E module_name
      then (case dl_addr E of
              None \<Rightarrow> None
            | Some fname \<Rightarrow> Some (g_build_filename L [path_get_dirname E fname, module_name]))
      else Some module_name)"

definition open_module ::
  "('m, 'c, 'e) dl_env \<Rightarrow> string \<Rightarrow> string \<Rightarrow> string \<Rightarrow> ('m, 'c, 'e) loader
     \<Rightarrow> (gerror + ('c, 'e) factory) \<times> ('m, 'c, 'e) loader" where
  "open_module E module_path module_name factory_name st =
     (case dl_open E module_path of
        Inl msg \<Rightarrow>
          (Inl (if \<not> path_exists E module_path
                then GError G_FILE_ERROR E_NOENT (''missing plugin file '' @ CHR 0x22 # module_path @ [CHR 0x22])
                else plugin_failed (''cannot load editor plugin: '' @ msg)), st)
      | Inr dl_module \<Rightarrow>
          (let st = st\<lparr>open_handles := dl_module # open_handles st\<rparr>
           in case dl_sym E dl_module factory_name of
                Inl msg \<Rightarrow>
                  (Inl (plugin_failed (''cannot load factory '' @ factory_name @ '' from plugin: '' @ msg)),
                   st\<lparr>open_handles := remove1 dl_module (open_handles st)\<rparr>)
              | Inr f \<Rightarrow>
                  (Inr f, st\<lparr>cached_factory := Some f, cached_module := Some dl_module,
                           cached_module_name := Some module_name,
                           cached_factory_name := Some factory_name\<rparr>)))"

definition call_factory :: "('c, 'e) factory \<Rightarrow> 'c \<Rightarrow> ('c, 'e) editor_answer" where
  "call_factory f connection =
     (case f connection of
        (err, None) \<Rightarrow>
          (if err = None then (Some (plugin_failed ''unknown error creating editor instance''), None)
           else (err, None))
      | answer \<Rightarrow> answer)"

definition nm_vpn_plugin_utils_load_editor ::
  "'g glib_scheme \<Rightarrow> ('m, 'c, 'e) dl_env \<Rightarrow> string \<Rightarrow> string \<Rightarrow> 'c \<Rightarrow> ('m, 'c, 'e) loader
     \<Rightarrow> (('c, 'e) editor_answer \<times> ('m, 'c, 'e) loader) option" where
  "nm_vpn_plugin_utils_load_editor L E module_name factory_name connection st =
     (if factory_name = [] then Some ((None, None), st)
      else
        (case find_module L E module_name of
           None \<Rightarrow> None
         | Some module_path \<Rightarrow>
             (case cached_factory st of
                Some f \<Rightarrow>
                  if cached_module st = None \<or> cached_factory_name st \<noteq> Some factory_name
                     \<or> cached_module_name st \<noteq> Some module_name
                  then Some ((None, None), st)
                  else Some (call_factory f connection, st)
              | None \<Rightarrow>
                  (case open_module E module_path module_name factory_name st of
                     (Inl e, st') \<Rightarrow> Some ((Some e, None), st')
                   | (Inr f, st') \<Rightarrow> Some (call_factory f connection, st')))))"

text \<open>The environment is a list of variables and values, the home directory \<open>home\<close>.\<close>

definition nm_vpn_plugin_utils_get_cert_path ::
  "'g glib_scheme \<Rightarrow> (string \<times> string) list \<Rightarrow> string \<Rightarrow> string \<Rightarrow> string" where
  "nm_vpn_plugin_utils_get_cert_path L environment home plugin_name =
     (case map_of environment ''NM_CERT_PATH'' of
        Some path \<Rightarrow> g_build_filename L [path, plugin_name]
      | None \<Rightarrow>
          (case map_of environment ''XDG_DATA_HOME'' of
             Some path \<Rightarrow> g_build_filename L [path, ''networkmanagement'', ''certificates'', plugin_name]
           | None \<Rightarrow> g_build_filename L [home, ''.local'', ''share'', ''networkmanagement'',
                       ''certificates'', plugin_name]))"

section \<open>Runs of calls\<close>

text \<open>A call: what the linker answers at that time, the names, the connection.\<close>

record ('m, 'c, 'e) load_call =
  lc_env :: "('m, 'c, 'e) dl_env"
  lc_module :: string
  lc_factory :: string
  lc_connection :: 'c

fun load_calls ::
  "'g glib_scheme \<Rightarrow> ('m, 'c, 'e) load_call list \<Rightarrow> ('m, 'c, 'e) loader
     \<Rightarrow> (('c, 'e) editor_answer list \<times> ('m, 'c, 'e) loader) option" where
  "load_calls L [] st = Some ([], st)"
| "load_calls L (c # cs) st =
     (case nm_vpn_plugin_utils_load_editor L (lc_env c) (lc_module c) (lc_factory c) (lc_connection c) st of
        None \<Rightarrow> None
      | Some (a, st') \<Rightarrow>
          (case load_calls L cs st' of None \<Rightarrow> None | Some (r, st'') \<Rightarrow> Some (a # r, st'')))"

definition addr_known :: "('m, 'c, 'e) load_call \<Rightarrow> bool" where
  "addr_known c \<longleftrightarrow> path_is_absolute (lc_env c) (lc_module c) \<or> dl_addr (lc_env c) \<noteq> None"

definition holds_module :: "('m, 'c, 'e) loader \<Rightarrow> ('c, 'e) factory \<Rightarrow> string \<Rightarrow> string \<Rightarrow> bool" where
  "holds_module st f m n \<longleftrightarrow> cached_factory st = Some f \<and> cached_module_name st = Some m
     \<and> cached_factory_name st = Some n \<and> (\<exists>h. cached_module st = Some h \<and> open_handles st = [h])"

text \<open>What calls get once the factory \<open>f\<close> is held under the names \<open>m\<close> and \<open>n\<close>.\<close>

definition held_answers ::
  "('c, 'e) factory \<Rightarrow> string \<Rightarrow> string \<Rightarrow> ('m, 'c, 'e) load_call list \<Rightarrow> ('c, 'e) editor_answer list" where
  "held_answers f m n = map (\<lambda>d. if lc_module d = m \<and> lc_factory d = n
     then call_factory f (lc_connection d) else (None, None))"

lemma find_known: "addr_known c \<Longrightarrow> find_module L (lc_env c) (lc_module c) \<noteq> None"
  by (auto simp: addr_known_def find_module_def)

lemma open_module_new:
  "case open_module E p m n new_loader of
     (Inl e, st') \<Rightarrow> st' = new_loader | (Inr f, st') \<Rightarrow> holds_module st' f m n"
  by (simp add: open_module_def Let_def new_loader_def holds_module_def split: sum.split)

lemma load_new:
  assumes "addr_known c"
    "nm_vpn_plugin_utils_load_editor L (lc_env c) (lc_module c) (lc_factory c) (lc_connection c) new_loader
       = Some (a, st')"
  shows "st' = new_loader \<or> (lc_factory c \<noteq> [] \<and> (\<exists>f. holds_module st' f (lc_module c) (lc_factory c)
    \<and> a = call_factory f (lc_connection c)))"
  using assms open_module_new [where E = "lc_env c" and m = "lc_module c" and n = "lc_factory c"]
    find_known [of c L]
  by (fastforce simp: nm_vpn_plugin_utils_load_editor_def new_loader_def split: if_splits option.splits sum.splits prod.splits)

lemma load_held:
  assumes "addr_known c" "holds_module st f m n" "n \<noteq> []"
  shows "nm_vpn_plugin_utils_load_editor L (lc_env c) (lc_module c) (lc_factory c) (lc_connection c) st
    = Some (if lc_module c = m \<and> lc_factory c = n then call_factory f (lc_connection c) else (None, None), st)"
  using assms find_known [of c L]
  by (auto simp: nm_vpn_plugin_utils_load_editor_def holds_module_def)

lemma load_total:
  assumes "addr_known c"
  shows "nm_vpn_plugin_utils_load_editor L (lc_env c) (lc_module c) (lc_factory c) (lc_connection c) st \<noteq> None"
  using find_known [OF assms, of L]
  by (auto simp: nm_vpn_plugin_utils_load_editor_def split: option.splits sum.splits prod.splits)

lemma load_calls_held:
  assumes "list_all addr_known cs" "holds_module st f m n" "n \<noteq> []"
  shows "load_calls L cs st = Some (held_answers f m n cs, st)"
  using assms(1) by (induction cs) (simp_all add: held_answers_def load_held [OF _ assms(2,3)])

text \<open>
  The outcomes of a run: no module was ever held, or the call \<open>c\<close> is the first to get one.
\<close>

definition load_outcome ::
  "'g glib_scheme \<Rightarrow> ('m, 'c, 'e) load_call list \<Rightarrow> ('c, 'e) editor_answer list \<Rightarrow> ('m, 'c, 'e) loader \<Rightarrow> bool" where
  "load_outcome L cs answers st \<longleftrightarrow> st = new_loader \<or>
    (\<exists>before c after f. cs = before @ c # after \<and> holds_module st f (lc_module c) (lc_factory c)
       \<and> map_option snd (load_calls L before new_loader) = Some new_loader
       \<and> drop (length before) answers = held_answers f (lc_module c) (lc_factory c) (c # after))"

lemma load_outcomeI:
  assumes "cs = before @ c # after" "holds_module st f (lc_module c) (lc_factory c)"
    "map_option snd (load_calls L before new_loader) = Some new_loader"
    "drop (length before) answers = held_answers f (lc_module c) (lc_factory c) (c # after)"
  shows "load_outcome L cs answers st"
  unfolding load_outcome_def
  by (rule disjI2, rule exI [of _ before], rule exI [of _ c], rule exI [of _ after], rule exI [of _ f])
    (intro conjI assms)

lemma load_outcome_later:
  assumes "nm_vpn_plugin_utils_load_editor L (lc_env c) (lc_module c) (lc_factory c)
      (lc_connection c) new_loader = Some (a, new_loader)" "load_outcome L cs answers st"
  shows "load_outcome L (c # cs) (a # answers) st"
proof -
  have pre: "map_option snd (load_calls L (c # before) new_loader) = Some new_loader"
    if "map_option snd (load_calls L before new_loader) = Some new_loader" for before
    using that assms(1) by (auto split: option.split)
  from assms(2) show ?thesis
    unfolding load_outcome_def [of L cs]
  proof (elim disjE exE conjE)
    fix before c' after f
    assume e: "cs = before @ c' # after" "holds_module st f (lc_module c') (lc_factory c')"
      "map_option snd (load_calls L before new_loader) = Some new_loader"
      "drop (length before) answers = held_answers f (lc_module c') (lc_factory c') (c' # after)"
    show ?thesis by (rule load_outcomeI [OF _ e(2) pre [OF e(3)]]) (simp_all add: e)
  qed (simp add: load_outcome_def)
qed

lemma load_calls_outcome:
  assumes "list_all addr_known cs"
  shows "\<exists>answers st. load_calls L cs new_loader = Some (answers, st) \<and> load_outcome L cs answers st"
  using assms
proof (induction cs)
  case (Cons c cs)
  obtain a st' where l: "nm_vpn_plugin_utils_load_editor L (lc_env c) (lc_module c) (lc_factory c)
      (lc_connection c) new_loader = Some (a, st')"
    using load_total [of c L new_loader] Cons.prems by auto
  consider "st' = new_loader"
    | f where "lc_factory c \<noteq> []" "holds_module st' f (lc_module c) (lc_factory c)"
        "a = call_factory f (lc_connection c)"
    using load_new [OF _ l] Cons.prems by auto
  then show ?case
  proof cases
    case 1
    obtain answers st where r: "load_calls L cs new_loader = Some (answers, st)"
      "load_outcome L cs answers st" using Cons by auto
    have "load_calls L (c # cs) new_loader = Some (a # answers, st)" using l 1 r by simp
    then show ?thesis using load_outcome_later [OF l [unfolded 1] r(2)] by blast
  next
    case 2
    have h: "load_calls L cs st' = Some (held_answers f (lc_module c) (lc_factory c) cs, st')"
      by (rule load_calls_held [OF _ 2(2,1)]) (use Cons.prems in simp)
    have run: "load_calls L (c # cs) new_loader
        = Some (held_answers f (lc_module c) (lc_factory c) (c # cs), st')"
      using l 2(3) h by (simp add: held_answers_def)
    have "load_outcome L (c # cs) (held_answers f (lc_module c) (lc_factory c) (c # cs)) st'"
      by (rule load_outcomeI [of _ "[]", OF _ 2(2)]) simp_all
    then show ?thesis using run by blast
  qed
qed (simp add: load_outcome_def)

section \<open>Properties\<close>

text \<open>
  Whatever the linker does, the process keeps at most one editor module open. Calls that find no
  module or no factory leave nothing behind; from the first one that does on, the calls with the
  same names use its factory and never the linker, and those with other names give nothing.
\<close>

theorem editor_module_once:
  assumes "list_all addr_known cs"
  shows "\<exists>answers st. load_calls L cs new_loader = Some (answers, st) \<and> (st = new_loader \<or>
    (\<exists>before c after f. cs = before @ c # after \<and> holds_module st f (lc_module c) (lc_factory c)
       \<and> map_option snd (load_calls L before new_loader) = Some new_loader
       \<and> drop (length before) answers = held_answers f (lc_module c) (lc_factory c) (c # after)))"
proof -
  from load_calls_outcome [OF assms, of L] obtain answers st where
    "load_calls L cs new_loader = Some (answers, st)" "load_outcome L cs answers st" by blast
  then show ?thesis unfolding load_outcome_def by blast
qed

text \<open>A linker that has the module at one time and not at another.\<close>

definition linker :: "bool \<Rightarrow> (nat, nat, nat) dl_env" where
  "linker there = \<lparr>dl_addr = Some ''/usr/lib/NetworkManager/plugin.so'',
     path_is_absolute = (\<lambda>p. take 1 p = ''/''),
     path_get_dirname = (\<lambda>_. ''/usr/lib/NetworkManager''),
     dl_open = (\<lambda>_. if there then Inr 7 else Inl ''gone''),
     dl_sym = (\<lambda>_ _. Inr (\<lambda>c. (None, Some (c + 1)))), path_exists = (\<lambda>_. there),
     process_symbol = (\<lambda>_. True)\<rparr>"

definition demo_calls :: "(nat, nat, nat) load_call list" where
  "demo_calls = map (\<lambda>(there, m, c). \<lparr>lc_env = linker there, lc_module = m, lc_factory = ''make'',
     lc_connection = c\<rparr>) [(False, ''m.so'', 1), (True, ''m.so'', 2), (False, ''m.so'', 3), (True, ''n.so'', 4)]"

theorem editor_module_once_witness:
  "\<exists>st. load_calls ref_lib demo_calls new_loader
      = Some ([(Some (GError G_FILE_ERROR E_NOENT
                  (''missing plugin file '' @ CHR 0x22 # ''/usr/lib/NetworkManager/m.so'' @ [CHR 0x22])), None),
               (None, Some 3), (None, Some 4), (None, None)], st)
    \<and> open_handles st = [7]"
proof -
  have "list_all addr_known demo_calls" by (simp add: demo_calls_def addr_known_def linker_def)
  note t = editor_module_once [OF this, of ref_lib]
  show ?thesis using t
    by (simp add: demo_calls_def linker_def nm_vpn_plugin_utils_load_editor_def find_module_def open_module_def
        new_loader_def call_factory_def ref_lib_def)
qed

end
