(* ===== verification/Airvpn_Editor_Plugin.thy ===== *)
theory Airvpn_Editor_Plugin
  imports NM_Plugin_Utils Airvpn_Editor_Steps
begin

text \<open>
  The plugin that applications load to edit connections, \<open>properties/nm-airvpn-editor-plugin.c\<close>:
  its properties, and the choice of the module with the editor by the toolkit of the process. The
  factory at the end of \<open>properties/nm-airvpn-editor.c\<close> is what the module exports. Registration
  of the types is not modelled.
\<close>

section \<open>The plugin\<close>

definition AIRVPN_PLUGIN_NAME :: string where "AIRVPN_PLUGIN_NAME = ''AirVPN''"

definition AIRVPN_PLUGIN_DESC :: string where
  "AIRVPN_PLUGIN_DESC = ''Connect to the AirVPN network using your API key.''"

definition AIRVPN_PLUGIN_SERVICE :: string where "AIRVPN_PLUGIN_SERVICE = NM_DBUS_SERVICE_AIRVPN"

datatype plugin_prop = PROP_0 | PROP_NAME | PROP_DESC | PROP_SERVICE

text \<open>An id that is not a property leaves the value alone, with a warning.\<close>

definition get_property :: "plugin_prop \<Rightarrow> cstr \<Rightarrow> cstr" where
  "get_property prop_id v =
     (case prop_id of
        PROP_NAME \<Rightarrow> Some AIRVPN_PLUGIN_NAME
      | PROP_DESC \<Rightarrow> Some AIRVPN_PLUGIN_DESC
      | PROP_SERVICE \<Rightarrow> Some AIRVPN_PLUGIN_SERVICE
      | PROP_0 \<Rightarrow> v)"

text \<open>\<open>NM_VPN_EDITOR_PLUGIN_CAPABILITY_NONE\<close> of libnm.\<close>

definition get_capabilities :: nat where "get_capabilities = 0"

definition FACTORY_NAME :: string where "FACTORY_NAME = ''nm_vpn_editor_factory_airvpn''"

text \<open>\<open>_call_editor_factory\<close>, which applies the factory, is the application in \<open>call_factory\<close>.\<close>

definition editor_library :: "('m, 'c, 'e) dl_env \<Rightarrow> string" where
  "editor_library D =
     (if process_symbol D ''gtk_container_add'' then ''libnm-vpn-plugin-airvpn-editor.so''
      else ''libnm-gtk4-vpn-plugin-airvpn-editor.so'')"

definition get_editor ::
  "'g glib_scheme \<Rightarrow> ('m, 'c, 'e) dl_env \<Rightarrow> 'c \<Rightarrow> ('m, 'c, 'e) loader
     \<Rightarrow> (('c, 'e) editor_answer \<times> ('m, 'c, 'e) loader) option" where
  "get_editor L D connection st =
     nm_vpn_plugin_utils_load_editor L D (editor_library D) FACTORY_NAME connection st"

text \<open>The factory of the module: an error or an editor. \<open>None\<close> is the undefined construction.\<close>

definition nm_vpn_editor_factory_airvpn ::
  "('c, 'w) combolib_scheme \<Rightarrow> 'g glib_scheme \<Rightarrow> editor_env \<Rightarrow> gerror + 'c widgets option
     \<Rightarrow> editor_connection \<Rightarrow> (editor_connection, 'c desktop) editor_answer option" where
  "nm_vpn_editor_factory_airvpn W L E ui connection =
     map_option (\<lambda>r. case r of
        Inl e \<Rightarrow> (Some e, None)
      | Inr editor \<Rightarrow> (None, Some editor)) (nm_airvpn_editor_new W L E ui connection)"

section \<open>Facts\<close>

text \<open>The construction is defined, so the module has a factory, which answers with an error or an editor.\<close>

lemma factory_defined: "\<exists>f. \<forall>c. nm_vpn_editor_factory_airvpn W L E ui c = Some (f c)"
proof -
  have "nm_vpn_editor_factory_airvpn W L E ui c \<noteq> None" for c
  proof (cases ui)
    case (Inr w)
    then show ?thesis
      by (cases w) (simp add: nm_vpn_editor_factory_airvpn_def nm_airvpn_editor_new_def,
        simp add: nm_vpn_editor_factory_airvpn_def editor_new_eq)
  qed (simp add: nm_vpn_editor_factory_airvpn_def nm_airvpn_editor_new_def)
  then show ?thesis by (intro exI [of _ "\<lambda>c. the (nm_vpn_editor_factory_airvpn W L E ui c)"]) simp
qed

lemma factory_complete:
  assumes "\<forall>c. nm_vpn_editor_factory_airvpn W L E ui c = Some (f c)"
  shows "call_factory f c = f c"
proof -
  from assms have "nm_vpn_editor_factory_airvpn W L E ui c = Some (f c)" by blast
  then obtain r where "(case r of Inl e \<Rightarrow> (Some e, None) | Inr editor \<Rightarrow> (None, Some editor)) = f c"
    unfolding nm_vpn_editor_factory_airvpn_def map_option_eq_Some by blast
  then have "f c = (case r of Inl e \<Rightarrow> (Some e, None) | Inr editor \<Rightarrow> (None, Some editor))" by (rule sym)
  then show ?thesis by (cases r) (simp_all add: call_factory_def)
qed

lemma get_editor_first:
  assumes "find_module L D (editor_library D) = Some path" "dl_open D path = Inr h"
    "dl_sym D h FACTORY_NAME = Inr f"
  shows "\<exists>st. get_editor L D c new_loader = Some (call_factory f c, st) \<and> open_handles st = [h]
    \<and> holds_module st f (editor_library D) FACTORY_NAME"
  using assms
  by (simp add: get_editor_def nm_vpn_plugin_utils_load_editor_def open_module_def new_loader_def
      holds_module_def FACTORY_NAME_def)

lemma get_editor_again:
  assumes "holds_module st f (editor_library D) FACTORY_NAME" "find_module L D' (editor_library D') = Some path"
  shows "get_editor L D' c st =
    Some (if editor_library D' = editor_library D then call_factory f c else (None, None), st)"
  using assms by (auto simp: get_editor_def nm_vpn_plugin_utils_load_editor_def holds_module_def FACTORY_NAME_def)

section \<open>Properties\<close>

text \<open>
  An application that can load the module for its toolkit gets an editor for each connection, or
  the error of its construction, also when the module has gone from the disk meanwhile: the second
  request is answered without the linker, from the one handle that stays open.
\<close>

theorem get_editor_opens_editor:
  assumes "find_module L D (editor_library D) = Some path" "dl_open D path = Inr h"
    "dl_sym D h FACTORY_NAME = Inr f" "\<forall>c. nm_vpn_editor_factory_airvpn W G E ui c = Some (f c)"
    "process_symbol D' ''gtk_container_add'' = process_symbol D ''gtk_container_add''"
    "find_module L D' (editor_library D') = Some path'"
  shows "\<exists>st. get_editor L D c new_loader = Some (f c, st)
    \<and> get_editor L D' c' st = Some (f c', st) \<and> open_handles st = [h]"
proof -
  have lib: "editor_library D' = editor_library D" using assms(5) by (simp add: editor_library_def)
  note complete = factory_complete [OF assms(4)]
  obtain st where "get_editor L D c new_loader = Some (f c, st)"
    "open_handles st = [h]" "holds_module st f (editor_library D) FACTORY_NAME"
    using get_editor_first [OF assms(1-3), of c] by (auto simp: complete)
  then show ?thesis
    using get_editor_again [OF _ assms(6), of st _ D c'] by (simp add: lib complete)
qed

definition demo_factory :: "(editor_connection, ref_combo_state desktop) factory" where
  "demo_factory c = the (nm_vpn_editor_factory_airvpn ref_combo ref_lib ref_editor_env (Inr (Some ref_ui)) c)"

definition editor_linker :: "bool \<Rightarrow> (nat, editor_connection, ref_combo_state desktop) dl_env" where
  "editor_linker there = \<lparr>dl_addr = Some ''/usr/lib/NetworkManager/plugin.so'',
     path_is_absolute = (\<lambda>p. take 1 p = ''/''),
     path_get_dirname = (\<lambda>_. ''/usr/lib/NetworkManager''),
     dl_open = (\<lambda>_. if there then Inr 7 else Inl ''gone''),
     dl_sym = (\<lambda>_ _. Inr demo_factory),
     path_exists = (\<lambda>_. there), process_symbol = (\<lambda>_. True)\<rparr>"

theorem get_editor_opens_editor_witness:
  "\<exists>st. get_editor ref_lib (editor_linker True) demo_editor_connection new_loader = Some ((None, Some demo_editor), st)
    \<and> get_editor ref_lib (editor_linker False) demo_editor_connection st = Some ((None, Some demo_editor), st)"
proof -
  have f: "find_module ref_lib (editor_linker b) (editor_library (editor_linker b))
      = Some (g_build_filename ref_lib [''/usr/lib/NetworkManager'', ''libnm-vpn-plugin-airvpn-editor.so''])" for b
    by (simp add: find_module_def editor_linker_def editor_library_def)
  have o: "dl_open (editor_linker True) p = Inr 7" for p by (simp add: editor_linker_def)
  have s: "dl_sym (editor_linker b) h n = Inr demo_factory" for b h n by (simp add: editor_linker_def)
  obtain g where g: "\<forall>c. nm_vpn_editor_factory_airvpn ref_combo ref_lib ref_editor_env (Inr (Some ref_ui)) c = Some (g c)"
    using factory_defined by blast
  then have d: "\<forall>c. nm_vpn_editor_factory_airvpn ref_combo ref_lib ref_editor_env (Inr (Some ref_ui)) c
      = Some (demo_factory c)" by (simp add: demo_factory_def)
  have p: "process_symbol (editor_linker False) x = process_symbol (editor_linker True) x" for x
    by (simp add: editor_linker_def)
  have e: "demo_factory demo_editor_connection = (None, Some demo_editor)"
    by (simp add: demo_factory_def nm_vpn_editor_factory_airvpn_def demo_editor_new)
  show ?thesis
    using get_editor_opens_editor [OF f o s d p f, of demo_editor_connection demo_editor_connection]
    unfolding e by blast
qed

end
