(* ===== verification/Airvpn_Auth_Dialog.thy ===== *)
theory Airvpn_Auth_Dialog
  imports Airvpn_Properties NM_Libs
begin

text \<open>
  The authentication dialog, \<open>auth-dialog/main.c\<close>: where the API key comes from, when the user is
  asked, what goes to the standard output, and the wait for the word \<open>QUIT\<close>. The keyring, the
  dialog and libnm's reading of the details are the parameter \<open>E\<close>, key files the parameter \<open>L\<close>;
  the option parser of GLib has run.
\<close>

unbundle bit_operations_syntax

section \<open>Secrets\<close>

definition KEYRING_UUID_TAG :: string where "KEYRING_UUID_TAG = ''connection-uuid''"
definition KEYRING_SN_TAG :: string where "KEYRING_SN_TAG = ''setting-name''"
definition KEYRING_SK_TAG :: string where "KEYRING_SK_TAG = ''setting-key''"
definition UI_KEYFILE_GROUP :: string where "UI_KEYFILE_GROUP = ''VPN Plugin UI''"

text \<open>\<open>NM_SETTING_VPN_SETTING_NAME\<close>, and two of libnm's secret flags.\<close>

definition SETTING_VPN_NAME :: string where "SETTING_VPN_NAME = ''vpn''"
definition FLAG_NOT_SAVED :: nat where "FLAG_NOT_SAVED = 2"
definition FLAG_NOT_REQUIRED :: nat where "FLAG_NOT_REQUIRED = 4"

text \<open>
  A search of the keyring gives items, each with a value or none, and the value with a text or
  \<open>NULL\<close>. The dialog gets its title, the prompt and a password to start with; \<open>None\<close> when it is
  cancelled. The details are the data and the secrets, each a hash table.
\<close>

record auth_env =
  keyring_search :: "(string \<times> string) list \<Rightarrow> cstr option list"
  dialog_run :: "string \<Rightarrow> string \<Rightarrow> cstr \<Rightarrow> cstr option"
  vpn_details :: "((string \<times> string) list \<times> (string \<times> string) list) option"
  flags_of_secret :: "(string \<times> string) list \<Rightarrow> string \<Rightarrow> nat option"

definition keyring_lookup_secret :: "auth_env \<Rightarrow> string \<Rightarrow> string \<Rightarrow> cstr" where
  "keyring_lookup_secret E uuid_arg secret_name =
     (case keyring_search E [(KEYRING_UUID_TAG, uuid_arg), (KEYRING_SN_TAG, SETTING_VPN_NAME),
                             (KEYRING_SK_TAG, secret_name)] of
        [] \<Rightarrow> None
      | value_opt # _ \<Rightarrow> (case value_opt of None \<Rightarrow> None | Some t \<Rightarrow> t))"

definition keyfile_add_entry_info ::
  "('k, 'g) kflib_scheme \<Rightarrow> 'k \<Rightarrow> string \<Rightarrow> string \<Rightarrow> string \<Rightarrow> bool \<Rightarrow> bool \<Rightarrow> 'k" where
  "keyfile_add_entry_info L keyfile key value_arg label is_secret should_ask =
     (let keyfile = kf_set_string L keyfile key ''Value'' value_arg;
          keyfile = kf_set_string L keyfile key ''Label'' label;
          keyfile = kf_set_boolean L keyfile key ''IsSecret'' is_secret
      in kf_set_boolean L keyfile key ''ShouldAsk'' should_ask)"

definition keyfile_print_stdout :: "('k, 'g) kflib_scheme \<Rightarrow> 'k \<Rightarrow> string" where
  "keyfile_print_stdout L keyfile = kf_to_data L keyfile"

text \<open>The key, what is printed, and the dialogs shown with their preset passwords.\<close>

record secrets_answer =
  sa_api_key :: cstr
  sa_stdout :: string
  sa_dialogs :: "cstr list"

definition existing_secret :: "auth_env \<Rightarrow> string \<Rightarrow> cstr \<Rightarrow> nat \<Rightarrow> cstr" where
  "existing_secret E vpn_uuid in_api_key flags =
     (if flags AND FLAG_NOT_SAVED = 0 \<and> flags AND FLAG_NOT_REQUIRED = 0
      then (case in_api_key of Some k \<Rightarrow> Some k | None \<Rightarrow> keyring_lookup_secret E vpn_uuid KEY_API_KEY)
      else None)"

definition key_prompt :: "string \<Rightarrow> string" where
  "key_prompt vpn_name =
     ''Your AirVPN API key is needed for the VPN connection '' @ lquo @ vpn_name @ rquo
     @ ''. You can find it at '' @ API_SETTINGS_URL @ ''.''"

text \<open>\<open>g_key_file_set_integer\<close> writes the number 2 as \<open>g_key_file_set_int64\<close> does.\<close>

definition external_keyfile :: "('k, 'g) kflib_scheme \<Rightarrow> string \<Rightarrow> cstr \<Rightarrow> bool \<Rightarrow> 'k" where
  "external_keyfile L prompt pw allow_interaction =
     (let keyfile = kf_set_int64 L (kf_new L) UI_KEYFILE_GROUP ''Version'' 2;
          keyfile = kf_set_string L keyfile UI_KEYFILE_GROUP ''Description'' prompt;
          keyfile = kf_set_string L keyfile UI_KEYFILE_GROUP ''Title'' ''Authenticate VPN''
      in keyfile_add_entry_info L keyfile KEY_API_KEY (or_empty pw) ''API key'' True allow_interaction)"

definition get_secrets ::
  "('k, 'g) kflib_scheme \<Rightarrow> auth_env \<Rightarrow> string \<Rightarrow> string \<Rightarrow> bool \<Rightarrow> bool \<Rightarrow> bool \<Rightarrow> cstr \<Rightarrow> nat
     \<Rightarrow> secrets_answer" where
  "get_secrets L E vpn_uuid vpn_name retry allow_interaction external_ui_mode in_api_key flags =
     (let pw = existing_secret E vpn_uuid in_api_key flags
      in if flags AND FLAG_NOT_REQUIRED \<noteq> 0
         then \<lparr>sa_api_key = None, sa_stdout = [], sa_dialogs = []\<rparr>
         else if external_ui_mode
         then \<lparr>sa_api_key = None,
               sa_stdout = keyfile_print_stdout L (external_keyfile L (key_prompt vpn_name) pw allow_interaction),
               sa_dialogs = []\<rparr>
         else if \<not> allow_interaction \<or> (\<not> retry \<and> pw \<noteq> None \<and> flags AND FLAG_NOT_SAVED = 0)
         then \<lparr>sa_api_key = pw, sa_stdout = [], sa_dialogs = []\<rparr>
         else
           (let preset = (if pw \<noteq> None \<and> flags AND FLAG_NOT_SAVED = 0 then pw else None)
            in \<lparr>sa_api_key = (case dialog_run E ''Authenticate VPN'' (key_prompt vpn_name) preset of
                                None \<Rightarrow> None | Some new_password \<Rightarrow> new_password),
                sa_stdout = [], sa_dialogs = [preset]\<rparr>))"

section \<open>Waiting for the end\<close>

text \<open>
  What the \<open>i\<close>-th \<open>read\<close> of one byte finds, and the time \<open>T i\<close> after it. The result is the
  number of reads and the text.
\<close>

datatype byte_read = ReadEnd | ReadAgain | ReadChar char | ReadError

partial_function (option) quit_loop ::
  "(nat \<Rightarrow> byte_read) \<Rightarrow> (nat \<Rightarrow> int) \<Rightarrow> int \<Rightarrow> nat \<Rightarrow> string \<Rightarrow> (nat \<times> string) option" where
  "quit_loop R T start i str =
     (case R i of
        ReadError \<Rightarrow> Some (Suc i, str)
      | ReadChar c \<Rightarrow>
          if contains (takeWhile (\<lambda>c. c \<noteq> CHR 0x00) (str @ [c])) ''QUIT'' \<or> length (str @ [c]) > 10
          then Some (Suc i, str @ [c])
          else if T i < start + 20 then quit_loop R T start (Suc i) (str @ [c])
          else Some (Suc i, str @ [c])
      | _ \<Rightarrow>
          if T i < start + 20 then quit_loop R T start (Suc i) str else Some (Suc i, str))"

definition wait_for_quit :: "(nat \<Rightarrow> byte_read) \<Rightarrow> (nat \<Rightarrow> int) \<Rightarrow> int \<Rightarrow> (nat \<times> string) option" where
  "wait_for_quit R T start = quit_loop R T start 0 []"

section \<open>The program\<close>

record auth_options =
  ao_reprompt :: bool
  ao_uuid :: cstr
  ao_name :: cstr
  ao_service :: cstr
  ao_allow_interaction :: bool
  ao_external_ui_mode :: bool

record auth_result =
  ar_exit :: int
  ar_stdout :: string
  ar_stderr :: string
  ar_dialogs :: "cstr list"
  ar_waits :: bool

definition auth_failed :: "string \<Rightarrow> auth_result" where
  "auth_failed msg = \<lparr>ar_exit = 1, ar_stdout = [], ar_stderr = msg, ar_dialogs = [], ar_waits = False\<rparr>"

definition EOL :: string where "EOL = [CHR 0x0A]"

definition dump_secrets :: "cstr \<Rightarrow> string" where
  "dump_secrets api_key =
     (case api_key of None \<Rightarrow> [] | Some k \<Rightarrow> KEY_API_KEY @ EOL @ k @ EOL) @ EOL @ EOL"

definition auth_main :: "('k, 'g) kflib_scheme \<Rightarrow> auth_env \<Rightarrow> auth_options \<Rightarrow> auth_result" where
  "auth_main L E opts =
     (case (ao_uuid opts, ao_service opts, ao_name opts) of
        (Some vpn_uuid, Some vpn_service, Some vpn_name) \<Rightarrow>
          if vpn_service \<noteq> NM_DBUS_SERVICE_AIRVPN
          then auth_failed (''This dialog only works with the '' @ CHR 0x27 # NM_DBUS_SERVICE_AIRVPN
                 @ CHR 0x27 # '' service'' @ EOL)
          else
            (case vpn_details E of
               None \<Rightarrow> auth_failed (''Failed to read '' @ CHR 0x27 # vpn_name @ CHR 0x27 # '' ('' @ vpn_uuid
                 @ '') data and secrets from stdin.'' @ EOL)
             | Some (data, secrets) \<Rightarrow>
                 (let flags = (case flags_of_secret E data KEY_API_KEY of None \<Rightarrow> 0 | Some f \<Rightarrow> f);
                      answer = get_secrets L E vpn_uuid vpn_name (ao_reprompt opts) (ao_allow_interaction opts)
                        (ao_external_ui_mode opts) (map_of secrets KEY_API_KEY) flags
                  in \<lparr>ar_exit = 0,
                      ar_stdout = sa_stdout answer
                        @ (if ao_external_ui_mode opts then [] else dump_secrets (sa_api_key answer)),
                      ar_stderr = [], ar_dialogs = sa_dialogs answer,
                      ar_waits = (\<not> ao_external_ui_mode opts)\<rparr>))
      | _ \<Rightarrow> auth_failed (''A connection UUID, name, and VPN plugin service name are required.'' @ EOL))"

section \<open>Facts\<close>

text \<open>The arguments are accepted and the details read: the flags and the key that is known.\<close>

definition auth_input :: "auth_env \<Rightarrow> auth_options \<Rightarrow> (string \<times> string \<times> nat \<times> cstr) option" where
  "auth_input E opts =
     (case (ao_uuid opts, ao_name opts, ao_service opts, vpn_details E) of
        (Some u, Some n, Some s, Some (data, secrets)) \<Rightarrow>
          if s = NM_DBUS_SERVICE_AIRVPN
          then (let f = (case flags_of_secret E data KEY_API_KEY of None \<Rightarrow> 0 | Some f \<Rightarrow> f)
                in Some (u, n, f, existing_secret E u (map_of secrets KEY_API_KEY) f))
          else None
      | _ \<Rightarrow> None)"

text \<open>Whether the user has to be asked, by the flags, the options and the key that is known.\<close>

definition must_ask :: "auth_options \<Rightarrow> nat \<Rightarrow> cstr \<Rightarrow> bool" where
  "must_ask opts f known \<longleftrightarrow> f AND FLAG_NOT_REQUIRED = 0 \<and> \<not> ao_external_ui_mode opts
     \<and> ao_allow_interaction opts \<and> (ao_reprompt opts \<or> known = None)"

lemma existing_not_saved: "f AND FLAG_NOT_SAVED \<noteq> 0 \<Longrightarrow> existing_secret E u k f = None"
  by (simp add: existing_secret_def)

lemma auth_main_input:
  "auth_main L E opts =
     (case auth_input E opts of
        None \<Rightarrow> auth_failed (ar_stderr (auth_main L E opts))
      | Some (u, n, f, known) \<Rightarrow>
          (let answer = get_secrets L E u n (ao_reprompt opts) (ao_allow_interaction opts) (ao_external_ui_mode opts)
                 (map_of (snd (the (vpn_details E))) KEY_API_KEY) f
           in \<lparr>ar_exit = 0, ar_stdout = sa_stdout answer
                 @ (if ao_external_ui_mode opts then [] else dump_secrets (sa_api_key answer)),
               ar_stderr = [], ar_dialogs = sa_dialogs answer, ar_waits = (\<not> ao_external_ui_mode opts)\<rparr>))"
  by (auto simp: auth_main_def auth_input_def auth_failed_def Let_def split: option.split)

lemma auth_input_known:
  "auth_input E opts = Some (u, n, f, known) \<Longrightarrow>
   existing_secret E u (map_of (snd (the (vpn_details E))) KEY_API_KEY) f = known"
  by (auto simp: auth_input_def Let_def split: option.splits if_splits)

lemma get_secrets_ask:
  assumes "existing_secret E u k f = known"
  shows "sa_dialogs (get_secrets L E u n (ao_reprompt opts) (ao_allow_interaction opts) (ao_external_ui_mode opts) k f)
      = (if must_ask opts f known then [known] else [])"
    and "sa_api_key (get_secrets L E u n (ao_reprompt opts) (ao_allow_interaction opts) (ao_external_ui_mode opts) k f)
      = (if must_ask opts f known
         then Option.bind (dialog_run E ''Authenticate VPN'' (key_prompt n) known) id
         else if f AND FLAG_NOT_REQUIRED = 0 \<and> \<not> ao_external_ui_mode opts then known else None)"
    and "\<not> ao_external_ui_mode opts \<Longrightarrow>
      sa_stdout (get_secrets L E u n (ao_reprompt opts) (ao_allow_interaction opts) (ao_external_ui_mode opts) k f) = []"
proof -
  have ns: "known \<noteq> None \<Longrightarrow> f AND FLAG_NOT_SAVED = 0" using existing_not_saved assms by metis
  show "sa_dialogs (get_secrets L E u n (ao_reprompt opts) (ao_allow_interaction opts) (ao_external_ui_mode opts) k f)
      = (if must_ask opts f known then [known] else [])"
    "sa_api_key (get_secrets L E u n (ao_reprompt opts) (ao_allow_interaction opts) (ao_external_ui_mode opts) k f)
      = (if must_ask opts f known
         then Option.bind (dialog_run E ''Authenticate VPN'' (key_prompt n) known) id
         else if f AND FLAG_NOT_REQUIRED = 0 \<and> \<not> ao_external_ui_mode opts then known else None)"
    using ns by (cases known; cases "dialog_run E ''Authenticate VPN'' (key_prompt n) known";
      auto simp: get_secrets_def must_ask_def assms Let_def)+
  show "\<not> ao_external_ui_mode opts \<Longrightarrow>
      sa_stdout (get_secrets L E u n (ao_reprompt opts) (ao_allow_interaction opts) (ao_external_ui_mode opts) k f) = []"
    by (simp add: get_secrets_def Let_def)
qed

text \<open>The bytes of the first \<open>k\<close> reads, and when a text ends the wait.\<close>

fun read_text :: "(nat \<Rightarrow> byte_read) \<Rightarrow> nat \<Rightarrow> string" where
  "read_text R 0 = []"
| "read_text R (Suc k) = read_text R k @ (case R k of ReadChar c \<Rightarrow> [c] | _ \<Rightarrow> [])"

definition quit_seen :: "string \<Rightarrow> bool" where
  "quit_seen str \<longleftrightarrow> contains (takeWhile (\<lambda>c. c \<noteq> CHR 0x00) str) ''QUIT'' \<or> length str > 10"

definition wait_over :: "(nat \<Rightarrow> byte_read) \<Rightarrow> (nat \<Rightarrow> int) \<Rightarrow> int \<Rightarrow> nat \<Rightarrow> bool" where
  "wait_over R T start i \<longleftrightarrow> T i \<ge> start + 20 \<or> R i = ReadError
     \<or> (\<exists>c. R i = ReadChar c) \<and> quit_seen (read_text R (Suc i))"

lemma quit_loop_step:
  "quit_loop R T start i (read_text R i) =
     (if wait_over R T start i then Some (Suc i, read_text R (Suc i))
      else quit_loop R T start (Suc i) (read_text R (Suc i)))"
  by (subst quit_loop.simps) (auto simp: wait_over_def quit_seen_def split: byte_read.split)

lemma quit_loop_least:
  assumes "wait_over R T start m" "i \<le> m"
  shows "\<exists>k. i < k \<and> k \<le> Suc m \<and> quit_loop R T start i (read_text R i) = Some (k, read_text R k)
    \<and> wait_over R T start (k - 1) \<and> (\<forall>j. i \<le> j \<and> j < k - 1 \<longrightarrow> \<not> wait_over R T start j)"
  using assms(2)
proof (induction "m - i" arbitrary: i rule: less_induct)
  case less
  show ?case
  proof (cases "wait_over R T start i")
    case True
    then show ?thesis
      using less.prems by (intro exI [of _ "Suc i"]) (auto simp: quit_loop_step)
  next
    case False
    have i: "i < m" using False assms(1) less.prems by (cases "i = m") auto
    have lt: "m - Suc i < m - i" "Suc i \<le> m" using i by simp_all
    from less.hyps [OF lt] obtain k where k: "Suc i < k" "k \<le> Suc m"
      "quit_loop R T start (Suc i) (read_text R (Suc i)) = Some (k, read_text R k)"
      "wait_over R T start (k - 1)" "\<forall>j. Suc i \<le> j \<and> j < k - 1 \<longrightarrow> \<not> wait_over R T start j"
      by (elim exE conjE)
    have "\<forall>j. i \<le> j \<and> j < k - 1 \<longrightarrow> \<not> wait_over R T start j"
      using k(5) False by (metis Suc_leI le_neq_implies_less)
    then show ?thesis using k False by (intro exI [of _ k]) (simp add: quit_loop_step)
  qed
qed

lemma read_text_short:
  assumes "\<And>j. j < k \<Longrightarrow> length (read_text R (Suc j)) \<le> 10 \<or> R j = ReadAgain \<or> R j = ReadEnd \<or> R j = ReadError"
  shows "length (read_text R k) \<le> 10"
  using assms by (induction k) (force split: byte_read.splits)+

lemma text_bound:
  assumes "\<forall>j < k. \<not> wait_over R T start j" shows "length (read_text R (Suc k)) \<le> 11"
proof -
  have "length (read_text R k) \<le> 10"
  proof (rule read_text_short)
    fix j assume "j < k"
    then have "\<not> wait_over R T start j" using assms by simp
    then show "length (read_text R (Suc j)) \<le> 10 \<or> R j = ReadAgain \<or> R j = ReadEnd \<or> R j = ReadError"
      by (cases "R j") (auto simp: wait_over_def quit_seen_def)
  qed
  then show ?thesis by (auto split: byte_read.split)
qed

section \<open>Properties\<close>

text \<open>
  C40. The program fails exactly without usable input, with nothing on its standard output. Without
  external mode it prints the key known from the connection or the keyring, which it asks the
  user to change only if interaction is allowed and either a new prompt is requested or
  no key is known; a key that is not to be saved is never looked up, and one that is not
  required neither asked for nor printed.
\<close>

theorem auth_dialog_contract:
  "case auth_input E opts of
     None \<Rightarrow> ar_exit (auth_main L E opts) = 1 \<and> ar_stdout (auth_main L E opts) = []
       \<and> ar_dialogs (auth_main L E opts) = []
   | Some (u, n, f, known) \<Rightarrow> ar_exit (auth_main L E opts) = 0
       \<and> ar_dialogs (auth_main L E opts) = (if must_ask opts f known then [known] else [])
       \<and> (ao_external_ui_mode opts \<or> ar_stdout (auth_main L E opts) = dump_secrets
            (if must_ask opts f known then Option.bind (dialog_run E ''Authenticate VPN'' (key_prompt n) known) id
             else if f AND FLAG_NOT_REQUIRED = 0 then known else None))"
proof (cases "auth_input E opts")
  case None
  then have "auth_main L E opts = auth_failed (ar_stderr (auth_main L E opts))"
    using auth_main_input [of L E opts] by simp
  then show ?thesis using None by (simp add: auth_failed_def auth_result.defs) (metis auth_result.select_convs)
next
  case (Some r)
  then obtain u n f known where r: "auth_input E opts = Some (u, n, f, known)" by (cases r) auto
  define ans where "ans = get_secrets L E u n (ao_reprompt opts) (ao_allow_interaction opts)
    (ao_external_ui_mode opts) (map_of (snd (the (vpn_details E))) KEY_API_KEY) f"
  note a = get_secrets_ask [OF auth_input_known [OF r], where L = L and n = n and opts = opts, folded ans_def]
  have m: "auth_main L E opts = \<lparr>ar_exit = 0, ar_stdout = sa_stdout ans
      @ (if ao_external_ui_mode opts then [] else dump_secrets (sa_api_key ans)),
      ar_stderr = [], ar_dialogs = sa_dialogs ans, ar_waits = (\<not> ao_external_ui_mode opts)\<rparr>"
    using auth_main_input [of L E opts] by (simp add: r ans_def Let_def)
  show ?thesis by (cases "ao_external_ui_mode opts") (simp_all add: r m a)
qed

text \<open>
  The wait ends as soon as the clock has advanced by twenty seconds, whatever the input does: it
  ends at the first read that fails, that completes the word \<open>QUIT\<close> or an eleventh byte, or
  after which the time is over, having kept every byte read and never more than eleven.
\<close>

theorem quit_wait_ends:
  assumes "T m \<ge> start + 20"
  shows "\<exists>k \<le> m. wait_for_quit R T start = Some (Suc k, read_text R (Suc k)) \<and> wait_over R T start k
    \<and> (\<forall>j < k. \<not> wait_over R T start j) \<and> length (read_text R (Suc k)) \<le> 11"
proof -
  have "wait_over R T start m" using assms by (simp add: wait_over_def)
  from quit_loop_least [OF this, of 0] obtain k where k: "0 < k" "k \<le> Suc m"
    "wait_for_quit R T start = Some (k, read_text R k)" "wait_over R T start (k - 1)"
    "\<forall>j < k - 1. \<not> wait_over R T start j" by (auto simp: wait_for_quit_def)
  have "length (read_text R (Suc (k - 1))) \<le> 11" by (rule text_bound) (rule k(5))
  then show ?thesis using k by (intro exI [of _ "k - 1"]) auto
qed

definition typed_quit :: "nat \<Rightarrow> byte_read" where
  "typed_quit i = (if i = 1 then ReadAgain else if i < 5 then ReadChar (''Q UIT'' ! i) else ReadEnd)"

theorem quit_wait_ends_witness:
  "wait_for_quit typed_quit (\<lambda>i. int i) 0 = Some (5, ''QUIT'')"
proof -
  obtain k where k: "k \<le> 20" "wait_for_quit typed_quit (\<lambda>i. int i) 0 = Some (Suc k, read_text typed_quit (Suc k))"
    "wait_over typed_quit (\<lambda>i. int i) 0 k" "\<forall>j < k. \<not> wait_over typed_quit (\<lambda>i. int i) 0 j"
    using quit_wait_ends [of 0 "\<lambda>i. int i" 20 typed_quit] by auto
  have t: "read_text typed_quit 5 = ''QUIT''" by code_simp
  have o: "wait_over typed_quit (\<lambda>i. int i) 0 4"
    by (simp add: wait_over_def typed_quit_def quit_seen_def) code_simp
  have n: "j < 4 \<Longrightarrow> \<not> wait_over typed_quit (\<lambda>i. int i) 0 j" for j
    by (auto simp: wait_over_def typed_quit_def quit_seen_def less_Suc_eq numeral_eq_Suc contains_iff sublist_code)
  have "k = 4" using k(3,4) o n by (metis linorder_neqE_nat)
  then show ?thesis using k(2) t by (simp add: numeral_eq_Suc)
qed

end
