(* ===== verification/Airvpn_Links.thy ===== *)
theory Airvpn_Links
  imports Airvpn_Service Airvpn_Helper Airvpn_Editor_Steps
begin

text \<open>
  Where two programs of the package have to agree: the command line the daemon
  (\<open>src/nm-airvpn-service.c\<close>) gives to openvpn for its \<open>--up\<close> script, and the options the
  helper (\<open>src/nm-airvpn-service-openvpn-helper.c\<close>) reads; the settings the editor
  (\<open>properties/nm-airvpn-editor.c\<close>) writes, and what the daemon makes of them.
\<close>

section \<open>The command line of the helper\<close>

lemma dec_no_space: "CHR '' '' \<notin> set (dec_of_int i)"
proof -
  have "CHR '' '' \<notin> set (dec_of_nat n)" for n
    using dec_of_nat_digits [of "CHR '' ''" n] by (auto simp: is_digit_def)
  then show ?thesis by (auto simp: dec_of_int_def)
qed

lemma split_field_space: "CHR '' '' \<notin> set a \<Longrightarrow> split_on CHR '' '' (a @ CHR '' '' # b) = a # split_on CHR '' '' b"
  by (simp add: split_on_append split_on_none)

lemma up_script_words:
  assumes "CHR '' '' \<notin> set (helper_path N)" "CHR '' '' \<notin> set (gl_bus_name gl)"
  shows "split_on CHR '' '' (up_script N gl) =
    [helper_path N, ''--debug'', dec_of_int (gl_log_level gl), dec_of_int (gl_getpid gl),
     ''--bus-name'', gl_bus_name gl, ''--tun'', ''--'']"
proof -
  have eq: "up_script N gl = helper_path N @ CHR '' '' # ''--debug'' @ CHR '' '' # dec_of_int (gl_log_level gl)
      @ CHR '' '' # dec_of_int (gl_getpid gl) @ CHR '' '' # ''--bus-name'' @ CHR '' '' # gl_bus_name gl
      @ CHR '' '' # ''--tun'' @ CHR '' '' # ''--''"
    by (simp add: up_script_def)
  show ?thesis
    unfolding eq using assms dec_no_space by (simp add: split_field_space)
qed

lemma main_log_level: "0 \<le> gl_log_level (main_globals L debug bus lvl p)
    \<and> gl_log_level (main_globals L debug bus lvl p) \<le> LOG_DEBUG"
  using ascii_to_int64_range [of L lvl 10 0 LOG_DEBUG "- 1"]
  by (auto simp: main_globals_def Let_def LOG_DEBUG_def LOG_NOTICE_def)

lemma printed_level:
  assumes "ascii_doc L" "0 \<le> i" "i \<le> LOG_DEBUG"
  shows "ascii_to_int64 L (Some (dec_of_int i)) 10 0 LOG_DEBUG 0 = i"
  using int64_of_dec [OF assms(1), of "nat i" "[]" "[]" 0 LOG_DEBUG 0] assms(2,3)
  by (simp add: ascii_to_int64_def dec_of_int_def LOG_DEBUG_def LONG_MAX_def)

text \<open>
  C33. The helper understands the command line the daemon builds, whatever the debug option,
  the log level in the environment and the bus name of the daemon are: it logs at the
  daemon's level, takes the device for a tun device, answers on the daemon's bus name, and
  takes the arguments openvpn appends for openvpn's. The path of the helper and the bus name
  must not contain a space, at which the line is split.
\<close>

theorem up_script_parsed:
  assumes "ascii_doc L" "gl = main_globals L debug bus level mypid"
    and "CHR '' '' \<notin> set (helper_path N)" "CHR '' '' \<notin> set (gl_bus_name gl)"
    and "g_dbus_is_name H (gl_bus_name gl)"
  shows "hd (split_on CHR '' '' (up_script N gl)) = helper_path N
    \<and> parse_options L H (tl (split_on CHR '' '' (up_script N gl)) @ args) cmdline_init =
       Some \<lparr>cl_log_level = gl_log_level gl, cl_log_prefix_token = Some (dec_of_int mypid),
         cl_tapdev = 0, cl_bus_name = gl_bus_name gl, cl_args = args\<rparr>"
proof -
  have "gl_getpid gl = mypid" by (simp add: assms(2) main_globals_def Let_def)
  then show ?thesis
    using assms(5) printed_level [OF assms(1)] main_log_level [of L debug bus level mypid]
    unfolding up_script_words [OF assms(3,4)]
    by (simp add: assms(2) cmdline_init_def)
qed

theorem up_script_parsed_witness:
  "parse_options ref_lib demo_helper
     (tl (split_on CHR '' '' (up_script ref_net (main_globals ref_lib True None None 42))) @ [''tun0'']) cmdline_init
   = Some \<lparr>cl_log_level = 7, cl_log_prefix_token = Some ''42'', cl_tapdev = 0,
       cl_bus_name = NM_DBUS_SERVICE_AIRVPN, cl_args = [''tun0'']\<rparr>"
proof -
  let ?gl = "main_globals ref_lib True None None 42"
  have gl: "gl_bus_name ?gl = NM_DBUS_SERVICE_AIRVPN" "gl_log_level ?gl = 7"
    by (simp_all add: main_globals_def LOG_DEBUG_def)
  have d: "dec_of_int 42 = ''42''" by code_simp
  have "CHR '' '' \<notin> set (helper_path ref_net)" "CHR '' '' \<notin> set NM_DBUS_SERVICE_AIRVPN"
      "g_dbus_is_name demo_helper NM_DBUS_SERVICE_AIRVPN"
    by code_simp+
  with up_script_parsed [OF ref_ascii_doc refl, of ref_net True None None 42 demo_helper "[''tun0'']"]
  show ?thesis unfolding gl d by simp
qed

section \<open>Settings\<close>

text \<open>The daemon's reading of a setting: what it asks the generator for and runs openvpn with.\<close>

definition same_meaning :: "curllib \<Rightarrow> vpn_setting \<Rightarrow> vpn_setting \<Rightarrow> bool" where
  "same_meaning C s s' \<longleftrightarrow>
     build_generator_url (get_generator_params s') C = build_generator_url (get_generator_params s) C
   \<and> keepalive_args (Some s') = keepalive_args (Some s)
   \<and> (get_data_item s' KEY_KILL_SWITCH = Some ''yes'' \<longleftrightarrow> get_data_item s KEY_KILL_SWITCH = Some ''yes'')
   \<and> (get_data_item s' KEY_KILL_SWITCH = Some ''yes'' \<and> get_data_item s' KEY_ALLOW_LAN = Some ''yes''
        \<longleftrightarrow> get_data_item s KEY_KILL_SWITCH = Some ''yes'' \<and> get_data_item s KEY_ALLOW_LAN = Some ''yes'')
   \<and> or_empty (get_secret s' KEY_API_KEY) = or_empty (get_secret s KEY_API_KEY)"

text \<open>
  A setting the editor can show: it is valid, earth is written in lower case, and the ping times
  are plain numbers.
\<close>

definition plain_setting :: "vpn_setting \<Rightarrow> bool" where
  "plain_setting s \<longleftrightarrow> nm_airvpn_properties_validate s = None
     \<and> (\<exists>v. get_data_item s KEY_SERVER = Some v \<and> v \<noteq> [] \<and> (map ascii_lower v = ''earth'' \<longrightarrow> v = ''earth''))
     \<and> opt_all (\<lambda>v. \<exists>n. v = dec_of_nat n) (get_data_item s KEY_PING_INTERVAL)
     \<and> opt_all (\<lambda>v. \<exists>n. v = dec_of_nat n) (get_data_item s KEY_PING_RESTART)"

lemma in_range_nonempty: "in_range hi v \<Longrightarrow> v \<noteq> []"
  by (auto simp: in_range_def strtol10_def Let_def)

lemma init_seconds_dec:
  assumes "opt_all (\<lambda>v. \<exists>n. v = dec_of_nat n) x" "opt_all (in_range 3600) x" "1 \<le> d" "d \<le> 3600"
  shows "dec_of_int (init_seconds x d) = or_default x (dec_of_int d)" "1 \<le> init_seconds x d" "init_seconds x d \<le> 3600"
proof -
  show "1 \<le> init_seconds x d" "init_seconds x d \<le> 3600" by (simp_all add: init_seconds_def spin_value_def)
  show "dec_of_int (init_seconds x d) = or_default x (dec_of_int d)"
  proof (cases x)
    case None
    with assms(3,4) show ?thesis by (simp add: init_seconds_def spin_value_def or_default_def)
  next
    case (Some v)
    with assms(1) obtain n where n: "v = dec_of_nat n" by auto
    have "in_range 3600 (dec_of_nat n)" using assms(2) Some n by simp
    then have "0 < n \<and> n \<le> 3600 \<and> strtol10 (dec_of_nat n) = (int n, [], ENONE)"
      by (simp add: in_range_def strtol10_dec LONG_MAX_def split: if_splits)
    then show ?thesis
      by (simp add: init_seconds_def Some n spin_value_def or_default_def dec_of_int_def)
  qed
qed

text \<open>The editor opened on a setting it can show, and saved as it is.\<close>

lemma opened_widgets:
  assumes "combo_doc W" "ascii_doc L" "ui_rows W ui" "plain_setting s" "nft_path E \<noteq> None" "w = init_widgets W L E (Some s) ui"
  shows "cb_active_id W (w_server w) = get_data_item s KEY_SERVER"
    "cb_active_id W (w_protocol w) = Some (or_default (get_data_item s KEY_PROTOCOL) ''udp'')"
    "cb_active_id W (w_port w) = Some (or_default (get_data_item s KEY_PORT) ''443'')"
    "w_device_text w = or_empty (get_data_item s KEY_DEVICE)"
    "w_directives w = or_empty (get_data_item s KEY_CUSTOM_DIRECTIVES)"
    "w_keepalive w \<longleftrightarrow> get_data_item s KEY_KEEPALIVE \<noteq> Some ''no''"
    "dec_of_int (w_interval w) = or_default (get_data_item s KEY_PING_INTERVAL) ''10''"
    "dec_of_int (w_restart w) = or_default (get_data_item s KEY_PING_RESTART) ''60''"
    "w_kill_switch w \<longleftrightarrow> get_data_item s KEY_KILL_SWITCH = Some ''yes''"
    "w_allow_lan w \<longleftrightarrow> get_data_item s KEY_ALLOW_LAN = Some ''yes''"
    "widgets_ok W w"
proof -
  have v: "valid_connection s" using assms(4) validate_eq_valid by (simp add: plain_setting_def)
  note u = assms(3) [unfolded ui_rows_def]
  note d = data_item_def
  obtain sv where sv: "get_data_item s KEY_SERVER = Some sv" "sv \<noteq> []" "map ascii_lower sv = ''earth'' \<longrightarrow> sv = ''earth''"
    using assms(4) by (auto simp: plain_setting_def)
  show server: "cb_active_id W (w_server w) = get_data_item s KEY_SERVER"
    using sv by (auto simp: assms(6) init_widgets_def d init_server_id [OF assms(1,2)])
  have p: "get_data_item s KEY_PROTOCOL \<in> {None, Some ''udp'', Some ''tcp''}"
    using v by (cases "get_data_item s KEY_PROTOCOL") (auto simp: valid_connection_def)
  then show protocol: "cb_active_id W (w_protocol w) = Some (or_default (get_data_item s KEY_PROTOCOL) ''udp'')"
    using u by (auto simp: assms(6) init_widgets_def d init_protocol_id [OF assms(1)] or_default_def)
  have port_ok: "opt_all (in_range 65535) (get_data_item s KEY_PORT)" using v by (simp add: valid_connection_def)
  show port: "cb_active_id W (w_port w) = Some (or_default (get_data_item s KEY_PORT) ''443'')"
    using u by (cases "get_data_item s KEY_PORT")
      (simp_all add: assms(6) init_widgets_def d init_port_id [OF assms(1)] or_default_def)
  show "w_device_text w = or_empty (get_data_item s KEY_DEVICE)"
    "w_directives w = or_empty (get_data_item s KEY_CUSTOM_DIRECTIVES)"
    using u by (auto simp: assms(6) init_widgets_def d split: option.split)
  show "w_keepalive w \<longleftrightarrow> get_data_item s KEY_KEEPALIVE \<noteq> Some ''no''"
    "w_kill_switch w \<longleftrightarrow> get_data_item s KEY_KILL_SWITCH = Some ''yes''"
    "w_allow_lan w \<longleftrightarrow> get_data_item s KEY_ALLOW_LAN = Some ''yes''"
    using assms(5) by (simp_all add: assms(6) init_widgets_def d)
  have r: "opt_all (in_range 3600) (get_data_item s KEY_PING_INTERVAL)"
      "opt_all (in_range 3600) (get_data_item s KEY_PING_RESTART)" using v by (simp_all add: valid_connection_def)
  have c: "opt_all (\<lambda>v. \<exists>n. v = dec_of_nat n) (get_data_item s KEY_PING_INTERVAL)"
      "opt_all (\<lambda>v. \<exists>n. v = dec_of_nat n) (get_data_item s KEY_PING_RESTART)"
    using assms(4) by (simp_all add: plain_setting_def)
  have ten: "dec_of_int 10 = ''10''" "dec_of_int 60 = ''60''" by code_simp+
  note i = init_seconds_dec [OF c(1) r(1), of 10] and e = init_seconds_dec [OF c(2) r(2), of 60]
  show "dec_of_int (w_interval w) = or_default (get_data_item s KEY_PING_INTERVAL) ''10''"
    "dec_of_int (w_restart w) = or_default (get_data_item s KEY_PING_RESTART) ''60''"
    using i(1) e(1) by (simp_all add: assms(6) init_widgets_def d ten)
  have d443: "''443'' = dec_of_nat 443" by code_simp
  have "in_range 65535 ''443''" unfolding d443 by (subst in_range_dec_of_nat) (simp_all add: LONG_MAX_def)
  then have "in_range 65535 (or_default (get_data_item s KEY_PORT) ''443'')"
    using port_ok by (auto simp: or_default_def split: option.split)
  moreover have "1 \<le> w_interval w" "w_interval w \<le> 3600" "1 \<le> w_restart w" "w_restart w \<le> 3600"
    using i(2,3) e(2,3) by (simp_all add: assms(6) init_widgets_def d)
  ultimately show "widgets_ok W w"
    unfolding widgets_ok_def server protocol port using sv p by (auto simp: or_default_def)
qed

lemma generator_url_cong:
  assumes "or_empty (gp_server p) = or_empty (gp_server q)" "or_empty (gp_device p) = or_empty (gp_device q)"
    and "or_default (gp_protocol p) PROTOCOL_UDP = or_default (gp_protocol q) PROTOCOL_UDP"
    and "or_default (gp_port p) DEFAULT_PORT = or_default (gp_port q) DEFAULT_PORT"
    and "or_empty (gp_custom_directives p) = or_empty (gp_custom_directives q)"
  shows "build_generator_url p C = build_generator_url q C"
proof -
  have f: "optional_field C k x = (if or_empty x = [] then [] else k @ curl_easy_escape C (or_empty x))" for k x
    by (cases x) (simp_all add: optional_field_def)
  show ?thesis using assms by (simp add: build_generator_url_def f)
qed

lemma keepalive_args_cong:
  assumes "(get_data_item s KEY_KEEPALIVE = Some ''no'') = (get_data_item s' KEY_KEEPALIVE = Some ''no'')"
    and "or_default (get_data_item s KEY_PROTOCOL) ''udp'' = or_default (get_data_item s' KEY_PROTOCOL) ''udp''"
    and "get_data_item s KEY_PROTOCOL \<noteq> Some []" "get_data_item s' KEY_PROTOCOL \<noteq> Some []"
    and "or_empty (get_data_item s KEY_CUSTOM_DIRECTIVES) = or_empty (get_data_item s' KEY_CUSTOM_DIRECTIVES)"
    and "get_data_item s KEY_KEEPALIVE \<noteq> Some ''no'' \<Longrightarrow>
      or_default (get_data_item s KEY_PING_INTERVAL) ''10'' = or_default (get_data_item s' KEY_PING_INTERVAL) ''10''
      \<and> or_default (get_data_item s KEY_PING_RESTART) ''60'' = or_default (get_data_item s' KEY_PING_RESTART) ''60''"
  shows "keepalive_args (Some s) = keepalive_args (Some s')"
proof -
  have d: "(case x of None \<Rightarrow> False | Some d \<Rightarrow> contains d ''keepalive'' \<or> contains d ''ping'')
      = (contains (or_empty x) ''keepalive'' \<or> contains (or_empty x) ''ping'')" for x
    by (cases x) (simp_all add: contains_iff)
  have p: "(x = None \<or> x = Some PROTOCOL_UDP) = (or_default x ''udp'' = ''udp'')" if "x \<noteq> Some []" for x
    using that by (cases x) (auto simp: or_default_def PROTOCOL_UDP_def)
  have "wants_keepalive (Some s) = wants_keepalive (Some s')"
    using assms(1,2,5) by (auto simp: wants_keepalive_def item_def Let_def d p [OF assms(3)] p [OF assms(4)])
  moreover have "wants_keepalive (Some s) \<Longrightarrow> get_data_item s KEY_KEEPALIVE \<noteq> Some ''no''"
    by (auto simp: wants_keepalive_def item_def Let_def)
  ultimately show ?thesis
    using assms(6) by (auto simp: keepalive_args_def item_def DEFAULT_PING_INTERVAL_def DEFAULT_PING_RESTART_def)
qed

text \<open>
  C38. Opening a valid connection in the editor and saving it succeeds and keeps its meaning: the
  daemon requests the same profile, runs openvpn with the same keepalive options, arms the kill
  switch with the same LAN exception and uses the same API key. It needs nft to be installed, the key
  to be stored, and a server that is not another spelling of earth.
\<close>

theorem editor_roundtrip:
  assumes "combo_doc W" "ascii_doc L" "secret_flags_doc E" "ui_rows W ui" "plain_setting s" "nft_path E \<noteq> None"
    and "nma_initial_flags E (Some s) KEY_API_KEY \<in> {SECRET_FLAG_NONE, SECRET_FLAG_AGENT_OWNED}"
  shows "\<exists>s'. update_connection W E (init_widgets W L E (Some s) ui) conn =
      (conn\<lparr>ec_vpn := Some (NM_DBUS_SERVICE_AIRVPN, s')\<rparr>, None) \<and> same_meaning C s s'"
proof -
  let ?w = "init_widgets W L E (Some s) ui"
  let ?s = "written_setting W E ?w"
  note o = opened_widgets [OF assms(1,2,4,5,6) refl]
  note i = in_table [THEN written_items [OF assms(3)], of W ?w] and g = widget_item [of W ?w, unfolded o]
  have v: "valid_connection s" using assms(5) validate_eq_valid by (simp add: plain_setting_def)
  then have np: "get_data_item s KEY_PROTOCOL \<noteq> Some []" and nq: "get_data_item s KEY_PORT \<noteq> Some []"
    by (auto simp: valid_connection_def dest: in_range_nonempty)
  obtain sv where sv: "get_data_item s KEY_SERVER = Some sv" "sv \<noteq> []"
    using assms(5) by (auto simp: plain_setting_def)
  have ne: "or_default x d \<noteq> []" if "d \<noteq> []" for x d using that by (simp add: or_default_def split: option.split)
  have dd: "or_default (Some (or_default x d)) d = or_default x d" for x d by (simp add: or_default_def split: option.split)
  have server: "get_data_item ?s KEY_SERVER = get_data_item s KEY_SERVER" using sv by (simp add: i g)
  have device: "or_empty (get_data_item ?s KEY_DEVICE) = or_empty (get_data_item s KEY_DEVICE)" by (simp add: i g)
  have protocol: "get_data_item ?s KEY_PROTOCOL = Some (or_default (get_data_item s KEY_PROTOCOL) ''udp'')"
    using ne by (simp add: i g)
  have port: "get_data_item ?s KEY_PORT = Some (or_default (get_data_item s KEY_PORT) ''443'')"
    using ne by (simp add: i g)
  have directives: "or_empty (get_data_item ?s KEY_CUSTOM_DIRECTIVES) = or_empty (get_data_item s KEY_CUSTOM_DIRECTIVES)"
    by (simp add: i g)
  have "build_generator_url (get_generator_params ?s) C = build_generator_url (get_generator_params s) C"
    by (rule generator_url_cong)
      (simp_all add: get_generator_params_def server device protocol port directives dd PROTOCOL_UDP_def DEFAULT_PORT_def)
  moreover have "keepalive_args (Some ?s) = keepalive_args (Some s)"
    by (rule keepalive_args_cong)
      (use np ne in \<open>simp_all add: directives protocol dd i(6-8) g(6-8) split: if_splits\<close>)
  moreover have "or_empty (get_secret ?s KEY_API_KEY) = or_empty (get_secret s KEY_API_KEY)"
  proof -
    have k: "w_api_key ?w = or_empty (get_secret s KEY_API_KEY)"
        "w_api_key_flags ?w = nma_initial_flags E (Some s) KEY_API_KEY"
      by (simp_all add: init_widgets_def)
    have "vpn_secrets (nm_set_secret_flags E k f t) = vpn_secrets t" for k f t
      using assms(3) by (simp add: secret_flags_doc_def)
    then have "get_secret (nm_set_secret_flags E k f t) = get_secret t" for k f t
      by (intro ext) (simp add: get_secret_def)
    then show ?thesis
      using assms(7) by (simp add: written_setting_def k) (simp add: get_secret_def)
  qed
  ultimately have "same_meaning C s ?s"
    unfolding same_meaning_def by (simp add: i(9,10) g(9,10))
  moreover have "update_connection W E ?w conn = (conn\<lparr>ec_vpn := Some (NM_DBUS_SERVICE_AIRVPN, ?s)\<rparr>, None)"
    by (simp add: update_connection_eq written_valid [OF assms(3) o(11)])
  ultimately show ?thesis by blast
qed

definition demo_setting :: vpn_setting where
  "demo_setting = \<lparr>vpn_data = [(KEY_SERVER, ''ch''), (KEY_PORT, ''80''), (KEY_KILL_SWITCH, ''yes''), (KEY_PING_INTERVAL, ''15'')],
     vpn_secrets = [(KEY_API_KEY, ''secret'')], vpn_secret_flags = (\<lambda>_. 0)\<rparr>"

lemma demo_setting_plain: "plain_setting demo_setting"
proof -
  have n: "''80'' = dec_of_nat 80" "''15'' = dec_of_nat 15" by code_simp+
  have r: "in_range 65535 ''80''" "in_range 3600 ''15''"
    unfolding n by (subst in_range_dec_of_nat; simp add: LONG_MAX_def)+
  have g: "get_data_item demo_setting KEY_SERVER = Some ''ch''" "get_data_item demo_setting KEY_PORT = Some ''80''"
      "get_data_item demo_setting KEY_PING_INTERVAL = Some ''15''" "get_data_item demo_setting KEY_PING_RESTART = None"
      "get_data_item demo_setting KEY_PROTOCOL = None" "get_data_item demo_setting KEY_KEEPALIVE = None"
      "get_data_item demo_setting KEY_KILL_SWITCH = Some ''yes''" "get_data_item demo_setting KEY_ALLOW_LAN = None"
    by (simp_all add: get_data_item_def demo_setting_def key_defs)
  have "keys_ok valid_properties (vpn_data demo_setting)"
    by (auto simp: keys_ok_def relevant_keys_def demo_setting_def valid_properties_def key_defs has_suffix_def)
  then have "nm_airvpn_properties_validate demo_setting = None"
    unfolding validate_eq_valid valid_connection_def by (simp add: g r yes_no_def)
  moreover have "map ascii_lower ''ch'' \<noteq> ''earth''" by (simp add: ascii_lower_def)
  ultimately show ?thesis
    unfolding plain_setting_def using n by (auto simp: g)
qed

theorem editor_roundtrip_witness:
  "\<exists>s'. update_connection ref_combo ref_editor_env (init_widgets ref_combo ref_lib ref_editor_env (Some demo_setting) ref_ui)
      demo_editor_connection = (demo_editor_connection\<lparr>ec_vpn := Some (NM_DBUS_SERVICE_AIRVPN, s')\<rparr>, None)
    \<and> same_meaning ref_curl demo_setting s'"
proof (rule editor_roundtrip [OF ref_combo_doc ref_ascii_doc _ _ demo_setting_plain])
  show "secret_flags_doc ref_editor_env"
    by (simp add: secret_flags_doc_def ref_editor_env_def get_data_item_def update_conv')
  show "ui_rows ref_combo ref_ui" by (simp add: ui_rows_def ref_ui_def ref_combo_def)
qed (simp_all add: ref_editor_env_def demo_setting_def SECRET_FLAG_NONE_def)

section \<open>Devices\<close>

lemma device_listed_any:
  "device_listed J L devices d is \<longleftrightarrow> (\<exists>i \<in> set is. \<exists>n.
     (if js_has_member J (js_array_object J devices i) ''name''
      then js_string_member J (js_array_object J devices i) ''name'' else None) = Some n \<and> g_strcaseeq L n d)"
  by (induction "is") (auto simp: Let_def split: option.splits)

text \<open>
  A device that the editor offers is one the daemon accepts: when both get the same answer from
  AirVPN, with no error in it, every name of the editor's list passes the daemon's check.
\<close>

theorem listed_device_accepted:
  assumes "ascii_doc L" "nm_airvpn_device_list_fetch J C (Some key) = Inr names" "d \<in> set names"
    and "gp_device params = Some d"
    and "list_http_get C LIST_DEVICES_URL (Some key) = Inr json"
    and "http_get 0 C AIRVPN_DEVICES_URL key = (Some json, None)" "\<not> contains json ''\"error\"''" "c_str json = json"
  shows "validate_device (jsonlib.truncate J) L C params key = (True, None)"
proof -
  let ?arr = "\<lambda>p. case js_root_object J p of None \<Rightarrow> None | Some root \<Rightarrow>
    if js_has_member J root ''devices'' then js_array_member J root ''devices'' else None"
  from assms(2,5,7) obtain p devices where p: "js_load_from_data J json = Inr p" "?arr p = Some devices"
      "names = concat (map (device_name J devices) [0..<js_array_length J devices])"
    by (auto simp: nm_airvpn_device_list_fetch_def split: sum.splits option.splits)
  from assms(3) obtain i where i: "i \<in> set [0..<js_array_length J devices]" "d \<in> set (device_name J devices i)"
    unfolding p(3) by auto
  then have name: "(if js_has_member J (js_array_object J devices i) ''name''
      then js_string_member J (js_array_object J devices i) ''name'' else None) = Some d" "d \<noteq> []"
    by (auto simp: device_name_def Let_def nonempty_str_def split: if_splits option.splits)
  have "device_listed (jsonlib.truncate J) L devices d [0..<js_array_length J devices]"
    unfolding device_listed_any using i(1) name(1) assms(1)
    by (intro bexI [of _ i] exI [of _ d]) (simp_all add: ascii_doc_def jsonlib.truncate_def split: if_splits)
  moreover from p(2) obtain root where "js_root_object J p = Some root" "js_has_member J root ''devices''"
      "js_array_member J root ''devices'' = Some devices"
    by (auto split: option.splits if_splits)
  ultimately show ?thesis
    using assms(4,6-8) name(2) p(1)
    by (simp add: validate_device_def check_json_error_def jsonlib.truncate_def)
qed

theorem listed_device_accepted_witness:
  "validate_device (jsonlib.truncate ref_nodes) ref_lib ref_curl (ref_params\<lparr>gp_device := Some ''Laptop''\<rparr>) ''k'' = (True, None)"
proof -
  have l: "list_http_get ref_curl LIST_DEVICES_URL (Some ''k'') = Inr ''{}''"
    by (simp add: list_http_get_def list_request_def ref_curl_def AIRVPN_DEVICES_URL_def LIST_DEVICES_URL_def
        list_write_cb_def limited_write_def LIST_MAX_RESPONSE_SIZE_def g_string_append_len_def c_str_def Let_def)
  have c: "\<not> contains ''{}'' ''\"error\"''" by code_simp
  have "nm_airvpn_device_list_fetch ref_nodes ref_curl (Some ''k'') = Inr [''Laptop'']"
    by (simp add: nm_airvpn_device_list_fetch_def l c ref_nodes_def device_name_def)
  from listed_device_accepted [OF ref_ascii_doc this _ _ l _ c] show ?thesis
    by (simp add: ref_http_get c_str_def)
qed

end
