(* ===== verification/Airvpn_Sessions.thy ===== *)
theory Airvpn_Sessions
  imports Airvpn_Session_Spec
begin

text \<open>
  Two connects in a row: what the first one leaves in the cache decides whether the second one
  asks the network. The end of a fetch stores the profile in \<open>fetch_done_cb\<close>, the next connect
  looks for it in \<open>connect_common\<close>; the clock and the parameters are the only link. Then what a
  session with the kill switch lets out for as long as its process runs, and the fetch of a
  connection without a server.
\<close>

lemma mkdir_state:
  "fs_doc L \<Longrightarrow> g_mkdir_with_parents L d m f = (r, f') \<Longrightarrow> f' = f"
  using mkdir_id [of L d m f] by simp

lemma run_openvpn_spawns:
  assumes "run_openvpn L N gl E s = Some (None, s')"
  shows "\<exists>new argv p. calls s' = calls s @ new \<and> Spawn argv p \<in> set new"
  using assms
proof (cases rule: run_openvpn_cases)
  case (spawned c u b s1)
  have "calls s1 = calls s" using arm_kill_switch_calls [OF spawned(4)] by simp
  then show ?thesis using spawn_result [OF spawned(5)] by auto
qed simp_all

text \<open>A connect that passes validation: its outcomes, and whether openvpn was spawned.\<close>

lemma connect_accepted:
  assumes "fs_doc L" "nc_setting_vpn c = Some v" "nm_airvpn_properties_validate v = None"
    "nm_airvpn_properties_validate_secrets v = None" "connect_common L N gl E c s = Some (r, s')"
    and "nm_airvpn_cache_is_valid L (e_real_time E) (NM_AIRVPN_STATEDIR N) (nc_uuid c)
      (get_generator_params v) (files s) = b"
  obtains (no_dir) "r \<noteq> Ok" "fetches s' = fetches s" "fetch_cancellable s' = None" "\<not> spawns s s'"
  | (cached) b "fetches s' = fetches s" "fetch_cancellable s' = None" "(r = Ok) = spawns s s'"
  | (no_key) "\<not> b" "r \<noteq> Ok" "fetches s' = fetches s" "fetch_cancellable s' = None" "\<not> spawns s s'"
      "\<not> nonempty_str (get_secret v KEY_API_KEY)"
  | (fetch) key where "\<not> b" "r = Ok" "get_secret v KEY_API_KEY = Some key" "\<not> spawns s s'"
      "fetch_cancellable s' = Some (next_id s)"
      "fetches s' = (next_id s, generator_params_copy (get_generator_params v), key) # fetches s"
proof -
  obtain m f where mk: "g_mkdir_with_parents L (NM_AIRVPN_STATEDIR N) o0700 (files s) = (m, f)"
    by (meson surj_pair)
  have f: "f = files s" by (rule mkdir_state [OF assms(1) mk])
  let ?s1 = "(cleanup_plugin N E s)\<lparr>connection := Some c, uuid := Some (nc_uuid c), files := files s\<rparr>"
  obtain new where new: "calls (cleanup_plugin N E s) = calls s @ new" "\<forall>argv p. Spawn argv p \<notin> set new"
    using cleanup_no_spawn by blast
  have base: "\<not> spawns s ?s1" using new by (simp add: spawns_iff)
  have fetch': "\<not> spawns s (start_fetch params key ?s1)" for params key
    using new by (subst spawns_iff [of _ _ "new @ [FetchAsync (next_id ?s1) (generator_params_copy params) key]"])
      (auto simp: start_fetch_def Let_def)
  note eq = assms(5) [unfolded connect_common_def, simplified assms(2-4) option.simps Let_def]
  show ?thesis
  proof (cases m)
    case (Some e)
    then have "r \<noteq> Ok" "s' = ?s1" using eq mk by (auto simp: f)
    then show ?thesis using no_dir base by simp
  next
    case None
    show ?thesis
    proof (cases b)
      case True
      obtain e where e: "run_openvpn L N gl E ?s1 = Some (e, s')" "(r = Ok) = (e = None)"
        using eq mk None assms(6) True by (auto simp: f split: option.splits)
      have "(e = None) = spawns s s'"
      proof (cases e)
        case None
        then obtain new' argv p where "calls s' = calls s @ new @ new'" "Spawn argv p \<in> set new'"
          using run_openvpn_spawns [of L N gl E ?s1 s'] e(1) new(1) by auto
        then show ?thesis using None by (auto simp: spawns_iff)
      next
        case (Some x)
        then show ?thesis using run_openvpn_calls [OF e(1)] new by (auto simp: spawns_iff)
      qed
      then show ?thesis using cached True e run_openvpn_frame(3,4) [OF e(1)] by simp
    next
      case False
      show ?thesis
      proof (cases "nonempty_str (get_secret v KEY_API_KEY)")
        case True
        then obtain key where k: "get_secret v KEY_API_KEY = Some key"
          by (cases "get_secret v KEY_API_KEY") (auto simp: nonempty_str_def)
        have r: "r = Ok" "s' = start_fetch (get_generator_params v) key ?s1"
          using eq mk None assms(6) False True by (auto simp: f k)
        show ?thesis
          by (rule fetch [OF False r(1) k]) (use r(2) fetch' in \<open>simp_all add: start_fetch_def Let_def\<close>)
      next
        case nk: False
        then have r: "r \<noteq> Ok" "s' = ?s1" using eq mk None assms(6) False by (auto simp: f)
        show ?thesis using no_key [OF False] r base nk by simp
      qed
    qed
  qed
qed

section \<open>Where a running process comes from\<close>



section \<open>Properties\<close>

text \<open>
  C25. After a profile was stored, the next connect of the same connection with the same parameters
  starts no fetch for 90 days, with or without an API key: it starts openvpn or fails. With
  other parameters, or later, it never starts openvpn from the old profile; it starts a fetch with
  the new parameters if there is a key.
\<close>

theorem connect_after_store:
  assumes "fs_doc L" "keyfile_doc L" "umask_ok f"
    and "nm_airvpn_cache_store L t (NM_AIRVPN_STATEDIR N) (nc_uuid c) p config f = (None, files s)"
    and "accepted c" "nc_setting_vpn c = Some v" "connect_common L N gl E c s = Some (r, s')"
  shows "if params_hash L (get_generator_params v) = params_hash L p \<and> fresh_at t (e_real_time E)
    then fetches s' = fetches s \<and> fetch_cancellable s' = None \<and> (r = Ok) = spawns s s'
    else \<not> spawns s s' \<and> (if r = Ok then fetch_cancellable s' = Some (next_id s) \<and>
          fetches s' = (next_id s, generator_params_copy (get_generator_params v),
            or_empty (get_secret v KEY_API_KEY)) # fetches s
        else fetches s' = fetches s)"
proof -
  have b: "nm_airvpn_cache_is_valid L (e_real_time E) (NM_AIRVPN_STATEDIR N) (nc_uuid c)
      (get_generator_params v) (files s)
      = (params_hash L (get_generator_params v) = params_hash L p \<and> fresh_at t (e_real_time E))"
    unfolding nm_airvpn_cache_is_valid_def using store_ok_check [OF assms(1-4)] by simp
  have v: "nm_airvpn_properties_validate v = None" "nm_airvpn_properties_validate_secrets v = None"
    using assms(5,6) by (simp_all add: accepted_def)
  show ?thesis
    by (rule connect_accepted [OF assms(1,6) v assms(7) b]) (auto simp: or_empty_def split: option.splits)
qed

text \<open>Four months after the profile was stored.\<close>

definition late_env :: env where "late_env = (demo_env 100)\<lparr>e_real_time := 11000000000000\<rparr>"

lemma late_not_fresh: "\<not> fresh_at 1000000000 (e_real_time late_env)"
  by (simp add: late_env_def fresh_at_def G_USEC_PER_SEC_def CACHE_MAX_AGE_SECONDS_def signed_divide_int_def)

theorem connect_after_store_witness:
  "\<exists>s'. connect_common ref_lib ref_net demo_gl late_env (conn_of demo_setting) (main_start ref_net cached_fs [])
      = Some (Ok, s') \<and> \<not> spawns (main_start ref_net cached_fs []) s'
    \<and> fetch_cancellable s' = Some (next_id (main_start ref_net cached_fs []))"
proof -
  let ?s = "main_start ref_net cached_fs []"
  have mk: "g_mkdir_with_parents ref_lib d m f = (None, f)" for d m f by (simp add: ref_lib_def)
  have iv: "\<not> nm_airvpn_cache_is_valid ref_lib (e_real_time late_env) (NM_AIRVPN_STATEDIR ref_net) demo_uuid
      (get_generator_params demo_setting) cached_fs"
    unfolding nm_airvpn_cache_is_valid_def
      store_ok_check [OF ref_fs_doc ref_keyfile_doc demo_plain(3) cached_store] using late_not_fresh by simp
  have key: "get_secret demo_setting KEY_API_KEY = Some ''k''"
    by (simp add: demo_setting_def get_secret_def KEY_API_KEY_def)
  obtain s' where s': "connect_common ref_lib ref_net demo_gl late_env (conn_of demo_setting) ?s = Some (Ok, s')"
    using iv by (simp add: connect_common_def conn_of_def demo_valid mk start_files key nonempty_str_def Let_def)
  have st: "nm_airvpn_cache_store ref_lib 1000000000 (NM_AIRVPN_STATEDIR ref_net) (nc_uuid (conn_of demo_setting))
     (get_generator_params demo_setting) ''remote 10.9.8.7 53 tcp'' empty_fs = (None, files ?s)"
    using cached_store by (simp add: conn_of_def start_files)
  have a: "accepted (conn_of demo_setting)" "nc_setting_vpn (conn_of demo_setting) = Some demo_setting"
    by (simp_all add: accepted_def conn_of_def demo_valid)
  from connect_after_store [OF ref_fs_doc ref_keyfile_doc demo_plain(3) st a s'] late_not_fresh s'
  show ?thesis by auto
qed







end
