(* ===== verification/Airvpn_Main.thy ===== *)
theory Airvpn_Main
  imports Airvpn_Runs
begin

text \<open>
  The life of the service process, \<open>main\<close> of \<open>src/nm-airvpn-service.c\<close>: the options, the log
  level, the environment, the removal of a stale kill switch, the plugin on the bus, the main
  loop and its end.
\<close>

section \<open>The start\<close>

datatype exit_status = EXIT_SUCCESS | EXIT_FAILURE

record service_options =
  so_persist :: bool
  so_debug :: bool
  so_bus_name :: cstr

text \<open>
  The bus: whether the parent's initialisation succeeds for a bus name and the property that makes it
  watch its peer.
\<close>

type_synonym bus = "string \<Rightarrow> bool \<Rightarrow> bool"

text \<open>The result and whether \<open>state_changed_cb\<close> is connected to the signal.\<close>

definition init_sync :: "bool \<Rightarrow> bool \<times> bool" where
  "init_sync parent_init = (if \<not> parent_init then (False, False) else (True, True))"

definition nm_airvpn_plugin_new :: "bus \<Rightarrow> globals \<Rightarrow> fsys \<Rightarrow> nft_table \<Rightarrow> process option" where
  "nm_airvpn_plugin_new B gl f t =
     (if fst (init_sync (B (gl_bus_name gl) (\<not> gl_debug gl))) then Some (nm_airvpn_plugin_init f t) else None)"

text \<open>
  \<open>main\<close> up to its main loop: it fails with the table as it is then, or waits in the loop with the
  environment it has set and the handler of the signal \<open>quit\<close>, unless it is to persist.
\<close>

datatype service_start =
  Exit nft_table
| Loop globals "(string \<times> string) list" process bool

definition service_start ::
  "'g glib_scheme \<Rightarrow> 'n netlib_scheme \<Rightarrow> bus \<Rightarrow> (string list \<Rightarrow> string + service_options) \<Rightarrow> string list
   \<Rightarrow> cstr \<Rightarrow> int \<Rightarrow> fsys \<Rightarrow> nft_table \<Rightarrow> service_start" where
  "service_start L N B parse argv env_level mypid f t =
     (case parse argv of
        Inl msg \<Rightarrow> Exit t
      | Inr opts \<Rightarrow>
          (let gl = main_globals L (so_debug opts) (so_bus_name opts) env_level mypid;
               t = nm_airvpn_firewall_disarm N f t
           in case nm_airvpn_plugin_new B gl f t of
                None \<Rightarrow> Exit t
              | Some plugin \<Rightarrow> Loop gl (main_environment gl) plugin (\<not> so_persist opts)))"

section \<open>The end\<close>

text \<open>
  The main loop runs handlers until the handler of \<open>quit\<close> ends it; then the last reference to the
  plugin is dropped, which disposes of it. The result is the exit status, the table that is
  left and the state after the disposal.
\<close>

inductive service_ends ::
  "('k, 'g) kflib_scheme \<Rightarrow> 'n netlib_scheme \<Rightarrow> service_start \<Rightarrow> exit_status \<Rightarrow> nft_table
   \<Rightarrow> process option \<Rightarrow> bool"
  for L :: "('k, 'g) kflib_scheme" and N :: "'n netlib_scheme" where
  failed: "service_ends L N (Exit t) EXIT_FAILURE t None"
| quit_signal: "run_of (svc_step L N gl) plugin es s \<Longrightarrow>
     service_ends L N (Loop gl en plugin True) EXIT_SUCCESS (table (dispose N E s)) (Some (dispose N E s))"

inductive_cases ends_ExitE: "service_ends L N (Exit t) x t' p"
inductive_cases ends_LoopE: "service_ends L N (Loop gl en plugin q) x t' p"

lemma plugin_new_start:
  "nm_airvpn_plugin_new B gl f (nm_airvpn_firewall_disarm N f t) = Some p \<Longrightarrow> p = main_start N f t"
  by (auto simp: nm_airvpn_plugin_new_def main_start_def split: if_splits)

lemma service_start_loop:
  assumes "service_start L N B parse argv lvl mypid f t = Loop gl en plugin q"
  obtains opts where "parse argv = Inr opts" "gl = main_globals L (so_debug opts) (so_bus_name opts) lvl mypid"
    "en = main_environment gl" "plugin = main_start N f t" "q = (\<not> so_persist opts)"
    "B (gl_bus_name gl) (\<not> gl_debug gl)"
  using assms plugin_new_start [of B _ f N t]
  by (auto simp: service_start_def Let_def init_sync_def nm_airvpn_plugin_new_def main_start_def
      split: sum.splits option.splits if_splits)

text \<open>The invariant of the daemon holds in the main loop and after the disposal.\<close>

lemma loop_inv:
  assumes "svc_doc L N" "umask_ok f" "service_start L N B parse argv lvl mypid f t = Loop gl en plugin q"
    and "run_of (svc_step L N gl) plugin es s"
  shows "ks_inv L N s"
proof -
  have "plugin = main_start N f t" using assms(3) by (rule service_start_loop)
  then have "reaches L N gl f t es s" using assms(4) by (simp add: reaches_def)
  from reaches_ks [OF this assms(2,1)] show ?thesis .
qed

lemma cleanup_terminates:
  "\<exists>new. calls (cleanup_plugin N E s) = calls s @ new \<and> (pid s \<noteq> 0 \<longrightarrow> Kill (pid s) SIGTERM \<in> set new)"
  using cleanup_no_spawn [of N E s] cleanup_calls [of s N E] by (cases "pid s = 0") auto

section \<open>Properties\<close>

text \<open>
  C11. The service ends in one of two ways. It ends with a failure before its main loop, without having
  created a plugin, with the table it found or none; or, if it was not told to persist, with
  success on the signal \<open>quit\<close> in some state \<open>s\<^sub>0\<close> its handlers have led to: the end then sends
  \<open>SIGTERM\<close> to the openvpn that runs in \<open>s\<^sub>0\<close>, cancels the fetch under way in \<open>s\<^sub>0\<close>, and removes the
  table unless an unexpected drop of the connection keeps it.
\<close>

theorem service_end_contract:
  assumes "svc_doc L N" "umask_ok f"
    and "service_ends L N (service_start L N B parse argv lvl mypid f t) x t' p"
  shows "case p of
      None \<Rightarrow> x = EXIT_FAILURE \<and> (t' = [] \<or> t' = t \<and> (\<exists>msg. parse argv = Inl msg))
    | Some s \<Rightarrow> x = EXIT_SUCCESS \<and> (\<exists>opts. parse argv = Inr opts \<and> \<not> so_persist opts)
        \<and> (\<exists>gl es s0 new. reaches L N gl f t es s0 \<and> calls s = calls s0 @ new
             \<and> (pid s0 \<noteq> 0 \<longrightarrow> Kill (pid s0) SIGTERM \<in> set new)
             \<and> (\<forall>i. fetch_cancellable s0 = Some i \<longrightarrow> i \<in> set (cancelled s)))
        \<and> pid s = 0 \<and> fetch_cancellable s = None \<and> connection s = None
        \<and> (t' \<noteq> [] \<longrightarrow> unexpected_drop s \<and> kill_switch_active s)"
proof (cases "service_start L N B parse argv lvl mypid f t")
  case (Exit t0)
  from assms(3) have "x = EXIT_FAILURE" "p = None" "t' = t0" unfolding Exit by (auto elim: ends_ExitE)
  moreover have "t0 = [] \<or> t0 = t \<and> (\<exists>msg. parse argv = Inl msg)"
    using Exit svc_disarm [OF assms(1), of f t]
    by (auto simp: service_start_def Let_def split: sum.splits option.splits)
  ultimately show ?thesis by simp
next
  case (Loop gl en plugin q)
  from assms(3) obtain es s E where e: "q" "run_of (svc_step L N gl) plugin es s" "x = EXIT_SUCCESS"
    "t' = table (dispose N E s)" "p = Some (dispose N E s)"
    unfolding Loop by (auto elim: ends_LoopE)
  have "ks_inv L N (dispose N E s)"
    using ks_inv_cleanup [OF assms(1) loop_inv [OF assms(1,2) Loop e(2)]] by (simp add: dispose_def)
  then have "table (dispose N E s) \<noteq> [] \<longrightarrow> kill_switch_active (dispose N E s)"
    using assms(1) by (simp add: ks_inv_iff)
  then have tbl: "t' \<noteq> [] \<longrightarrow> unexpected_drop (dispose N E s) \<and> kill_switch_active (dispose N E s)"
    unfolding e(4) by (auto simp: dispose_def svc_disarm [OF assms(1)])
  obtain opts where opts: "parse argv = Inr opts" "q = (\<not> so_persist opts)"
    using Loop by (rule service_start_loop)
  have r: "reaches L N gl f t es s"
    using e(2) Loop by (auto simp: reaches_def elim: service_start_loop)
  obtain new where new: "calls (dispose N E s) = calls s @ new" "pid s \<noteq> 0 \<longrightarrow> Kill (pid s) SIGTERM \<in> set new"
    using cleanup_terminates [of N E s] unfolding dispose_def by blast
  have c: "\<forall>i. fetch_cancellable s = Some i \<longrightarrow> i \<in> set (cancelled (dispose N E s))"
    by (simp add: dispose_def)
  have "pid (dispose N E s) = 0" "fetch_cancellable (dispose N E s) = None" "connection (dispose N E s) = None"
    by (simp_all add: dispose_def)
  with tbl opts e(1,3) r new c show ?thesis unfolding e(5) option.case by blast
qed

text \<open>A run of the demonstration: the options are accepted, the bus has the name, the signal comes at once.\<close>

definition demo_parse :: "string list \<Rightarrow> string + service_options" where
  "demo_parse argv = (if argv = [] then Inl ''no program''
     else Inr \<lparr>so_persist = ''--persist'' \<in> set argv, so_debug = False, so_bus_name = None\<rparr>)"

theorem service_end_contract_witness:
  "\<exists>(t' :: nft_table) s. service_ends ref_lib ref_net
     (service_start ref_lib ref_net (\<lambda>b w. True) demo_parse [''nm-airvpn-service''] None 42 cached_fs [])
     EXIT_SUCCESS t' (Some s) \<and> pid s = 0 \<and> t' = []"
proof -
  let ?st = "service_start ref_lib ref_net (\<lambda>b w. True) demo_parse [''nm-airvpn-service''] None 42 cached_fs []"
  let ?gl = "main_globals ref_lib False None None 42"
  let ?s = "main_start ref_net cached_fs []"
  have st: "?st = Loop ?gl (main_environment ?gl) ?s True"
    by (simp add: service_start_def demo_parse_def nm_airvpn_plugin_new_def init_sync_def main_start_def Let_def)
  have "run_of (svc_step ref_lib ref_net ?gl) ?s [] ?s" by simp
  then have ends: "service_ends ref_lib ref_net ?st EXIT_SUCCESS (table (dispose ref_net (demo_env 1) ?s))
      (Some (dispose ref_net (demo_env 1) ?s))"
    unfolding st by (rule service_ends.quit_signal)
  from service_end_contract [OF demo_svc_doc cached_umask ends]
  have c: "pid (dispose ref_net (demo_env 1) ?s) = 0"
    "table (dispose ref_net (demo_env 1) ?s) \<noteq> [] \<longrightarrow> unexpected_drop (dispose ref_net (demo_env 1) ?s)"
    by simp_all
  have "\<not> unexpected_drop (dispose ref_net (demo_env 1) ?s)"
    by (simp add: dispose_def main_start_def nm_airvpn_plugin_init_def)
  with c ends show ?thesis by blast
qed

text \<open>
  What a crash leaves behind the next start removes: whenever the service is in its main loop, the
  table it has found is gone before its first handler runs, it is on the bus under the name it
  was given, and it watches its peer unless it is debugged.
\<close>

theorem start_removes_stale_table:
  assumes "svc_doc L N" "service_start L N B parse argv lvl mypid f t = Loop gl en plugin q"
  shows "table plugin = [] \<and> pid plugin = 0 \<and> B (gl_bus_name gl) (\<not> gl_debug gl)
    \<and> (\<exists>opts. parse argv = Inr opts \<and> gl_debug gl = so_debug opts
         \<and> gl_bus_name gl = (case so_bus_name opts of Some b \<Rightarrow> b | None \<Rightarrow> NM_DBUS_SERVICE_AIRVPN))"
  using assms(2)
  by (rule service_start_loop)
    (simp add: main_start_def nm_airvpn_plugin_init_def svc_disarm [OF assms(1)] main_globals_def Let_def)

text \<open>A service that is to persist does not end.\<close>

theorem persistent_service_stays:
  assumes "service_start L N B parse argv lvl mypid f t = Loop gl en plugin q" "parse argv = Inr opts" "so_persist opts"
  shows "\<not> service_ends L N (service_start L N B parse argv lvl mypid f t) x t' p"
proof -
  have "\<not> q" using assms by (auto elim!: service_start_loop)
  then show ?thesis unfolding assms(1) by (auto elim: ends_LoopE)
qed

end
