(* ===== verification/Airvpn_Test_Fetch.thy ===== *)
theory Airvpn_Test_Fetch
  imports Airvpn_Cache
begin

text \<open>
  The developer's tool \<open>src/nm-airvpn-test-fetch.c\<close>, which drives the API client and the cache: one
  look into the cache, a fetch, a store, and a report of what the cache says before and after the
  profile is marked stale. \<open>T\<close> is the clock at each of its readings. Reading the message of an
  error that is \<open>NULL\<close> is the value \<open>None\<close>.
\<close>

record tool_result =
  tr_exit :: int
  tr_stdout :: string
  tr_stderr :: string
  tr_files :: fsys

definition tool_line :: "string \<Rightarrow> string" where "tool_line t = t @ [CHR 0x0A]"

definition bool_digit :: "bool \<Rightarrow> string" where "bool_digit b = (if b then ''1'' else ''0'')"

definition tool_failed :: "int \<Rightarrow> string \<Rightarrow> string \<Rightarrow> fsys \<Rightarrow> tool_result" where
  "tool_failed code out msg s = \<lparr>tr_exit = code, tr_stdout = out, tr_stderr = tool_line msg, tr_files = s\<rparr>"

definition tool_params :: "string list \<Rightarrow> gen_params" where
  "tool_params argv =
     \<lparr>gp_server = Some (argv ! 3), gp_device = (if length argv > 6 then Some (argv ! 6) else None),
      gp_protocol = Some (argv ! 4), gp_port = Some (argv ! 5), gp_custom_directives = None\<rparr>"

text \<open>From the successful fetch on.\<close>

definition tool_store ::
  "('k, 'g) kflib_scheme \<Rightarrow> (nat \<Rightarrow> int) \<Rightarrow> string \<Rightarrow> string \<Rightarrow> gen_params \<Rightarrow> string \<Rightarrow> string \<Rightarrow> fsys
     \<Rightarrow> tool_result" where
  "tool_store L T statedir uuid params config out s =
     (let out = out @ tool_line (''fetched '' @ dec_of_nat (length config) @ '' bytes'')
      in case nm_airvpn_cache_store L (T 1) statedir uuid params config s of
           (Some e, s) \<Rightarrow> tool_failed 1 out (''cache store failed: '' @ err_message e) s
         | (None, s) \<Rightarrow>
             (let out = out @ tool_line (''cache: stored at '' @ nm_airvpn_cache_get_config_path L statedir uuid)
                    @ tool_line (''cache valid now: '' @ bool_digit (nm_airvpn_cache_is_valid L (T 2) statedir uuid params s));
                  s = snd (nm_airvpn_cache_mark_stale L statedir uuid s)
              in \<lparr>tr_exit = 0,
                  tr_stdout = out @ tool_line (''after mark_stale: valid=''
                     @ bool_digit (nm_airvpn_cache_is_valid L (T 3) statedir uuid params s) @ '' exists=''
                     @ bool_digit (nm_airvpn_cache_exists L (T 4) statedir uuid params s)),
                  tr_stderr = [], tr_files = s\<rparr>))"

definition test_fetch_main ::
  "('n, 'o, 'a) jsonlib \<Rightarrow> ('k, 'g) kflib_scheme \<Rightarrow> curllib \<Rightarrow> (nat \<Rightarrow> int) \<Rightarrow> string list \<Rightarrow> cstr \<Rightarrow> fsys
     \<Rightarrow> tool_result option" where
  "test_fetch_main J L C T argv api_key s =
     (if length argv < 6
      then Some (tool_failed 2 [] (''usage: '' @ (case argv of [] \<Rightarrow> ''(null)'' | program # _ \<Rightarrow> program)
             @ '' <statedir> <uuid> <server> <protocol> <port> [device]'') s)
      else if api_key = None then Some (tool_failed 2 [] ''AIRVPN_API_KEY is not set'' s)
      else
        (let statedir = argv ! 1; uuid = argv ! 2; params = tool_params argv
         in if nm_airvpn_cache_is_valid L (T 0) statedir uuid params s
            then Some \<lparr>tr_exit = 0,
                   tr_stdout = tool_line (''cache: valid ('' @ nm_airvpn_cache_get_config_path L statedir uuid @ '')''),
                   tr_stderr = [], tr_files = s\<rparr>
            else
              (let out = tool_line ''cache: miss/stale, fetching from generator...''
               in case nm_airvpn_generator_fetch_sync J L C (\<lambda>_. False) params api_key of
                    (None, None) \<Rightarrow> None
                  | (None, Some e) \<Rightarrow> Some (tool_failed 1 out (''fetch failed: '' @ err_message e) s)
                  | (Some config, _) \<Rightarrow> Some (tool_store L T statedir uuid params config out s))))"

section \<open>Properties\<close>

lemma fetch_neither:
  assumes "nm_airvpn_generator_fetch_sync J L C cancelled params key = (None, None)"
  shows "\<not> nonempty_str (gp_server params) \<or> \<not> nonempty_str key"
proof (rule ccontr)
  assume n: "\<not> ?thesis"
  then have s: "nonempty_str (gp_server params)" by simp
  from n obtain k where k: "key = Some k" "k \<noteq> []" by (auto elim: nonempty_strE)
  from assms s k show False by (cases rule: fetch_cases) simp_all
qed

lemma tool_store_exists:
  assumes "cache_doc L" "umask_ok s" "plain_dir d" "plain_name u" "tr_exit (tool_store L T d u p c out s) = 0"
  shows "nm_airvpn_cache_exists L t d u p (tr_files (tool_store L T d u p c out s))"
proof -
  obtain r s1 where st: "nm_airvpn_cache_store L (T 1) d u p c s = (r, s1)" by fastforce
  with assms(5) have r: "r = None"
    by (cases r) (simp_all add: tool_store_def tool_failed_def Let_def del: One_nat_def)
  obtain r' s2 where m: "nm_airvpn_cache_mark_stale L d u s1 = (r', s2)" by fastforce
  have f: "tr_files (tool_store L T d u p c out s) = s2"
    by (simp add: tool_store_def st r m Let_def del: One_nat_def)
  have "umask_ok s1"
    using store_umask_ok [OF cache_docD(1) [OF assms(1)] assms(2), of "T 1" d u p c] st by simp
  then have "nm_airvpn_cache_exists L t d u p s2 = nm_airvpn_cache_exists L t d u p s1"
    using mark_check(2) [OF assms(1) _ assms(3,4) m] by (simp add: nm_airvpn_cache_exists_def)
  moreover have "nm_airvpn_cache_exists L t d u p s1"
    using store_ok_check [OF cache_docD(1,2) [OF assms(1)] assms(2) st [unfolded r]]
    by (simp add: nm_airvpn_cache_exists_def)
  ultimately show ?thesis by (simp add: f)
qed

text \<open>
  The tool crashes exactly when nothing is cached and the server or the key is the empty text, for
  which the fetch reports no error; when it succeeds, a profile for the given parameters is in the
  cache at any later time.
\<close>

theorem test_fetch_contract:
  assumes "cache_doc L" "umask_ok s" "plain_dir d" "plain_name u"
  shows "case test_fetch_main J L C T (prog # d # u # server # proto # port # device) (Some key) s of
      None \<Rightarrow> \<not> nm_airvpn_cache_is_valid L (T 0) d u (tool_params (prog # d # u # server # proto # port # device)) s
        \<and> (server = [] \<or> key = [])
    | Some r \<Rightarrow> tr_exit r \<noteq> 0 \<or> nm_airvpn_cache_exists L t d u
        (tool_params (prog # d # u # server # proto # port # device)) (tr_files r)"
proof -
  let ?argv = "prog # d # u # server # proto # port # device"
  let ?p = "tool_params ?argv"
  obtain config err where f: "nm_airvpn_generator_fetch_sync J L C (\<lambda>_. False) ?p (Some key) = (config, err)"
    by fastforce
  have c: "config = None \<Longrightarrow> err = None \<Longrightarrow> server = [] \<or> key = []"
    using fetch_neither [of J L C "\<lambda>_. False" ?p "Some key"] f by (simp add: tool_params_def nonempty_str_def)
  consider "nm_airvpn_cache_is_valid L (T 0) d u ?p s"
    | "\<not> nm_airvpn_cache_is_valid L (T 0) d u ?p s" "config = None"
    | x where "\<not> nm_airvpn_cache_is_valid L (T 0) d u ?p s" "config = Some x" by auto
  then show ?thesis
  proof cases
    case 1
    then have "nm_airvpn_cache_exists L t d u ?p s"
      by (simp add: nm_airvpn_cache_is_valid_def nm_airvpn_cache_exists_def check_cache_relax)
    then show ?thesis using 1 by (simp add: test_fetch_main_def)
  next
    case 2
    then show ?thesis using c by (cases err) (simp_all add: test_fetch_main_def f tool_failed_def)
  next
    case 3
    then show ?thesis
      using tool_store_exists [OF assms, of T ?p x "tool_line ''cache: miss/stale, fetching from generator...''" t]
      by (auto simp: test_fetch_main_def f)
  qed
qed

theorem test_fetch_contract_witness:
  "case test_fetch_main ref_json ref_lib ref_curl (\<lambda>_. 0) (''t'' # demo_dir # demo_uuid # [] # ''udp'' # ''443'' # [])
       (Some ''k'') empty_fs of None \<Rightarrow> True | Some r \<Rightarrow> tr_exit r \<noteq> 0
     \<or> nm_airvpn_cache_exists ref_lib 0 demo_dir demo_uuid (tool_params (''t'' # demo_dir # demo_uuid # [] # ''udp'' # ''443'' # []))
         (tr_files r)"
  using test_fetch_contract [OF ref_cache_doc demo_plain(3,1,2), where J = ref_json and C = ref_curl and T = "\<lambda>_. 0"
      and prog = "''t''" and server = "[]" and proto = "''udp''" and port = "''443''" and device = "[]"
      and key = "''k''" and t = 0]
  by (auto split: option.splits)

end
