(* ===== verification/NM_Buffers.thy ===== *)
theory NM_Buffers
  imports NM_Prelude "HOL-Library.Word"
begin

text \<open>
  Text written into a caller's buffer: the \<open>nm_utils_strbuf_append\<close> family, \<open>nm_strquote\<close> and
  \<open>nm_utils_flags2str\<close> of \<open>shared/nm-utils/nm-shared-utils.c\<close>. A buffer is its bytes, of a fixed
  number; the C code's pointer and remaining length are a position and a number. A write
  outside the bytes is \<open>None\<close>. The operations refine appending to a string of unbounded length
  of which the buffer shows what fits.
\<close>

unbundle bit_operations_syntax

definition NUL :: char where "NUL = CHR 0x00"

section \<open>Appending\<close>

record strbuf =
  sb_mem :: string
  sb_pos :: nat
  sb_len :: nat

definition write_at :: "nat \<Rightarrow> string \<Rightarrow> string \<Rightarrow> string option" where
  "write_at i s mem =
     (if i + length s \<le> length mem then Some (take i mem @ s @ drop (i + length s) mem) else None)"

text \<open>Write at the position, then move it by \<open>n\<close>; \<open>l\<close> is the length that remains.\<close>

definition put :: "string \<Rightarrow> nat \<Rightarrow> nat \<Rightarrow> strbuf \<Rightarrow> strbuf option" where
  "put s n l b =
     map_option (\<lambda>m. b\<lparr>sb_mem := m, sb_pos := sb_pos b + n, sb_len := l\<rparr>)
       (write_at (sb_pos b) s (sb_mem b))"

definition nm_utils_strbuf_init :: "string \<Rightarrow> strbuf option" where
  "nm_utils_strbuf_init mem = put [NUL] 0 (length mem) \<lparr>sb_mem = mem, sb_pos = 0, sb_len = length mem\<rparr>"

definition nm_utils_strbuf_append_c :: "char \<Rightarrow> strbuf \<Rightarrow> strbuf option" where
  "nm_utils_strbuf_append_c c b =
     (if sb_len b = 0 then Some b
      else if sb_len b = 1 then put [NUL] 1 0 b
      else put [c, NUL] 1 (sb_len b - 1) b)"

text \<open>What \<open>g_strlcpy\<close> and \<open>g_vsnprintf\<close> write into \<open>n\<close> bytes; they return the length of the text.\<close>

definition clipped :: "string \<Rightarrow> nat \<Rightarrow> string" where
  "clipped s n = take (n - 1) s @ [NUL]"

definition nm_utils_strbuf_append_str :: "cstr \<Rightarrow> strbuf \<Rightarrow> strbuf option" where
  "nm_utils_strbuf_append_str str b =
     (if sb_len b = 0 then Some b
      else if sb_len b = 1
      then (if \<not> nonempty_str str then put [NUL] 0 (sb_len b) b else put [NUL] 1 0 b)
      else if \<not> nonempty_str str then put [NUL] 0 (sb_len b) b
      else
        (let src_len = length (the str)
         in if src_len \<ge> sb_len b then put (clipped (the str) (sb_len b)) (sb_len b) 0 b
            else put (clipped (the str) (sb_len b)) src_len (sb_len b - src_len) b))"

text \<open>The text is what the format and its arguments give.\<close>

definition nm_utils_strbuf_append :: "string \<Rightarrow> strbuf \<Rightarrow> strbuf option" where
  "nm_utils_strbuf_append txt b =
     (if sb_len b = 0 then Some b
      else if length txt \<ge> sb_len b then put (clipped txt (sb_len b)) (sb_len b) 0 b
      else put (clipped txt (sb_len b)) (length txt) (sb_len b - length txt) b)"

section \<open>Quoting\<close>

definition buf_of :: "string \<Rightarrow> strbuf" where
  "buf_of mem = \<lparr>sb_mem = mem, sb_pos = 0, sb_len = length mem\<rparr>"

definition nm_strquote :: "string \<Rightarrow> cstr \<Rightarrow> string option" where
  "nm_strquote mem str =
     (let buf_len = length mem
      in case str of
        None \<Rightarrow> map_option sb_mem (nm_utils_strbuf_append_str (Some ''(null)'') (buf_of mem))
      | Some s \<Rightarrow>
          if buf_len \<le> 2
          then (if buf_len = 2 then write_at 0 [CHR ''^'', NUL] mem
                else if buf_len = 1 then write_at 0 [NUL] mem
                else Some mem)
          else
            Option.bind (put [CHR 0x22] 1 (buf_len - 1) (buf_of mem)) (\<lambda>b.
            Option.bind (nm_utils_strbuf_append_str str b) (\<lambda>b.
              if sb_len b \<le> 1
              then (if sb_len b = 1 then write_at (sb_pos b - 1) [CHR ''^''] (sb_mem b)
                    else write_at (sb_pos b - 2) [CHR ''^''] (sb_mem b))
              else write_at (sb_pos b) [CHR 0x22, NUL] (sb_mem b))))"

section \<open>Flags\<close>

record flag_desc =
  fd_flag :: "32 word"
  fd_name :: string

definition nm_utils_to_string_buffer_init :: "string \<Rightarrow> cstr \<Rightarrow> string" where
  "nm_utils_to_string_buffer_init static buf = (case buf of None \<Rightarrow> static | Some m \<Rightarrow> m)"

text \<open>Whether there is an object, and the buffer; without one the buffer says so.\<close>

definition nm_utils_to_string_buffer_init_null :: "string \<Rightarrow> bool \<Rightarrow> cstr \<Rightarrow> (bool \<times> string) option" where
  "nm_utils_to_string_buffer_init_null static has_obj buf =
     (let mem = nm_utils_to_string_buffer_init static buf
      in if has_obj then Some (True, mem)
         else map_option (Pair False)
                (if length mem = 0 then Some mem
                 else write_at 0 (clipped ''(null)'' (length mem)) mem))"

fun hex_of_nat :: "nat \<Rightarrow> string" where
  "hex_of_nat n =
     (if n < 16 then [if n < 10 then char_of (48 + n) else char_of (87 + n)]
      else hex_of_nat (n div 16) @
        [if n mod 16 < 10 then char_of (48 + n mod 16) else char_of (87 + n mod 16)])"

declare hex_of_nat.simps [simp del]

definition append_sep :: "strbuf \<Rightarrow> strbuf option" where
  "append_sep b = (if sb_mem b ! 0 \<noteq> NUL then nm_utils_strbuf_append_c CHR '','' b else Some b)"

definition NM_FLAGS_ALL :: "32 word \<Rightarrow> 32 word \<Rightarrow> bool" where
  "NM_FLAGS_ALL flags f \<longleftrightarrow> flags AND f = f"

text \<open>The loop over the descriptions; the flags that remain are returned with the buffer.\<close>

fun append_flags :: "flag_desc list \<Rightarrow> 32 word \<Rightarrow> strbuf \<Rightarrow> (32 word \<times> strbuf) option" where
  "append_flags [] flags b = Some (flags, b)"
| "append_flags (d # ds) flags b =
     (if flags = 0 then Some (flags, b)
      else if fd_flag d \<noteq> 0 \<and> NM_FLAGS_ALL flags (fd_flag d)
      then Option.bind (append_sep b) (\<lambda>b.
           Option.bind (nm_utils_strbuf_append_str (Some (fd_name d)) b) (\<lambda>b.
             append_flags ds (flags AND NOT (fd_flag d)) b))
      else append_flags ds flags b)"

fun zero_name :: "flag_desc list \<Rightarrow> cstr" where
  "zero_name [] = None"
| "zero_name (d # ds) = (if fd_flag d = 0 then Some (fd_name d) else zero_name ds)"

definition nm_utils_flags2str :: "flag_desc list \<Rightarrow> 32 word \<Rightarrow> string \<Rightarrow> string option" where
  "nm_utils_flags2str descs flags mem =
     (if length mem = 0 then Some mem
      else Option.bind (put [NUL] 0 (length mem) (buf_of mem)) (\<lambda>b.
        if flags = 0
        then (case zero_name descs of
                None \<Rightarrow> Some (sb_mem b)
              | Some name \<Rightarrow> map_option sb_mem (nm_utils_strbuf_append_str (Some name) b))
        else
          Option.bind (append_flags descs flags b) (\<lambda>(flags, b).
            if flags \<noteq> 0
            then Option.bind (append_sep b) (\<lambda>b.
                 map_option sb_mem (nm_utils_strbuf_append (''0x'' @ hex_of_nat (unat flags)) b))
            else Some (sb_mem b))))"

section \<open>Refinement\<close>

text \<open>\<open>shows cap b w\<close>: the buffer of \<open>cap\<close> bytes shows what fits of the text \<open>w\<close>.\<close>

definition room :: "nat \<Rightarrow> strbuf \<Rightarrow> string \<Rightarrow> bool" where
  "room cap b w \<longleftrightarrow> length (sb_mem b) = cap \<and> length w < cap \<and> take (length w) (sb_mem b) = w
     \<and> sb_pos b = length w \<and> sb_len b = cap - length w"

definition shows_text :: "nat \<Rightarrow> strbuf \<Rightarrow> string \<Rightarrow> bool" where
  "shows_text cap b w \<longleftrightarrow>
     (if length w < cap then room cap b w \<and> sb_mem b ! length w = NUL
      else sb_mem b = take (cap - 1) w @ [NUL] \<and> length (sb_mem b) = cap \<and> sb_pos b = cap \<and> sb_len b = 0)"

definition c_text :: "string \<Rightarrow> string" where
  "c_text mem = takeWhile (\<lambda>c. c \<noteq> NUL) mem"

lemma put_eq:
  assumes "sb_pos b + length s \<le> length (sb_mem b)"
  shows "put s n l b = Some (b\<lparr>sb_mem := take (sb_pos b) (sb_mem b) @ s @ drop (sb_pos b + length s) (sb_mem b),
    sb_pos := sb_pos b + n, sb_len := l\<rparr>)"
  using assms by (simp add: put_def write_at_def)

lemma length_clipped: "0 < n \<Longrightarrow> length s < n \<Longrightarrow> length (clipped s n) = Suc (length s)"
    "0 < n \<Longrightarrow> n \<le> length s \<Longrightarrow> length (clipped s n) = n"
  by (auto simp: clipped_def)

text \<open>The three cases of an append: nothing left, the text fits, it is cut off.\<close>

lemma shows_full:
  assumes "shows_text cap b w" "\<not> length w < cap"
  shows "sb_mem b = take (cap - 1) w @ [NUL]" "length (sb_mem b) = cap" "sb_pos b = cap" "sb_len b = 0"
    "0 < cap"
proof -
  show *: "sb_mem b = take (cap - 1) w @ [NUL]" "length (sb_mem b) = cap" "sb_pos b = cap" "sb_len b = 0"
    using assms unfolding shows_text_def by metis+
  then show "0 < cap" by (metis length_greater_0_conv snoc_eq_iff_butlast)
qed

lemma full_shows:
  assumes "shows_text cap b w" "sb_len b = 0"
  shows "shows_text cap b (w @ s)"
proof -
  have w: "\<not> length w < cap" using assms by (auto simp: shows_text_def room_def)
  then have "take (cap - 1) (w @ s) = take (cap - 1) w" by simp
  with shows_full [OF assms(1) w] w show ?thesis unfolding shows_text_def by simp
qed

lemma shows_room: "shows_text cap b w \<Longrightarrow> sb_len b \<noteq> 0 \<Longrightarrow> room cap b w"
  by (auto simp: shows_text_def split: if_splits)

lemma put_fits:
  assumes "room cap b w" "length s < sb_len b"
  shows "\<exists>b'. put (clipped s (sb_len b)) (length s) (sb_len b - length s) b = Some b' \<and> shows_text cap b' (w @ s)"
proof -
  have c: "clipped s (sb_len b) = s @ [NUL]" using assms(2) by (simp add: clipped_def)
  show ?thesis
    using assms unfolding c
    by (subst put_eq) (auto simp: room_def shows_text_def nth_append)
qed

lemma put_cut:
  assumes "room cap b w" "sb_len b \<le> length s"
  shows "\<exists>b'. put (clipped s (sb_len b)) (sb_len b) 0 b = Some b' \<and> shows_text cap b' (w @ s)"
proof -
  have n: "0 < sb_len b" "sb_len b = cap - length w" "length w < cap" "sb_pos b = length w"
      "take (length w) (sb_mem b) = w" "length (sb_mem b) = cap"
    using assms(1) by (auto simp: room_def)
  have "length (clipped s (sb_len b)) = sb_len b" using n(1) assms(2) by (simp add: length_clipped)
  moreover have "take (cap - 1) (w @ s) = w @ take (sb_len b - 1) s" using n by simp
  ultimately show ?thesis
    using assms(2) n by (subst put_eq) (auto simp: shows_text_def clipped_def)
qed

lemma append_txt_shows:
  assumes "room cap b w"
  shows "\<exists>b'. nm_utils_strbuf_append s b = Some b' \<and> shows_text cap b' (w @ s)"
  using put_fits [OF assms, of s] put_cut [OF assms, of s] assms
  by (cases "length s < sb_len b") (auto simp: nm_utils_strbuf_append_def room_def)

lemma append_str_eq: "nm_utils_strbuf_append_str str b = nm_utils_strbuf_append (or_empty str) b"
proof -
  consider "sb_len b = 0" | "sb_len b = Suc 0" | "Suc 0 < sb_len b" by linarith
  then show ?thesis
  proof cases
    case 2
    then show ?thesis
      by (cases str)
        (auto simp: nm_utils_strbuf_append_str_def nm_utils_strbuf_append_def clipped_def Suc_le_eq)
  next
    case 3
    then show ?thesis
      by (cases str)
        (auto simp: nm_utils_strbuf_append_str_def nm_utils_strbuf_append_def clipped_def Let_def)
  qed (simp add: nm_utils_strbuf_append_str_def nm_utils_strbuf_append_def)
qed

lemma append_c_eq: "nm_utils_strbuf_append_c c b = nm_utils_strbuf_append [c] b"
  by (cases "sb_len b = Suc 0")
    (auto simp: nm_utils_strbuf_append_c_def nm_utils_strbuf_append_def clipped_def Suc_le_eq)

lemmas append_eqs = append_str_eq append_c_eq

lemma append_shows:
  assumes "shows_text cap b w"
  shows "\<exists>b'. nm_utils_strbuf_append s b = Some b' \<and> shows_text cap b' (w @ s)"
proof (cases "sb_len b = 0")
  case True
  then show ?thesis using full_shows [OF assms] by (simp add: nm_utils_strbuf_append_def)
next
  case False
  then show ?thesis using append_txt_shows shows_room [OF assms] by blast
qed

lemma c_text_shown:
  assumes "shows_text cap b w" "NUL \<notin> set w"
  shows "c_text (sb_mem b) = take (cap - 1) w"
proof -
  have *: "c_text (u @ NUL # v) = u" if "NUL \<notin> set u" for u v
    using that by (induction u) (auto simp: c_text_def)
  show ?thesis
  proof (cases "length w < cap")
    case True
    then have "sb_mem b = take (length w) (sb_mem b) @ sb_mem b ! length w # drop (Suc (length w)) (sb_mem b)"
      using assms(1) by (intro id_take_nth_drop) (simp add: shows_text_def room_def)
    then have "sb_mem b = w @ NUL # drop (Suc (length w)) (sb_mem b)"
      using True assms(1) by (simp add: shows_text_def room_def)
    then show ?thesis using * [OF assms(2)] True by simp (metis)
  next
    case False
    then have "sb_mem b = take (cap - 1) w @ NUL # []" using assms(1) by (simp add: shows_text_def)
    then show ?thesis using * [of "take (cap - 1) w" "[]"] assms(2) by (metis in_set_takeD)
  qed
qed

lemma first_byte:
  assumes "shows_text cap b w" "NUL \<notin> set w" "1 < cap"
  shows "sb_mem b ! 0 = NUL \<longleftrightarrow> w = []"
proof (cases "length w < cap")
  case True
  then have "take (length w) (sb_mem b) = w" "sb_mem b ! length w = NUL"
    using assms(1) by (simp_all add: shows_text_def room_def)
  with assms(2) show ?thesis by (cases w) (auto simp: in_set_conv_nth, metis nth_Cons_0 nth_take zero_less_Suc)
next
  case False
  then obtain c u where "w = c # u" using assms(3) by (cases w) auto
  moreover obtain k where "cap - 1 = Suc k" using assms(3) by (cases "cap - 1") auto
  ultimately show ?thesis using shows_full(1) [OF assms(1) False] assms(2) by auto
qed

definition sep :: "string \<Rightarrow> string" where
  "sep w = (if w = [] then [] else w @ '','')"

lemma append_sep_shows:
  assumes "shows_text cap b w" "NUL \<notin> set w"
  shows "\<exists>b'. append_sep b = Some b' \<and> shows_text cap b' (sep w)"
proof (cases "cap \<le> 1 \<and> w \<noteq> []")
  case True
  with shows_full [OF assms(1)] have "sb_mem b ! 0 = NUL" "sb_len b = 0" by (cases w; simp)+
  with full_shows [OF assms(1)] True show ?thesis by (auto simp: append_sep_def sep_def)
next
  case False
  then have "sb_mem b ! 0 = NUL \<longleftrightarrow> w = []"
    using first_byte [OF assms] assms(1)
    by (cases "1 < cap") (auto simp: shows_text_def room_def split: if_splits)
  then show ?thesis
    using append_shows [OF assms(1), of "'','' "] append_shows [OF assms(1), of "'',''"] assms(1)
    by (auto simp: append_sep_def sep_def append_c_eq)
qed

text \<open>The names of the flags found, in order, and the flags that have none.\<close>

fun named_flags :: "flag_desc list \<Rightarrow> 32 word \<Rightarrow> flag_desc list \<times> 32 word" where
  "named_flags [] flags = ([], flags)"
| "named_flags (d # ds) flags =
     (if flags = 0 then ([], flags)
      else if fd_flag d \<noteq> 0 \<and> NM_FLAGS_ALL flags (fd_flag d)
      then (case named_flags ds (flags AND NOT (fd_flag d)) of (named, rest) \<Rightarrow> (d # named, rest))
      else named_flags ds flags)"

fun add_words :: "string \<Rightarrow> string list \<Rightarrow> string" where
  "add_words w [] = w"
| "add_words w (n # ns) = add_words (sep w @ n) ns"

definition flags_text :: "flag_desc list \<Rightarrow> 32 word \<Rightarrow> string" where
  "flags_text descs flags =
     (if flags = 0 then or_empty (zero_name descs)
      else (case named_flags descs flags of (named, rest) \<Rightarrow>
        add_words [] (map fd_name named
          @ (if rest = 0 then [] else [''0x'' @ hex_of_nat (unat rest)]))))"

lemma add_words_append: "add_words w (ns @ ms) = add_words (add_words w ns) ms"
  by (induction ns arbitrary: w) auto

lemma NUL_add_words: "NUL \<notin> set w \<Longrightarrow> \<forall>n \<in> set ns. NUL \<notin> set n \<Longrightarrow> NUL \<notin> set (add_words w ns)"
  by (induction ns arbitrary: w) (auto simp: sep_def NUL_def)

lemma named_flags_names: "set (fst (named_flags ds flags)) \<subseteq> set ds"
  by (induction ds flags rule: named_flags.induct) (auto split: prod.splits)

lemma append_flags_shows:
  assumes "shows_text cap b w" "NUL \<notin> set w" "list_all (\<lambda>d. NUL \<notin> set (fd_name d)) ds"
  shows "\<exists>b'. append_flags ds flags b = Some (snd (named_flags ds flags), b')
    \<and> shows_text cap b' (add_words w (map fd_name (fst (named_flags ds flags))))"
  using assms
proof (induction ds arbitrary: flags b w)
  case (Cons d ds)
  show ?case
  proof (cases "flags \<noteq> 0 \<and> fd_flag d \<noteq> 0 \<and> NM_FLAGS_ALL flags (fd_flag d)")
    case True
    obtain b1 where b1: "append_sep b = Some b1" "shows_text cap b1 (sep w)"
      using append_sep_shows Cons.prems by blast
    obtain b2 where b2: "nm_utils_strbuf_append_str (Some (fd_name d)) b1 = Some b2"
        "shows_text cap b2 (sep w @ fd_name d)"
      using append_shows [OF b1(2), of "fd_name d"] by (auto simp: append_str_eq)
    have "NUL \<notin> set (sep w @ fd_name d)" using Cons.prems by (auto simp: sep_def NUL_def)
    with Cons.IH [OF b2(2) this, of "flags AND NOT (fd_flag d)"] Cons.prems(3) b1 b2 True
    show ?thesis by (auto split: prod.split)
  next
    case False
    with Cons.IH [OF Cons.prems(1,2)] Cons.prems show ?thesis by auto
  qed
qed simp

text \<open>What \<open>nm_strquote\<close> leaves in a buffer of \<open>cap\<close> bytes.\<close>

definition quoted :: "nat \<Rightarrow> cstr \<Rightarrow> string" where
  "quoted cap str =
     (case str of
        None \<Rightarrow> take (cap - 1) ''(null)''
      | Some s \<Rightarrow>
          if cap \<le> 1 then []
          else if cap = 2 then ''^''
          else if length s + 3 \<le> cap then [CHR 0x22] @ s @ [CHR 0x22]
          else [CHR 0x22] @ take (cap - 3) s @ ''^'')"

lemma c_text_at: "NUL \<notin> set u \<Longrightarrow> c_text (u @ NUL # v) = u"
  by (induction u) (auto simp: c_text_def)

lemma buf_of_shows:
  assumes "mem \<noteq> []"
  shows "room (length mem) (buf_of mem) []"
  using assms by (simp add: room_def buf_of_def)

lemma quote_body:
  assumes "shows_text cap b ([CHR 0x22] @ s)" "NUL \<notin> set s" "3 \<le> cap"
  shows "\<exists>m. (if sb_len b \<le> 1
      then (if sb_len b = 1 then write_at (sb_pos b - 1) [CHR ''^''] (sb_mem b)
            else write_at (sb_pos b - 2) [CHR ''^''] (sb_mem b))
      else write_at (sb_pos b) [CHR 0x22, NUL] (sb_mem b)) = Some m
    \<and> length m = cap \<and> c_text m = quoted cap (Some s)"
proof -
  let ?w = "[CHR 0x22] @ s"
  have N: "NUL \<noteq> CHR 0x22" "NUL \<noteq> CHR ''^''" by (simp_all add: NUL_def)
  consider "length ?w + 2 \<le> cap" | "length ?w + 1 = cap" | "cap \<le> length ?w" by linarith
  then show ?thesis
  proof cases
    case 1
    then have r: "room cap b ?w" using assms(1) by (simp add: shows_text_def)
    then have "write_at (sb_pos b) [CHR 0x22, NUL] (sb_mem b)
        = Some ((?w @ [CHR 0x22]) @ NUL # drop (length ?w + 2) (sb_mem b))"
      using 1 by (auto simp: write_at_def room_def)
    moreover have "c_text ((?w @ [CHR 0x22]) @ NUL # drop (length ?w + 2) (sb_mem b)) = ?w @ [CHR 0x22]"
      using assms(2) N by (intro c_text_at) auto
    moreover have "\<not> sb_len b \<le> 1" "length (sb_mem b) = cap" using r 1 by (auto simp: room_def)
    ultimately show ?thesis using 1 by (simp add: quoted_def)
  next
    case 2
    then have r: "room cap b ?w" "sb_mem b ! length ?w = NUL" using assms(1) by (auto simp: shows_text_def)
    then have "sb_mem b = take (length ?w) (sb_mem b) @ sb_mem b ! length ?w # drop (Suc (length ?w)) (sb_mem b)"
      by (intro id_take_nth_drop) (simp add: room_def)
    then have m: "sb_mem b = ?w @ [NUL]" using r 2 by (simp add: room_def)
    have "write_at (sb_pos b - 1) [CHR ''^''] (sb_mem b) = Some (take (length s) ?w @ CHR ''^'' # [NUL])"
      using r 2 assms(3) unfolding m by (simp add: write_at_def room_def take_Cons')
    moreover have "c_text ((take (length s) ?w @ [CHR ''^'']) @ NUL # []) = take (length s) ?w @ [CHR ''^'']"
      using assms(2) N by (intro c_text_at) (auto dest: in_set_takeD)
    moreover have "take (length s) ?w = [CHR 0x22] @ take (cap - 3) s"
      using 2 assms(3) by (cases "length s") auto
    moreover have "sb_len b = 1" using r 2 by (simp add: room_def)
    ultimately show ?thesis using 2 assms(3) by (simp add: quoted_def)
  next
    case 3
    note f = shows_full [OF assms(1)]
    have m: "sb_mem b = take (cap - 1) ?w @ [NUL]" "sb_pos b = cap" "sb_len b = 0" using f 3 by simp_all
    have "write_at (sb_pos b - 2) [CHR ''^''] (sb_mem b)
        = Some (take (cap - 2) ?w @ CHR ''^'' # [NUL])"
      using 3 assms(3) unfolding m by (auto simp: write_at_def min_def)
    moreover have "c_text ((take (cap - 2) ?w @ [CHR ''^'']) @ NUL # []) = take (cap - 2) ?w @ [CHR ''^'']"
      using assms(2) N by (intro c_text_at) (auto dest: in_set_takeD)
    moreover have "take (cap - 2) ?w = [CHR 0x22] @ take (cap - 3) s"
      using assms(3) by (simp add: take_Cons')
    ultimately show ?thesis using 3 assms(3) m by (simp add: quoted_def)
  qed
qed

lemma length_quoted: "0 < cap \<Longrightarrow> length (quoted cap str) < cap"
  by (auto simp: quoted_def split: option.split)

lemma c_text_NUL: "length (c_text m) < length m \<Longrightarrow> NUL \<in> set m"
  unfolding c_text_def by (metis (mono_tags, lifting) less_irrefl takeWhile_eq_all_conv)

lemma strquote_cases:
  assumes "NUL \<notin> set (or_empty str)" "mem \<noteq> []"
  shows "\<exists>m. nm_strquote mem str = Some m \<and> length m = length mem \<and> c_text m = quoted (length mem) str"
proof (cases str)
  case None
  have n: "NUL \<notin> set ''(null)''" by (simp add: NUL_def)
  obtain b where b: "nm_utils_strbuf_append ''(null)'' (buf_of mem) = Some b"
      "shows_text (length mem) b ''(null)''"
    using append_txt_shows [OF buf_of_shows [OF assms(2)], of "''(null)''"] by auto
  then have "length (sb_mem b) = length mem"
    using shows_full(2) [OF b(2)] by (cases "length ''(null)'' < length mem") (auto simp: shows_text_def room_def)
  with None b c_text_shown [OF b(2) n] show ?thesis
    by (simp add: nm_strquote_def append_str_eq quoted_def)
next
  case (Some s)
  have "0 < length mem" using assms(2) by simp
  then consider "length mem = 1" | "length mem = 2" | "3 \<le> length mem" by linarith
  then show ?thesis
  proof cases
    case 3
    have r: "room (length mem) (buf_of mem) []" by (rule buf_of_shows [OF assms(2)])
    have "put [CHR 0x22] 1 (length mem - 1) (buf_of mem) =
        Some \<lparr>sb_mem = CHR 0x22 # drop 1 mem, sb_pos = 1, sb_len = length mem - 1\<rparr>" (is "_ = Some ?b")
      using 3 by (subst put_eq) (auto simp: buf_of_def)
    moreover have "room (length mem) ?b [CHR 0x22]" using 3 by (auto simp: room_def)
    then obtain b where b: "nm_utils_strbuf_append s ?b = Some b" "shows_text (length mem) b ([CHR 0x22] @ s)"
      using append_txt_shows by blast
    ultimately show ?thesis
      using quote_body [OF b(2)] assms(1) Some 3 by (simp add: nm_strquote_def append_str_eq Let_def)
  qed (auto simp: nm_strquote_def write_at_def quoted_def Some c_text_def NUL_def)
qed

lemma flags2str_cases:
  assumes "list_all (\<lambda>d. NUL \<notin> set (fd_name d)) descs" "mem \<noteq> []"
  shows "\<exists>b. nm_utils_flags2str descs flags mem = Some (sb_mem b)
    \<and> shows_text (length mem) b (flags_text descs flags)"
proof -
  let ?cap = "length mem"
  obtain b where b: "put [NUL] 0 ?cap (buf_of mem) = Some b" "shows_text ?cap b []"
    using assms(2) by (auto simp: put_eq buf_of_def shows_text_def room_def Suc_le_eq)
  show ?thesis
  proof (cases "flags = 0")
    case True
    then show ?thesis
      using append_shows [OF b(2), of "or_empty (zero_name descs)"] b assms(2)
      by (auto simp: nm_utils_flags2str_def flags_text_def append_str_eq split: option.split)
  next
    case False
    obtain named rest where n: "named_flags descs flags = (named, rest)" by fastforce
    obtain b1 where b1: "append_flags descs flags b = Some (rest, b1)"
        "shows_text ?cap b1 (add_words [] (map fd_name named))"
      using append_flags_shows [OF b(2) _ assms(1), of flags] n by auto
    have "NUL \<notin> set (add_words [] (map fd_name named))"
      using NUL_add_words [of "[]" "map fd_name named"] named_flags_names [of descs flags] n assms(1)
      by (auto simp: list_all_iff)
    then obtain b2 where b2: "append_sep b1 = Some b2" "shows_text ?cap b2 (sep (add_words [] (map fd_name named)))"
      using append_sep_shows [OF b1(2)] by blast
    show ?thesis
      using append_shows [OF b2(2), of "''0x'' @ hex_of_nat (unat rest)"] b b1 b2 n False assms(2)
      by (auto simp: nm_utils_flags2str_def flags_text_def add_words_append)
  qed
qed

lemma fold_or: "fold (OR) xs a = a OR fold (OR) xs (0 :: 32 word)"
proof (induction xs arbitrary: a)
  case (Cons x xs)
  from Cons [of "x OR a"] Cons [of x] show ?case by (simp add: or.assoc or.commute or.left_commute)
qed simp

lemma or_split:
  assumes "flags AND d = d"
  shows "d OR (flags AND NOT d) = (flags :: 32 word)"
proof (rule bit_word_eqI)
  fix n assume "n < LENGTH(32)"
  moreover have "bit (flags AND d) n = bit d n" using assms by simp
  ultimately show "bit (d OR (flags AND NOT d)) n = bit flags n"
    by (auto simp: bit_and_iff bit_or_iff bit_not_iff)
qed

lemma named_flags_complete:
  "fold (OR) (map fd_flag (fst (named_flags ds flags))) (snd (named_flags ds flags)) = flags"
proof (induction ds flags rule: named_flags.induct)
  case (2 d ds flags)
  show ?case
  proof (cases "flags \<noteq> 0 \<and> fd_flag d \<noteq> 0 \<and> NM_FLAGS_ALL flags (fd_flag d)")
    case True
    let ?r = "named_flags ds (flags AND NOT (fd_flag d))"
    from 2 True have "fold (OR) (map fd_flag (fst ?r)) (snd ?r) = flags AND NOT (fd_flag d)" by simp
    then have "fold (OR) (map fd_flag (fst ?r)) (fd_flag d OR snd ?r) = fd_flag d OR (flags AND NOT (fd_flag d))"
      using fold_or [of "map fd_flag (fst ?r)" "fd_flag d OR snd ?r"]
        fold_or [of "map fd_flag (fst ?r)" "snd ?r"] by (simp add: or.assoc)
    with True show ?thesis
      by (simp add: or_split NM_FLAGS_ALL_def case_prod_beta)
  next
    case False
    with 2 show ?thesis by auto
  qed
qed simp

lemma hex_no_NUL: "NUL \<notin> set (hex_of_nat n)"
proof (induction n rule: hex_of_nat.induct)
  case (1 n)
  have "NUL \<noteq> char_of (48 + k)" "NUL \<noteq> char_of (87 + k)" if "k < 16" for k :: nat
    using that by (auto simp: NUL_def eq_commute [of _ "char_of _"] char_of_eq_iff take_bit_eq_mod)
  then show ?case using 1 by (subst hex_of_nat.simps) auto
qed

lemma zero_name_in: "zero_name ds = Some n \<Longrightarrow> \<exists>d \<in> set ds. n = fd_name d"
  by (induction ds) (auto split: if_splits)

lemma flags_text_no_NUL:
  assumes "list_all (\<lambda>d. NUL \<notin> set (fd_name d)) descs"
  shows "NUL \<notin> set (flags_text descs flags)"
proof (cases "flags = 0")
  case True
  then show ?thesis using assms zero_name_in [of descs]
    by (cases "zero_name descs") (auto simp: flags_text_def list_all_iff)
next
  case False
  let ?r = "named_flags descs flags"
  have "NUL \<notin> set (add_words [] (map fd_name (fst ?r)
      @ (if snd ?r = 0 then [] else [''0x'' @ hex_of_nat (unat (snd ?r))])))"
    using assms named_flags_names [of descs flags] hex_no_NUL
    by (intro NUL_add_words) (auto simp: list_all_iff NUL_def)
  then show ?thesis using False by (simp add: flags_text_def case_prod_beta)
qed

section \<open>Properties\<close>

text \<open>
  \<open>nm_strquote\<close> writes inside its buffer, ends what it writes with NUL unless the buffer is
  empty, and leaves the quoted text there; when the text is too long, as much of it as fits
  with \<open>^\<close> for the closing quote.
\<close>

theorem nm_strquote_quotes:
  assumes "NUL \<notin> set (or_empty str)" "mem \<noteq> []"
  shows "\<exists>m. nm_strquote mem str = Some m \<and> length m = length mem \<and> NUL \<in> set m
    \<and> c_text m = quoted (length mem) str"
proof -
  obtain m where m: "nm_strquote mem str = Some m" "length m = length mem" "c_text m = quoted (length mem) str"
    using strquote_cases [OF assms] by blast
  with length_quoted [of "length mem" str] assms(2) have "NUL \<in> set m" by (intro c_text_NUL) simp
  with m show ?thesis by blast
qed

text \<open>
  \<open>nm_utils_flags2str\<close> leaves the longest prefix of the text of the flags that fits: the
  names of the flags found, in the order of the table and separated by commas, then the flags
  without a name in hexadecimal. The flags named and those left over make up all flags.
\<close>

theorem flags2str_refines:
  assumes "list_all (\<lambda>d. NUL \<notin> set (fd_name d)) descs" "mem \<noteq> []"
  shows "\<exists>m. nm_utils_flags2str descs flags mem = Some m \<and> length m = length mem
    \<and> c_text m = take (length mem - 1) (flags_text descs flags)
    \<and> fold (OR) (map fd_flag (fst (named_flags descs flags))) (snd (named_flags descs flags)) = flags"
proof -
  obtain b where b: "nm_utils_flags2str descs flags mem = Some (sb_mem b)"
      "shows_text (length mem) b (flags_text descs flags)"
    using flags2str_cases [OF assms] by blast
  have "length (sb_mem b) = length mem"
    using b(2) shows_full(2) [OF b(2)] by (cases "length (flags_text descs flags) < length mem")
      (simp_all add: shows_text_def room_def)
  with b c_text_shown [OF b(2) flags_text_no_NUL [OF assms(1)]] named_flags_complete show ?thesis
    by blast
qed

theorem nm_strquote_quotes_witness:
  "\<exists>m. nm_strquote (replicate 8 CHR ''x'') (Some ''networkmanager'') = Some m
    \<and> c_text m = [CHR 0x22] @ ''netwo^''"
  using nm_strquote_quotes [of "Some ''networkmanager''" "replicate 8 CHR ''x''"]
  by (auto simp: NUL_def quoted_def)

definition demo_flags :: "flag_desc list" where
  "demo_flags = [\<lparr>fd_flag = 0, fd_name = ''none''\<rparr>, \<lparr>fd_flag = 1, fd_name = ''up''\<rparr>, \<lparr>fd_flag = 4, fd_name = ''lan''\<rparr>]"

theorem flags2str_refines_witness:
  "\<exists>m. nm_utils_flags2str demo_flags 21 (replicate 32 CHR ''x'') = Some m \<and> c_text m = ''up,lan,0x10''"
proof -
  have "flags_text demo_flags 21 = ''up,lan,0x10''" by code_simp
  moreover have "list_all (\<lambda>d. NUL \<notin> set (fd_name d)) demo_flags" by (simp add: demo_flags_def NUL_def)
  ultimately show ?thesis
    using flags2str_refines [of demo_flags "replicate 32 CHR ''x''" 21] by auto
qed

end
