(* ===== verification/NM_Macros.thy ===== *)
theory NM_Macros
  imports NM_Buffers NM_Libs
begin

text \<open>
  The macros and inline functions of \<open>shared/nm-utils/nm-macros-internal.h\<close> that compute something:
  membership tests, scans of strings, references and cleanups, flags, trimming, bounds, versions,
  and buffers on the stack. Arguments are values: a macro that evaluates one of them twice or not
  at all differs from its function only if the argument has effects. Pointers that may be \<open>NULL\<close>
  are options; text is without its terminator unless memory itself is the point.
\<close>

unbundle bit_operations_syntax

section \<open>Secrets, errors, arrays\<close>

text \<open>The bytes up to the first NUL are cleared, what lies behind it is not.\<close>

definition nm_free_secret :: "string option \<Rightarrow> string option" where
  "nm_free_secret secret =
     map_option (\<lambda>mem. let n = length (takeWhile (\<lambda>c. c \<noteq> NUL) mem) in replicate n NUL @ drop n mem) secret"

definition NM_G_ERROR_MSG :: "cstr option \<Rightarrow> string" where
  "NM_G_ERROR_MSG err =
     (case err of
        Some message \<Rightarrow> (case message of Some m \<Rightarrow> m | None \<Rightarrow> ''(null)'')
      | None \<Rightarrow> ''(no-error)'')"

text \<open>An array of pointers; reading behind its end is \<open>None\<close>.\<close>

fun ptrarray_count :: "'a option list \<Rightarrow> nat option" where
  "ptrarray_count [] = None"
| "ptrarray_count (None # ps) = Some 0"
| "ptrarray_count (Some p # ps) = map_option Suc (ptrarray_count ps)"

definition NM_PTRARRAY_LEN :: "'a option list option \<Rightarrow> nat option" where
  "NM_PTRARRAY_LEN ptrs = (case ptrs of None \<Rightarrow> Some 0 | Some ps \<Rightarrow> ptrarray_count ps)"

definition NM_SET_OUT :: "'a option \<Rightarrow> 'a \<Rightarrow> 'a option" where
  "NM_SET_OUT out_val v = (case out_val of None \<Rightarrow> None | Some _ \<Rightarrow> Some v)"

section \<open>Membership\<close>

text \<open>One equation per macro of the family: the last argument, and one before others.\<close>

fun in_set_eval :: "'a \<Rightarrow> 'a list \<Rightarrow> bool" where
  "in_set_eval x [] = False"
| "in_set_eval x [y] = (x = y)"
| "in_set_eval x (y # ys) = (x = y \<or> in_set_eval x ys)"

definition NM_IN_SET :: "'a \<Rightarrow> 'a list \<Rightarrow> bool" where
  "NM_IN_SET x ys = in_set_eval x ys"

definition in_strset_streq :: "string \<Rightarrow> cstr \<Rightarrow> bool" where
  "in_strset_streq x s = (case s of None \<Rightarrow> False | Some t \<Rightarrow> strcmp x t = 0)"

fun in_strset_eval :: "string \<Rightarrow> cstr list \<Rightarrow> bool" where
  "in_strset_eval x [] = False"
| "in_strset_eval x [y] = in_strset_streq x y"
| "in_strset_eval x (y # ys) = (in_strset_streq x y \<or> in_strset_eval x ys)"

definition NM_IN_STRSET :: "cstr \<Rightarrow> cstr list \<Rightarrow> bool" where
  "NM_IN_STRSET x ys =
     (case x of None \<Rightarrow> in_set_eval None ys | Some t \<Rightarrow> in_strset_eval t ys)"

fun strchar_all :: "(char \<Rightarrow> bool) \<Rightarrow> string \<Rightarrow> bool" where
  "strchar_all P [] = True"
| "strchar_all P (c # cs) = (if c \<noteq> NUL then (if P c then strchar_all P cs else False) else True)"

definition NM_STRCHAR_ALL :: "cstr \<Rightarrow> (char \<Rightarrow> bool) \<Rightarrow> bool" where
  "NM_STRCHAR_ALL str P = (case str of None \<Rightarrow> True | Some s \<Rightarrow> strchar_all P s)"

fun strchar_any :: "(char \<Rightarrow> bool) \<Rightarrow> string \<Rightarrow> bool" where
  "strchar_any P [] = False"
| "strchar_any P (c # cs) = (if c \<noteq> NUL then (if P c then True else strchar_any P cs) else False)"

definition NM_STRCHAR_ANY :: "cstr \<Rightarrow> (char \<Rightarrow> bool) \<Rightarrow> bool" where
  "NM_STRCHAR_ANY str P = (case str of None \<Rightarrow> False | Some s \<Rightarrow> strchar_any P s)"

definition nm_streq :: "string \<Rightarrow> string \<Rightarrow> bool" where
  "nm_streq s1 s2 = (strcmp s1 s2 = 0)"

definition nm_streq0 :: "cstr \<Rightarrow> cstr \<Rightarrow> bool" where
  "nm_streq0 s1 s2 = (strcmp0 s1 s2 = 0)"

section \<open>Strings\<close>

definition nm_gstring_prepare :: "string option \<Rightarrow> string" where
  "nm_gstring_prepare l = (case l of Some s \<Rightarrow> take 0 s | None \<Rightarrow> [])"

definition nm_str_not_empty :: "cstr \<Rightarrow> cstr" where
  "nm_str_not_empty str = (case str of None \<Rightarrow> None | Some s \<Rightarrow> if s \<noteq> [] then Some s else None)"

definition nm_strdup_not_empty :: "cstr \<Rightarrow> cstr" where
  "nm_strdup_not_empty str = (case str of None \<Rightarrow> None | Some s \<Rightarrow> if s \<noteq> [] then Some s else None)"

definition NM_PRINT_FMT_QUOTED :: "bool \<Rightarrow> string \<Rightarrow> string \<Rightarrow> string \<Rightarrow> string \<Rightarrow> string" where
  "NM_PRINT_FMT_QUOTED cond pre str post str_else =
     (if cond then pre else []) @ (if cond then str else str_else) @ (if cond then post else [])"

definition NM_PRINT_FMT_QUOTE_STRING :: "cstr \<Rightarrow> string" where
  "NM_PRINT_FMT_QUOTE_STRING arg =
     NM_PRINT_FMT_QUOTED (arg \<noteq> None) [CHR 0x22] (or_empty arg) [CHR 0x22] ''(null)''"

fun nm_str_skip_leading_spaces :: "string \<Rightarrow> string" where
  "nm_str_skip_leading_spaces [] = []"
| "nm_str_skip_leading_spaces (c # cs) =
     (if ascii_space c then nm_str_skip_leading_spaces cs else c # cs)"

definition nm_strstrip :: "'g glib_scheme \<Rightarrow> cstr \<Rightarrow> cstr" where
  "nm_strstrip L str = (case str of None \<Rightarrow> None | Some s \<Rightarrow> Some (g_strstrip L s))"

text \<open>The length without the spaces at the end.\<close>

fun strip_end :: "string \<Rightarrow> nat \<Rightarrow> nat" where
  "strip_end str 0 = 0"
| "strip_end str (Suc l) = (if ascii_space (str ! l) then strip_end str l else Suc l)"

text \<open>The result, and the buffer the caller has to free if there is one.\<close>

definition nm_strstrip_avoid_copy :: "cstr \<Rightarrow> cstr \<times> cstr" where
  "nm_strstrip_avoid_copy str =
     (case str of
        None \<Rightarrow> (None, None)
      | Some s \<Rightarrow>
          (let s = nm_str_skip_leading_spaces s; l = length s
           in if l = 0 \<or> \<not> ascii_space (s ! (l - 1)) then (Some s, None)
              else (let t = take (strip_end s l) s in (Some t, Some t))))"

definition nm_strcmp_p :: "string \<Rightarrow> string \<Rightarrow> int" where
  "nm_strcmp_p s1 s2 = strcmp s1 s2"

section \<open>References and cleanups\<close>

text \<open>Reference counts by object; a location holds an object or \<open>NULL\<close>.\<close>

type_synonym refs = "nat \<Rightarrow> int"

definition nm_g_object_ref :: "nat option \<Rightarrow> refs \<Rightarrow> nat option \<times> refs" where
  "nm_g_object_ref obj r = (obj, case obj of None \<Rightarrow> r | Some i \<Rightarrow> r(i := r i + 1))"

definition nm_g_object_unref :: "nat option \<Rightarrow> refs \<Rightarrow> refs" where
  "nm_g_object_unref obj r = (case obj of None \<Rightarrow> r | Some i \<Rightarrow> r(i := r i - 1))"

text \<open>Whether something changed, the content of the location \<open>pp\<close>, and the counts.\<close>

definition nm_g_object_ref_set ::
  "nat option option \<Rightarrow> nat option \<Rightarrow> refs \<Rightarrow> bool \<times> nat option option \<times> refs" where
  "nm_g_object_ref_set pp obj r =
     (case pp of
        None \<Rightarrow> (False, pp, r)
      | Some p \<Rightarrow>
          if p \<noteq> obj
          then (let (_, r) = nm_g_object_ref obj r; pp = Some obj; r = nm_g_object_unref p r in (True, pp, r))
          else (False, pp, r))"

text \<open>The location is empty when the destructor runs; \<open>destroy\<close> sees the state after that.\<close>

definition nm_clear_pointer :: "('p \<Rightarrow> 's \<Rightarrow> 's) \<Rightarrow> 'p option option \<Rightarrow> 's \<Rightarrow> bool \<times> 'p option option \<times> 's" where
  "nm_clear_pointer destroy pp s =
     (case pp of
        Some (Some p) \<Rightarrow> (True, Some None, destroy p s)
      | _ \<Rightarrow> (False, pp, s))"

definition nm_clear_g_source :: "(nat \<Rightarrow> 's \<Rightarrow> 's) \<Rightarrow> nat option \<Rightarrow> 's \<Rightarrow> bool \<times> nat option \<times> 's" where
  "nm_clear_g_source source_remove i s =
     (case i of
        Some v \<Rightarrow> if v \<noteq> 0 then (True, Some 0, source_remove v s) else (False, i, s)
      | None \<Rightarrow> (False, i, s))"

definition nm_clear_g_signal_handler ::
  "('o \<Rightarrow> nat \<Rightarrow> 's \<Rightarrow> 's) \<Rightarrow> 'o \<Rightarrow> nat option \<Rightarrow> 's \<Rightarrow> bool \<times> nat option \<times> 's" where
  "nm_clear_g_signal_handler disconnect self i s =
     (case i of
        Some v \<Rightarrow> if v \<noteq> 0 then (True, Some 0, disconnect self v s) else (False, i, s)
      | None \<Rightarrow> (False, i, s))"

definition nm_clear_g_variant :: "nat option option \<Rightarrow> refs \<Rightarrow> bool \<times> nat option option \<times> refs" where
  "nm_clear_g_variant variant r =
     (case variant of
        Some (Some v) \<Rightarrow> (True, Some None, r(v := r v - 1))
      | _ \<Rightarrow> (False, variant, r))"

text \<open>The cancellables that were cancelled, and the counts.\<close>

definition nm_clear_g_cancellable ::
  "nat option option \<Rightarrow> nat list \<times> refs \<Rightarrow> bool \<times> nat option option \<times> nat list \<times> refs" where
  "nm_clear_g_cancellable cancellable s =
     (case cancellable of
        Some (Some v) \<Rightarrow> (True, Some None, (case s of (cancelled, r) \<Rightarrow> (v # cancelled, r(v := r v - 1))))
      | _ \<Rightarrow> (False, cancellable, s))"

definition nm_steal_int :: "int option \<Rightarrow> int \<times> int option" where
  "nm_steal_int p_val =
     (case p_val of None \<Rightarrow> (0, None) | Some v \<Rightarrow> if v \<noteq> 0 then (v, Some 0) else (v, p_val))"

definition nm_steal_fd :: "int option \<Rightarrow> int \<times> int option" where
  "nm_steal_fd p_fd =
     (case p_fd of
        Some fd \<Rightarrow> if fd \<ge> 0 then (fd, Some (-1)) else (-1, p_fd)
      | None \<Rightarrow> (-1, None))"

text \<open>Descriptors that were closed; \<open>errno\<close> is restored whatever \<open>close\<close> sets.\<close>

definition nm_close :: "(int \<Rightarrow> errno) \<Rightarrow> int \<Rightarrow> int list \<times> errno \<Rightarrow> int list \<times> errno" where
  "nm_close close_errno fd s = (fd # fst s, close_errno fd)"

definition nm_auto_close_impl :: "(int \<Rightarrow> errno) \<Rightarrow> int \<Rightarrow> int list \<times> errno \<Rightarrow> int list \<times> errno" where
  "nm_auto_close_impl close_errno fd s =
     (if fd \<ge> 0
      then (let errsv = snd s; s = nm_close close_errno fd s in (fst s, errsv))
      else s)"

section \<open>Numbers\<close>

definition nm_utils_is_power_of_two :: "'a::len word \<Rightarrow> bool" where
  "nm_utils_is_power_of_two x = (x > 0 \<and> x AND (x - 1) = 0)"

definition NM_FLAGS_ANY :: "'a::len word \<Rightarrow> 'a word \<Rightarrow> bool" where
  "NM_FLAGS_ANY flags check = (flags AND check \<noteq> 0)"

definition NM_FLAGS_SET :: "'a::len word \<Rightarrow> 'a word \<Rightarrow> 'a word" where
  "NM_FLAGS_SET flags val = flags OR val"

definition NM_FLAGS_UNSET :: "'a::len word \<Rightarrow> 'a word \<Rightarrow> 'a word" where
  "NM_FLAGS_UNSET flags val = flags AND NOT val"

definition NM_FLAGS_ASSIGN :: "'a::len word \<Rightarrow> 'a word \<Rightarrow> bool \<Rightarrow> 'a word" where
  "NM_FLAGS_ASSIGN flags val assign = (if assign then flags OR val else flags AND NOT val)"

definition NM_MIN :: "int \<Rightarrow> int \<Rightarrow> int" where "NM_MIN a b = (if a < b then a else b)"
definition NM_MAX :: "int \<Rightarrow> int \<Rightarrow> int" where "NM_MAX a b = (if a > b then a else b)"

definition NM_CLAMP :: "int \<Rightarrow> int \<Rightarrow> int \<Rightarrow> int" where
  "NM_CLAMP x low high = (if x > high then high else if x < low then low else x)"

definition nm_encode_version :: "32 word \<Rightarrow> 32 word \<Rightarrow> 32 word \<Rightarrow> 32 word" where
  "nm_encode_version major minor micro = push_bit 16 major OR push_bit 8 minor OR micro"

definition nm_decode_version :: "32 word \<Rightarrow> 32 word \<times> 32 word \<times> 32 word" where
  "nm_decode_version version =
     (drop_bit 16 (version AND 0xFFFF0000), drop_bit 8 (version AND 0x0000FF00), version AND 0x000000FF)"

section \<open>Buffers on the stack\<close>

text \<open>The size of a type in bytes; a type of more than eight does not compile.\<close>

definition NM_DECIMAL_STR_MAX :: "nat \<Rightarrow> nat option" where
  "NM_DECIMAL_STR_MAX size_of =
     (if size_of \<le> 1 then Some (2 + 3)
      else if size_of \<le> 2 then Some (2 + 5)
      else if size_of \<le> 4 then Some (2 + 10)
      else if size_of \<le> 8 then Some (2 + 20)
      else None)"

text \<open>\<open>g_snprintf\<close> writes what fits before the terminator.\<close>

definition snprintf_text :: "nat \<Rightarrow> string \<Rightarrow> string" where
  "snprintf_text n t = take (n - 1) t"

definition NM_UTILS_LOOKUP_STR :: "(int \<Rightarrow> cstr) \<Rightarrow> int \<Rightarrow> string" where
  "NM_UTILS_LOOKUP_STR f idx =
     (case f idx of Some s \<Rightarrow> s | None \<Rightarrow> snprintf_text 30 (''('' @ dec_of_int idx @ '')''))"

definition nm_strquote_a :: "nat \<Rightarrow> cstr \<Rightarrow> string" where
  "nm_strquote_a trunc_at str =
     (case str of
        None \<Rightarrow> ''(null)''
      | Some s \<Rightarrow>
          (let strlen_trunc = min (length s) trunc_at
           in CHR 0x22 # take strlen_trunc s
              @ [if strlen_trunc < length s then CHR ''^'' else CHR 0x22]))"

text \<open>A format has the text before and after its one \<open>%s\<close>; the second result is what to free.\<close>

definition nm_construct_name_a :: "string \<times> string \<Rightarrow> string \<Rightarrow> string \<times> cstr" where
  "nm_construct_name_a fmt nm =
     (case fmt of (pre, post) \<Rightarrow>
        (let strlen_format = length pre + 2 + length post; name_len = length nm
         in if strlen_format + name_len < 200
            then (snprintf_text (strlen_format + name_len) (pre @ nm @ post), None)
            else (pre @ nm @ post, Some (pre @ nm @ post))))"

section \<open>Facts\<close>

lemma in_set_eval_iff: "in_set_eval x ys \<longleftrightarrow> x \<in> set ys"
  by (induction x ys rule: in_set_eval.induct) auto

lemma in_strset_eval_iff: "in_strset_eval x ys \<longleftrightarrow> Some x \<in> set ys"
  by (induction x ys rule: in_strset_eval.induct)
    (auto simp: in_strset_streq_def split: option.splits)

lemma strchar_all_iff: "strchar_all P s \<longleftrightarrow> list_all P (takeWhile (\<lambda>c. c \<noteq> NUL) s)"
  by (induction s) auto

lemma strchar_any_all: "strchar_any P s \<longleftrightarrow> \<not> strchar_all (\<lambda>c. \<not> P c) s"
  by (induction s) auto

lemma skip_spaces_eq: "nm_str_skip_leading_spaces s = dropWhile ascii_space s"
  by (induction s) auto

lemma strip_end_eq: "l \<le> length s \<Longrightarrow> take (strip_end s l) s = rev (dropWhile ascii_space (rev (take l s)))"
proof (induction l)
  case (Suc l)
  then have "take (Suc l) s = take l s @ [s ! l]" by (simp add: take_Suc_conv_app_nth)
  then show ?case using Suc by simp
qed simp

lemma length_dec_of_nat: "n < 10 ^ Suc k \<Longrightarrow> length (dec_of_nat n) \<le> Suc k"
proof (induction k arbitrary: n)
  case 0
  then show ?case by (simp add: dec_of_nat.simps [of n])
next
  case (Suc k)
  then have "n div 10 < 10 ^ Suc k" by (simp add: div_less_iff_less_mult)
  with Suc.IH [of "n div 10"] show ?case by (subst dec_of_nat.simps) auto
qed

lemma length_dec_of_int:
  assumes "- (10 ^ Suc k) < v" "v < 10 ^ Suc k" shows "length (dec_of_int v) \<le> Suc (Suc k)"
proof -
  have "nat \<bar>v\<bar> < 10 ^ Suc k" using assms by (simp add: nat_less_iff abs_less_iff)
  from length_dec_of_nat [OF this] show ?thesis by (auto simp: dec_of_int_def)
qed

lemma and_pred_nat: "0 < n \<Longrightarrow> n AND (n - 1) = 0 \<longleftrightarrow> (\<exists>k. n = 2 ^ k)" for n :: nat
proof (induction n rule: less_induct)
  case (less n)
  show ?case
  proof (cases "even n")
    case True
    then obtain m where m: "n = 2 * m" by blast
    with less.prems have pos: "0 < m" by simp
    have "(2 * m - 1) div 2 = m - 1" using pos by presburger
    then have "n AND (n - 1) = 2 * (m AND (m - 1))" using m by (subst and_nat_rec) simp
    moreover have "(\<exists>k. n = 2 ^ k) \<longleftrightarrow> (\<exists>k. m = 2 ^ k)"
    proof
      assume "\<exists>k. n = 2 ^ k"
      then obtain k where k: "n = 2 ^ k" by blast
      with m have "k \<noteq> 0" by (cases k) auto
      then show "\<exists>k. m = 2 ^ k" using k m by (cases k) auto
    qed (use m in \<open>auto intro: exI [of _ "Suc _"]\<close>)
    ultimately show ?thesis using less.IH [of m] pos m by simp
  next
    case False
    then obtain m where m: "n = Suc (2 * m)" by (metis oddE Suc_eq_plus1)
    have "n AND (n - 1) = 2 * m" using m by (subst and_nat_rec) simp
    moreover have "(\<exists>k. n = 2 ^ k) \<longleftrightarrow> m = 0"
    proof
      assume "\<exists>k. n = 2 ^ k"
      then obtain k where k: "n = 2 ^ k" by blast
      then show "m = 0" using m False by (cases k) auto
    qed (use m in \<open>auto intro: exI [of _ 0]\<close>)
    ultimately show ?thesis by simp
  qed
qed

text \<open>References held by a location.\<close>

definition held_by :: "nat option option \<Rightarrow> refs" where
  "held_by pp i = (case pp of Some (Some j) \<Rightarrow> of_bool (i = j) | _ \<Rightarrow> 0)"

lemma bit_below: "x < 2 ^ k \<Longrightarrow> bit x n \<Longrightarrow> n < k" for x :: "'a::len word"
proof -
  assume x: "x < 2 ^ k" and b: "bit x n"
  have "take_bit k x = x" using less_mask_eq [OF x] by (simp add: take_bit_eq_mask)
  then show "n < k" using b by (metis bit_take_bit_iff)
qed

lemma version_masks:
  "(0xFFFF0000 :: 32 word) = push_bit 16 (mask 16)" "(0x0000FF00 :: 32 word) = push_bit 8 (mask 8)"
  "(0x000000FF :: 32 word) = mask 8"
  by (simp_all add: mask_eq_exp_minus_1 push_bit_eq_mult)

section \<open>Properties\<close>

text \<open>The macro for string sets is membership, with \<open>NULL\<close> as an element like any other.\<close>

theorem in_strset_member: "NM_IN_STRSET x ys \<longleftrightarrow> x \<in> set ys"
  by (simp add: NM_IN_STRSET_def in_set_eval_iff in_strset_eval_iff split: option.split)

text \<open>The two scans are dual to each other and stop at the first NUL; both hold of \<open>NULL\<close>'s none.\<close>

theorem strchar_dual:
  "NM_STRCHAR_ANY str P = (\<not> NM_STRCHAR_ALL str (\<lambda>c. \<not> P c)) \<and>
   NM_STRCHAR_ALL (Some s) P = list_all P (takeWhile (\<lambda>c. c \<noteq> NUL) s)"
  by (simp add: NM_STRCHAR_ANY_def NM_STRCHAR_ALL_def strchar_any_all strchar_all_iff split: option.split)

text \<open>
  Trimming without a copy gives what \<open>g_strstrip\<close> gives, and copies exactly the strings that have
  white space at their end after other characters.
\<close>

theorem strstrip_avoid_copy_eq:
  assumes "split_doc L"
  shows "fst (nm_strstrip_avoid_copy str) = nm_strstrip L str
    \<and> (snd (nm_strstrip_avoid_copy str) = None \<or> snd (nm_strstrip_avoid_copy str) = nm_strstrip L str)
    \<and> (snd (nm_strstrip_avoid_copy str) = None) = (case str of None \<Rightarrow> True
        | Some s \<Rightarrow> dropWhile ascii_space s = [] \<or> \<not> ascii_space (last (dropWhile ascii_space s)))"
proof (cases str)
  case (Some s)
  define d where "d = dropWhile ascii_space s"
  have kept: "rev (dropWhile ascii_space (rev d)) = d" if t: "d = [] \<or> \<not> ascii_space (last d)"
  proof (cases "d = []")
    case False
    have "\<not> ascii_space (last d)" using t False by blast
    then have "\<not> ascii_space (hd (rev d))" by (metis hd_rev)
    then have "dropWhile ascii_space (rev d) = rev d" by (cases "rev d") (auto simp del: rev_is_Nil_conv)
    then show ?thesis by simp
  qed simp
  have cut: "take (strip_end d (length d)) d = rev (dropWhile ascii_space (rev d))"
    using strip_end_eq [of "length d" d] by simp
  have tail: "(length d = 0 \<or> \<not> ascii_space (d ! (length d - 1))) = (d = [] \<or> \<not> ascii_space (last d))"
    by (auto simp: last_conv_nth)
  have strip: "nm_strstrip L str = Some (rev (dropWhile ascii_space (rev d)))"
    using Some by (simp add: nm_strstrip_def strstrip_eq [OF assms] d_def)
  have "nm_strstrip_avoid_copy str = (if d = [] \<or> \<not> ascii_space (last d) then (Some d, None)
      else (Some (rev (dropWhile ascii_space (rev d))), Some (rev (dropWhile ascii_space (rev d)))))"
    using Some by (simp only: nm_strstrip_avoid_copy_def option.case skip_spaces_eq d_def [symmetric] Let_def tail cut)
  then show ?thesis unfolding strip using Some kept by (simp add: d_def)
qed (simp add: nm_strstrip_avoid_copy_def nm_strstrip_def)

text \<open>
  A buffer of \<open>NM_DECIMAL_STR_MAX\<close> bytes holds every number of the type, signed or unsigned, with
  its sign and the terminator.
\<close>

theorem decimal_str_max_suffices:
  assumes "NM_DECIMAL_STR_MAX n = Some len_max" "- (2 ^ (8 * n - 1)) \<le> v" "v < 2 ^ (8 * n)"
  shows "length (dec_of_int v) < len_max"
proof -
  have mono: "- (2 ^ (8 * m)) < v \<and> v < 2 ^ (8 * m)" if "n \<le> m" "0 < m" for m
  proof -
    have "(2::int) ^ (8 * n) \<le> 2 ^ (8 * m)" using that by (intro power_increasing) simp_all
    moreover have "(2::int) ^ (8 * n - 1) < 2 ^ (8 * m)" using that by (intro power_strict_increasing) simp_all
    ultimately show ?thesis using assms(2,3) by linarith
  qed
  have fits: "length (dec_of_int v) < k + 3" if "n \<le> m" "0 < m" "(2::int) ^ (8 * m) \<le> 10 ^ Suc k" for m k
    using length_dec_of_int [of k v] mono [OF that(1,2)] that(3) by linarith
  consider "n \<le> 1" "len_max = 5" | "n \<le> 2" "len_max = 7" | "n \<le> 4" "len_max = 12" | "n \<le> 8" "len_max = 22"
    using assms(1) by (auto simp: NM_DECIMAL_STR_MAX_def split: if_splits)
  then show ?thesis
  proof cases
    case 1 then show ?thesis using fits [of 1 2] by simp
  next
    case 2 then show ?thesis using fits [of 2 4] by simp
  next
    case 3 then show ?thesis using fits [of 4 9] by simp
  next
    case 4 then show ?thesis using fits [of 8 19] by simp
  qed
qed

theorem decimal_str_max_suffices_witness: "length (dec_of_int (- 32768)) < 7 \<and> length (dec_of_int 65535) < 7"
  using decimal_str_max_suffices [of 2 7 "- 32768"] decimal_str_max_suffices [of 2 7 65535]
  by (simp add: NM_DECIMAL_STR_MAX_def)

text \<open>
  Packing a version and unpacking it gives the parts back when each fits its field, and
  unpacking any number and packing the parts gives the number back.
\<close>

theorem version_roundtrip:
  assumes "major < 0x10000" "minor < 0x100" "micro < 0x100"
  shows "nm_decode_version (nm_encode_version major minor micro) = (major, minor, micro)
    \<and> (case nm_decode_version v of (a, b, c) \<Rightarrow> nm_encode_version a b c) = v"
proof -
  have small: "bit major i \<Longrightarrow> i < 16" "bit minor i \<Longrightarrow> i < 8" "bit micro i \<Longrightarrow> i < 8" for i
    using bit_below [of major 16 i] bit_below [of minor 8 i] bit_below [of micro 8 i] assms by simp_all
  have "drop_bit 16 (nm_encode_version major minor micro AND push_bit 16 (mask 16)) = major"
    by (rule bit_word_eqI) (auto simp: nm_encode_version_def bit_simps dest: small)
  moreover have "drop_bit 8 (nm_encode_version major minor micro AND push_bit 8 (mask 8)) = minor"
    by (rule bit_word_eqI) (auto simp: nm_encode_version_def bit_simps dest: small)
  moreover have "nm_encode_version major minor micro AND mask 8 = micro"
    by (rule bit_word_eqI) (auto simp: nm_encode_version_def bit_simps dest: small)
  moreover have "nm_encode_version (drop_bit 16 (v AND push_bit 16 (mask 16)))
      (drop_bit 8 (v AND push_bit 8 (mask 8))) (v AND mask 8) = v"
  proof (rule bit_word_eqI)
    fix i
    show "bit (nm_encode_version (drop_bit 16 (v AND push_bit 16 (mask 16)))
      (drop_bit 8 (v AND push_bit 8 (mask 8))) (v AND mask 8)) i = bit v i" if "i < LENGTH(32)"
      using that by (cases "i < 16") (auto simp: nm_encode_version_def bit_simps)
  qed
  ultimately show ?thesis by (simp add: nm_decode_version_def version_masks)
qed

text \<open>The test finds exactly the numbers with one bit set.\<close>

theorem power_of_two_iff: "nm_utils_is_power_of_two x \<longleftrightarrow> (\<exists>k. unat x = 2 ^ k)"
  for x :: "'a::len word"
proof (cases "x = 0")
  case False
  have "x AND (x - 1) = 0 \<longleftrightarrow> unat (x AND (x - 1)) = 0" by (simp add: unat_eq_0)
  also have "\<dots> \<longleftrightarrow> unat x AND (unat x - 1) = 0" using False by (simp add: unsigned_and_eq unat_minus_one)
  also have "\<dots> \<longleftrightarrow> (\<exists>k. unat x = 2 ^ k)"
    using False by (intro and_pred_nat) (simp add: unat_gt_0)
  finally show ?thesis using False by (simp add: nm_utils_is_power_of_two_def word_gt_0)
qed (simp add: nm_utils_is_power_of_two_def)

text \<open>
  Assigning a reference keeps the counts in step with what the location holds, whatever it held
  before and also when the object is assigned to itself.
\<close>

theorem ref_set_balanced:
  "case nm_g_object_ref_set pp obj r of (changed, pp', r') \<Rightarrow>
     r' i - held_by pp' i = r i - held_by pp i
     \<and> (pp = None \<or> pp' = Some obj) \<and> changed = (pp \<noteq> pp')"
  by (auto simp: nm_g_object_ref_set_def nm_g_object_ref_def nm_g_object_unref_def held_by_def Let_def
      split: option.split)

text \<open>
  A name that is built on the stack is never cut off, and the buffer has less than 200 bytes;
  a longer one is allocated, and given to the caller to free.
\<close>

theorem construct_name_complete:
  "fst (nm_construct_name_a (pre, post) nm) = pre @ nm @ post
   \<and> (snd (nm_construct_name_a (pre, post) nm) = None) = (length (pre @ nm @ post) + 2 < 200)"
  by (simp add: nm_construct_name_a_def snprintf_text_def Let_def)

text \<open>A number that has no name is printed completely in the 30 bytes there are for it.\<close>

theorem lookup_str_complete:
  assumes "f v = None" "- (2 ^ 63) \<le> v" "v < 2 ^ 63"
  shows "NM_UTILS_LOOKUP_STR f v = ''('' @ dec_of_int v @ '')''"
proof -
  have "length (dec_of_int v) \<le> 20" using assms(2,3) by (intro length_dec_of_int [of 18, simplified]) simp_all
  then show ?thesis using assms(1) by (simp add: NM_UTILS_LOOKUP_STR_def snprintf_text_def)
qed

end
