(* ===== verification/NM_Preproc.thy ===== *)
theory NM_Preproc
  imports NM_Macros
begin

text \<open>
  The macros of \<open>shared/nm-utils/nm-macros-internal.h\<close> that work on the text or the types of their
  arguments: counting arguments, casts that keep \<open>const\<close>, assertions that may be switched off,
  lookup tables, cached quarks, and membership tests by how they evaluate. A use that does not
  compile, and a failed assertion, are \<open>None\<close>.
\<close>

section \<open>Counting arguments\<close>

text \<open>
  An argument of a macro is its text. The preprocessor cannot pass no argument: an empty list of
  arguments is one empty argument.
\<close>

definition macro_args :: "string list \<Rightarrow> string list" where
  "macro_args args = (if args = [] then [[]] else args)"

definition NARG_RSEQ :: "string list" where
  "NARG_RSEQ = map dec_of_nat (rev [0..<64])"

text \<open>\<open>_NM_NARG_ARG_N\<close> is its 64th argument; with fewer it does not compile.\<close>

definition NM_NARG :: "string list \<Rightarrow> string option" where
  "NM_NARG args =
     (let xs = macro_args args @ NARG_RSEQ in if 64 < length xs then Some (xs ! 63) else None)"

text \<open>\<open>ONE\<close> or \<open>TWOORMORE\<close>: the 30th of the arguments and the fixed ones.\<close>

definition MACRO_REST_NUM :: "string list \<Rightarrow> string option" where
  "MACRO_REST_NUM args =
     (let xs = macro_args args @ replicate 28 ''TWOORMORE'' @ [''ONE'', ''throwaway'']
      in if 30 < length xs then Some (xs ! 29) else None)"

definition MACRO_FIRST :: "string list \<Rightarrow> string" where
  "MACRO_FIRST args = hd (macro_args args @ [''throwaway''])"

text \<open>The rest follows after a comma, or there is nothing.\<close>

definition MACRO_REST :: "string list \<Rightarrow> string list option" where
  "MACRO_REST args =
     (case MACRO_REST_NUM args of
        None \<Rightarrow> None
      | Some qty \<Rightarrow>
          if qty = ''ONE'' then Some []
          else if qty = ''TWOORMORE'' then Some (tl (macro_args args))
          else None)"

lemma narg_counts:
  assumes "1 \<le> length args" "length args \<le> 63"
  shows "NM_NARG args = Some (dec_of_nat (length args))"
proof -
  let ?n = "length args"
  have "args \<noteq> []" using assms(1) by auto
  moreover have "(args @ NARG_RSEQ) ! 63 = dec_of_nat ?n"
    using assms by (simp add: nth_append NARG_RSEQ_def rev_nth)
  ultimately show ?thesis using assms by (simp add: NM_NARG_def macro_args_def NARG_RSEQ_def Let_def)
qed

text \<open>No argument counts as one.\<close>

lemma narg_empty: "NM_NARG [] = Some ''1''"
  by code_simp

lemma macro_rest_splits:
  assumes "1 \<le> length args" "length args \<le> 29"
  shows "MACRO_FIRST args = hd args \<and> MACRO_REST args = Some (tl args)"
proof -
  have ne: "args \<noteq> []" using assms(1) by auto
  have "MACRO_REST_NUM args = Some (if length args = 1 then ''ONE'' else ''TWOORMORE'')"
  proof (cases "length args = 1")
    case True
    then obtain a where "args = [a]" by (auto simp: length_Suc_conv)
    then show ?thesis by (simp add: MACRO_REST_NUM_def macro_args_def nth_append Let_def)
  next
    case False
    let ?k = "29 - length args"
    have "(args @ replicate 28 ''TWOORMORE'' @ [''ONE'', ''throwaway'']) ! 29 = replicate 28 ''TWOORMORE'' ! ?k"
      using assms False by (simp add: nth_append del: replicate.simps)
    moreover have "replicate 28 ''TWOORMORE'' ! ?k = ''TWOORMORE''"
      by (rule nth_replicate) (use assms False in simp)
    ultimately show ?thesis using False ne
      by (simp add: MACRO_REST_NUM_def macro_args_def Let_def)
  qed
  moreover have "length args = 1 \<Longrightarrow> tl args = []" by (cases args) auto
  ultimately show ?thesis using ne by (auto simp: MACRO_REST_def MACRO_FIRST_def macro_args_def)
qed

section \<open>Casts\<close>

text \<open>A pointer type: whether it points to \<open>const\<close>, to what, and whether it is \<open>const\<close> itself.\<close>

record ptr_type =
  to_const :: bool
  pointee :: string
  itself_const :: bool

definition ptr_to :: "bool \<Rightarrow> string \<Rightarrow> ptr_type" where
  "ptr_to c t = \<lparr>to_const = c, pointee = t, itself_const = False\<rparr>"

text \<open>\<open>_Generic\<close>: no type may be listed twice, and the type of the expression must be.\<close>

definition generic_select :: "(ptr_type \<times> ptr_type) list \<Rightarrow> ptr_type \<Rightarrow> ptr_type option" where
  "generic_select assocs t = (if distinct (map fst assocs) then map_of assocs t else None)"

definition constcast_assocs :: "string \<Rightarrow> string \<Rightarrow> (ptr_type \<times> ptr_type) list" where
  "constcast_assocs type b =
     [(\<lparr>to_const = True, pointee = b, itself_const = True\<rparr>, ptr_to True type),
      (\<lparr>to_const = True, pointee = b, itself_const = False\<rparr>, ptr_to True type),
      (\<lparr>to_const = False, pointee = b, itself_const = True\<rparr>, ptr_to False type),
      (\<lparr>to_const = False, pointee = b, itself_const = False\<rparr>, ptr_to False type)]"

definition NM_CONSTCAST_FULL :: "string \<Rightarrow> string list \<Rightarrow> ptr_type \<Rightarrow> ptr_type option" where
  "NM_CONSTCAST_FULL type aliases t =
     (if length aliases \<le> 3
      then generic_select (concat (map (constcast_assocs type) (''void'' # aliases @ [type]))) t
      else None)"

definition NM_UNCONST_PTR :: "string \<Rightarrow> ptr_type \<Rightarrow> ptr_type option" where
  "NM_UNCONST_PTR type t =
     generic_select [(ptr_to True type, ptr_to False type), (ptr_to False type, ptr_to False type)] t"

definition NM_PROPAGATE_CONST :: "ptr_type \<Rightarrow> ptr_type \<Rightarrow> ptr_type" where
  "NM_PROPAGATE_CONST test_expr p = (if to_const test_expr then p\<lparr>to_const := True\<rparr> else p)"

lemma distinct_constcast: "distinct (map fst (concat (map (constcast_assocs ty) bs))) \<longleftrightarrow> distinct bs"
proof -
  have mem: "x \<in> fst ` set (concat (map (constcast_assocs ty) bs)) \<longleftrightarrow> pointee x \<in> set bs" for x bs
    by (cases x) (auto simp: constcast_assocs_def image_iff)
  have own: "distinct (map fst (constcast_assocs ty b))" for b by (simp add: constcast_assocs_def)
  have at: "fst ` set (constcast_assocs ty b) = {x :: ptr_type. pointee x = b}" for b
    using mem [of _ "[b]"] by auto
  show ?thesis
  proof (induction bs)
    case (Cons b bs)
    have rest: "fst ` set (concat (map (constcast_assocs ty) bs)) = {x :: ptr_type. pointee x \<in> set bs}"
      using mem [of _ bs] by blast
    have "{x :: ptr_type. pointee x = b} \<inter> {x :: ptr_type. pointee x \<in> set bs} = {} \<longleftrightarrow> b \<notin> set bs"
    proof (rule iffI)
      assume e: "{x :: ptr_type. pointee x = b} \<inter> {x :: ptr_type. pointee x \<in> set bs} = {}"
      show "b \<notin> set bs"
      proof
        assume "b \<in> set bs"
        then have "ptr_to True b \<in> {x :: ptr_type. pointee x = b} \<inter> {x :: ptr_type. pointee x \<in> set bs}"
          by (simp add: ptr_to_def)
        then show False unfolding e by (rule emptyE)
      qed
    qed auto
    then have "fst ` set (constcast_assocs ty b) \<inter> fst ` set (concat (map (constcast_assocs ty) bs)) = {}
        \<longleftrightarrow> b \<notin> set bs" unfolding at rest .
    with Cons.IH own [of b] show ?case
      by (simp only: list.map(2) concat.simps(2) map_append distinct_append set_map distinct.simps(2)) blast
  qed simp
qed

text \<open>
  The cast compiles exactly for pointers to \<open>void\<close>, to the type and to its aliases, if these are
  different types; it changes what is pointed to and never whether that is \<open>const\<close>.
\<close>

theorem constcast_keeps_const:
  "NM_CONSTCAST_FULL type aliases t = Some r \<longleftrightarrow>
     length aliases \<le> 3 \<and> distinct (''void'' # aliases @ [type])
     \<and> pointee t \<in> set (''void'' # aliases @ [type]) \<and> r = ptr_to (to_const t) type"
proof -
  have sel: "map_of (concat (map (constcast_assocs type) bs)) t
      = (if pointee t \<in> set bs then Some (ptr_to (to_const t) type) else None)" for bs
    by (induction bs; cases t) (auto simp: constcast_assocs_def)
  show ?thesis
    unfolding NM_CONSTCAST_FULL_def generic_select_def distinct_constcast sel by auto
qed

section \<open>Assertions\<close>

text \<open>A condition is a value and an effect on the state; \<open>more\<close> is \<open>NM_MORE_ASSERTS\<close>.\<close>

definition nm_assert :: "bool \<Rightarrow> ('s \<Rightarrow> bool \<times> 's) \<Rightarrow> 's \<Rightarrow> 's option" where
  "nm_assert more_asserts cond s =
     (if more_asserts then (case cond s of (c, s') \<Rightarrow> if c then Some s' else None) else Some s)"

definition nm_assert_se :: "bool \<Rightarrow> ('s \<Rightarrow> bool \<times> 's) \<Rightarrow> 's \<Rightarrow> 's option" where
  "nm_assert_se more_asserts cond s =
     (case cond s of (c, s') \<Rightarrow> if more_asserts \<and> \<not> c then None else Some s')"

definition nm_assert_not_reached :: "bool \<Rightarrow> 's \<Rightarrow> 's option" where
  "nm_assert_not_reached more_asserts s = (if more_asserts then None else Some s)"

text \<open>The checks of the two casts of objects; \<open>is_check\<close> is false for \<open>NULL\<close>.\<close>

definition NM_GOBJECT_CAST_assert :: "bool \<Rightarrow> ('p option \<Rightarrow> bool) \<Rightarrow> 'p option \<Rightarrow> 'p option option" where
  "NM_GOBJECT_CAST_assert more_asserts is_check obj =
     map_option (\<lambda>_. obj) (nm_assert more_asserts (\<lambda>s. (obj \<noteq> None \<or> is_check obj, s)) ())"

definition NM_GOBJECT_CAST_NON_NULL_assert ::
  "bool \<Rightarrow> ('p option \<Rightarrow> bool) \<Rightarrow> 'p option \<Rightarrow> 'p option option" where
  "NM_GOBJECT_CAST_NON_NULL_assert more_asserts is_check obj =
     map_option (\<lambda>_. obj) (nm_assert more_asserts (\<lambda>s. (is_check obj, s)) ())"

text \<open>
  Switching the assertions off changes nothing in a run in which none fails, provided the condition
  of \<open>nm_assert\<close> has no effect; \<open>nm_assert_se\<close> needs no proviso.
\<close>

theorem asserts_can_be_off:
  "nm_assert_se True cond s = Some s' \<Longrightarrow> nm_assert_se False cond s = Some s'"
  "nm_assert True cond s = Some s \<Longrightarrow> nm_assert False cond s = Some s"
  by (auto simp: nm_assert_def nm_assert_se_def split: prod.splits if_splits)

text \<open>
  The nullable cast checks the wrong way round: it accepts every object, also one of another type,
  and stops at \<open>NULL\<close>, which it is for.
\<close>

theorem gobject_cast_inverted:
  "NM_GOBJECT_CAST_assert True is_check (Some p) = Some (Some p)"
  "\<not> is_check None \<Longrightarrow> NM_GOBJECT_CAST_assert True is_check None = None"
  by (simp_all add: NM_GOBJECT_CAST_assert_def nm_assert_def)

section \<open>Lookup tables and quarks\<close>

text \<open>The items of a generated function are the cases of a \<open>switch\<close>; duplicates do not compile.\<close>

datatype 'r lookup_item = LOOKUP_ITEM int 'r | ITEM_IGNORE int | ITEM_IGNORE_OTHER

fun item_case :: "'r lookup_item \<Rightarrow> int option" where
  "item_case (LOOKUP_ITEM v n) = Some v"
| "item_case (ITEM_IGNORE v) = Some v"
| "item_case ITEM_IGNORE_OTHER = None"

fun switch_items :: "'r lookup_item list \<Rightarrow> int \<Rightarrow> 'r option" where
  "switch_items [] val = None"
| "switch_items (LOOKUP_ITEM v n # items) val = (if val = v then Some n else switch_items items val)"
| "switch_items (ITEM_IGNORE v # items) val = (if val = v then None else switch_items items val)"
| "switch_items (ITEM_IGNORE_OTHER # items) val = switch_items items val"

definition NM_UTILS_LOOKUP_DEFINE :: "'r \<Rightarrow> 'r lookup_item list \<Rightarrow> int \<Rightarrow> 'r option" where
  "NM_UTILS_LOOKUP_DEFINE unknown_val items val =
     (if distinct (map item_case items)
      then Some (case switch_items items val of Some n \<Rightarrow> n | None \<Rightarrow> unknown_val)
      else None)"

theorem lookup_define_items:
  assumes "distinct (map item_case items)" "LOOKUP_ITEM v n \<in> set items"
  shows "NM_UTILS_LOOKUP_DEFINE unknown items v = Some n"
proof -
  have "switch_items items v = Some n"
    using assms
  proof (induction items)
    case (Cons i items)
    show ?case
    proof (cases "i = LOOKUP_ITEM v n")
      case False
      with Cons.prems have "LOOKUP_ITEM v n \<in> set items" by simp
      moreover from this have "Some v \<in> item_case ` set items" by force
      ultimately show ?thesis using Cons by (cases i) auto
    qed simp
  qed simp
  with assms(1) show ?thesis by (simp add: NM_UTILS_LOOKUP_DEFINE_def)
qed

theorem lookup_define_items_witness:
  "NM_UTILS_LOOKUP_DEFINE ''?'' [ITEM_IGNORE 0, LOOKUP_ITEM 1 ''one'', ITEM_IGNORE_OTHER] 1 = Some ''one''"
  by (rule lookup_define_items) simp_all

text \<open>The static variable of a cached quark, 0 before the first use.\<close>

definition NM_CACHED_QUARK :: "(string \<Rightarrow> nat) \<Rightarrow> string \<Rightarrow> nat \<Rightarrow> nat \<times> nat" where
  "NM_CACHED_QUARK quark_from_string str cached =
     (if cached \<noteq> 0 then (cached, cached)
      else (let q = quark_from_string str in (q, q)))"

theorem cached_quark_stable:
  assumes "cached \<in> {0, quark_from_string str}"
  shows "NM_CACHED_QUARK quark_from_string str cached = (quark_from_string str, quark_from_string str)"
  using assms by (auto simp: NM_CACHED_QUARK_def Let_def)

theorem cached_quark_stable_witness: "NM_CACHED_QUARK length ''ab'' 0 = (2, 2)"
  using cached_quark_stable [of 0 length "''ab''"] by simp

section \<open>Evaluation of membership tests\<close>

text \<open>An argument is a value with an effect; \<open>||\<close> stops at the first that is equal, \<open>|\<close> does not.\<close>

fun in_set_run :: "bool \<Rightarrow> 'a \<Rightarrow> ('s \<Rightarrow> 'a \<times> 's) list \<Rightarrow> 's \<Rightarrow> bool \<times> 's" where
  "in_set_run short x [] s = (False, s)"
| "in_set_run short x (y # ys) s =
     (case y s of (v, s) \<Rightarrow>
        if short \<and> x = v then (True, s)
        else (case in_set_run short x ys s of (b, s) \<Rightarrow> (x = v \<or> b, s)))"

definition NM_IN_SET_SE :: "'a \<Rightarrow> ('s \<Rightarrow> 'a \<times> 's) list \<Rightarrow> 's \<Rightarrow> bool \<times> 's" where
  "NM_IN_SET_SE x ys s = in_set_run False x ys s"

text \<open>Both tests agree on arguments whose values do not depend on the state, and \<open>SE\<close> runs them all.\<close>

theorem in_set_se_runs_all:
  "NM_IN_SET_SE x (map (\<lambda>(v, f) s. (v, f s)) ys) s = (NM_IN_SET x (map fst ys), fold (\<lambda>(v, f). f) ys s)"
  "fst (in_set_run True x (map (\<lambda>(v, f) s. (v, f s)) ys) s) = NM_IN_SET x (map fst ys)"
proof -
  show "fst (in_set_run True x (map (\<lambda>(v, f) s. (v, f s)) ys) s) = NM_IN_SET x (map fst ys)"
    by (induction ys arbitrary: s) (auto simp: NM_IN_SET_def in_set_eval_iff split: prod.splits)
  show "NM_IN_SET_SE x (map (\<lambda>(v, f) s. (v, f s)) ys) s = (NM_IN_SET x (map fst ys), fold (\<lambda>(v, f). f) ys s)"
    unfolding NM_IN_SET_SE_def
    by (induction ys arbitrary: s) (auto simp: NM_IN_SET_def in_set_eval_iff split: prod.splits)
qed

section \<open>Flags, buffers, slices\<close>

definition NM_FLAGS_HAS :: "'a::len word \<Rightarrow> 'a word \<Rightarrow> bool option" where
  "NM_FLAGS_HAS flags check =
     (if 0 < check \<and> check AND (check - 1) = 0 then Some (NM_FLAGS_ANY flags check) else None)"

text \<open>
  A buffer of the size of a pointer, 8 bytes, is refused; the text must fit where assertions are on.
  Into a buffer of no byte nothing is written, not even the terminator.
\<close>

definition nm_sprintf_buf :: "bool \<Rightarrow> nat \<Rightarrow> string \<Rightarrow> string option" where
  "nm_sprintf_buf more_asserts size_of t =
     (if size_of = 8 then None
      else map_option (\<lambda>_. snprintf_text size_of t) (nm_assert more_asserts (\<lambda>s. (length t < size_of, s)) ()))"

definition nm_sprintf_bufa :: "bool \<Rightarrow> nat \<Rightarrow> string \<Rightarrow> string option" where
  "nm_sprintf_bufa more_asserts n_elements t =
     (if n_elements = 0 then None
      else map_option (\<lambda>_. snprintf_text n_elements t)
             (nm_assert more_asserts (\<lambda>s. (length t < n_elements, s)) ()))"

theorem sprintf_bufa_text:
  "nm_sprintf_bufa True n t = Some r \<longleftrightarrow> length t < n \<and> r = t"
  "\<exists>r. nm_sprintf_bufa False (Suc n) t = Some r \<and> length r \<le> n \<and> r = take n t"
  by (auto simp: nm_sprintf_bufa_def nm_assert_def snprintf_text_def)

end
