(* ===== verification/NM_Glib.thy ===== *)
theory NM_Glib
  imports NM_Prelude "HOL-Library.AList"
begin

text \<open>
  \<open>shared/nm-utils/nm-glib.h\<close>: replacements for functions that older versions of GLib lack or
  that changed. Hash tables are association lists with distinct keys, pointer arrays are lists. Each
  replacement is compared with the documented behaviour of the function it stands for.
\<close>

section \<open>Versions\<close>

text \<open>A version is major, minor and micro; \<open>GLIB_CHECK_VERSION\<close> compares with the one compiled against.\<close>

type_synonym version = "nat \<times> nat \<times> nat"

definition version_at_least :: "version \<Rightarrow> version \<Rightarrow> bool" where
  "version_at_least v w =
     (case (v, w) of ((a, b, c), (major, minor, micro)) \<Rightarrow>
        a > major \<or> (a = major \<and> (b > minor \<or> (b = minor \<and> c \<ge> micro))))"

definition nm_glib_check_version :: "version \<Rightarrow> version \<Rightarrow> version \<Rightarrow> bool" where
  "nm_glib_check_version compiled running wanted =
     (case (running, wanted) of
        ((glib_major, glib_minor, glib_micro), (major, minor, micro)) \<Rightarrow>
          version_at_least compiled wanted
          \<or> (glib_major > major
             \<or> (glib_major = major \<and> glib_minor > minor)
             \<or> (glib_major = major \<and> glib_minor = minor \<and> glib_micro < micro)))"

section \<open>Hash tables\<close>

text \<open>
  \<open>g_hash_table_replace\<close> also replaces the stored key, which is equal to the new one, so the two
  differ in memory only. Since version 2.40 they say whether the key is new: \<open>native\<close>.
\<close>

definition table_contains :: "('k \<times> 'v) list \<Rightarrow> 'k \<Rightarrow> bool" where
  "table_contains hash key = (key \<in> fst ` set hash)"

definition table_put :: "'k \<Rightarrow> 'v \<Rightarrow> ('k \<times> 'v) list \<Rightarrow> bool \<times> ('k \<times> 'v) list" where
  "table_put key v hash = (key \<notin> fst ` set hash, AList.update key v hash)"

definition nm_g_hash_table_replace ::
  "bool \<Rightarrow> ('k \<times> 'v) list \<Rightarrow> 'k \<Rightarrow> 'v \<Rightarrow> bool \<times> ('k \<times> 'v) list" where
  "nm_g_hash_table_replace native hash key v =
     (if native then table_put key v hash
      else (let contained = table_contains hash key; hash = snd (table_put key v hash) in (\<not> contained, hash)))"

definition nm_g_hash_table_insert ::
  "bool \<Rightarrow> ('k \<times> 'v) list \<Rightarrow> 'k \<Rightarrow> 'v \<Rightarrow> bool \<times> ('k \<times> 'v) list" where
  "nm_g_hash_table_insert native hash key v =
     (if native then table_put key v hash
      else (let contained = table_contains hash key; hash = snd (table_put key v hash) in (\<not> contained, hash)))"

definition nm_g_hash_table_add :: "bool \<Rightarrow> ('k \<times> 'k) list \<Rightarrow> 'k \<Rightarrow> bool \<times> ('k \<times> 'k) list" where
  "nm_g_hash_table_add native hash key =
     (if native then table_put key key hash
      else (let contained = table_contains hash key; hash = snd (table_put key key hash) in (\<not> contained, hash)))"

text \<open>The loop over the entries fills an array with one place more than entries.\<close>

fun fill_keys :: "('k \<times> 'v) list \<Rightarrow> nat \<Rightarrow> 'k option list \<Rightarrow> nat \<times> 'k option list" where
  "fill_keys [] i ret = (i, ret)"
| "fill_keys (e # es) i ret = fill_keys es (Suc i) (ret[i := Some (fst e)])"

definition nm_g_hash_table_get_keys_as_array :: "('k \<times> 'v) list \<Rightarrow> 'k option list \<times> nat" where
  "nm_g_hash_table_get_keys_as_array hash =
     (let ret = replicate (length hash + 1) None; (i, ret) = fill_keys hash 0 ret
      in (ret[i := None], i))"

section \<open>Arrays and vectors\<close>

text \<open>\<open>memmove\<close> of \<open>n\<close> pointers from \<open>index\<close> to the place after it.\<close>

definition move_up :: "nat \<Rightarrow> nat \<Rightarrow> 'a list \<Rightarrow> 'a list" where
  "move_up index n xs = take (Suc index) xs @ take n (drop index xs) @ drop (Suc index + n) xs"

text \<open>Arguments that \<open>g_return_if_fail\<close> refuses leave the array alone.\<close>

definition nm_g_ptr_array_insert :: "'a list \<Rightarrow> int \<Rightarrow> 'a \<Rightarrow> 'a list" where
  "nm_g_ptr_array_insert pdata index x =
     (if index < -1 then pdata
      else if index > int (length pdata) then pdata
      else
        (let pdata = pdata @ [x]
         in if index \<noteq> -1 \<and> index \<noteq> int (length pdata) - 1
            then (let i = nat index in (move_up i (length pdata - i - 1) pdata)[i := x])
            else pdata))"

definition nm_g_steal_pointer :: "'a option \<Rightarrow> 'a option \<times> 'a option" where
  "nm_g_steal_pointer pp = (let r = pp; pp = None in (r, pp))"

fun strv_contains_loop :: "string list \<Rightarrow> string \<Rightarrow> bool" where
  "strv_contains_loop [] str = False"
| "strv_contains_loop (s # strv) str = (if str = s then True else strv_contains_loop strv str)"

definition nm_g_strv_contains :: "string list option \<Rightarrow> cstr \<Rightarrow> bool" where
  "nm_g_strv_contains strv str =
     (case (strv, str) of
        (Some v, Some s) \<Rightarrow> strv_contains_loop v s
      | _ \<Rightarrow> False)"

section \<open>Properties\<close>

text \<open>
  The check of the running version is wrong in one case: between versions that differ in the last
  number only it holds for the older ones.
\<close>

theorem check_version_inverted:
  "nm_glib_check_version compiled running wanted \<longleftrightarrow> version_at_least compiled wanted
   \<or> (if fst running = fst wanted \<and> fst (snd running) = fst (snd wanted)
      then \<not> version_at_least running wanted else version_at_least running wanted)"
  by (auto simp: nm_glib_check_version_def version_at_least_def split: prod.splits)

text \<open>The replacements for old versions of GLib behave as the functions of new ones.\<close>

theorem hash_compat:
  "nm_g_hash_table_replace native hash key v = table_put key v hash
   \<and> nm_g_hash_table_insert native hash key v = table_put key v hash
   \<and> nm_g_hash_table_add native keys key = table_put key key keys"
  by (simp add: nm_g_hash_table_replace_def nm_g_hash_table_insert_def nm_g_hash_table_add_def
      table_put_def table_contains_def)

lemma fill_keys_result:
  "i + length es < length ret \<Longrightarrow>
   fill_keys es i ret = (i + length es, take i ret @ map (Some \<circ> fst) es @ drop (i + length es) ret)"
proof (induction es arbitrary: i ret)
  case (Cons e es)
  have "drop (Suc (i + length es)) (ret[i := Some (fst e)]) = drop (Suc (i + length es)) ret" by simp
  moreover have "take (Suc i) (ret[i := Some (fst e)]) = take i ret @ [Some (fst e)]"
    using Cons.prems by (simp add: take_Suc_conv_app_nth)
  ultimately show ?case using Cons by simp
qed simp

text \<open>The array holds every key once, in the order of the table, and ends with \<open>NULL\<close>.\<close>

theorem keys_array:
  fixes hash :: "('k \<times> 'v) list"
  shows "nm_g_hash_table_get_keys_as_array hash = (map (Some \<circ> fst) hash @ [None], length hash)"
proof -
  define ret where "ret = (replicate (length hash + 1) None :: 'k option list)"
  have "fill_keys hash 0 ret = (length hash, map (Some \<circ> fst) hash @ drop (length hash) ret)"
    using fill_keys_result [of 0 hash ret] by (simp add: ret_def)
  moreover have "drop (length hash) ret = [None]" unfolding ret_def drop_replicate by simp
  ultimately show ?thesis
    unfolding nm_g_hash_table_get_keys_as_array_def Let_def ret_def [symmetric]
    by (simp add: list_update_append)
qed

text \<open>
  Inserting into a pointer array puts the element at the index, at the end for -1 and for the
  length, and keeps the others in order.
\<close>

theorem ptr_array_insert_at:
  assumes "-1 \<le> index" "index \<le> int (length xs)"
  shows "nm_g_ptr_array_insert xs index x =
    (let i = (if index = -1 then length xs else nat index) in take i xs @ x # drop i xs)"
proof (cases "index = -1 \<or> index = int (length xs)")
  case True
  then show ?thesis using assms by (auto simp: nm_g_ptr_array_insert_def)
next
  case False
  define i where "i = nat index"
  have i: "index = int i" "i < length xs" using False assms by (auto simp: i_def)
  have "move_up i (length xs - i) (xs @ [x]) = take (Suc i) xs @ drop i xs"
    using i(2) by (simp add: move_up_def)
  moreover have "(take (Suc i) xs @ drop i xs)[i := x] = take i xs @ x # drop i xs"
    using i(2) by (simp add: list_update_append take_Suc_conv_app_nth)
  ultimately show ?thesis using i by (simp add: nm_g_ptr_array_insert_def)
qed

theorem ptr_array_insert_at_witness: "nm_g_ptr_array_insert [1, 2, 3 :: nat] 1 9 = [1, 9, 2, 3]"
  using ptr_array_insert_at [of 1 "[1, 2, 3 :: nat]" 9] by simp

end
