(* ===== verification/NM_Cleanup.thy ===== *)
theory NM_Cleanup
  imports NM_Macros NM_Glib
begin

text \<open>
  The cleanup attributes: \<open>gs_*\<close> of \<open>shared/nm-utils/gsystem-local-alloc.h\<close> and \<open>nm_auto_*\<close> of
  \<open>shared/nm-utils/nm-macros-internal.h\<close>. A local variable with such an attribute is handed to its
  function when it goes out of scope, the last one declared first, as the compiler documents.
\<close>

section \<open>Destructors\<close>

datatype destructor =
    G_FREE | G_OBJECT_UNREF | G_VARIANT_UNREF | G_VARIANT_ITER_FREE | G_VARIANT_BUILDER_UNREF
  | G_ARRAY_UNREF | G_PTR_ARRAY_UNREF | G_HASH_TABLE_UNREF | G_LIST_FREE | G_SLIST_FREE
  | G_CHECKSUM_FREE | G_BYTES_UNREF | G_STRFREEV | G_ERROR_FREE | G_KEY_FILE_UNREF
  | C_FREE | NM_FREE_SECRET | G_VALUE_UNSET | G_TYPE_CLASS_UNREF | G_STRING_FREE | FCLOSE
  | G_SOURCE_UNREF

text \<open>The destructors that are documented (\<open>nm_free_secret\<close>: defined) to take \<open>NULL\<close>.\<close>

definition takes_null :: "destructor \<Rightarrow> bool" where
  "takes_null f \<longleftrightarrow> f \<in> {G_FREE, G_LIST_FREE, G_SLIST_FREE, G_STRFREEV, C_FREE, NM_FREE_SECRET}"

text \<open>The calls made, the descriptors closed, and \<open>errno\<close>; a pointer is a number or \<open>NULL\<close>.\<close>

record cleanup_state =
  destroyed :: "(destructor \<times> nat option) list"
  closed :: "int list"
  errno_now :: errno

definition destroy :: "destructor \<Rightarrow> nat option \<Rightarrow> cleanup_state \<Rightarrow> cleanup_state" where
  "destroy f v s = s\<lparr>destroyed := destroyed s @ [(f, v)]\<rparr>"

definition GS_DEFINE_CLEANUP_FUNCTION :: "destructor \<Rightarrow> nat option \<Rightarrow> cleanup_state \<Rightarrow> cleanup_state" where
  "GS_DEFINE_CLEANUP_FUNCTION f v s = destroy f v s"

definition GS_DEFINE_CLEANUP_FUNCTION0 :: "destructor \<Rightarrow> nat option \<Rightarrow> cleanup_state \<Rightarrow> cleanup_state" where
  "GS_DEFINE_CLEANUP_FUNCTION0 f v s = (if v \<noteq> None then destroy f v s else s)"

section \<open>Attributes\<close>

datatype gs_attr =
    gs_free | gs_unref_object | gs_unref_variant | gs_free_variant_iter | gs_unref_variant_builder
  | gs_unref_array | gs_unref_ptrarray | gs_unref_hashtable | gs_free_list | gs_free_slist
  | gs_free_checksum | gs_unref_bytes | gs_strfreev | gs_free_error | gs_unref_keyfile

fun gs_local :: "gs_attr \<Rightarrow> nat option \<Rightarrow> cleanup_state \<Rightarrow> cleanup_state" where
  "gs_local gs_free = GS_DEFINE_CLEANUP_FUNCTION G_FREE"
| "gs_local gs_unref_object = GS_DEFINE_CLEANUP_FUNCTION0 G_OBJECT_UNREF"
| "gs_local gs_unref_variant = GS_DEFINE_CLEANUP_FUNCTION0 G_VARIANT_UNREF"
| "gs_local gs_free_variant_iter = GS_DEFINE_CLEANUP_FUNCTION0 G_VARIANT_ITER_FREE"
| "gs_local gs_unref_variant_builder = GS_DEFINE_CLEANUP_FUNCTION0 G_VARIANT_BUILDER_UNREF"
| "gs_local gs_unref_array = GS_DEFINE_CLEANUP_FUNCTION0 G_ARRAY_UNREF"
| "gs_local gs_unref_ptrarray = GS_DEFINE_CLEANUP_FUNCTION0 G_PTR_ARRAY_UNREF"
| "gs_local gs_unref_hashtable = GS_DEFINE_CLEANUP_FUNCTION0 G_HASH_TABLE_UNREF"
| "gs_local gs_free_list = GS_DEFINE_CLEANUP_FUNCTION G_LIST_FREE"
| "gs_local gs_free_slist = GS_DEFINE_CLEANUP_FUNCTION G_SLIST_FREE"
| "gs_local gs_free_checksum = GS_DEFINE_CLEANUP_FUNCTION0 G_CHECKSUM_FREE"
| "gs_local gs_unref_bytes = GS_DEFINE_CLEANUP_FUNCTION0 G_BYTES_UNREF"
| "gs_local gs_strfreev = GS_DEFINE_CLEANUP_FUNCTION G_STRFREEV"
| "gs_local gs_free_error = GS_DEFINE_CLEANUP_FUNCTION0 G_ERROR_FREE"
| "gs_local gs_unref_keyfile = GS_DEFINE_CLEANUP_FUNCTION0 G_KEY_FILE_UNREF"

datatype nm_attr =
    nm_auto_free | nm_auto_free_secret | nm_auto_unset_gvalue | nm_auto_unref_gtypeclass
  | nm_auto_free_gstring | nm_auto_unref_gsource

text \<open>A source leaves its variable before the call; a \<open>GValue\<close> is a local structure, never \<open>NULL\<close>.\<close>

definition nm_auto_unref_gsource_impl :: "nat option \<Rightarrow> cleanup_state \<Rightarrow> cleanup_state" where
  "nm_auto_unref_gsource_impl v s =
     (case v of None \<Rightarrow> s | Some p \<Rightarrow> destroy G_SOURCE_UNREF (fst (nm_g_steal_pointer (Some p))) s)"

fun nm_auto_local :: "nm_attr \<Rightarrow> nat option \<Rightarrow> cleanup_state \<Rightarrow> cleanup_state" where
  "nm_auto_local nm_auto_free v s = GS_DEFINE_CLEANUP_FUNCTION C_FREE v s"
| "nm_auto_local nm_auto_free_secret v s = destroy NM_FREE_SECRET v s"
| "nm_auto_local nm_auto_unset_gvalue v s = destroy G_VALUE_UNSET v s"
| "nm_auto_local nm_auto_unref_gtypeclass v s = (if v \<noteq> None then destroy G_TYPE_CLASS_UNREF v s else s)"
| "nm_auto_local nm_auto_free_gstring v s = (if v \<noteq> None then destroy G_STRING_FREE v s else s)"
| "nm_auto_local nm_auto_unref_gsource v s = nm_auto_unref_gsource_impl v s"

text \<open>Descriptors: \<open>gs_fd_close\<close> leaves \<open>errno\<close> as \<open>close\<close> sets it, \<open>nm_auto_close\<close> restores it.\<close>

definition gs_cleanup_close_fdp :: "(int \<Rightarrow> errno) \<Rightarrow> int \<Rightarrow> cleanup_state \<Rightarrow> cleanup_state" where
  "gs_cleanup_close_fdp close_errno fd s =
     (if fd \<noteq> - 1 then s\<lparr>closed := fd # closed s, errno_now := close_errno fd\<rparr> else s)"

definition nm_auto_close :: "(int \<Rightarrow> errno) \<Rightarrow> int \<Rightarrow> cleanup_state \<Rightarrow> cleanup_state" where
  "nm_auto_close close_errno fd s =
     (let (c, e) = nm_auto_close_impl close_errno fd (closed s, errno_now s)
      in s\<lparr>closed := c, errno_now := e\<rparr>)"

definition nm_auto_fclose_impl :: "errno \<Rightarrow> nat option \<Rightarrow> cleanup_state \<Rightarrow> cleanup_state" where
  "nm_auto_fclose_impl fclose_errno fp s =
     (case fp of
        None \<Rightarrow> s
      | Some _ \<Rightarrow>
          (let errsv = errno_now s;
               s = (destroy FCLOSE fp s)\<lparr>errno_now := fclose_errno\<rparr>
           in s\<lparr>errno_now := errsv\<rparr>))"

definition nm_auto_protect_errno :: "errno \<Rightarrow> cleanup_state \<Rightarrow> cleanup_state" where
  "nm_auto_protect_errno saved_errno s = s\<lparr>errno_now := saved_errno\<rparr>"

section \<open>Leaving a scope\<close>

text \<open>\<open>close\<close> and \<open>fclose\<close> leave in \<open>errno\<close> what they are given with.\<close>

datatype local_var =
    GsLocal gs_attr "nat option"
  | NmLocal nm_attr "nat option"
  | GsFd int
  | NmFd int
  | NmFile errno "nat option"
  | ProtectErrno errno

fun cleanup :: "(int \<Rightarrow> errno) \<Rightarrow> local_var \<Rightarrow> cleanup_state \<Rightarrow> cleanup_state" where
  "cleanup ce (GsLocal a v) = gs_local a v"
| "cleanup ce (NmLocal a v) = nm_auto_local a v"
| "cleanup ce (GsFd fd) = gs_cleanup_close_fdp ce fd"
| "cleanup ce (NmFd fd) = nm_auto_close ce fd"
| "cleanup ce (NmFile fe fp) = nm_auto_fclose_impl fe fp"
| "cleanup ce (ProtectErrno e) = nm_auto_protect_errno e"

definition leave_scope :: "(int \<Rightarrow> errno) \<Rightarrow> local_var list \<Rightarrow> cleanup_state \<Rightarrow> cleanup_state" where
  "leave_scope ce vars s = fold (cleanup ce) (rev vars) s"

section \<open>Facts\<close>

text \<open>The pointer a variable owns, and whether a variable of this kind always owns one.\<close>

fun owned :: "local_var \<Rightarrow> nat list" where
  "owned (GsLocal a v) = (case v of None \<Rightarrow> [] | Some p \<Rightarrow> [p])"
| "owned (NmLocal a v) = (case v of None \<Rightarrow> [] | Some p \<Rightarrow> [p])"
| "owned (NmFile fe v) = (case v of None \<Rightarrow> [] | Some p \<Rightarrow> [p])"
| "owned _ = []"

fun well_used :: "local_var \<Rightarrow> bool" where
  "well_used (NmLocal nm_auto_unset_gvalue v) \<longleftrightarrow> v \<noteq> None"
| "well_used _ \<longleftrightarrow> True"

definition freed :: "cleanup_state \<Rightarrow> nat list" where
  "freed s = List.map_filter snd (destroyed s)"

definition null_safe :: "cleanup_state \<Rightarrow> bool" where
  "null_safe s \<longleftrightarrow> (\<forall>(f, v) \<in> set (destroyed s). v = None \<longrightarrow> takes_null f)"

lemma freed_destroy: "freed (destroy f v s) = freed s @ (case v of None \<Rightarrow> [] | Some p \<Rightarrow> [p])"
  by (simp add: freed_def destroy_def map_filter_def split: option.split)

lemma null_safe_destroy: "null_safe (destroy f v s) \<longleftrightarrow> null_safe s \<and> (v = None \<longrightarrow> takes_null f)"
  by (auto simp: null_safe_def destroy_def)

lemma state_update [simp]:
  "freed (s\<lparr>closed := c\<rparr>) = freed s" "freed (s\<lparr>errno_now := e\<rparr>) = freed s"
  "null_safe (s\<lparr>closed := c\<rparr>) = null_safe s" "null_safe (s\<lparr>errno_now := e\<rparr>) = null_safe s"
  by (simp_all add: freed_def null_safe_def)

lemma cleanup_effect:
  assumes "well_used v"
  shows "freed (cleanup ce v s) = freed s @ owned v" "null_safe (cleanup ce v s) \<longleftrightarrow> null_safe s"
proof -
  have "freed (cleanup ce v s) = freed s @ owned v \<and> (null_safe (cleanup ce v s) \<longleftrightarrow> null_safe s)"
  proof (cases v)
    case (GsLocal a p)
    then show ?thesis
      by (cases a) (simp_all add: GS_DEFINE_CLEANUP_FUNCTION_def GS_DEFINE_CLEANUP_FUNCTION0_def
          freed_destroy null_safe_destroy takes_null_def split: option.split)
  next
    case (NmLocal a p)
    with assms show ?thesis
      by (cases a) (auto simp: GS_DEFINE_CLEANUP_FUNCTION_def nm_auto_unref_gsource_impl_def nm_g_steal_pointer_def
          freed_destroy null_safe_destroy takes_null_def split: option.split)
  next
    case (NmFile fe fp)
    then show ?thesis
      by (simp add: nm_auto_fclose_impl_def freed_destroy null_safe_destroy Let_def split: option.split)
  qed (simp_all add: gs_cleanup_close_fdp_def nm_auto_close_def nm_auto_protect_errno_def split: prod.split)
  then show "freed (cleanup ce v s) = freed s @ owned v" "null_safe (cleanup ce v s) \<longleftrightarrow> null_safe s"
    by blast+
qed

text \<open>
  Leaving a scope frees what its variables own, the last declared first and each once, never passes
  \<open>NULL\<close> to a destructor that does not take it, and restores \<open>errno\<close> if that is declared first.
\<close>

theorem leave_scope_frees:
  assumes "list_all well_used vars"
  shows "freed (leave_scope ce vars s) = freed s @ concat (map owned (rev vars))
    \<and> (null_safe (leave_scope ce vars s) \<longleftrightarrow> null_safe s)"
proof -
  have "freed (fold (cleanup ce) vs s) = freed s @ concat (map owned vs)
      \<and> (null_safe (fold (cleanup ce) vs s) \<longleftrightarrow> null_safe s)" if "list_all well_used vs" for vs
    using that by (induction vs arbitrary: s) (simp_all add: cleanup_effect)
  from this [of "rev vars"] assms show ?thesis by (simp add: leave_scope_def)
qed

theorem leave_scope_frees_witness:
  "freed (leave_scope (\<lambda>_. EIO) [GsLocal gs_free (Some 1), GsLocal gs_free_error None, NmLocal nm_auto_free_gstring (Some 2)]
     \<lparr>destroyed = [], closed = [], errno_now = ENONE\<rparr>) = [2, 1]"
  using leave_scope_frees [of "[GsLocal gs_free (Some 1), GsLocal gs_free_error None, NmLocal nm_auto_free_gstring (Some 2)]"
      "\<lambda>_. EIO" "\<lparr>destroyed = [], closed = [], errno_now = ENONE\<rparr>"]
  by (simp add: freed_def map_filter_simps)

theorem leave_scope_errno:
  "errno_now (leave_scope ce (ProtectErrno e # vars) s) = e"
  by (simp add: leave_scope_def nm_auto_protect_errno_def)

lemma nm_auto_keeps_errno:
  "errno_now (nm_auto_close ce fd s) = errno_now s" "errno_now (nm_auto_fclose_impl fe fp s) = errno_now s"
  by (simp_all add: nm_auto_close_def nm_auto_close_impl_def nm_auto_fclose_impl_def destroy_def Let_def
      split: option.split)

end
