(* ===== verification/NM_Headers.thy ===== *)
theory NM_Headers
  imports NM_Compare NM_Addresses
begin

text \<open>
  The inline functions and macros of \<open>shared/nm-utils/nm-shared-utils.h\<close> that are not wrappers:
  address families, the comparison macros and the comparisons of structures made of them, the names
  of enumeration values, time units. A comparison macro returns from the function it stands in or
  lets it go on: \<open>k\<close> is the rest of that function.
\<close>

section \<open>Address families\<close>

definition nm_utils_addr_family_to_char :: "af \<Rightarrow> char" where
  "nm_utils_addr_family_to_char addr_family =
     (case addr_family of AF_INET \<Rightarrow> CHR ''4'' | AF_INET6 \<Rightarrow> CHR ''6'' | _ \<Rightarrow> CHR 0x3F)"

definition nm_utils_addr_family_to_size :: "af \<Rightarrow> nat" where
  "nm_utils_addr_family_to_size addr_family = (case addr_family of AF_INET \<Rightarrow> 4 | AF_INET6 \<Rightarrow> 16 | _ \<Rightarrow> 0)"

text \<open>The union is 16 bytes; \<open>None\<close> if the destination is too small.\<close>

definition nm_ip_addr_set :: "af \<Rightarrow> 8 word list \<Rightarrow> 8 word list \<Rightarrow> 8 word list option" where
  "nm_ip_addr_set addr_family dst src =
     (let n = (if addr_family \<noteq> AF_INET6 then 4 else 16)
      in if n \<le> length dst then Some (take n src @ drop n dst) else None)"

section \<open>Comparison macros\<close>

definition NM_CMP_RETURN :: "int \<Rightarrow> int \<Rightarrow> int" where
  "NM_CMP_RETURN c k = (if c \<noteq> 0 then (if c < 0 then - 1 else 1) else k)"

text \<open>Pointers; \<open>None\<close> is \<open>NULL\<close>.\<close>

definition NM_CMP_SELF :: "'p option \<Rightarrow> 'p option \<Rightarrow> int \<Rightarrow> int" where
  "NM_CMP_SELF a b k = (if a = b then 0 else if a = None then - 1 else if b = None then 1 else k)"

definition NM_CMP_DIRECT_THEN :: "'a::linorder \<Rightarrow> 'a \<Rightarrow> int \<Rightarrow> int" where
  "NM_CMP_DIRECT_THEN a b k = (if a \<noteq> b then (if a < b then - 1 else 1) else k)"

text \<open>\<open>memcmp\<close> of the standard library, on the first \<open>n\<close> bytes.\<close>

fun memcmp :: "8 word list \<Rightarrow> 8 word list \<Rightarrow> nat \<Rightarrow> int" where
  "memcmp (a # as) (b # bs) (Suc n) = (if a = b then memcmp as bs n else if a < b then - 1 else 1)"
| "memcmp _ _ _ = 0"

definition NM_CMP_DIRECT_MEMCMP :: "8 word list \<Rightarrow> 8 word list \<Rightarrow> nat \<Rightarrow> int \<Rightarrow> int" where
  "NM_CMP_DIRECT_MEMCMP a b n k = NM_CMP_RETURN (memcmp a b n) k"

definition NM_CMP_DIRECT_STRCMP0 :: "cstr \<Rightarrow> cstr \<Rightarrow> int \<Rightarrow> int" where
  "NM_CMP_DIRECT_STRCMP0 a b k = NM_CMP_RETURN (strcmp0 a b) k"

definition NM_CMP_DIRECT_IN6ADDR :: "8 word list \<Rightarrow> 8 word list \<Rightarrow> int \<Rightarrow> int" where
  "NM_CMP_DIRECT_IN6ADDR a b k = NM_CMP_RETURN (memcmp a b 16) k"

text \<open>The macros on a field of two structures.\<close>

definition NM_CMP_FIELD :: "('s \<Rightarrow> 'a::linorder) \<Rightarrow> 's \<Rightarrow> 's \<Rightarrow> int \<Rightarrow> int" where
  "NM_CMP_FIELD field a b k = NM_CMP_DIRECT_THEN (field a) (field b) k"

definition NM_CMP_FIELD_UNSAFE :: "('s \<Rightarrow> 'a::linorder) \<Rightarrow> 's \<Rightarrow> 's \<Rightarrow> int \<Rightarrow> int" where
  "NM_CMP_FIELD_UNSAFE field a b k =
     (if field a \<noteq> field b then (if field a < field b then - 1 else 1) else k)"

definition NM_CMP_FIELD_BOOL :: "('s \<Rightarrow> int) \<Rightarrow> 's \<Rightarrow> 's \<Rightarrow> int \<Rightarrow> int" where
  "NM_CMP_FIELD_BOOL field a b k = NM_CMP_DIRECT_THEN (field a \<noteq> 0) (field b \<noteq> 0) k"

definition NM_CMP_FIELD_STR :: "('s \<Rightarrow> string) \<Rightarrow> 's \<Rightarrow> 's \<Rightarrow> int \<Rightarrow> int" where
  "NM_CMP_FIELD_STR field a b k = NM_CMP_RETURN (strcmp (field a) (field b)) k"

text \<open>An interned string is a pointer and its text; equal pointers have equal texts.\<close>

definition NM_CMP_FIELD_STR_INTERNED :: "('s \<Rightarrow> nat \<times> cstr) \<Rightarrow> 's \<Rightarrow> 's \<Rightarrow> int \<Rightarrow> int" where
  "NM_CMP_FIELD_STR_INTERNED field a b k =
     (if fst (field a) \<noteq> fst (field b) then NM_CMP_RETURN (strcmp0 (snd (field a)) (snd (field b))) k else k)"

definition NM_CMP_FIELD_STR0 :: "('s \<Rightarrow> cstr) \<Rightarrow> 's \<Rightarrow> 's \<Rightarrow> int \<Rightarrow> int" where
  "NM_CMP_FIELD_STR0 field a b k = NM_CMP_RETURN (strcmp0 (field a) (field b)) k"

definition NM_CMP_FIELD_MEMCMP_LEN :: "('s \<Rightarrow> 8 word list) \<Rightarrow> nat \<Rightarrow> 's \<Rightarrow> 's \<Rightarrow> int \<Rightarrow> int" where
  "NM_CMP_FIELD_MEMCMP_LEN field len a b k =
     NM_CMP_RETURN (memcmp (field a) (field b) (min len (length (field a)))) k"

definition NM_CMP_FIELD_MEMCMP :: "('s \<Rightarrow> 8 word list) \<Rightarrow> 's \<Rightarrow> 's \<Rightarrow> int \<Rightarrow> int" where
  "NM_CMP_FIELD_MEMCMP field a b k = NM_CMP_RETURN (memcmp (field a) (field b) (length (field a))) k"

definition NM_CMP_FIELD_IN6ADDR :: "('s \<Rightarrow> 8 word list) \<Rightarrow> 's \<Rightarrow> 's \<Rightarrow> int \<Rightarrow> int" where
  "NM_CMP_FIELD_IN6ADDR field a b k = NM_CMP_RETURN (memcmp (field a) (field b) 16) k"

section \<open>Names and units\<close>

text \<open>A buffer of length \<open>len\<close> and its text; without room for a terminator it is not touched.\<close>

definition enum2str :: "(int \<Rightarrow> cstr) \<Rightarrow> int \<Rightarrow> nat \<Rightarrow> string \<Rightarrow> string" where
  "enum2str names val len buf =
     (if len > 0
      then (case names val of
              Some s \<Rightarrow> take (len - 1) s
            | None \<Rightarrow> take (len - 1) (''('' @ dec_of_int val @ '')''))
      else buf)"

definition NM_UTILS_NS_PER_MSEC :: int where "NM_UTILS_NS_PER_MSEC = 1000000"

text \<open>The division of C truncates towards zero; \<open>gint64\<close> has room for the sum.\<close>

definition NM_UTILS_NS_TO_MSEC_CEIL :: "int \<Rightarrow> int" where
  "NM_UTILS_NS_TO_MSEC_CEIL nsec = (nsec + (NM_UTILS_NS_PER_MSEC - 1)) sdiv NM_UTILS_NS_PER_MSEC"

text \<open>The references of a variant and whether the first one is floating.\<close>

definition nm_g_variant_unref_floating :: "int \<times> bool \<Rightarrow> int \<times> bool" where
  "nm_g_variant_unref_floating var = (if snd var then (fst var - 1, snd var) else var)"

section \<open>Comparisons of structures\<close>

lemma strcmp_three_way: "three_way strcmp"
  by unfold_locales (auto intro: sgn_strcmp_flip strcmp_trans)

lemma strcmp0_three_way: "three_way strcmp0"
proof -
  have "strcmp0 a b = nm_utf8_collate0 strcmp a b" for a b
    by (cases a; cases b) (simp_all add: nm_utf8_collate0_def)
  then have "strcmp0 = nm_utf8_collate0 strcmp" by blast
  then show ?thesis using collate0_three_way [OF strcmp_three_way] by simp
qed

lemma memcmp_flip: "memcmp b a n = - memcmp a b n"
  by (induction a b n rule: memcmp.induct) auto

lemma memcmp_trans:
  "length a = length b \<Longrightarrow> length b = length c \<Longrightarrow> memcmp a b n \<le> 0 \<Longrightarrow> memcmp b c n \<le> 0 \<Longrightarrow> memcmp a c n \<le> 0"
proof (induction a b n arbitrary: c rule: memcmp.induct)
  case (1 x a y b n)
  then show ?case by (cases c) (auto split: if_splits)
qed auto

lemma direct_three_way: "three_way (NM_CMP_DIRECT :: 'a::linorder \<Rightarrow> 'a \<Rightarrow> int)"
  by unfold_locales (auto simp: NM_CMP_DIRECT_def split: if_splits)

lemma cmp_return_le: "NM_CMP_RETURN x k \<le> 0 \<longleftrightarrow> x < 0 \<or> (x = 0 \<and> k \<le> 0)"
  by (simp add: NM_CMP_RETURN_def)

lemma sgn_cmp_return: "sgn (NM_CMP_RETURN x k) = (if x = 0 then sgn k else sgn x)"
  by (simp add: NM_CMP_RETURN_def sgn_if)

lemma three_way_on:
  assumes "three_way c" shows "three_way (\<lambda>a b. c (f a) (f b))"
proof unfold_locales
  show "sgn (c (f b) (f a)) = - sgn (c (f a) (f b))" for a b by (rule three_way.flip [OF assms])
  show "c (f x) (f z) \<le> 0" if "c (f x) (f y) \<le> 0" "c (f y) (f z) \<le> 0" for x y z
    by (rule three_way.trans [OF assms that])
qed

text \<open>A macro in front of the rest of a function: the lexicographic combination.\<close>

lemma cmp_then:
  assumes "three_way c" "three_way k"
  shows "three_way (\<lambda>a b. NM_CMP_RETURN (c a b) (k a b))"
proof unfold_locales
  show "sgn (NM_CMP_RETURN (c b a) (k b a)) = - sgn (NM_CMP_RETURN (c a b) (k a b))" for a b
    using three_way.flip [OF assms(1), of b a] three_way.flip [OF assms(2), of b a]
      three_way.equal_flip [OF assms(1), of a b] by (simp add: sgn_cmp_return)
  show "NM_CMP_RETURN (c x z) (k x z) \<le> 0"
    if "NM_CMP_RETURN (c x y) (k x y) \<le> 0" "NM_CMP_RETURN (c y z) (k y z) \<le> 0" for x y z
  proof -
    note le = three_way.trans [OF assms(1)] and flip = three_way.le_flip [OF assms(1)]
    have xy: "c x y \<le> 0" and yz: "c y z \<le> 0" using that by (auto simp: cmp_return_le)
    have xz: "c x z \<le> 0" by (rule le [OF xy yz])
    show ?thesis
    proof (cases "c x z = 0")
      case True
      then have "c z x \<le> 0" using flip [of z x] by simp
      then have "c x y = 0" "c y z = 0"
        using le [OF yz] le [OF _ xy] flip [of y x] flip [of z y] xy yz by force+
      then show ?thesis using that True three_way.trans [OF assms(2)] by (auto simp: cmp_return_le)
    qed (use xz in \<open>simp add: cmp_return_le\<close>)
  qed
qed

lemma direct_then: "NM_CMP_DIRECT_THEN a b k = NM_CMP_RETURN (NM_CMP_DIRECT a b) k"
  by (simp add: NM_CMP_DIRECT_THEN_def NM_CMP_RETURN_def NM_CMP_DIRECT_def)

lemma memcmp_three_way:
  assumes "\<And>a. length (f a) = m"
  shows "three_way (\<lambda>a b. memcmp (f a) (f b) n)"
proof unfold_locales
  show "sgn (memcmp (f b) (f a) n) = - sgn (memcmp (f a) (f b) n)" for a b
    by (subst memcmp_flip) simp
  show "memcmp (f a) (f c) n \<le> 0" if "memcmp (f a) (f b) n \<le> 0" "memcmp (f b) (f c) n \<le> 0" for a b c
    by (rule memcmp_trans [OF _ _ that]) (simp_all add: assms)
qed

lemma interned_then:
  assumes "\<And>a b. fst (f a) = fst (f b) \<Longrightarrow> snd (f a) = snd (f b)"
  shows "NM_CMP_FIELD_STR_INTERNED f a b k = NM_CMP_RETURN (strcmp0 (snd (f a)) (snd (f b))) k"
  using assms [of a b] three_way.self [OF strcmp0_three_way]
  by (simp add: NM_CMP_FIELD_STR_INTERNED_def NM_CMP_RETURN_def)

section \<open>Properties\<close>

text \<open>
  A function that compares two structures by a sequence of these macros satisfies the laws of a
  three-way comparison: each macro preserves the laws of what follows it. The bytes of a field
  have a fixed length, interned strings with equal pointers are equal.
\<close>

theorem cmp_macros_lawful:
  assumes "three_way k" "\<And>a. length (bytes a) = m"
    and "\<And>a b. fst (interned a) = fst (interned b) \<Longrightarrow> snd (interned a) = snd (interned b)"
  shows "three_way (\<lambda>a b. NM_CMP_FIELD field a b (k a b)) \<and>
    three_way (\<lambda>a b. NM_CMP_FIELD_UNSAFE field a b (k a b)) \<and>
    three_way (\<lambda>a b. NM_CMP_FIELD_BOOL flag a b (k a b)) \<and>
    three_way (\<lambda>a b. NM_CMP_FIELD_STR str a b (k a b)) \<and>
    three_way (\<lambda>a b. NM_CMP_FIELD_STR0 str0 a b (k a b)) \<and>
    three_way (\<lambda>a b. NM_CMP_FIELD_STR_INTERNED interned a b (k a b)) \<and>
    three_way (\<lambda>a b. NM_CMP_FIELD_MEMCMP_LEN bytes len a b (k a b)) \<and>
    three_way (\<lambda>a b. NM_CMP_FIELD_MEMCMP bytes a b (k a b)) \<and>
    three_way (\<lambda>a b. NM_CMP_FIELD_IN6ADDR bytes a b (k a b))"
proof (intro conjI)
  have unsafe: "NM_CMP_FIELD_UNSAFE field a b x = NM_CMP_FIELD field a b x" for a b x
    by (simp add: NM_CMP_FIELD_UNSAFE_def NM_CMP_FIELD_def NM_CMP_DIRECT_THEN_def)
  have i: "NM_CMP_FIELD_STR_INTERNED interned a b x
      = NM_CMP_RETURN (strcmp0 (snd (interned a)) (snd (interned b))) x" for a b x
    by (rule interned_then) (rule assms(3))
  show field: "three_way (\<lambda>a b. NM_CMP_FIELD field a b (k a b))"
    unfolding NM_CMP_FIELD_def direct_then by (rule cmp_then [OF three_way_on [OF direct_three_way] assms(1)])
  then show "three_way (\<lambda>a b. NM_CMP_FIELD_UNSAFE field a b (k a b))" by (simp only: unsafe)
  show "three_way (\<lambda>a b. NM_CMP_FIELD_BOOL flag a b (k a b))"
    unfolding NM_CMP_FIELD_BOOL_def direct_then
    by (rule cmp_then [OF three_way_on [OF direct_three_way, of "\<lambda>a. flag a \<noteq> 0"] assms(1)])
  show "three_way (\<lambda>a b. NM_CMP_FIELD_STR str a b (k a b))"
    unfolding NM_CMP_FIELD_STR_def by (rule cmp_then [OF three_way_on [OF strcmp_three_way] assms(1)])
  show "three_way (\<lambda>a b. NM_CMP_FIELD_STR0 str0 a b (k a b))"
    unfolding NM_CMP_FIELD_STR0_def by (rule cmp_then [OF three_way_on [OF strcmp0_three_way] assms(1)])
  show "three_way (\<lambda>a b. NM_CMP_FIELD_STR_INTERNED interned a b (k a b))"
    unfolding i by (rule cmp_then [OF three_way_on [OF strcmp0_three_way, of "\<lambda>a. snd (interned a)"] assms(1)])
  show "three_way (\<lambda>a b. NM_CMP_FIELD_MEMCMP_LEN bytes len a b (k a b))"
    unfolding NM_CMP_FIELD_MEMCMP_LEN_def assms(2) by (rule cmp_then [OF memcmp_three_way [OF assms(2)] assms(1)])
  show "three_way (\<lambda>a b. NM_CMP_FIELD_MEMCMP bytes a b (k a b))"
    unfolding NM_CMP_FIELD_MEMCMP_def assms(2) by (rule cmp_then [OF memcmp_three_way [OF assms(2)] assms(1)])
  show "three_way (\<lambda>a b. NM_CMP_FIELD_IN6ADDR bytes a b (k a b))"
    unfolding NM_CMP_FIELD_IN6ADDR_def by (rule cmp_then [OF memcmp_three_way [OF assms(2)] assms(1)])
qed

text \<open>Milliseconds are rounded up: the result is the least one that covers the nanoseconds.\<close>

theorem ns_to_msec_least:
  assumes "0 \<le> nsec"
  shows "nsec \<le> NM_UTILS_NS_TO_MSEC_CEIL nsec * NM_UTILS_NS_PER_MSEC
    \<and> (NM_UTILS_NS_TO_MSEC_CEIL nsec - 1) * NM_UTILS_NS_PER_MSEC < nsec"
proof -
  have "NM_UTILS_NS_TO_MSEC_CEIL nsec = (nsec + 999999) div 1000000"
    using assms by (simp add: NM_UTILS_NS_TO_MSEC_CEIL_def NM_UTILS_NS_PER_MSEC_def signed_divide_int_def sgn_if)
  moreover have "(nsec + 999999) div 1000000 * 1000000 = nsec + 999999 - (nsec + 999999) mod 1000000"
    by (simp add: minus_mod_eq_div_mult [symmetric])
  moreover have "0 \<le> (nsec + 999999) mod 1000000" "(nsec + 999999) mod 1000000 < 1000000" by simp_all
  ultimately show ?thesis unfolding NM_UTILS_NS_PER_MSEC_def left_diff_distrib by linarith
qed

text \<open>The text in the buffer always leaves room for the terminator, and is the name if that fits.\<close>

theorem enum2str_fits:
  "(len = 0 \<or> length (enum2str names v len buf) < len)
   \<and> (case names v of Some s \<Rightarrow> len \<le> length s \<or> enum2str names v len buf = s | None \<Rightarrow> True)"
  by (auto simp: enum2str_def split: option.split)

end
