(* ===== verification/NM_Glib_Compat.thy ===== *)
theory NM_Glib_Compat
  imports NM_Macros NM_Glib
begin

text \<open>
  The replacements of \<open>shared/nm-utils/nm-glib.h\<close> for functions an older GLib lacks that work on
  pointers, memory, tests, key files and variants. \<open>None\<close> is the return after a failed \<open>g_return_if_fail\<close>, or a failed assertion.
\<close>

section \<open>Pointers and memory\<close>

definition g_clear_pointer :: "('p \<Rightarrow> 's \<Rightarrow> 's) \<Rightarrow> 'p option \<Rightarrow> 's \<Rightarrow> 'p option \<times> 's" where
  "g_clear_pointer destroy_fn pp s =
     (case pp of None \<Rightarrow> (None, s) | Some p \<Rightarrow> (None, destroy_fn p s))"

text \<open>Lengths beyond the memory read it out of bounds, which is \<open>None\<close>.\<close>

definition g_assert_cmpmem :: "8 word list \<Rightarrow> nat \<Rightarrow> 8 word list \<Rightarrow> nat \<Rightarrow> bool option" where
  "g_assert_cmpmem m1 l1 m2 l2 =
     (if l1 \<noteq> l2 then Some False
      else if l1 > length m1 \<or> l1 > length m2 then None
      else Some (take l1 m1 = take l1 m2))"

theorem clear_pointer_agrees:
  "g_clear_pointer d pp s =
     (case nm_clear_pointer d (Some pp) s of (_, pp', s') \<Rightarrow> (the pp', s'))"
  by (simp add: g_clear_pointer_def nm_clear_pointer_def split: option.split)

section \<open>Tests\<close>

text \<open>
  The tests registered so far, by path; the replacement checks its arguments itself, which a GLib
  that has the function (\<open>native\<close>) does on its own.
\<close>

definition g_test_add_data_func_full ::
  "(cstr \<Rightarrow> 'f option \<Rightarrow> (string \<times> 'f) list \<Rightarrow> (string \<times> 'f) list option) option
     \<Rightarrow> cstr \<Rightarrow> 'f option \<Rightarrow> (string \<times> 'f) list \<Rightarrow> (string \<times> 'f) list option" where
  "g_test_add_data_func_full native testpath test_func tests =
     (case native of
        Some add \<Rightarrow> add testpath test_func tests
      | None \<Rightarrow>
          (case (testpath, test_func) of
             (Some p, Some f) \<Rightarrow> if take 1 p \<noteq> ''/'' then None else Some (tests @ [(p, f)])
           | _ \<Rightarrow> None))"

section \<open>Key files and variants\<close>

definition g_key_file_save_to_file ::
  "'g fslib_scheme \<Rightarrow> ('k \<Rightarrow> string) \<Rightarrow> 'k option \<Rightarrow> path option \<Rightarrow> fsys
     \<Rightarrow> (bool \<times> gerror option) option \<times> fsys" where
  "g_key_file_save_to_file L to_data key_file filename s =
     (case (key_file, filename) of
        (Some k, Some f) \<Rightarrow>
          (let contents = to_data k;
               (error, s) = g_file_set_contents L f contents s
           in (Some (error = None, error), s))
      | _ \<Rightarrow> (None, s))"

text \<open>
  The text of a new variant. Before 2.36 it is copied, before 2.38 wrapped with its terminator as
  trusted bytes, both after checks that newer versions of GLib leave to their caller.
\<close>

datatype glib_era = Before_2_36 | Before_2_38 | Since_2_38

definition variant_of_bytes :: "string \<Rightarrow> string" where
  "variant_of_bytes bytes = take (length bytes - 1) bytes"

definition nm_g_variant_new_take_string :: "glib_era \<Rightarrow> (string \<Rightarrow> bool) \<Rightarrow> cstr \<Rightarrow> string option" where
  "nm_g_variant_new_take_string era utf8_validate str =
     (case str of
        None \<Rightarrow> None
      | Some t \<Rightarrow>
          (case era of
             Before_2_36 \<Rightarrow> if utf8_validate t then Some t else None
           | Before_2_38 \<Rightarrow>
               if utf8_validate t then Some (variant_of_bytes (t @ [NUL])) else None
           | Since_2_38 \<Rightarrow> Some t))"

definition nm_g_variant_new_printf :: "glib_era \<Rightarrow> (string \<Rightarrow> bool) \<Rightarrow> cstr \<Rightarrow> string option" where
  "nm_g_variant_new_printf era utf8_validate formatted =
     (case formatted of None \<Rightarrow> None | Some t \<Rightarrow> nm_g_variant_new_take_string era utf8_validate (Some t))"

text \<open>On valid text every version gives the same variant.\<close>

theorem take_string_eras:
  assumes "utf8_validate t"
  shows "nm_g_variant_new_take_string era utf8_validate (Some t) = Some t"
  using assms by (cases era) (simp_all add: nm_g_variant_new_take_string_def variant_of_bytes_def)

theorem take_string_eras_witness: "nm_g_variant_new_take_string Before_2_38 (\<lambda>_. True) (Some ''a'') = Some ''a''"
  by (rule take_string_eras) simp

text \<open>A key file that was saved holds exactly its text; one that was not leaves the files alone.\<close>

theorem save_to_file_text:
  assumes "fs_doc L" "g_key_file_save_to_file L to_data (Some k) (Some f) s = (Some (done, e), s')"
  shows "if done then g_file_get_contents L f s' = Inr (to_data k) \<and> e = None else s' = s"
proof -
  from assms(2) have w: "g_file_set_contents L f (to_data k) s = (e, s')" "done = (e = None)"
    by (auto simp: g_key_file_save_to_file_def Let_def split: prod.splits)
  from set_contents_state [OF assms(1), of f "to_data k" s] w show ?thesis
    by (auto simp: get_contents [OF assms(1)])
qed

theorem save_to_file_text_witness:
  "\<exists>s'. g_file_get_contents ref_lib ''f'' s' = Inr ''data''"
proof -
  define s :: fsys where "s = \<lparr>fs_files = Map.empty, fs_umask = 18\<rparr>"
  define s' where "s' = snd (g_file_set_contents ref_lib ''f'' ''data'' s)"
  have "fst (g_file_set_contents ref_lib ''f'' ''data'' s) = None" by (simp add: ref_lib_def)
  then have "g_key_file_save_to_file ref_lib (\<lambda>_ :: nat. ''data'') (Some 0) (Some ''f'') s = (Some (True, None), s')"
    by (simp add: g_key_file_save_to_file_def s'_def split_def Let_def)
  from save_to_file_text [OF ref_fs_doc this] show ?thesis by auto
qed

end
