(* ===== verification/NM_Test_Utils.thy ===== *)
theory NM_Test_Utils
  imports NM_Libs "HOL-Library.Multiset"
begin

text \<open>
  The parts of the test harness \<open>shared/nm-utils/nm-test-utils.h\<close> that are algorithms: splitting a
  string in place, random permutations, and the matching of elements. An assertion that fails ends
  the test and is the value \<open>None\<close>, as is a read or write outside of memory.
\<close>

section \<open>Splitting in place\<close>

abbreviation backslash :: char where "backslash \<equiv> CHR 0x5C"
abbreviation NULc :: char where "NULc \<equiv> CHR 0x00"

text \<open>
  The inner loop on the memory \<open>mem\<close>: \<open>b\<close> is \<open>str\<close>, \<open>i\<close> the place that is read, \<open>j\<close> the place that
  is written. The result is the memory and \<open>i\<close>.
\<close>

function split_token :: "string \<Rightarrow> string \<Rightarrow> nat \<Rightarrow> nat \<Rightarrow> nat \<Rightarrow> (string \<times> nat) option" where
  "split_token delimiters mem b i j =
     (if b + i \<ge> length mem then None
      else
        (let c = mem ! (b + i)
         in if c = NULc then Some (mem[b + j := NULc], i)
            else if c = backslash
            then (if b + Suc i \<ge> length mem then None
                  else (let mem = mem[b + j := mem ! (b + Suc i)]
                        in if mem ! (b + Suc i) = NULc then Some (mem, Suc i)
                           else split_token delimiters mem b (Suc (Suc i)) (Suc j)))
            else if c \<in> set delimiters then Some (mem[b + j := NULc], Suc i)
            else split_token delimiters (mem[b + j := c]) b (Suc i) (Suc j)))"
  by pat_completeness auto

termination
  by (relation "measure (\<lambda>(d, mem, b, i, j). length mem - (b + i))") auto

declare split_token.simps [simp del]

text \<open>The outer loop collects pointers into the memory.\<close>

partial_function (option) split_loop ::
  "string \<Rightarrow> string \<Rightarrow> nat \<Rightarrow> nat list \<Rightarrow> (string \<times> nat list) option" where
  "split_loop delimiters mem b result =
     (if b \<ge> length mem then None
      else if mem ! b = NULc then Some (mem, result)
      else (case split_token delimiters mem b 0 0 of
              None \<Rightarrow> None
            | Some (mem', i) \<Rightarrow> split_loop delimiters mem' (b + i) (result @ [b])))"

definition nmtst_str_split :: "string \<Rightarrow> string \<Rightarrow> (string \<times> nat list) option" where
  "nmtst_str_split mem delimiters =
     (if backslash \<in> set delimiters then None else split_loop delimiters mem 0 [])"

text \<open>The specification: the next token of a text and the text after it.\<close>

fun next_token :: "string \<Rightarrow> string \<Rightarrow> string \<times> string" where
  "next_token d [] = ([], [])"
| "next_token d (c # s) =
     (if c = backslash
      then (case s of [] \<Rightarrow> ([], []) | x # s \<Rightarrow> (case next_token d s of (t, r) \<Rightarrow> (x # t, r)))
      else if c \<in> set d then ([], s)
      else (case next_token d s of (t, r) \<Rightarrow> (c # t, r)))"

lemma next_token_shorter: "s \<noteq> [] \<Longrightarrow> length (snd (next_token d s)) < length s"
proof (induction d s rule: next_token.induct)
  case (2 d c s)
  show ?case
  proof (cases "c = backslash")
    case True
    show ?thesis
    proof (cases s)
      case (Cons x s')
      then have "length (snd (next_token d s')) \<le> length s'"
        using "2.IH"(1) [OF True Cons] by (cases s') auto
      then show ?thesis using True Cons by (cases "next_token d s'") simp
    qed (simp add: True)
  next
    case False
    then show ?thesis using "2.IH"(2) by (cases s) (auto split: prod.splits)
  qed
qed simp

function tokens :: "string \<Rightarrow> string \<Rightarrow> string list" where
  "tokens d s = (if s = [] then [] else case next_token d s of (t, r) \<Rightarrow> t # tokens d r)"
  by pat_completeness auto

termination
  by (relation "measure (length \<circ> snd)") (auto dest: next_token_shorter split: prod.splits, metis next_token_shorter snd_conv)

declare tokens.simps [simp del]

text \<open>What a pointer shows.\<close>

definition text_at :: "string \<Rightarrow> nat \<Rightarrow> string" where
  "text_at mem p = takeWhile (\<lambda>c. c \<noteq> NULc) (drop p mem)"

lemma text_at_prefix:
  assumes "prefix (P @ t @ [NULc]) mem" "NULc \<notin> set t"
  shows "text_at mem (length P) = t"
proof -
  obtain X where "mem = P @ t @ NULc # X" using assms(1) by (auto simp: prefix_def)
  moreover have "takeWhile (\<lambda>c. c \<noteq> NULc) (t @ NULc # X) = t"
    using assms(2) by (subst takeWhile_append2) auto
  ultimately show ?thesis by (simp add: text_at_def)
qed

lemma token_chars: "next_token d s = (t, r) \<Longrightarrow> set t \<union> set r \<subseteq> set s"
proof (induction d s arbitrary: t r rule: next_token.induct)
  case (2 d c s)
  show ?case
  proof (cases "c = backslash")
    case True
    then show ?thesis using 2 by (cases s) (fastforce split: prod.splits)+
  next
    case False
    then show ?thesis using 2 by (fastforce split: if_splits prod.splits)
  qed
qed simp

text \<open>A write at the end of the token moves the gap between it and the text that is left.\<close>

definition moved :: "string \<Rightarrow> char \<Rightarrow> string" where
  "moved G c = (case G of [] \<Rightarrow> [] | g # G \<Rightarrow> G @ [c])"

lemma write_token:
  "(A @ W @ G @ c # S)[length A + length W := x] = A @ (W @ [x]) @ moved G c @ S"
  by (cases G) (simp_all add: list_update_append moved_def)

lemma length_moved [simp]: "length (moved G c) = length G"
  by (cases G) (simp_all add: moved_def)

lemma read_text:
  "(A @ W @ G @ c # S) ! (length A + (length W + length G)) = c"
  "(A @ W @ G @ c # x # S) ! (length A + Suc (length W + length G)) = x"
  by (simp_all add: nth_append)

definition token_done :: "string \<Rightarrow> string \<Rightarrow> string \<times> string \<Rightarrow> string \<times> nat \<Rightarrow> bool" where
  "token_done A W tr mi \<longleftrightarrow> (\<exists>P. fst mi = P @ snd tr @ [NULc] \<and> length P = length A + snd mi
     \<and> prefix (A @ W @ fst tr @ [NULc]) (fst mi)
     \<and> (snd tr = [] \<or> prefix (A @ W @ fst tr @ [NULc]) P))"

lemma split_token_spec:
  assumes "NULc \<notin> set r"
  shows "\<exists>mi. split_token d (A @ W @ G @ r @ [NULc]) (length A) (length W + length G) (length W) = Some mi
    \<and> token_done A W (next_token d r) mi"
  using assms
proof (induction d r arbitrary: W G rule: next_token.induct)
  case (1 d)
  let ?m = "A @ (W @ [NULc]) @ moved G NULc @ []"
  have "split_token d (A @ W @ G @ [] @ [NULc]) (length A) (length W + length G) (length W)
      = Some (?m, length W + length G)"
    using write_token [of A W G NULc "[]" NULc] read_text(1) [of A W G NULc "[]"]
    by (subst split_token.simps) (simp add: Let_def)
  moreover have "token_done A W ([], []) (?m, length W + length G)"
  proof (cases G)
    case Nil
    then show ?thesis by (simp add: token_done_def moved_def)
  next
    case (Cons g G')
    then show ?thesis
      by (auto simp: token_done_def moved_def intro!: exI [of _ "A @ W @ NULc # G'"])
  qed
  ultimately show ?case by auto
next
  case (2 d c s)
  let ?b = "length A" and ?i = "length W + length G" and ?j = "length W"
  have c: "c \<noteq> NULc" and s: "NULc \<notin> set s" using "2.prems" by auto
  note rd = read_text(1) [of A W G c "s @ [NULc]"] and wr = write_token [of A W G c "s @ [NULc]"]
  consider "c = backslash" "s = []" | x s' where "c = backslash" "s = x # s'"
    | "c \<noteq> backslash" "c \<in> set d" | "c \<noteq> backslash" "c \<notin> set d" by (cases s) auto
  then show ?case
  proof cases
    case 1
    let ?m = "A @ (W @ [NULc]) @ moved G c @ [NULc]"
    have "split_token d (A @ W @ G @ (c # s) @ [NULc]) ?b ?i ?j = Some (?m, Suc ?i)"
      using 1 rd wr [of NULc] read_text(2) [of A W G c NULc "[]"]
        read_text(1) [of A "W @ [NULc]" "moved G c" NULc "[]"]
      by (subst split_token.simps) (simp add: Let_def c)
    moreover have "token_done A W ([], []) (?m, Suc ?i)"
      by (auto simp: token_done_def intro!: exI [of _ "A @ W @ NULc # moved G c"])
    ultimately show ?thesis using 1 by auto
  next
    case 2
    have x: "x \<noteq> NULc" using s 2 by auto
    have "split_token d (A @ W @ G @ (c # s) @ [NULc]) ?b ?i ?j
        = split_token d (A @ (W @ [x]) @ (moved G c @ [x]) @ s' @ [NULc]) ?b
            (length (W @ [x]) + length (moved G c @ [x])) (length (W @ [x]))"
      using 2 rd wr [of x] read_text(2) [of A W G c x "s' @ [NULc]"] s
        read_text(1) [of A "W @ [x]" "moved G c" x "s' @ [NULc]"]
      by (subst split_token.simps) (simp add: Let_def c x)
    moreover have "NULc \<notin> set s'" using s 2 by simp
    ultimately obtain mi where "split_token d (A @ W @ G @ (c # s) @ [NULc]) ?b ?i ?j = Some mi"
      "token_done A (W @ [x]) (next_token d s') mi"
      using "2.IH"(1) [OF 2, of "W @ [x]" "moved G c @ [x]"] by auto
    then show ?thesis using 2 by (cases "next_token d s'") (auto simp: token_done_def)
  next
    case 3
    let ?m = "A @ (W @ [NULc]) @ moved G c @ s @ [NULc]"
    have "split_token d (A @ W @ G @ (c # s) @ [NULc]) ?b ?i ?j = Some (?m, Suc ?i)"
      using 3 rd wr [of NULc] by (subst split_token.simps) (simp add: Let_def c)
    moreover have "token_done A W ([], s) (?m, Suc ?i)"
      by (auto simp: token_done_def intro!: exI [of _ "A @ W @ NULc # moved G c"])
    ultimately show ?thesis using 3 by auto
  next
    case 4
    have "split_token d (A @ W @ G @ (c # s) @ [NULc]) ?b ?i ?j
        = split_token d (A @ (W @ [c]) @ moved G c @ s @ [NULc]) ?b
            (length (W @ [c]) + length (moved G c)) (length (W @ [c]))"
      using 4 rd wr [of c] by (subst split_token.simps) (simp add: Let_def c)
    then obtain mi where "split_token d (A @ W @ G @ (c # s) @ [NULc]) ?b ?i ?j = Some mi"
      "token_done A (W @ [c]) (next_token d s) mi"
      using "2.IH"(2) [OF 4 s, of "W @ [c]" "moved G c"] by auto
    then show ?thesis using 4 by (cases "next_token d s") (auto simp: token_done_def)
  qed
qed

lemma split_loop_spec:
  assumes "NULc \<notin> set r"
  shows "\<exists>m ps. split_loop d (P @ r @ [NULc]) (length P) res = Some (m, res @ ps)
    \<and> map (text_at m) ps = tokens d r \<and> prefix P m"
  using assms
proof (induction d r arbitrary: P res rule: tokens.induct)
  case (1 d s)
  show ?case
  proof (cases "s = []")
    case True
    then show ?thesis by (subst split_loop.simps) (simp add: tokens.simps)
  next
    case False
    obtain t r where t: "next_token d s = (t, r)" by fastforce
    have chars: "NULc \<notin> set t" "NULc \<notin> set r" using token_chars [OF t] "1.prems" by auto
    obtain m1 i where mi: "split_token d (P @ s @ [NULc]) (length P) 0 0 = Some (m1, i)"
      "token_done P [] (t, r) (m1, i)"
      using split_token_spec [OF "1.prems", of d P "[]" "[]"] t by auto
    then obtain P1 where P1: "m1 = P1 @ r @ [NULc]" "length P1 = length P + i"
      "prefix (P @ t @ [NULc]) m1" "r = [] \<or> prefix (P @ t @ [NULc]) P1" by (auto simp: token_done_def)
    obtain m ps where m: "split_loop d m1 (length P + i) (res @ [length P]) = Some (m, (res @ [length P]) @ ps)"
      "map (text_at m) ps = tokens d r" "prefix P1 m" "r = [] \<Longrightarrow> m = m1"
    proof (cases "r = []")
      case True
      have "split_loop d m1 (length P + i) (res @ [length P]) = Some (m1, res @ [length P])"
        using P1(1,2) True by (subst split_loop.simps) (simp add: nth_append)
      then show ?thesis using that [of m1 "[]"] P1(1) True by (simp add: tokens.simps)
    next
      case nr: False
      from "1.IH" [OF False t [symmetric] chars(2), of P1 "res @ [length P]"] show ?thesis
        using that P1(1,2) nr by auto
    qed
    have pre: "prefix (P @ t @ [NULc]) m"
      using P1(3,4) m(3,4) by (metis prefix_order.trans)
    have hd: "(P @ s @ [NULc]) ! length P \<noteq> NULc"
      using False "1.prems" by (cases s) (auto simp: nth_append)
    have "split_loop d (P @ s @ [NULc]) (length P) res = Some (m, res @ length P # ps)"
      using m(1) mi(1) hd by (subst split_loop.simps) simp
    moreover have "map (text_at m) (length P # ps) = tokens d s"
      using m(2) text_at_prefix [OF pre chars(1)] False t by (subst tokens.simps) simp
    moreover have "prefix P m" using pre by (metis append_prefixD)
    ultimately show ?thesis by blast
  qed
qed

text \<open>Escaping a token so that it is split off unchanged.\<close>

definition escape_token :: "string \<Rightarrow> string \<Rightarrow> string" where
  "escape_token d t = concat (map (\<lambda>c. if c = backslash \<or> c \<in> set d then [backslash, c] else [c]) t)"

lemma next_token_escaped:
  assumes "c \<in> set d" "backslash \<notin> set d"
  shows "next_token d (escape_token d t @ c # r) = (t, r)"
  using assms by (induction t) (auto simp: escape_token_def)

lemma tokens_escaped:
  assumes "c \<in> set d" "backslash \<notin> set d"
  shows "tokens d (concat (map (\<lambda>t. escape_token d t @ [c]) ts)) = ts"
proof (induction ts)
  case (Cons t ts)
  then show ?case
    using next_token_escaped [OF assms, of t "concat (map (\<lambda>t. escape_token d t @ [c]) ts)"]
    by (subst tokens.simps) simp
qed (simp add: tokens.simps)

section \<open>Random permutations\<close>

text \<open>
  The \<open>k\<close>-th draw below a bound is \<open>rnd k bound\<close>. The array is a list of elements, \<open>p\<close> the place
  of the pointer \<open>p_\<close>.
\<close>

definition swap_at :: "nat \<Rightarrow> nat \<Rightarrow> 'a list \<Rightarrow> 'a list" where
  "swap_at i j xs = xs[i := xs ! j, j := xs ! i]"

fun perm_loop :: "(nat \<Rightarrow> nat \<Rightarrow> nat) \<Rightarrow> nat \<Rightarrow> nat \<Rightarrow> 'a list \<Rightarrow> 'a list" where
  "perm_loop rnd p 0 xs = xs"
| "perm_loop rnd p (Suc 0) xs = xs"
| "perm_loop rnd p (Suc (Suc i)) xs =
     (let j = rnd p (Suc (Suc i)); xs = (if j \<noteq> 0 then swap_at p (p + j) xs else xs)
      in perm_loop rnd (Suc p) (Suc i) xs)"

definition nmtst_rand_perm :: "(nat \<Rightarrow> nat \<Rightarrow> nat) \<Rightarrow> 'a list \<Rightarrow> 'a list option \<Rightarrow> 'a list option" where
  "nmtst_rand_perm rnd dst src =
     (if length dst \<ge> 2147483647 then None
      else if length dst = 0 then Some dst
      else (let dst = (case src of None \<Rightarrow> dst | Some s \<Rightarrow> s) in Some (perm_loop rnd 0 (length dst) dst)))"

fun gslist_loop :: "(nat \<Rightarrow> nat) \<Rightarrow> nat \<Rightarrow> nat \<Rightarrow> 'a list \<Rightarrow> 'a list \<Rightarrow> 'a list" where
  "gslist_loop rnd k 0 list result = result"
| "gslist_loop rnd k (Suc l) list result =
     (let n = rnd k mod Suc l
      in gslist_loop rnd (Suc k) l (take n list @ drop (Suc n) list) (list ! n # result))"

definition nmtst_rand_perm_gslist :: "(nat \<Rightarrow> nat) \<Rightarrow> 'a list \<Rightarrow> 'a list" where
  "nmtst_rand_perm_gslist rnd list = gslist_loop rnd 0 (length list) list []"

lemma swap_mset: "i < length xs \<Longrightarrow> j < length xs \<Longrightarrow> mset (swap_at i j xs) = mset xs"
  unfolding swap_at_def by (metis mset_swap)

lemma swap_front: "swap_at (length pre) (length pre + j) (pre @ ys) = pre @ swap_at 0 j ys"
  by (simp add: swap_at_def nth_append list_update_append)

text \<open>One step of the loop, with the part of the array that is done in front.\<close>

lemma perm_loop_step:
  assumes "length ys = Suc (Suc i)"
  shows "perm_loop rnd (length pre) (Suc (Suc i)) (pre @ ys) =
    (let zs = swap_at 0 (rnd (length pre) (Suc (Suc i))) ys
     in perm_loop rnd (length (pre @ [hd zs])) (Suc i) ((pre @ [hd zs]) @ tl zs))"
proof -
  have id: "swap_at 0 0 ys = ys" by (simp add: swap_at_def)
  have "zs \<noteq> []" if "zs = swap_at 0 j ys" for zs j using that assms by (auto simp: swap_at_def)
  then have "pre @ swap_at 0 j ys = (pre @ [hd (swap_at 0 j ys)]) @ tl (swap_at 0 j ys)" for j
    by simp
  then show ?thesis using id by (simp add: swap_front Let_def)
qed

lemma draw_swap_mset:
  assumes "length ys = Suc n" "j < Suc n"
  shows "mset (swap_at 0 j ys) = mset ys" "length (swap_at 0 j ys) = Suc n"
  using assms by (auto intro: swap_mset) (simp add: swap_at_def)

lemma perm_loop_sound:
  assumes "\<And>k i. 0 < i \<Longrightarrow> rnd k i < i"
  shows "\<exists>zs. perm_loop rnd (length pre) (length ys) (pre @ ys) = pre @ zs \<and> mset zs = mset ys"
proof (induction "length ys" arbitrary: pre ys rule: less_induct)
  case less
  consider "length ys = 0" | "length ys = Suc 0" | i where "length ys = Suc (Suc i)"
    by (metis nat.exhaust)
  then show ?case
  proof cases
    case (3 i)
    define zs where "zs = swap_at 0 (rnd (length pre) (Suc (Suc i))) ys"
    have z: "mset zs = mset ys" "length zs = Suc (Suc i)"
      using draw_swap_mset [OF 3, of "rnd (length pre) (Suc (Suc i))"] assms by (simp_all add: zs_def)
    then obtain z zs' where zz: "zs = z # zs'" by (cases zs) auto
    have "length zs' < length ys" "length zs' = Suc i" using z(2) zz 3 by simp_all
    with less.hyps [of zs' "pre @ [z]"] obtain ws where
      "perm_loop rnd (length (pre @ [z])) (Suc i) ((pre @ [z]) @ zs') = (pre @ [z]) @ ws" "mset ws = mset zs'"
      by auto
    then have "perm_loop rnd (length pre) (length ys) (pre @ ys) = pre @ z # ws" "mset (z # ws) = mset ys"
      using perm_loop_step [OF 3, of rnd pre] z(1) zz by (simp_all add: 3 zs_def [symmetric])
    then show ?thesis by blast
  qed simp_all
qed

lemma perm_loop_later:
  "(\<And>k. p \<le> k \<Longrightarrow> rnd k = rnd' k) \<Longrightarrow> perm_loop rnd p n xs = perm_loop rnd' p n xs"
proof (induction rnd p n xs rule: perm_loop.induct)
  case (3 rnd p i xs)
  then show ?case by (simp add: Let_def)
qed simp_all

lemma perm_loop_complete:
  assumes "mset zs = mset ys"
  shows "\<exists>rnd. (\<forall>k i. 0 < i \<longrightarrow> rnd k i < i) \<and> perm_loop rnd (length pre) (length ys) (pre @ ys) = pre @ zs"
  using assms
proof (induction "length ys" arbitrary: pre ys zs rule: less_induct)
  case less
  have len: "length zs = length ys" using less.prems by (metis size_mset)
  consider "length ys = 0" | "length ys = Suc 0" | i where "length ys = Suc (Suc i)"
    by (metis nat.exhaust)
  then show ?case
  proof cases
    case 1
    then show ?thesis using len by (intro exI [of _ "\<lambda>_ _. 0"]) simp
  next
    case 2
    then have "zs = ys" using less.prems len by (cases ys; cases zs) auto
    then show ?thesis using 2 by (intro exI [of _ "\<lambda>_ _. 0"]) simp
  next
    case (3 i)
    then obtain z zs' where zs: "zs = z # zs'" using len by (cases zs) auto
    then have "z \<in> set ys" using less.prems by (metis list.set_intros(1) set_mset_mset)
    then obtain j where j: "j < length ys" "ys ! j = z" by (auto simp: in_set_conv_nth)
    define ws where "ws = swap_at 0 j ys"
    have w: "mset ws = mset ys" "length ws = Suc (Suc i)"
      using draw_swap_mset [OF 3, of j] j 3 by (simp_all add: ws_def)
    have "ws ! 0 = z" using j 3 by (auto simp: ws_def swap_at_def nth_list_update)
    then obtain ws' where ws: "ws = z # ws'" using w(2) by (cases ws) auto
    have "add_mset z (mset zs') = add_mset z (mset ws')" using less.prems w(1) zs ws by simp
    then have "mset zs' = mset ws'" by simp
    moreover have "length ws' < length ys" "length ws' = Suc i" using w(2) ws 3 by simp_all
    ultimately obtain rnd where rnd: "\<forall>k i. 0 < i \<longrightarrow> rnd k i < i"
      "perm_loop rnd (length (pre @ [z])) (Suc i) ((pre @ [z]) @ ws') = (pre @ [z]) @ zs'"
      using less.hyps [of ws' zs' "pre @ [z]"] by auto
    define rnd' where "rnd' = rnd(length pre := (\<lambda>i. if i = length ys then j else 0))"
    have "\<forall>k i. 0 < i \<longrightarrow> rnd' k i < i" using rnd(1) j(1) by (simp add: rnd'_def)
    moreover have "perm_loop rnd' (length (pre @ [z])) (Suc i) ((pre @ [z]) @ ws') = (pre @ [z]) @ zs'"
      using rnd(2) by (subst perm_loop_later [of _ _ rnd]) (auto simp: rnd'_def)
    moreover have "rnd' (length pre) (Suc (Suc i)) = j" using 3 by (simp add: rnd'_def)
    ultimately show ?thesis
      using perm_loop_step [OF 3, of rnd' pre] zs ws
      by (intro exI [of _ rnd']) (simp add: 3 ws_def [symmetric])
  qed
qed

lemma gslist_mset: "l = length list \<Longrightarrow> mset (gslist_loop rnd k l list result) = mset list + mset result"
proof (induction l arbitrary: k list result)
  case (Suc l)
  define n where "n = rnd k mod Suc l"
  have n: "n < length list" using Suc.prems by (simp add: n_def flip: Suc.prems)
  define rest where "rest = take n list @ drop (Suc n) list"
  have eq: "mset list = add_mset (list ! n) (mset rest)"
    using arg_cong [OF id_take_nth_drop [OF n], of mset] by (simp add: rest_def)
  have "l = length rest" using Suc.prems n by (simp add: rest_def)
  from Suc.IH [OF this, of "Suc k" "list ! n # result"] show ?case
    by (simp add: n_def [symmetric] rest_def [symmetric] Let_def eq)
qed simp

section \<open>Matching\<close>

text \<open>
  The search of one needle among the elements that no earlier needle has; \<open>-1\<close> if there is none.
\<close>

fun search_from :: "('e \<Rightarrow> 'n \<Rightarrow> bool) \<Rightarrow> 'n \<Rightarrow> int list \<Rightarrow> 'e list \<Rightarrow> nat \<Rightarrow> int" where
  "search_from eq needle out_idx [] j = - 1"
| "search_from eq needle out_idx (e # es) j =
     (if int j \<in> set out_idx then search_from eq needle out_idx es (Suc j)
      else if eq e needle then int j
      else search_from eq needle out_idx es (Suc j))"

fun find_loop :: "('e \<Rightarrow> 'n \<Rightarrow> bool) \<Rightarrow> 'e list \<Rightarrow> 'n list \<Rightarrow> int list \<Rightarrow> nat \<Rightarrow> nat \<times> int list" where
  "find_loop eq elements [] out_idx found = (found, out_idx)"
| "find_loop eq elements (x # needles) out_idx found =
     (let idx = search_from eq x out_idx elements 0
      in find_loop eq elements needles (out_idx @ [idx]) (if idx \<ge> 0 then Suc found else found))"

definition nmtst_find_all_indexes :: "'e list \<Rightarrow> 'n list \<Rightarrow> ('e \<Rightarrow> 'n \<Rightarrow> bool) \<Rightarrow> nat \<times> int list" where
  "nmtst_find_all_indexes elements needles equal_fcn = find_loop equal_fcn elements needles [] 0"

text \<open>The answer for a needle, given those of the needles before it.\<close>

definition answers :: "('e \<Rightarrow> 'n \<Rightarrow> bool) \<Rightarrow> 'e list \<Rightarrow> 'n \<Rightarrow> int list \<Rightarrow> int \<Rightarrow> bool" where
  "answers eq elements x before idx \<longleftrightarrow>
     (if idx < 0 then idx = - 1 \<and> (\<forall>j < length elements. eq (elements ! j) x \<longrightarrow> int j \<in> set before)
      else nat idx < length elements \<and> eq (elements ! nat idx) x \<and> idx \<notin> set before)"

lemma search_from_answers:
  "answers eq (pre @ es) x before (search_from eq x before es (length pre))"
  if "\<forall>j < length pre. eq (pre ! j) x \<longrightarrow> int j \<in> set before"
  using that
proof (induction es arbitrary: pre)
  case (Cons e es)
  show ?case
  proof (cases "int (length pre) \<in> set before \<or> \<not> eq e x")
    case True
    then have "\<forall>j < length (pre @ [e]). eq ((pre @ [e]) ! j) x \<longrightarrow> int j \<in> set before"
      using Cons.prems by (auto simp: nth_append less_Suc_eq)
    from Cons.IH [OF this] True show ?thesis by auto
  next
    case False
    then show ?thesis by (simp add: answers_def nth_append)
  qed
qed (simp add: answers_def)

text \<open>Every entry answers its needle.\<close>

fun all_answered :: "('e \<Rightarrow> 'n \<Rightarrow> bool) \<Rightarrow> 'e list \<Rightarrow> 'n list \<Rightarrow> int list \<Rightarrow> int list \<Rightarrow> bool" where
  "all_answered eq elements [] before out = (out = [])"
| "all_answered eq elements (x # xs) before out =
     (case out of [] \<Rightarrow> False
      | i # out \<Rightarrow> answers eq elements x before i \<and> all_answered eq elements xs (before @ [i]) out)"

lemma find_loop_answers:
  "\<exists>out. find_loop eq elements xs before n = (n + length (filter (\<lambda>i. 0 \<le> i) out), before @ out)
     \<and> all_answered eq elements xs before out"
proof (induction xs arbitrary: before n)
  case (Cons x xs)
  define i where "i = search_from eq x before elements 0"
  have a: "answers eq elements x before i"
    using search_from_answers [of "[]" eq x before elements] by (simp add: i_def)
  from Cons.IH [of "before @ [i]" "if i \<ge> 0 then Suc n else n"] obtain out where
    "find_loop eq elements xs (before @ [i]) (if i \<ge> 0 then Suc n else n)
       = ((if i \<ge> 0 then Suc n else n) + length (filter (\<lambda>i. 0 \<le> i) out), (before @ [i]) @ out)"
    "all_answered eq elements xs (before @ [i]) out" by blast
  then show ?case using a by (intro exI [of _ "i # out"]) (simp add: i_def [symmetric] Let_def)
qed simp

lemma all_answered_distinct:
  "all_answered eq elements xs before out \<Longrightarrow> distinct (filter (\<lambda>i. 0 \<le> i) out)
     \<and> (\<forall>i \<in> set out. 0 \<le> i \<longrightarrow> i \<notin> set before)"
proof (induction xs arbitrary: before out)
  case (Cons x xs)
  then obtain i out' where o: "out = i # out'" "answers eq elements x before i"
    "all_answered eq elements xs (before @ [i]) out'" by (cases out) auto
  from Cons.IH [OF o(3)] o(1,2) show ?case by (auto simp: answers_def split: if_splits)
qed simp

lemma all_answered_matches:
  "all_answered eq elements xs before out \<Longrightarrow>
     list_all2 (\<lambda>x i. i < 0 \<or> nat i < length elements \<and> eq (elements ! nat i) x) xs out"
proof (induction xs arbitrary: before out)
  case (Cons x xs)
  then obtain i out' where o: "out = i # out'" "answers eq elements x before i"
    "all_answered eq elements xs (before @ [i]) out'" by (cases out) auto
  from Cons.IH [OF o(3)] o(1,2) show ?case by (auto simp: answers_def split: if_splits)
qed simp

section \<open>Properties\<close>

text \<open>
  Splitting in place: for every text the pointers into the changed memory show the tokens of the
  specification, and no access leaves the memory. Tokens that were escaped and terminated by
  a delimiter come back unchanged.
\<close>

theorem str_split_in_place:
  assumes "backslash \<notin> set d" "NULc \<notin> set s" "c \<in> set d"
  shows "\<exists>mem ps. nmtst_str_split (s @ [NULc]) d = Some (mem, ps) \<and> map (text_at mem) ps = tokens d s
    \<and> tokens d (concat (map (\<lambda>t. escape_token d t @ [c]) ts)) = ts"
  using split_loop_spec [OF assms(2), of d "[]" "[]"] tokens_escaped [OF assms(3,1)] assms(1)
  by (auto simp: nmtst_str_split_def)

text \<open>
  Shuffling: the results that are possible with draws below their bounds are exactly the
  permutations of the array; the list version gives a permutation for all draws.
\<close>

theorem rand_perm_exact:
  assumes "length ys < 2147483647"
  shows "(\<exists>rnd. (\<forall>k i. 0 < i \<longrightarrow> rnd k i < i) \<and> nmtst_rand_perm rnd ys None = Some zs) \<longleftrightarrow> mset zs = mset ys"
proof -
  have eq: "nmtst_rand_perm rnd ys None = Some (perm_loop rnd 0 (length ys) ys)" for rnd
    using assms by (cases ys) (simp_all add: nmtst_rand_perm_def Let_def)
  have "mset (perm_loop rnd 0 (length ys) ys) = mset ys" if "\<And>k i. 0 < i \<Longrightarrow> rnd k i < i" for rnd
    using perm_loop_sound [of rnd "[]" ys, OF that] by auto
  moreover have "\<exists>rnd. (\<forall>k i. 0 < i \<longrightarrow> rnd k i < i) \<and> perm_loop rnd 0 (length ys) ys = zs"
    if "mset zs = mset ys"
    using perm_loop_complete [OF that, of "[]"] by simp
  ultimately show ?thesis unfolding eq by auto
qed

theorem rand_perm_gslist_mset: "mset (nmtst_rand_perm_gslist draw ys) = mset ys"
  by (simp add: nmtst_rand_perm_gslist_def gslist_mset)

text \<open>
  The matching has one answer per needle, gives no element to two needles, counts the ones it
  found, and every index it gives is that of an element equal to the needle.
\<close>

theorem find_all_indexes_matching:
  "case nmtst_find_all_indexes elements needles eq of (found, out) \<Rightarrow>
     found = length (filter (\<lambda>i. 0 \<le> i) out) \<and> distinct (filter (\<lambda>i. 0 \<le> i) out)
     \<and> list_all2 (\<lambda>x i. i < 0 \<or> nat i < length elements \<and> eq (elements ! nat i) x) needles out
     \<and> all_answered eq elements needles [] out"
proof -
  obtain out where "nmtst_find_all_indexes elements needles eq = (length (filter (\<lambda>i. 0 \<le> i) out), out)"
    "all_answered eq elements needles [] out"
    using find_loop_answers [of eq elements needles "[]" 0] by (auto simp: nmtst_find_all_indexes_def)
  then show ?thesis using all_answered_distinct all_answered_matches by fastforce
qed

end
