(* ===== verification/NM_Test_Init.thy ===== *)
theory NM_Test_Init
  imports NM_Test_Utils NM_Shared_Utils
begin

text \<open>
  The start of the test harness, \<open>__nmtst_init\<close> of \<open>shared/nm-utils/nm-test-utils.h\<close>, for tests
  outside the core of NetworkManager: the words of \<open>NMTST_DEBUG\<close>, the arguments it looks at, the
  arguments for \<open>g_test_init\<close>, the clean-up of the argument vector, the fatal log levels; and the
  random numbers with their seed. Loading libnm and setting the log handler is left out.
\<close>

unbundle bit_operations_syntax

section \<open>The words of the variable\<close>

text \<open>The locals of \<open>__nmtst_init\<close>. The arrays \<open>p_tests\<close>, \<open>s_tests\<close> are NULL while they are empty.\<close>

record init_opts =
  o_debug :: bool
  o_c_level :: cstr
  o_level :: cstr
  o_c_domains :: cstr
  o_domains :: cstr
  o_sudo :: cstr
  o_no_expect :: bool
  o_p_tests :: "string list"
  o_s_tests :: "string list"
  o_quick :: bool
  o_quick_set :: bool
  o_messages :: "string list"

definition strncaseeq :: "'g glib_scheme \<Rightarrow> string \<Rightarrow> string \<Rightarrow> bool" where
  "strncaseeq L s p = g_strcaseeq L (take (length p) s) p"

definition debug_word :: "'g glib_scheme \<Rightarrow> string \<Rightarrow> init_opts \<Rightarrow> init_opts" where
  "debug_word L w v =
     (if g_strcaseeq L w ''debug'' then v\<lparr>o_debug := True\<rparr>
      else if g_strcaseeq L w ''no-debug'' then v\<lparr>o_debug := False\<rparr>
      else if strncaseeq L w ''log-level=''
      then v\<lparr>o_c_level := Some (drop (length ''log-level='') w), o_level := Some (drop (length ''log-level='') w)\<rparr>
      else if g_strcaseeq L w ''D''
      then v\<lparr>o_c_level := Some ''TRACE'', o_level := Some ''TRACE'', o_no_expect := True\<rparr>
      else if g_strcaseeq L w ''TRACE'' then v\<lparr>o_c_level := Some ''TRACE'', o_level := Some ''TRACE''\<rparr>
      else if strncaseeq L w ''log-domains=''
      then v\<lparr>o_c_domains := Some (drop (length ''log-domains='') w), o_domains := Some (drop (length ''log-domains='') w)\<rparr>
      else if strncaseeq L w ''sudo-cmd='' then v\<lparr>o_sudo := Some (drop (length ''sudo-cmd='') w)\<rparr>
      else if g_strcaseeq L w ''no-expect-message'' then v\<lparr>o_no_expect := True\<rparr>
      else if strncaseeq L w ''p='' then v\<lparr>o_p_tests := o_p_tests v @ [drop (length ''p='') w]\<rparr>
      else if strncaseeq L w ''s='' then v\<lparr>o_s_tests := o_s_tests v @ [drop (length ''s='') w]\<rparr>
      else if g_strcaseeq L w ''slow'' \<or> g_strcaseeq L w ''thorough''
      then v\<lparr>o_quick := False, o_quick_set := True\<rparr>
      else if g_strcaseeq L w ''quick'' then v\<lparr>o_quick := True, o_quick_set := True\<rparr>
      else v\<lparr>o_messages := o_messages v
             @ [''>>> nmtst: ignore unrecognized NMTST_DEBUG option \"'' @ w @ ''\"'']\<rparr>)"

fun debug_words :: "'g glib_scheme \<Rightarrow> string list \<Rightarrow> init_opts \<Rightarrow> init_opts" where
  "debug_words L [] v = v"
| "debug_words L (w # ws) v = debug_words L ws (debug_word L w v)"

definition debug_delimiters :: string where
  "debug_delimiters = '',; '' @ [CHR 0x09, CHR 0x0D, CHR 0x0A]"

definition init_opts0 :: "bool \<Rightarrow> cstr \<Rightarrow> cstr \<Rightarrow> init_opts" where
  "init_opts0 verbose level domains =
     \<lparr>o_debug = verbose, o_c_level = None, o_level = level, o_c_domains = None, o_domains = domains,
      o_sudo = None, o_no_expect = False, o_p_tests = [], o_s_tests = [], o_quick = False,
      o_quick_set = False, o_messages = []\<rparr>"

definition read_nmtst_debug :: "'g glib_scheme \<Rightarrow> cstr \<Rightarrow> init_opts \<Rightarrow> init_opts option" where
  "read_nmtst_debug L nmtst_debug v =
     (case nmtst_debug of
        None \<Rightarrow> Some v
      | Some s \<Rightarrow>
          (case nmtst_str_split (s @ [NULc]) debug_delimiters of
             None \<Rightarrow> None
           | Some (mem, ps) \<Rightarrow> Some (debug_words L (map (text_at mem) ps) (v\<lparr>o_debug := True\<rparr>))))"

section \<open>The arguments\<close>

text \<open>The flags are \<open>is_debug\<close>, \<open>test_quick_argv\<close> and \<open>test_tap_log\<close>.\<close>

fun argv_flags :: "'g glib_scheme \<Rightarrow> string list \<Rightarrow> bool \<times> bool \<times> bool \<Rightarrow> bool \<times> bool \<times> bool" where
  "argv_flags L [] fl = fl"
| "argv_flags L (a # as) (debug, quick_argv, tap) =
     argv_flags L as
       (if g_strcaseeq L a ''--debug'' then (True, quick_argv, tap)
        else if g_strcaseeq L a ''--no-debug'' then (False, quick_argv, tap)
        else if a = ''-m=slow'' \<or> a = ''-m=thorough'' \<or> a = ''-m=quick''
             \<or> (a = ''-m'' \<and> as \<noteq> [] \<and> (hd as = ''quick'' \<or> hd as = ''slow'' \<or> hd as = ''thorough''))
        then (debug, True, tap)
        else if a = ''--tap'' then (debug, quick_argv, True)
        else (debug, quick_argv, tap))"

text \<open>The arguments for \<open>g_test_init\<close>.\<close>

definition test_init_args :: "string list \<Rightarrow> init_opts \<Rightarrow> bool \<Rightarrow> bool \<Rightarrow> string list" where
  "test_init_args argv v quick_argv tap =
     (if argv \<noteq> [] then argv else [''./test''])
     @ (if o_quick_set v \<and> \<not> quick_argv then [''-m=quick''] else [])
     @ (if \<not> tap
        then concat (map (\<lambda>p. [''-p'', p]) (o_p_tests v)) @ concat (map (\<lambda>s. [''-s'', s]) (o_s_tests v))
        else [])"

text \<open>
  The clean-up. \<open>argv\<close> holds pointers or NULL, \<open>args\<close> is the array \<open>g_test_init\<close> has left. The
  first loop clears what is no longer there, the second moves the others to the front.
\<close>

function clear_loop :: "'p option list \<Rightarrow> 'p option list \<Rightarrow> nat \<Rightarrow> nat \<Rightarrow> 'p option list option" where
  "clear_loop args argv i j =
     (if i \<ge> length argv then Some argv
      else if j \<ge> length args then None
      else if argv ! i = args ! j then clear_loop args argv (Suc i) (Suc j)
      else clear_loop args (argv[i := None]) (Suc i) j)"
  by pat_completeness auto

termination
  by (relation "measure (\<lambda>(args, argv, i, j). length argv - i)") auto

function move_loop :: "'p option list \<Rightarrow> nat \<Rightarrow> nat \<Rightarrow> 'p option list \<times> nat" where
  "move_loop argv i j =
     (if i \<ge> length argv then (argv, j)
      else (case argv ! i of
              None \<Rightarrow> move_loop argv (Suc i) j
            | Some p \<Rightarrow>
                (let argv = argv[j := Some p]; j = Suc j
                 in move_loop (if i \<ge> j then argv[i := None] else argv) (Suc i) j)))"
  by pat_completeness auto

termination
  by (relation "measure (\<lambda>(argv, i, j). length argv - i)") (auto simp: Let_def)

declare clear_loop.simps [simp del] move_loop.simps [simp del]

definition collapse_argv :: "'p option list \<Rightarrow> 'p option list \<Rightarrow> ('p option list \<times> nat) option" where
  "collapse_argv argv args =
     (if length argv > 1
      then (case clear_loop args argv 1 1 of None \<Rightarrow> None | Some argv \<Rightarrow> Some (move_loop argv 1 1))
      else Some (argv, length argv))"

section \<open>The start\<close>

datatype fatal_mask = G_LOG_FATAL_MASK | G_LOG_LEVEL_MASK

text \<open>\<open>struct __nmtst_internal\<close>; a generator is known by its seed.\<close>

record nmtst_internal =
  rand0 :: "32 word option"
  rand_seed :: "32 word"
  rand_gen :: "32 word option"
  is_debug :: bool
  assert_logging :: bool
  no_expect_message :: bool
  test_quick :: bool
  test_tap_log :: bool
  sudo_cmd :: cstr
  orig_argv :: "string list option"

text \<open>
  The world of the start: the two variables, what GLib answers, and what the start does: the call of
  \<open>g_test_init\<close>, the mask it sets, the variable it sets and the messages it prints, with a flag
  whether they go through the log. \<open>t_keeps\<close> says for the arguments of \<open>g_test_init\<close> which it leaves.
\<close>

record test_env =
  t_NMTST_DEBUG :: cstr
  t_G_MESSAGES_DEBUG :: cstr
  t_verbose :: bool
  t_initialized :: bool
  t_keeps :: "string list \<Rightarrow> bool list"
  t_quick :: "string list option \<Rightarrow> bool"

record start =
  st_internal :: nmtst_internal
  st_argv :: "string list option"
  st_test_init :: "string list option"
  st_fatal :: "fatal_mask option"
  st_messages_debug :: cstr
  st_said :: "(bool \<times> string) list"

definition nmtst_zero :: nmtst_internal where
  "nmtst_zero = \<lparr>rand0 = None, rand_seed = 0, rand_gen = None, is_debug = False, assert_logging = False,
     no_expect_message = False, test_quick = False, test_tap_log = False, sudo_cmd = None, orig_argv = None\<rparr>"

definition nmtst_initialized :: "nmtst_internal \<Rightarrow> bool" where
  "nmtst_initialized n \<longleftrightarrow> rand0 n \<noteq> None"

definition nmtst_free :: "nmtst_internal \<Rightarrow> nmtst_internal" where
  "nmtst_free n = (if \<not> nmtst_initialized n then n else nmtst_zero)"

text \<open>What \<open>g_test_init\<close> leaves of its arguments, as pointers: the places of the array.\<close>

definition kept_args :: "bool list \<Rightarrow> nat option list" where
  "kept_args ks =
     map Some (filter (\<lambda>k. ks ! k) [0..<length ks]) @ replicate (Suc (length (filter Not ks))) None"

text \<open>The vector after the clean-up: what its pointers point to, up to the new \<open>argc\<close>.\<close>

definition argv_left :: "string list \<Rightarrow> bool list \<Rightarrow> string list option" where
  "argv_left argv ks =
     (case collapse_argv (map Some [0..<length argv]) (kept_args ks) of
        None \<Rightarrow> None
      | Some (ps, argc) \<Rightarrow> Some (map (\<lambda>p. argv ! the p) (take argc ps)))"

definition test_quick_value :: "test_env \<Rightarrow> init_opts \<Rightarrow> bool \<Rightarrow> string list option \<Rightarrow> bool \<Rightarrow> bool" where
  "test_quick_value T v quick_argv call NMTST_TEST_QUICK =
     (if o_quick_set v then o_quick v else if quick_argv then t_quick T call else NMTST_TEST_QUICK)"

definition fatal_mask_value :: "bool \<Rightarrow> bool \<Rightarrow> fatal_mask option" where
  "fatal_mask_value assert_log no_expect =
     (if \<not> assert_log then (if no_expect then Some G_LOG_FATAL_MASK else None)
      else if no_expect then Some G_LOG_FATAL_MASK
      else Some G_LOG_LEVEL_MASK)"

text \<open>What is printed: through the log, unless the test asserts on the log.\<close>

definition nmtst_log :: "bool \<Rightarrow> bool \<Rightarrow> string \<Rightarrow> bool \<times> string" where
  "nmtst_log assert_log no_expect msg = (\<not> assert_log \<or> no_expect, msg)"

definition sets_messages_debug :: "'g glib_scheme \<Rightarrow> bool \<Rightarrow> bool \<Rightarrow> init_opts \<Rightarrow> bool" where
  "sets_messages_debug L assert_log debug v \<longleftrightarrow>
     (\<not> assert_log \<or> (assert_log \<and> o_no_expect v))
     \<and> (debug \<or> (case o_c_level v of None \<Rightarrow> False
                     | Some l \<Rightarrow> g_strcaseeq L l ''DEBUG'' \<or> g_strcaseeq L l ''TRACE''))"

text \<open>The calls of \<open>g_test_init\<close> and what is said about options that are not passed on.\<close>

definition ignored_note :: "bool \<Rightarrow> bool \<Rightarrow> init_opts \<Rightarrow> string list" where
  "ignored_note calls tap v =
     (if o_p_tests v = [] \<and> o_s_tests v = [] then []
      else if \<not> calls
      then [''>>> nmtst: ignore -p and -s options for test which calls g_test_init() itself'']
      else if tap then [''>>> nmtst: ignore -p and -s options for tap-tests'']
      else [])"

definition nmtst_init ::
  "'g glib_scheme \<Rightarrow> test_env \<Rightarrow> bool \<Rightarrow> nmtst_internal \<Rightarrow> string list option \<Rightarrow> bool \<Rightarrow> cstr \<Rightarrow> cstr
   \<Rightarrow> start option" where
  "nmtst_init L T NMTST_TEST_QUICK n argv assert_log log_level log_domains =
     (if nmtst_initialized n then None
      else if assert_log \<and> (log_level \<noteq> None \<or> log_domains \<noteq> None) then None
      else (case read_nmtst_debug L (t_NMTST_DEBUG T) (init_opts0 (t_verbose T) log_level log_domains) of
        None \<Rightarrow> None
      | Some v \<Rightarrow>
          (let orig = (case argv of None \<Rightarrow> orig_argv n | Some a \<Rightarrow> Some a);
               (debug, quick_argv, tap) = argv_flags L (case orig of None \<Rightarrow> [] | Some a \<Rightarrow> a)
                 (o_debug v, False, test_tap_log n);
               calls = (argv \<noteq> None \<and> \<not> t_initialized T);
               args = test_init_args (the argv) v quick_argv tap;
               call = (if calls then Some args else None)
           in (case (if calls then map_option Some (argv_left (the argv) (t_keeps T args)) else Some argv) of
                None \<Rightarrow> None
              | Some argv' \<Rightarrow> Some
                  \<lparr>st_internal = n\<lparr>orig_argv := orig, assert_logging := assert_log, test_tap_log := tap,
                     test_quick := test_quick_value T v quick_argv call NMTST_TEST_QUICK,
                     is_debug := debug, rand0 := Some 0, sudo_cmd := o_sudo v,
                     no_expect_message := o_no_expect v\<rparr>,
                   st_argv = argv', st_test_init = call,
                   st_fatal = fatal_mask_value assert_log (o_no_expect v),
                   st_messages_debug =
                     (if sets_messages_debug L assert_log debug v \<and> t_G_MESSAGES_DEBUG T = None
                      then Some ''all'' else t_G_MESSAGES_DEBUG T),
                   st_said = map (nmtst_log assert_log (o_no_expect v))
                     (o_messages v @ ignored_note calls tap v)\<rparr>))))"

section \<open>What the words mean\<close>

datatype word_meaning =
  Debug bool | Level string bool | Domains string | Sudo string | NoExpect
  | PTest string | STest string | Quick bool | Unknown string

definition meanings :: "'g glib_scheme \<Rightarrow> string \<Rightarrow> (bool \<times> word_meaning) list" where
  "meanings L w =
     [(g_strcaseeq L w ''debug'', Debug True), (g_strcaseeq L w ''no-debug'', Debug False),
      (strncaseeq L w ''log-level='', Level (drop (length ''log-level='') w) False), (g_strcaseeq L w ''D'', Level ''TRACE'' True),
      (g_strcaseeq L w ''TRACE'', Level ''TRACE'' False), (strncaseeq L w ''log-domains='', Domains (drop (length ''log-domains='') w)),
      (strncaseeq L w ''sudo-cmd='', Sudo (drop (length ''sudo-cmd='') w)), (g_strcaseeq L w ''no-expect-message'', NoExpect),
      (strncaseeq L w ''p='', PTest (drop (length ''p='') w)), (strncaseeq L w ''s='', STest (drop (length ''s='') w)),
      (g_strcaseeq L w ''slow'', Quick False), (g_strcaseeq L w ''thorough'', Quick False),
      (g_strcaseeq L w ''quick'', Quick True), (True, Unknown w)]"

definition meaning :: "'g glib_scheme \<Rightarrow> string \<Rightarrow> word_meaning" where
  "meaning L w = snd (hd (filter fst (meanings L w)))"

fun apply_meaning :: "word_meaning \<Rightarrow> init_opts \<Rightarrow> init_opts" where
  "apply_meaning (Debug b) v = v\<lparr>o_debug := b\<rparr>"
| "apply_meaning (Level l x) v = v\<lparr>o_c_level := Some l, o_level := Some l, o_no_expect := x \<or> o_no_expect v\<rparr>"
| "apply_meaning (Domains d) v = v\<lparr>o_c_domains := Some d, o_domains := Some d\<rparr>"
| "apply_meaning (Sudo c) v = v\<lparr>o_sudo := Some c\<rparr>"
| "apply_meaning NoExpect v = v\<lparr>o_no_expect := True\<rparr>"
| "apply_meaning (PTest s) v = v\<lparr>o_p_tests := o_p_tests v @ [s]\<rparr>"
| "apply_meaning (STest s) v = v\<lparr>o_s_tests := o_s_tests v @ [s]\<rparr>"
| "apply_meaning (Quick q) v = v\<lparr>o_quick := q, o_quick_set := True\<rparr>"
| "apply_meaning (Unknown w) v =
     v\<lparr>o_messages := o_messages v @ [''>>> nmtst: ignore unrecognized NMTST_DEBUG option \"'' @ w @ ''\"'']\<rparr>"

lemma debug_word_meaning: "debug_word L w v = apply_meaning (meaning L w) v"
  by (simp add: debug_word_def meaning_def meanings_def)

text \<open>The values a list of words gives to one of the options, in order.\<close>

definition values_of :: "'g glib_scheme \<Rightarrow> (word_meaning \<Rightarrow> 'a option) \<Rightarrow> string list \<Rightarrow> 'a list" where
  "values_of L f ws = List.map_filter (\<lambda>w. f (meaning L w)) ws"

definition last_or :: "'a \<Rightarrow> 'a list \<Rightarrow> 'a" where
  "last_or d xs = last (d # xs)"

lemma values_of_simps [simp]:
  "values_of L f [] = []"
  "values_of L f (w # ws) = (case f (meaning L w) of None \<Rightarrow> values_of L f ws | Some x \<Rightarrow> x # values_of L f ws)"
  by (simp_all add: values_of_def map_filter_simps cong: option.case_cong)

lemma last_or_simps [simp]: "last_or d [] = d" "last_or d (x # xs) = last_or x xs"
  by (simp_all add: last_or_def)

definition debug_of :: "word_meaning \<Rightarrow> bool option" where
  "debug_of m = (case m of Debug b \<Rightarrow> Some b | _ \<Rightarrow> None)"

definition level_of :: "word_meaning \<Rightarrow> cstr option" where
  "level_of m = (case m of Level l x \<Rightarrow> Some (Some l) | _ \<Rightarrow> None)"

definition domains_of :: "word_meaning \<Rightarrow> cstr option" where
  "domains_of m = (case m of Domains d \<Rightarrow> Some (Some d) | _ \<Rightarrow> None)"

definition sudo_of :: "word_meaning \<Rightarrow> cstr option" where
  "sudo_of m = (case m of Sudo c \<Rightarrow> Some (Some c) | _ \<Rightarrow> None)"

definition no_expect_of :: "word_meaning \<Rightarrow> bool" where
  "no_expect_of m = (case m of NoExpect \<Rightarrow> True | Level l x \<Rightarrow> x | _ \<Rightarrow> False)"

definition p_of :: "word_meaning \<Rightarrow> string option" where
  "p_of m = (case m of PTest s \<Rightarrow> Some s | _ \<Rightarrow> None)"

definition s_of :: "word_meaning \<Rightarrow> string option" where
  "s_of m = (case m of STest s \<Rightarrow> Some s | _ \<Rightarrow> None)"

definition quick_of :: "word_meaning \<Rightarrow> bool option" where
  "quick_of m = (case m of Quick q \<Rightarrow> Some q | _ \<Rightarrow> None)"

lemmas of_defs = debug_of_def level_of_def domains_of_def sudo_of_def no_expect_of_def p_of_def s_of_def
  quick_of_def

lemma apply_meaning_single:
  "o_debug (apply_meaning m v) = (case debug_of m of None \<Rightarrow> o_debug v | Some x \<Rightarrow> x)"
  "o_c_level (apply_meaning m v) = (case level_of m of None \<Rightarrow> o_c_level v | Some x \<Rightarrow> x)"
  "o_level (apply_meaning m v) = (case level_of m of None \<Rightarrow> o_level v | Some x \<Rightarrow> x)"
  "o_c_domains (apply_meaning m v) = (case domains_of m of None \<Rightarrow> o_c_domains v | Some x \<Rightarrow> x)"
  "o_domains (apply_meaning m v) = (case domains_of m of None \<Rightarrow> o_domains v | Some x \<Rightarrow> x)"
  "o_sudo (apply_meaning m v) = (case sudo_of m of None \<Rightarrow> o_sudo v | Some x \<Rightarrow> x)"
  "o_quick (apply_meaning m v) = (case quick_of m of None \<Rightarrow> o_quick v | Some x \<Rightarrow> x)"
  by (cases m; simp add: of_defs)+

lemma apply_meaning_collected:
  "o_no_expect (apply_meaning m v) = (o_no_expect v \<or> no_expect_of m)"
  "o_p_tests (apply_meaning m v) = o_p_tests v @ (case p_of m of None \<Rightarrow> [] | Some x \<Rightarrow> [x])"
  "o_s_tests (apply_meaning m v) = o_s_tests v @ (case s_of m of None \<Rightarrow> [] | Some x \<Rightarrow> [x])"
  "o_quick_set (apply_meaning m v) = (o_quick_set v \<or> quick_of m \<noteq> None)"
  by (cases m; auto simp: of_defs)+

text \<open>The options after all words: the last word about an option decides, the paths are collected.\<close>

lemma debug_words_last:
  "o_debug (debug_words L ws v) = last_or (o_debug v) (values_of L debug_of ws)"
  "o_c_level (debug_words L ws v) = last_or (o_c_level v) (values_of L level_of ws)"
  "o_level (debug_words L ws v) = last_or (o_level v) (values_of L level_of ws)"
  "o_c_domains (debug_words L ws v) = last_or (o_c_domains v) (values_of L domains_of ws)"
  "o_domains (debug_words L ws v) = last_or (o_domains v) (values_of L domains_of ws)"
  "o_sudo (debug_words L ws v) = last_or (o_sudo v) (values_of L sudo_of ws)"
  "o_quick (debug_words L ws v) = last_or (o_quick v) (values_of L quick_of ws)"
  by (induction ws arbitrary: v; simp add: debug_word_meaning apply_meaning_single split: option.split)+

lemma debug_words_collected:
  "o_no_expect (debug_words L ws v) = (o_no_expect v \<or> (\<exists>w \<in> set ws. no_expect_of (meaning L w)))"
  "o_p_tests (debug_words L ws v) = o_p_tests v @ values_of L p_of ws"
  "o_s_tests (debug_words L ws v) = o_s_tests v @ values_of L s_of ws"
  "o_quick_set (debug_words L ws v) = (o_quick_set v \<or> values_of L quick_of ws \<noteq> [])"
  by (induction ws arbitrary: v; simp add: debug_word_meaning apply_meaning_collected split: option.split)+

section \<open>The clean-up of the vector\<close>

definition pointers :: "'p option list \<Rightarrow> 'p list" where
  "pointers xs = List.map_filter (\<lambda>x. x) xs"

lemma pointers_simps [simp]:
  "pointers [] = []" "pointers (None # xs) = pointers xs" "pointers (Some p # xs) = p # pointers xs"
  by (simp_all add: pointers_def map_filter_simps)

lemma length_pointers: "length (pointers xs) \<le> length xs"
  by (induction xs) (auto simp: pointers_def map_filter_simps split: option.split)

lemma clear_loop_kept:
  assumes "subseq qs ps"
  shows "\<exists>rest. clear_loop (apre @ map Some qs @ replicate (Suc m) None) (pre @ map Some ps) (length pre) (length apre)
      = Some (pre @ rest) \<and> length rest = length ps \<and> pointers rest = qs"
  using assms
proof (induction ps arbitrary: pre apre qs rule: list.induct)
  case Nil
  then have "qs = []" by (simp add: list_emb_Nil2)
  then show ?case by (subst clear_loop.simps) simp
next
  case (Cons p ps)
  let ?args = "\<lambda>a q. a @ map Some q @ replicate (Suc m) None"
  show ?case
  proof (cases "qs \<noteq> [] \<and> hd qs = p")
    case True
    then obtain qs' where qs: "qs = p # qs'" by (cases qs) auto
    then have "subseq qs' ps" using Cons.prems by simp
    from Cons.IH [OF this, of "apre @ [Some p]" "pre @ [Some p]"] obtain rest where
      "clear_loop (?args (apre @ [Some p]) qs') ((pre @ [Some p]) @ map Some ps) (Suc (length pre)) (Suc (length apre))
         = Some ((pre @ [Some p]) @ rest)" "length rest = length ps" "pointers rest = qs'" by auto
    then show ?thesis using qs
      by (subst clear_loop.simps) (auto simp: nth_append intro: exI [of _ "Some p # rest"])
  next
    case False
    then have sub: "subseq qs ps" using Cons.prems by (cases qs) (auto simp: subseq_Cons2_neq)
    have read: "?args apre qs ! length apre \<noteq> Some p" "length apre < length (?args apre qs)"
      using False by (cases qs; simp add: nth_append)+
    from Cons.IH [OF sub, of apre "pre @ [None]"] obtain rest where
      "clear_loop (?args apre qs) ((pre @ [None]) @ map Some ps) (Suc (length pre)) (length apre)
         = Some ((pre @ [None]) @ rest)" "length rest = length ps" "pointers rest = qs" by auto
    then show ?thesis using read
      by (subst clear_loop.simps) (auto simp: nth_append intro: exI [of _ "None # rest"])
  qed
qed

lemma move_loop_front:
  "\<exists>k. move_loop (pre @ replicate n None @ rest) (length pre + n) (length pre)
     = (pre @ map Some (pointers rest) @ replicate k None, length pre + length (pointers rest))"
proof (induction rest arbitrary: pre n)
  case Nil
  then show ?case by (subst move_loop.simps) auto
next
  case (Cons x rest)
  show ?case
  proof (cases x)
    case None
    have "pre @ replicate n None @ None # rest = pre @ replicate (Suc n) None @ rest"
      by (simp add: replicate_app_Cons_same)
    moreover have "move_loop (pre @ replicate n None @ None # rest) (length pre + n) (length pre)
        = move_loop (pre @ replicate n None @ None # rest) (length pre + Suc n) (length pre)"
      by (subst move_loop.simps) (simp add: nth_append)
    ultimately have "move_loop (pre @ replicate n None @ x # rest) (length pre + n) (length pre)
        = move_loop (pre @ replicate (Suc n) None @ rest) (length pre + Suc n) (length pre)"
      unfolding None by (simp only:)
    then show ?thesis using Cons.IH [of pre "Suc n"] by (simp only: None pointers_simps)
  next
    case (Some p)
    let ?l = "pre @ replicate n None @ Some p # rest"
    have "(if length pre + n \<ge> Suc (length pre) then ?l[length pre := Some p, length pre + n := None]
        else ?l[length pre := Some p]) = (pre @ [Some p]) @ replicate n None @ rest"
      by (cases n) (simp_all add: list_update_append replicate_app_Cons_same)
    moreover have "?l ! (length pre + n) = Some p" by (simp add: nth_append)
    ultimately have "move_loop ?l (length pre + n) (length pre)
        = move_loop ((pre @ [Some p]) @ replicate n None @ rest) (length (pre @ [Some p]) + n) (length (pre @ [Some p]))"
      by (subst move_loop.simps) (simp add: Let_def)
    then show ?thesis using Cons.IH [of "pre @ [Some p]" n] Some by simp
  qed
qed

text \<open>Whatever \<open>g_test_init\<close> takes away, the vector is left with the others, in order.\<close>

lemma collapse_keeps:
  assumes "subseq qs ps"
  shows "\<exists>k. collapse_argv (map Some (p # ps)) (map Some (p # qs) @ replicate (Suc m) None)
     = Some (map Some (p # qs) @ replicate k None, Suc (length qs))"
proof (cases "ps = []")
  case True
  then show ?thesis using assms by (auto simp: collapse_argv_def intro: exI [of _ 0])
next
  case False
  obtain rest where r: "clear_loop ([Some p] @ map Some qs @ replicate (Suc m) None) ([Some p] @ map Some ps) 1 1
      = Some ([Some p] @ rest)" "pointers rest = qs"
    using clear_loop_kept [OF assms, of "[Some p]" m "[Some p]"] by auto
  obtain k where "move_loop ([Some p] @ replicate 0 None @ rest) 1 1
      = ([Some p] @ map Some (pointers rest) @ replicate k None, Suc (length (pointers rest)))"
    using move_loop_front [of "[Some p]" 0 rest] by auto
  then show ?thesis using r False by (auto simp: collapse_argv_def)
qed

section \<open>Random numbers\<close>

text \<open>
  \<open>nmtst_get_rand\<close>: \<open>seed_env\<close> is \<open>NMTST_SEED_RAND\<close>, \<open>drawn\<close> the first number of the fresh
  generator. The number that is printed is \<open>rand_seed\<close>.
\<close>

definition nmtst_get_rand :: "'g glib_scheme \<Rightarrow> cstr \<Rightarrow> 32 word \<Rightarrow> nmtst_internal \<Rightarrow> nmtst_internal option" where
  "nmtst_get_rand L seed_env drawn n =
     (if \<not> nmtst_initialized n then None
      else (case rand_gen n of
              Some _ \<Rightarrow> Some n
            | None \<Rightarrow>
                (case seed_env of
                   Some str \<Rightarrow>
                     (case g_strtoll L str 0 of (i, s, _) \<Rightarrow>
                        if s = [] \<and> i \<ge> 0 \<and> i < 4294967295
                        then Some (n\<lparr>rand_gen := Some (word_of_int i), rand_seed := word_of_int i\<rparr>)
                        else None)
                 | None \<Rightarrow> Some (n\<lparr>rand_gen := Some drawn, rand_seed := drawn\<rparr>))))"

text \<open>\<open>"%u"\<close> of the seed.\<close>

definition printed_seed :: "nmtst_internal \<Rightarrow> string" where
  "printed_seed n = dec_of_nat (unat (rand_seed n))"

definition seed_doc :: "'g glib_scheme \<Rightarrow> bool" where
  "seed_doc L \<longleftrightarrow> (\<forall>k. int k \<le> LONG_MAX \<longrightarrow> g_strtoll L (dec_of_nat k) 0 = (int k, [], ENONE))"

lemma ref_seed_doc: "seed_doc ref_lib"
proof -
  have "strtol10 (dec_of_nat k) = (int k, [], ENONE)" if "int k \<le> LONG_MAX" for k
    using strtol10_junk [OF that, of "[]"] by simp
  then show ?thesis by (simp add: seed_doc_def ref_lib_def)
qed

text \<open>
  \<open>nmtst_rand_buf\<close>: \<open>draw k\<close> is the \<open>k\<close>-th number, \<open>bytes\<close> its representation in memory.
\<close>

fun tail_bytes :: "32 word \<Rightarrow> nat \<Rightarrow> 8 word list" where
  "tail_bytes v 0 = []"
| "tail_bytes v (Suc n) = ucast (v AND 0xFF) # tail_bytes (drop_bit 8 v) n"

function rand_bytes :: "(32 word \<Rightarrow> 8 word list) \<Rightarrow> (nat \<Rightarrow> 32 word) \<Rightarrow> nat \<Rightarrow> nat \<Rightarrow> 8 word list" where
  "rand_bytes bytes draw k n =
     (if n \<ge> 4 then bytes (draw k) @ rand_bytes bytes draw (Suc k) (n - 4)
      else if n > 0 then tail_bytes (draw k) n
      else [])"
  by pat_completeness auto

termination
  by (relation "measure (\<lambda>(b, d, k, n). n)") auto

declare rand_bytes.simps [simp del]

definition nmtst_rand_buf :: "(32 word \<Rightarrow> 8 word list) \<Rightarrow> (nat \<Rightarrow> 32 word) \<Rightarrow> nat \<Rightarrow> 8 word list" where
  "nmtst_rand_buf bytes draw buffer_length = rand_bytes bytes draw 0 buffer_length"

text \<open>On a little-endian host every byte of the buffer is the byte of the number it belongs to.\<close>

definition le_byte :: "32 word \<Rightarrow> nat \<Rightarrow> 8 word" where
  "le_byte v i = ucast (drop_bit (8 * i) v)"

definition le_bytes :: "32 word \<Rightarrow> 8 word list" where
  "le_bytes v = map (le_byte v) [0..<4]"

lemma tail_bytes_le: "tail_bytes v n = map (le_byte v) [0..<n]"
proof (induction n arbitrary: v)
  case (Suc n)
  have low: "(ucast (v AND 0xFF) :: 8 word) = le_byte v 0"
  proof -
    have eq: "(0xFF :: 32 word) = mask 8" by (simp add: mask_eq_exp_minus_1)
    show ?thesis unfolding eq by (intro bit_word_eqI) (auto simp: le_byte_def bit_simps)
  qed
  have "tail_bytes (drop_bit 8 v) n = map (\<lambda>i. le_byte v (Suc i)) [0..<n]"
    using Suc.IH [of "drop_bit 8 v"] by (simp add: le_byte_def add.commute)
  also have "\<dots> = map (le_byte v) [Suc 0..<Suc n]" by (simp add: map_Suc_upt [symmetric] comp_def del: upt_Suc)
  finally show ?case using low by (simp add: upt_conv_Cons del: upt_Suc)
qed simp

lemma rand_bytes_le:
  "rand_bytes le_bytes draw k n = map (\<lambda>i. le_byte (draw (k + i div 4)) (i mod 4)) [0..<n]"
proof (induction n arbitrary: k rule: less_induct)
  case (less n)
  show ?case
  proof (cases "n \<ge> 4")
    case True
    then obtain m where n: "n = 4 + m" using le_Suc_ex by blast
    have d: "(4 + i) div 4 = Suc (i div 4)" for i :: nat by simp
    have "rand_bytes le_bytes draw k n = le_bytes (draw k) @ rand_bytes le_bytes draw (Suc k) m"
      using n by (subst rand_bytes.simps) simp
    also have "rand_bytes le_bytes draw (Suc k) m = map (\<lambda>i. le_byte (draw (Suc k + i div 4)) (i mod 4)) [0..<m]"
      using less.IH [of m "Suc k"] n by simp
    also have "\<dots> = map (\<lambda>i. le_byte (draw (k + i div 4)) (i mod 4)) [4..<n]"
      by (rule nth_equalityI) (simp_all add: n d)
    finally have "rand_bytes le_bytes draw k n
        = le_bytes (draw k) @ map (\<lambda>i. le_byte (draw (k + i div 4)) (i mod 4)) [4..<n]" .
    moreover have "le_bytes (draw k) = map (\<lambda>i. le_byte (draw (k + i div 4)) (i mod 4)) [0..<4]"
      by (simp add: le_bytes_def)
    moreover have "[0..<n] = [0..<4] @ [4..<n]" using upt_add_eq_append [of 0 4 m] n by simp
    ultimately show ?thesis by simp
  next
    case False
    then have "rand_bytes le_bytes draw k n = map (le_byte (draw k)) [0..<n]"
      by (subst rand_bytes.simps) (simp add: tail_bytes_le)
    also have "\<dots> = map (\<lambda>i. le_byte (draw (k + i div 4)) (i mod 4)) [0..<n]"
      using False by (intro map_cong) auto
    finally show ?thesis .
  qed
qed

section \<open>Properties\<close>

text \<open>Words that are escaped and joined with a delimiter are read back, and mean what they say.\<close>

theorem debug_words_read:
  assumes "\<forall>w \<in> set ws. NULc \<notin> set w" "c \<in> set debug_delimiters"
  shows "read_nmtst_debug L (Some (concat (map (\<lambda>w. escape_token debug_delimiters w @ [c]) ws))) v
    = Some (debug_words L ws (v\<lparr>o_debug := True\<rparr>))"
proof -
  let ?s = "concat (map (\<lambda>w. escape_token debug_delimiters w @ [c]) ws)"
  have "NULc \<notin> set debug_delimiters" "backslash \<notin> set debug_delimiters" by (simp_all add: debug_delimiters_def)
  moreover then have "NULc \<notin> set ?s" using assms by (auto simp: escape_token_def split: if_splits)
  ultimately obtain mem ps where "nmtst_str_split (?s @ [NULc]) debug_delimiters = Some (mem, ps)"
    "map (text_at mem) ps = tokens debug_delimiters ?s"
    using split_loop_spec [of ?s debug_delimiters "[]" "[]"] by (auto simp: nmtst_str_split_def)
  moreover have "tokens debug_delimiters ?s = ws"
    using tokens_escaped [OF assms(2)] \<open>backslash \<notin> _\<close> by blast
  ultimately show ?thesis by (simp add: read_nmtst_debug_def)
qed

text \<open>
  The vector after the start: whatever arguments \<open>g_test_init\<close> takes, as long as it leaves the
  name of the program and takes those the start has added, the caller finds exactly the
  others, in order.
\<close>

theorem argv_left_kept:
  assumes "argv \<noteq> []" "length argv \<le> length ks" "ks ! 0"
    and "\<forall>k < length ks. length argv \<le> k \<longrightarrow> \<not> ks ! k"
  shows "argv_left argv ks = Some (map (\<lambda>k. argv ! k) (filter (\<lambda>k. ks ! k) [0..<length argv]))"
proof -
  let ?kept = "filter (\<lambda>k. ks ! k)" and ?n = "length argv"
  have "[0..<length ks] = [0..<?n] @ [?n..<length ks]"
    using assms(2) by (metis le0 le_Suc_ex upt_add_eq_append)
  moreover have "?kept [?n..<length ks] = []" using assms(4) by (simp add: filter_empty_conv)
  ultimately have all: "?kept [0..<length ks] = ?kept [0..<?n]" by simp
  have up: "[0..<?n] = 0 # [1..<?n]" using assms(1) by (simp add: upt_conv_Cons)
  then have k: "?kept [0..<?n] = 0 # ?kept [1..<?n]" using assms(3) by simp
  obtain m where "collapse_argv (map Some (0 # [1..<?n])) (map Some (0 # ?kept [1..<?n])
      @ replicate (Suc (length (filter Not ks))) None)
    = Some (map Some (0 # ?kept [1..<?n]) @ replicate m None, Suc (length (?kept [1..<?n])))"
    using collapse_keeps [OF subseq_filter_left [of "\<lambda>k. ks ! k" "[1..<?n]"], of 0] by blast
  then show ?thesis by (simp only: argv_left_def kept_args_def all k up) (simp add: assms(3))
qed

text \<open>
  The seed that is printed reproduces the numbers of a run, except the greatest one, which the
  test against \<open>G_MAXUINT32\<close> refuses.
\<close>

theorem seed_repeats:
  assumes "seed_doc L" "nmtst_initialized n" "rand_gen n = None"
    and "nmtst_get_rand L None drawn n = Some n'"
  shows "nmtst_get_rand L (Some (printed_seed n')) other n = (if drawn = - 1 then None else Some n')"
proof -
  have n': "n' = n\<lparr>rand_gen := Some drawn, rand_seed := drawn\<rparr>"
    using assms(2-4) by (simp add: nmtst_get_rand_def)
  have "int (unat drawn) \<le> LONG_MAX" using uint_lt2p [of drawn] by (simp add: LONG_MAX_def)
  then have "g_strtoll L (printed_seed n') 0 = (uint drawn, [], ENONE)"
    using assms(1) by (simp add: seed_doc_def printed_seed_def n')
  moreover have "uint drawn < 4294967295 \<longleftrightarrow> drawn \<noteq> - 1"
  proof -
    have "uint (- 1 :: 32 word) = 4294967295" by (simp add: unsigned_minus_1_eq_mask mask_eq_exp_minus_1)
    then have "uint drawn = 4294967295 \<longleftrightarrow> drawn = - 1" by (metis word_uint_eq_iff)
    then show ?thesis using uint_lt2p [of drawn] by auto
  qed
  ultimately show ?thesis using assms(2,3) by (simp add: nmtst_get_rand_def n')
qed

text \<open>A buffer of any length is filled, every byte with a byte of the numbers that were drawn.\<close>

theorem rand_buf_bytes:
  "nmtst_rand_buf le_bytes draw n = map (\<lambda>i. le_byte (draw (i div 4)) (i mod 4)) [0..<n]"
  by (simp add: nmtst_rand_buf_def rand_bytes_le)

lemma read_nmtst_debug_tokens:
  assumes "NULc \<notin> set s"
  shows "read_nmtst_debug L (Some s) v = Some (debug_words L (tokens debug_delimiters s) (v\<lparr>o_debug := True\<rparr>))"
proof -
  have "backslash \<notin> set debug_delimiters" by (simp add: debug_delimiters_def)
  then show ?thesis using assms split_loop_spec [of s debug_delimiters "[]" "[]"]
    by (auto simp: read_nmtst_debug_def nmtst_str_split_def)
qed

lemma read_nmtst_debug_total:
  "case env of None \<Rightarrow> True | Some s \<Rightarrow> NULc \<notin> set s \<Longrightarrow> \<exists>v'. read_nmtst_debug L env v = Some v'"
  by (cases env) (simp_all add: read_nmtst_debug_tokens, simp add: read_nmtst_debug_def)

text \<open>
  What is documented of \<open>g_test_init\<close>: the name of the program stays, and so does no argument
  that the start has added behind the \<open>argc\<close> ones of the caller: it knows all of them.
\<close>

definition keeps_doc :: "nat \<Rightarrow> bool list \<Rightarrow> bool" where
  "keeps_doc argc ks \<longleftrightarrow> argc \<le> length ks \<and> ks ! 0 \<and> (\<forall>k < length ks. argc \<le> k \<longrightarrow> \<not> ks ! k)"

lemma keeps_doc_instance: "keeps_doc 1 (True # replicate k False)"
  by (simp add: keeps_doc_def nth_Cons split: nat.split)

lemma test_init_args_append: "argv \<noteq> [] \<Longrightarrow> \<exists>more. test_init_args argv v quick_argv tap = argv @ more"
  by (simp add: test_init_args_def)

text \<open>
  The start of a test returns for every value of \<open>NMTST_DEBUG\<close>: the harness is initialised then
  and refuses to start again before it is freed, the caller's vector is a part of the one it had,
  with its first argument.
\<close>

theorem nmtst_init_starts:
  assumes "\<not> nmtst_initialized n" "assert_log \<longrightarrow> log_level = None \<and> log_domains = None"
    and "case t_NMTST_DEBUG T of None \<Rightarrow> True | Some s \<Rightarrow> NULc \<notin> set s"
    and "argv \<noteq> []" "\<forall>more. keeps_doc (length argv) (t_keeps T (argv @ more))"
  shows "\<exists>s. nmtst_init L T q n (Some argv) assert_log log_level log_domains = Some s
    \<and> nmtst_initialized (st_internal s) \<and> orig_argv (st_internal s) = Some argv
    \<and> (\<exists>left. st_argv s = Some left \<and> subseq left argv \<and> left \<noteq> [] \<and> hd left = hd argv)
    \<and> nmtst_init L T' q' (st_internal s) argv' a' l' d' = None
    \<and> nmtst_free (st_internal s) = nmtst_zero"
proof -
  obtain v where v: "read_nmtst_debug L (t_NMTST_DEBUG T) (init_opts0 (t_verbose T) log_level log_domains) = Some v"
    using read_nmtst_debug_total [OF assms(3)] by blast
  obtain debug quick_argv tap where
    fl: "argv_flags L argv (o_debug v, False, test_tap_log n) = (debug, quick_argv, tap)" by (metis surj_pair)
  define args where "args = test_init_args argv v quick_argv tap"
  have left: "\<exists>left. argv_left argv (t_keeps T args) = Some left \<and> subseq left argv \<and> left \<noteq> [] \<and> hd left = hd argv"
  proof -
    let ?ks = "t_keeps T args" and ?n = "length argv"
    have "keeps_doc ?n ?ks" using assms(4,5) test_init_args_append by (metis args_def)
    then have "?n \<le> length ?ks" "?ks ! 0" "\<forall>k < length ?ks. ?n \<le> k \<longrightarrow> \<not> ?ks ! k"
      by (simp_all add: keeps_doc_def)
    from argv_left_kept [OF assms(4) this]
    have eq: "argv_left argv ?ks = Some (map ((!) argv) (filter ((!) ?ks) [0..<?n]))" .
    have "subseq (map ((!) argv) (filter ((!) ?ks) [0..<?n])) argv"
      using subseq_map [OF subseq_filter_left, of "(!) argv" "(!) ?ks" "[0..<?n]"] by (simp add: map_nth)
    moreover have "[0..<?n] = 0 # [1..<?n]" using assms(4) by (simp add: upt_conv_Cons)
    then have "hd (map ((!) argv) (filter ((!) ?ks) [0..<?n])) = hd argv"
      "map ((!) argv) (filter ((!) ?ks) [0..<?n]) \<noteq> []"
      using \<open>?ks ! 0\<close> assms(4) by (simp_all add: hd_conv_nth)
    ultimately show ?thesis using eq by blast
  qed
  have "\<exists>s. nmtst_init L T q n (Some argv) assert_log log_level log_domains = Some s
    \<and> rand0 (st_internal s) = Some 0 \<and> orig_argv (st_internal s) = Some argv
    \<and> (\<exists>left. st_argv s = Some left \<and> subseq left argv \<and> left \<noteq> [] \<and> hd left = hd argv)"
  proof (cases "t_initialized T")
    case True
    then show ?thesis using assms(1,2,4) v fl
      by (simp add: nmtst_init_def Let_def)
  next
    case False
    then show ?thesis using assms(1,2) v fl left
      by (auto simp: nmtst_init_def args_def Let_def)
  qed
  then show ?thesis by (auto simp: nmtst_initialized_def nmtst_free_def nmtst_init_def [of _ T'])
qed

text \<open>
  A run that asks for the slow tests tells \<open>g_test_init\<close> to be quick: the test on the word adds
  \<open>-m=quick\<close> for any of \<open>slow\<close>, \<open>thorough\<close> and \<open>quick\<close>.
\<close>

definition slow_env :: test_env where
  "slow_env = \<lparr>t_NMTST_DEBUG = Some ''slow'', t_G_MESSAGES_DEBUG = None, t_verbose = False,
     t_initialized = False, t_keeps = (\<lambda>args. [True, False]), t_quick = (\<lambda>c. False)\<rparr>"

lemma slow_words: "tokens debug_delimiters ''slow'' = [''slow'']"
  by code_simp

lemma slow_read:
  "read_nmtst_debug L (Some ''slow'') v = Some (debug_words L [''slow''] (v\<lparr>o_debug := True\<rparr>))"
  by (simp add: read_nmtst_debug_tokens slow_words)

lemma slow_passes_quick:
  "map_option (\<lambda>s. (st_test_init s, test_quick (st_internal s)))
     (nmtst_init ref_lib slow_env q nmtst_zero (Some [''t'']) False None None)
   = Some (Some [''t'', ''-m=quick''], False)"
proof -
  define v where "v = debug_words ref_lib [''slow''] (init_opts0 False None None\<lparr>o_debug := True\<rparr>)"
  have v: "o_quick_set v" "\<not> o_quick v" "o_p_tests v = []" "o_s_tests v = []" unfolding v_def by code_simp+
  have fl: "argv_flags ref_lib [''t''] (o_debug v, False, False) = (o_debug v, False, False)"
    by (simp add: ref_lib_def ref_lower_def Let_def)
  have args: "test_init_args [''t''] v False False = [''t'', ''-m=quick'']"
    using v by (simp add: test_init_args_def)
  have left: "argv_left [''t''] [True, False] = Some [''t'']" by code_simp
  show ?thesis
    using v args left fl unfolding nmtst_init_def
    by (simp add: slow_env_def slow_read v_def [symmetric] nmtst_initialized_def nmtst_zero_def Let_def
        test_quick_value_def del: debug_words.simps argv_flags.simps)
qed

end
