(* ===== verification/NM_Test_Checks.thy ===== *)
theory NM_Test_Checks
  imports NM_Test_Init NM_Addresses NM_Buffers NM_Glib
begin

text \<open>
  The checks of the test harness \<open>shared/nm-utils/nm-test-utils.h\<close>: connections and their settings,
  addresses, the editor of connection variants, waiting, and the data of a test. A check is a
  truth value, a failed assertion inside an operation is \<open>None\<close>.
\<close>

section \<open>Errors\<close>

text \<open>\<open>domain\<close> is \<open>None\<close> for the quark 0; \<open>pattern_match\<close> is \<open>g_pattern_match_simple\<close>.\<close>

definition nmtst_assert_error ::
  "(string \<Rightarrow> string \<Rightarrow> bool) \<Rightarrow> gerror option \<Rightarrow> err_domain option \<Rightarrow> err_code \<Rightarrow> cstr \<Rightarrow> bool" where
  "nmtst_assert_error pattern_match error expect_domain expect_code expect_pattern =
     (case error of
        None \<Rightarrow> False
      | Some e \<Rightarrow>
          (case expect_domain of Some d \<Rightarrow> err_domain e = d \<and> err_code e = expect_code | None \<Rightarrow> True)
          \<and> (case expect_pattern of Some p \<Rightarrow> pattern_match p (err_message e) | None \<Rightarrow> True))"

definition nmtst_assert_success :: "bool \<Rightarrow> gerror option \<Rightarrow> bool" where
  "nmtst_assert_success success error \<longleftrightarrow> error = None \<and> success"

definition nmtst_assert_no_success :: "bool \<Rightarrow> gerror option \<Rightarrow> bool" where
  "nmtst_assert_no_success success error \<longleftrightarrow> error \<noteq> None \<and> \<not> success"

section \<open>Connections\<close>

text \<open>
  libnm: verification, normalisation (the connection after it, whether it was modified, the error),
  the difference (whether there is none, whether a table of differences is given) and comparison.
\<close>

record 'c nmlib =
  nm_verify :: "'c \<Rightarrow> gerror option"
  nm_normalize :: "'c \<Rightarrow> 'c \<times> bool \<times> gerror option"
  nm_diff :: "'c \<Rightarrow> 'c \<Rightarrow> bool \<times> bool"
  nm_compare :: "'c \<Rightarrow> 'c \<Rightarrow> bool"

definition duplicate_and_normalize :: "('c, 'm) nmlib_scheme \<Rightarrow> 'c \<Rightarrow> 'c option" where
  "duplicate_and_normalize M c =
     (case nm_normalize M c of (c', was_modified, error) \<Rightarrow> if error = None then Some c' else None)"

definition nmtst_assert_connection_equals ::
  "('c, 'm) nmlib_scheme \<Rightarrow> 'c \<Rightarrow> bool \<Rightarrow> 'c \<Rightarrow> bool \<Rightarrow> bool" where
  "nmtst_assert_connection_equals M a normalize_a b normalize_b =
     (case (if normalize_a then duplicate_and_normalize M a else Some a,
            if normalize_b then duplicate_and_normalize M b else Some b) of
        (Some a, Some b) \<Rightarrow> fst (nm_diff M a b) \<and> \<not> snd (nm_diff M a b) \<and> nm_compare M a b
      | _ \<Rightarrow> False)"

definition assert_verifies :: "('c, 'm) nmlib_scheme \<Rightarrow> 'c \<Rightarrow> bool" where
  "assert_verifies M con \<longleftrightarrow> nm_verify M con = None"

definition verifies_without_normalization :: "('c, 'm) nmlib_scheme \<Rightarrow> 'c \<Rightarrow> bool" where
  "verifies_without_normalization M con =
     (case nm_normalize M con of (clone, was_modified, error) \<Rightarrow>
        assert_verifies M con \<and> error = None
        \<and> nmtst_assert_connection_equals M con False clone False \<and> \<not> was_modified)"

definition verifies_and_normalizable :: "('c, 'm) nmlib_scheme \<Rightarrow> 'c \<Rightarrow> bool" where
  "verifies_and_normalizable M con =
     (case nm_normalize M con of (clone, was_modified, error) \<Rightarrow>
        assert_verifies M con \<and> error = None \<and> was_modified
        \<and> verifies_without_normalization M clone)"

definition verifies_after_normalization ::
  "('c, 'm) nmlib_scheme \<Rightarrow> (string \<Rightarrow> string \<Rightarrow> bool) \<Rightarrow> 'c \<Rightarrow> err_domain option \<Rightarrow> err_code \<Rightarrow> bool" where
  "verifies_after_normalization M pm con domain code =
     (case nm_normalize M con of (clone, was_modified, error) \<Rightarrow>
        nmtst_assert_error pm (nm_verify M con) domain code None
        \<and> error = None \<and> was_modified \<and> verifies_without_normalization M clone)"

definition assert_unnormalizable ::
  "('c, 'm) nmlib_scheme \<Rightarrow> (string \<Rightarrow> string \<Rightarrow> bool) \<Rightarrow> 'c \<Rightarrow> err_domain option \<Rightarrow> err_code \<Rightarrow> bool" where
  "assert_unnormalizable M pm con domain code =
     (case nm_normalize M con of (clone, was_modified, error) \<Rightarrow>
        nmtst_assert_error pm (nm_verify M con) domain code None
        \<and> nmtst_assert_error pm error domain code None
        \<and> \<not> was_modified \<and> nmtst_assert_connection_equals M con False clone False)"

text \<open>
  What is documented of normalisation: its success gives a connection that verifies and that another
  normalisation leaves; without a change it succeeds on what verifies only; its failure leaves the
  connection and gives the error of the verification; a connection equals itself.
\<close>

definition normalize_doc :: "('c, 'm) nmlib_scheme \<Rightarrow> bool" where
  "normalize_doc M \<longleftrightarrow> (\<forall>c. case nm_normalize M c of (c', modified, error) \<Rightarrow>
     (error = None \<longrightarrow> nm_verify M c' = None \<and> nm_normalize M c' = (c', False, None))
     \<and> (\<not> modified \<longrightarrow> c' = c)
     \<and> (error \<noteq> None \<longrightarrow> \<not> modified \<and> nm_verify M c = error))
   \<and> (\<forall>c. nm_diff M c c = (True, False) \<and> nm_compare M c c)"

text \<open>An instance: 0 is a normal connection, 1 and the broken 2 can be normalised to it, the others not.\<close>

definition ref_nmlib :: "nat nmlib" where
  "ref_nmlib =
     (let broken = GError NM_CONNECTION_ERROR E_INVALID_CONNECTION ''broken''
      in \<lparr>nm_verify = (\<lambda>c. if c < 2 then None else Some broken),
          nm_normalize = (\<lambda>c. if c = 0 then (0, False, None) else if c = 1 \<or> c = 2 then (0, True, None)
             else (c, False, Some broken)),
          nm_diff = (\<lambda>a b. (a = b, a \<noteq> b)), nm_compare = (\<lambda>a b. a = b)\<rparr>)"

lemma ref_normalize_doc: "normalize_doc ref_nmlib"
  by (auto simp: normalize_doc_def ref_nmlib_def Let_def)

section \<open>The settings of a connection\<close>

text \<open>The table of expected names; a name that is given twice ends the test.\<close>

fun expected_names :: "string list \<Rightarrow> (string \<times> string) list \<Rightarrow> (string \<times> string) list option" where
  "expected_names [] names = Some names"
| "expected_names (name # names') names =
     (case nm_g_hash_table_add True names name of
        (is_new, names) \<Rightarrow> if \<not> is_new then None else expected_names names' names)"

fun check_settings :: "bool \<Rightarrow> string list \<Rightarrow> (string \<times> string) list \<Rightarrow> (string \<times> string) list option" where
  "check_settings has_at_most [] names = Some names"
| "check_settings has_at_most (s # settings) names =
     (if s \<notin> fst ` set names \<and> has_at_most then None
      else check_settings has_at_most settings (filter (\<lambda>e. fst e \<noteq> s) names))"

definition assert_has_settings :: "bool \<Rightarrow> bool \<Rightarrow> string list \<Rightarrow> string list \<Rightarrow> bool" where
  "assert_has_settings has_at_least has_at_most expected settings =
     (case expected_names expected [] of
        None \<Rightarrow> False
      | Some names \<Rightarrow>
          (case check_settings has_at_most settings names of
             None \<Rightarrow> False
           | Some names \<Rightarrow> \<not> (length names > 0 \<and> has_at_least)))"

section \<open>Addresses\<close>

text \<open>\<open>aton\<close> is \<open>nm_utils_hwaddr_aton\<close>, \<open>LEN_MAX\<close> the constant \<open>NM_UTILS_HWADDR_LEN_MAX\<close> of libnm.\<close>

fun count_octets :: "string \<Rightarrow> nat \<Rightarrow> nat" where
  "count_octets [] n = n"
| "count_octets (c # s) n = count_octets s (if c = CHR '':'' \<or> c = CHR ''-'' then Suc n else n)"

definition assert_hwaddr_equals ::
  "(string \<Rightarrow> nat \<Rightarrow> 8 word list option) \<Rightarrow> nat \<Rightarrow> 8 word list \<Rightarrow> string \<Rightarrow> bool" where
  "assert_hwaddr_equals aton LEN_MAX hwaddr1 expected =
     (length hwaddr1 > 0 \<and> length hwaddr1 \<le> LEN_MAX
      \<and> (let hwaddr2_len = count_octets expected 1
         in hwaddr2_len \<le> LEN_MAX
            \<and> (case aton expected hwaddr2_len of
                 None \<Rightarrow> False
               | Some buf2 \<Rightarrow> length hwaddr1 = hwaddr2_len \<and> hwaddr1 = take (length hwaddr1) buf2)))"

definition nmtst_inet4_from_string :: "'c libc_scheme \<Rightarrow> cstr \<Rightarrow> 32 word option" where
  "nmtst_inet4_from_string C str =
     (case str of
        None \<Rightarrow> Some 0
      | Some s \<Rightarrow> (case inet_pton C AF_INET s of Some (Addr4 a) \<Rightarrow> Some a | _ \<Rightarrow> None))"

definition assert_ip4_address :: "'c libc_scheme \<Rightarrow> 32 word \<Rightarrow> cstr \<Rightarrow> bool" where
  "assert_ip4_address C addr str_expected = (nmtst_inet4_from_string C str_expected = Some addr)"

definition nmtst_inet6_from_string :: "'c libc_scheme \<Rightarrow> cstr \<Rightarrow> ipaddr option" where
  "nmtst_inet6_from_string C str =
     (case str of None \<Rightarrow> Some (Addr6 (replicate 16 0)) | Some s \<Rightarrow> inet_pton C AF_INET6 s)"

definition assert_ip6_address :: "'c libc_scheme \<Rightarrow> ipaddr option \<Rightarrow> cstr \<Rightarrow> bool" where
  "assert_ip6_address C addr str_expected =
     (nmtst_inet6_from_string C str_expected = Some (case addr of None \<Rightarrow> Addr6 (replicate 16 0) | Some a \<Rightarrow> a))"

section \<open>Texts and paths\<close>

definition nmtst_static :: "nat \<Rightarrow> cstr \<Rightarrow> cstr option" where
  "nmtst_static buf_size str =
     (case str of
        None \<Rightarrow> Some None
      | Some s \<Rightarrow> if length s < buf_size then Some (Some (takeWhile (\<lambda>c. c \<noteq> NUL) (clipped s buf_size))) else None)"

definition nmtst_file_resolve_relative_path :: "'g glib_scheme \<Rightarrow> string \<Rightarrow> cstr \<Rightarrow> cstr \<Rightarrow> string option" where
  "nmtst_file_resolve_relative_path L current_dir rel cwd =
     (case rel of
        None \<Rightarrow> None
      | Some rel \<Rightarrow>
          if rel = [] then None
          else if hd rel = CHR ''/'' then Some rel
          else Some (g_build_filename L [case cwd of Some d \<Rightarrow> d | None \<Rightarrow> current_dir, rel]))"

definition assert_resolve_equals :: "'g glib_scheme \<Rightarrow> string \<Rightarrow> cstr \<Rightarrow> cstr \<Rightarrow> bool" where
  "assert_resolve_equals L current_dir f1 f2 =
     (case (nmtst_file_resolve_relative_path L current_dir f1 None,
            nmtst_file_resolve_relative_path L current_dir f2 None) of
        (Some p1, Some p2) \<Rightarrow> p1 \<noteq> [] \<and> strcmp0 (Some p1) (Some p2) = 0
      | _ \<Rightarrow> False)"

section \<open>The editor of variants\<close>

text \<open>
  \<open>NMTST_VARIANT_EDITOR\<close> runs its code once before the settings, once for every setting before its
  properties and once for every property; the code is a list of the \<open>NMTST_VARIANT_\<close> macros.
  \<open>strcmp\<close> of NULL, as the name of a dropped setting is, is \<open>None\<close>.
\<close>

datatype editor_phase =
  NMTST_VARIANT_EDITOR_CONNECTION | NMTST_VARIANT_EDITOR_SETTING | NMTST_VARIANT_EDITOR_PROPERTY

datatype 'v edit =
  ADD_SETTING string "(string \<times> 'v) list"
| DROP_SETTING string
| ADD_PROPERTY string string 'v
| DROP_PROPERTY string string

definition CHANGE_PROPERTY :: "string \<Rightarrow> string \<Rightarrow> 'v \<Rightarrow> 'v edit list" where
  "CHANGE_PROPERTY s p v = [DROP_PROPERTY s p, ADD_PROPERTY s p v]"

record 'v variant_editor =
  connection_builder :: "(string \<times> (string \<times> 'v) list) list"
  setting_builder :: "(string \<times> 'v) list"
  cur_setting :: cstr
  cur_property :: cstr

fun edit_step :: "editor_phase \<Rightarrow> 'v edit \<Rightarrow> 'v variant_editor \<Rightarrow> 'v variant_editor option" where
  "edit_step ph (ADD_SETTING s ps) e =
     Some (if ph = NMTST_VARIANT_EDITOR_CONNECTION
           then e\<lparr>connection_builder := connection_builder e @ [(s, ps)]\<rparr> else e)"
| "edit_step ph (DROP_SETTING s) e =
     Some (if ph = NMTST_VARIANT_EDITOR_SETTING \<and> cur_setting e \<noteq> None \<and> cur_setting e = Some s
           then e\<lparr>cur_setting := None\<rparr> else e)"
| "edit_step ph (ADD_PROPERTY s p v) e =
     (if ph = NMTST_VARIANT_EDITOR_SETTING
      then (case cur_setting e of
              None \<Rightarrow> None
            | Some c \<Rightarrow> Some (if c = s then e\<lparr>setting_builder := setting_builder e @ [(p, v)]\<rparr> else e))
      else Some e)"
| "edit_step ph (DROP_PROPERTY s p) e =
     (if ph = NMTST_VARIANT_EDITOR_PROPERTY \<and> cur_property e \<noteq> None
      then (case cur_setting e of
              None \<Rightarrow> None
            | Some c \<Rightarrow> Some (if c = s \<and> cur_property e = Some p then e\<lparr>cur_property := None\<rparr> else e))
      else Some e)"

fun edit_steps :: "editor_phase \<Rightarrow> 'v edit list \<Rightarrow> 'v variant_editor \<Rightarrow> 'v variant_editor option" where
  "edit_steps ph [] e = Some e"
| "edit_steps ph (x # xs) e = (case edit_step ph x e of None \<Rightarrow> None | Some e \<Rightarrow> edit_steps ph xs e)"

fun property_loop :: "'v edit list \<Rightarrow> (string \<times> 'v) list \<Rightarrow> 'v variant_editor \<Rightarrow> 'v variant_editor option" where
  "property_loop code [] e = Some e"
| "property_loop code ((p, v) # ps) e =
     (if cur_setting e = None then Some e
      else (case edit_steps NMTST_VARIANT_EDITOR_PROPERTY code (e\<lparr>cur_property := Some p\<rparr>) of
              None \<Rightarrow> None
            | Some e \<Rightarrow> property_loop code ps
                (case cur_property e of
                   None \<Rightarrow> e | Some q \<Rightarrow> e\<lparr>setting_builder := setting_builder e @ [(q, v)]\<rparr>)))"

fun setting_loop ::
  "'v edit list \<Rightarrow> (string \<times> (string \<times> 'v) list) list \<Rightarrow> 'v variant_editor \<Rightarrow> 'v variant_editor option" where
  "setting_loop code [] e = Some e"
| "setting_loop code ((s, ps) # ss) e =
     (case edit_steps NMTST_VARIANT_EDITOR_SETTING code
             (e\<lparr>cur_setting := Some s, setting_builder := [], cur_property := None\<rparr>) of
        None \<Rightarrow> None
      | Some e \<Rightarrow>
          (case property_loop code ps e of
             None \<Rightarrow> None
           | Some e \<Rightarrow> setting_loop code ss
               (case cur_setting e of
                  None \<Rightarrow> e
                | Some n \<Rightarrow> e\<lparr>connection_builder := connection_builder e @ [(n, setting_builder e)]\<rparr>)))"

definition variant_editor ::
  "'v edit list \<Rightarrow> (string \<times> (string \<times> 'v) list) list \<Rightarrow> (string \<times> (string \<times> 'v) list) list option" where
  "variant_editor code con =
     (case edit_steps NMTST_VARIANT_EDITOR_CONNECTION code
             \<lparr>connection_builder = [], setting_builder = [], cur_setting = None, cur_property = None\<rparr> of
        None \<Rightarrow> None
      | Some e \<Rightarrow> map_option connection_builder (setting_loop code con e))"

text \<open>The specification: what the edits add, drop and keep.\<close>

fun added_settings :: "'v edit list \<Rightarrow> (string \<times> (string \<times> 'v) list) list" where
  "added_settings [] = []"
| "added_settings (ADD_SETTING s ps # es) = (s, ps) # added_settings es"
| "added_settings (_ # es) = added_settings es"

fun added_properties :: "string \<Rightarrow> 'v edit list \<Rightarrow> (string \<times> 'v) list" where
  "added_properties n [] = []"
| "added_properties n (ADD_PROPERTY s p v # es) = (if s = n then [(p, v)] else []) @ added_properties n es"
| "added_properties n (_ # es) = added_properties n es"

fun is_add :: "'v edit \<Rightarrow> bool" where
  "is_add (ADD_PROPERTY s p v) = True"
| "is_add _ = False"

fun adds_after_drop :: "string \<Rightarrow> 'v edit list \<Rightarrow> bool" where
  "adds_after_drop n [] = False"
| "adds_after_drop n (x # es) = (if x = DROP_SETTING n then list_ex is_add es else adds_after_drop n es)"

definition edited_setting :: "'v edit list \<Rightarrow> string \<times> (string \<times> 'v) list \<Rightarrow> string \<times> (string \<times> 'v) list" where
  "edited_setting es = (\<lambda>(n, ps).
     (n, added_properties n es @ filter (\<lambda>(p, v). DROP_PROPERTY n p \<notin> set es) ps))"

definition edited :: "'v edit list \<Rightarrow> (string \<times> (string \<times> 'v) list) list \<Rightarrow> (string \<times> (string \<times> 'v) list) list" where
  "edited es con = added_settings es @ map (edited_setting es) (filter (\<lambda>(n, ps). DROP_SETTING n \<notin> set es) con)"

lemma steps_connection:
  "edit_steps NMTST_VARIANT_EDITOR_CONNECTION es e
     = Some (e\<lparr>connection_builder := connection_builder e @ added_settings es\<rparr>)"
proof (induction es arbitrary: e)
  case (Cons x es)
  then show ?case by (cases x) simp_all
qed simp

lemma steps_dropped:
  "cur_setting e = None \<Longrightarrow> edit_steps NMTST_VARIANT_EDITOR_SETTING es e = (if list_ex is_add es then None else Some e)"
proof (induction es)
  case (Cons x es)
  then show ?case by (cases x) simp_all
qed simp

lemma no_adds: "\<not> list_ex is_add es \<Longrightarrow> added_properties n es = []"
  by (induction n es rule: added_properties.induct) simp_all

lemma steps_setting:
  assumes "cur_setting e = Some n"
  shows "edit_steps NMTST_VARIANT_EDITOR_SETTING es e = (if adds_after_drop n es then None
    else if DROP_SETTING n \<in> set es then Some (e\<lparr>setting_builder := setting_builder e @ added_properties n es, cur_setting := None\<rparr>)
    else Some (e\<lparr>setting_builder := setting_builder e @ added_properties n es\<rparr>))"
  using assms
proof (induction es arbitrary: e)
  case (Cons x es)
  show ?case
  proof (cases x)
    case (DROP_SETTING s)
    then show ?thesis using Cons by (auto simp: steps_dropped no_adds)
  qed (use Cons in auto)
qed simp

lemma steps_property:
  assumes "cur_setting e = Some n" "cur_property e = Some p"
  shows "edit_steps NMTST_VARIANT_EDITOR_PROPERTY es e
     = Some (if DROP_PROPERTY n p \<in> set es then e\<lparr>cur_property := None\<rparr> else e)"
proof -
  have none: "cur_property e = None \<Longrightarrow> edit_steps NMTST_VARIANT_EDITOR_PROPERTY es e = Some e" for e :: "'a variant_editor" and es
  proof (induction es)
    case (Cons x es)
    then show ?case by (cases x) simp_all
  qed simp
  show ?thesis using assms
  proof (induction es)
    case (Cons x es)
    then show ?case by (cases x) (auto simp: none)
  qed simp
qed

lemma property_loop_kept:
  assumes "cur_setting e = Some n"
  shows "\<exists>q. property_loop es ps e = Some (e\<lparr>setting_builder := setting_builder e
    @ filter (\<lambda>(p, v). DROP_PROPERTY n p \<notin> set es) ps, cur_property := q\<rparr>)"
  using assms
proof (induction ps arbitrary: e)
  case Nil
  then show ?case by (intro exI [of _ "cur_property e"]) simp
next
  case (Cons pv ps)
  obtain p v where pv: "pv = (p, v)" by (cases pv)
  let ?e = "e\<lparr>cur_property := Some p\<rparr>"
  have st: "edit_steps NMTST_VARIANT_EDITOR_PROPERTY es ?e
      = Some (if DROP_PROPERTY n p \<in> set es then ?e\<lparr>cur_property := None\<rparr> else ?e)"
    by (rule steps_property) (simp_all add: Cons.prems)
  show ?case
  proof (cases "DROP_PROPERTY n p \<in> set es")
    case True
    then show ?thesis using Cons.IH [of "e\<lparr>cur_property := None\<rparr>"] Cons.prems st pv by simp
  next
    case False
    then show ?thesis
      using Cons.IH [of "?e\<lparr>setting_builder := setting_builder e @ [(p, v)]\<rparr>"] Cons.prems st pv by simp
  qed
qed

lemma property_loop_dropped: "cur_setting e = None \<Longrightarrow> property_loop es ps e = Some e"
  by (cases ps) auto

lemma setting_loop_edited:
  "map_option connection_builder (setting_loop es con e) =
     (if \<exists>(n, ps) \<in> set con. adds_after_drop n es then None
      else Some (connection_builder e
        @ map (edited_setting es) (filter (\<lambda>(n, ps). DROP_SETTING n \<notin> set es) con)))"
proof (induction con arbitrary: e)
  case (Cons sp con)
  obtain n ps where sp: "sp = (n, ps)" by (cases sp)
  let ?e = "e\<lparr>cur_setting := Some n, setting_builder := [], cur_property := None\<rparr>"
  note st = steps_setting [of ?e n es]
  show ?case
  proof (cases "adds_after_drop n es")
    case True
    then show ?thesis using st by (simp add: sp)
  next
    case no: False
    show ?thesis
    proof (cases "DROP_SETTING n \<in> set es")
      case True
      then show ?thesis using st no by (simp add: sp property_loop_dropped Cons.IH)
    next
      case False
      let ?e' = "?e\<lparr>setting_builder := added_properties n es\<rparr>"
      obtain q where "property_loop es ps ?e' = Some (?e'\<lparr>setting_builder := setting_builder ?e'
        @ filter (\<lambda>(p, v). DROP_PROPERTY n p \<notin> set es) ps, cur_property := q\<rparr>)"
        using property_loop_kept [of ?e' n es ps] by auto
      then show ?thesis using st no False by (simp add: sp Cons.IH edited_setting_def)
    qed
  qed
qed simp

section \<open>Waiting\<close>

text \<open>
  \<open>NMTST_WAIT\<close>: \<open>stops k\<close> says whether the code leaves the loop in its \<open>k\<close>-th turn, \<open>now k\<close> is the
  time after that turn in microseconds.
\<close>

partial_function (option) wait_loop :: "(nat \<Rightarrow> bool) \<Rightarrow> (nat \<Rightarrow> int) \<Rightarrow> int \<Rightarrow> nat \<Rightarrow> bool option" where
  "wait_loop stops now end_us k =
     (if stops k then Some True
      else if end_us - now k \<le> 0 then Some False
      else wait_loop stops now end_us (Suc k))"

definition NMTST_WAIT :: "(nat \<Rightarrow> bool) \<Rightarrow> (nat \<Rightarrow> int) \<Rightarrow> int \<Rightarrow> int \<Rightarrow> bool option" where
  "NMTST_WAIT stops now start_us max_wait_ms = wait_loop stops now (start_us + max_wait_ms * 1000) 0"

lemma wait_loop_least:
  assumes "stops m \<or> end_us \<le> now m" "k \<le> m"
  shows "\<exists>j. k \<le> j \<and> j \<le> m \<and> (stops j \<or> end_us \<le> now j)
    \<and> (\<forall>i. k \<le> i \<and> i < j \<longrightarrow> \<not> (stops i \<or> end_us \<le> now i)) \<and> wait_loop stops now end_us k = Some (stops j)"
  using assms(2)
proof (induction "m - k" arbitrary: k)
  case 0
  then show ?case using assms(1)
    by (intro exI [of _ k]) (subst wait_loop.simps, auto)
next
  case (Suc n)
  show ?case
  proof (cases "stops k \<or> end_us \<le> now k")
    case True
    then show ?thesis using Suc.prems by (intro exI [of _ k]) (subst wait_loop.simps, auto)
  next
    case False
    have "n = m - Suc k" "Suc k \<le> m" using Suc.hyps(2) by simp_all
    from Suc.hyps(1) [OF this] obtain j where j: "Suc k \<le> j" "j \<le> m"
      "stops j \<or> end_us \<le> now j" "\<forall>i. Suc k \<le> i \<and> i < j \<longrightarrow> \<not> (stops i \<or> end_us \<le> now i)"
      "wait_loop stops now end_us (Suc k) = Some (stops j)" by blast
    have "wait_loop stops now end_us k = Some (stops j)"
      using False j(5) by (subst wait_loop.simps) simp
    moreover have "\<forall>i. k \<le> i \<and> i < j \<longrightarrow> \<not> (stops i \<or> end_us \<le> now i)"
      using False j(4) by (metis Suc_leI le_neq_implies_less)
    ultimately show ?thesis using j by (intro exI [of _ j]) auto
  qed
qed

section \<open>The data of a test\<close>

text \<open>A test keeps its arguments; its run is the list of the handlers that are called.\<close>

record ('a, 'h) test_data =
  testpath :: string
  td_args :: "'a list"
  func_setup :: "'h option"
  func_test :: 'h
  func_teardown :: "'h option"

definition nmtst_add_test_func_full ::
  "cstr \<Rightarrow> 'h option \<Rightarrow> 'h option \<Rightarrow> 'h option \<Rightarrow> 'a list \<Rightarrow> ('a, 'h) test_data option" where
  "nmtst_add_test_func_full path test setup teardown args =
     (case (path, test) of
        (Some p, Some f) \<Rightarrow>
          if p = [] then None
          else Some \<lparr>testpath = p, td_args = args, func_setup = setup, func_test = f, func_teardown = teardown\<rparr>
      | _ \<Rightarrow> None)"

text \<open>\<open>outs\<close> says which of the output pointers are not NULL; the result is what is stored there.\<close>

definition nmtst_test_data_unpack :: "('a, 'h) test_data \<Rightarrow> bool list \<Rightarrow> 'a option list option" where
  "nmtst_test_data_unpack d outs =
     (if length outs \<noteq> length (td_args d) then None
      else Some (map (\<lambda>i. if outs ! i then Some (td_args d ! i) else None) [0..<length outs]))"

definition nmtst_test_run :: "('a, 'h) test_data \<Rightarrow> 'h list" where
  "nmtst_test_run d =
     (case func_setup d of None \<Rightarrow> [] | Some f \<Rightarrow> [f]) @ [func_test d]
     @ (case func_teardown d of None \<Rightarrow> [] | Some f \<Rightarrow> [f])"

text \<open>The command of \<open>nmtst_reexec_sudo\<close>: \<open>None\<close> is a failed assertion, \<open>Some None\<close> the return without one.\<close>

definition nmtst_reexec_sudo :: "nmtst_internal \<Rightarrow> (string \<times> string list) option option" where
  "nmtst_reexec_sudo n =
     (if \<not> nmtst_initialized n then None
      else (case orig_argv n of
              None \<Rightarrow> None
            | Some argv \<Rightarrow>
                (case sudo_cmd n of
                   None \<Rightarrow> Some None
                 | Some c \<Rightarrow> Some (Some (c, c # argv)))))"

section \<open>Properties\<close>

text \<open>
  The editor gives the connection with the added settings first, then the settings that are not
  dropped, each with the added properties before those it keeps; the name of a dropped
  setting must not be compared afterwards.
\<close>

theorem variant_editor_edited:
  "variant_editor es con =
     (if \<exists>(n, ps) \<in> set con. adds_after_drop n es then None else Some (edited es con))"
  by (simp add: variant_editor_def steps_connection setting_loop_edited edited_def)

text \<open>A change of a property sets it in the named setting and nothing else.\<close>

theorem change_property_sets:
  "variant_editor (CHANGE_PROPERTY s p v) con =
     Some (map (\<lambda>(n, ps). (n, if n = s then (p, v) # filter (\<lambda>(q, w). q \<noteq> p) ps else ps)) con)"
proof -
  have "\<not> adds_after_drop n (CHANGE_PROPERTY s p v)" for n by (simp add: CHANGE_PROPERTY_def)
  then have "variant_editor (CHANGE_PROPERTY s p v) con = Some (edited (CHANGE_PROPERTY s p v) con)"
    by (simp add: variant_editor_edited)
  also have "edited (CHANGE_PROPERTY s p v) con
      = map (\<lambda>(n, ps). (n, if n = s then (p, v) # filter (\<lambda>(q, w). q \<noteq> p) ps else ps)) con"
    by (auto simp: edited_def edited_setting_def CHANGE_PROPERTY_def split_def cong: filter_cong)
  finally show ?thesis .
qed

lemma expected_names_distinct:
  "expected_names names tbl = (if distinct names \<and> set names \<inter> fst ` set tbl = {}
     then Some (tbl @ map (\<lambda>n. (n, n)) names) else None)"
proof (induction names arbitrary: tbl)
  case (Cons n names)
  have "n \<notin> fst ` set tbl \<Longrightarrow> AList.update n n tbl = tbl @ [(n, n)]"
    by (induction tbl) auto
  then show ?case by (auto simp: Cons.IH nm_g_hash_table_add_def table_put_def)
qed simp

lemma check_settings_left:
  assumes "distinct settings"
  shows "check_settings most settings tbl =
    (if most \<and> \<not> set settings \<subseteq> fst ` set tbl then None else Some (filter (\<lambda>e. fst e \<notin> set settings) tbl))"
  using assms
proof (induction settings arbitrary: tbl)
  case (Cons s settings)
  let ?tbl = "filter (\<lambda>e. fst e \<noteq> s) tbl"
  have "check_settings most settings ?tbl = (if most \<and> \<not> set settings \<subseteq> fst ` set ?tbl then None
      else Some (filter (\<lambda>e. fst e \<notin> set settings) ?tbl))"
    by (rule Cons.IH) (use Cons.prems in simp)
  moreover have "set settings \<subseteq> fst ` set ?tbl \<longleftrightarrow> set settings \<subseteq> fst ` set tbl"
    using Cons.prems by force
  moreover have "filter (\<lambda>e. fst e \<notin> set settings) ?tbl = filter (\<lambda>e. fst e \<notin> set (s # settings)) tbl"
    by (auto intro!: filter_cong)
  ultimately have "check_settings most settings ?tbl = (if most \<and> \<not> set settings \<subseteq> fst ` set tbl then None
      else Some (filter (\<lambda>e. fst e \<notin> set (s # settings)) tbl))"
    by (simp only:)
  then show ?case by (cases most) simp_all
qed simp

text \<open>
  The assertion on the settings of a connection is a comparison of sets, in the directions that are
  asked for; it also fails when a name is given twice. A connection has no two settings of a name.
\<close>

theorem assert_has_settings_iff:
  assumes "distinct settings"
  shows "assert_has_settings least most expected settings \<longleftrightarrow> distinct expected
    \<and> (most \<longrightarrow> set settings \<subseteq> set expected) \<and> (least \<longrightarrow> set expected \<subseteq> set settings)"
proof -
  have "fst ` set (map (\<lambda>n. (n, n)) expected) = set expected" by force
  moreover have "filter (\<lambda>n. n \<notin> set settings) expected = [] \<longleftrightarrow> set expected \<subseteq> set settings"
    by (auto simp: filter_empty_conv)
  ultimately show ?thesis
    by (auto simp: filter_map comp_def assert_has_settings_def expected_names_distinct check_settings_left [OF assms])
qed

text \<open>
  The four assertions on verification and normalisation sort the connections: of those that verify
  one of the first two holds, of the others one of the last two.
\<close>

theorem connections_sorted:
  assumes "normalize_doc M"
  shows "(nm_verify M c = None \<longrightarrow> verifies_without_normalization M c \<noteq> verifies_and_normalizable M c)
    \<and> (\<forall>e. nm_verify M c = Some e \<longrightarrow>
         verifies_after_normalization M pm c (Some (err_domain e)) (err_code e)
           \<noteq> assert_unnormalizable M pm c (Some (err_domain e)) (err_code e))"
proof -
  obtain c' modified er where n: "nm_normalize M c = (c', modified, er)" by (metis surj_pair)
  have "case nm_normalize M c of (c', modified, error) \<Rightarrow>
     (error = None \<longrightarrow> nm_verify M c' = None \<and> nm_normalize M c' = (c', False, None))
     \<and> (\<not> modified \<longrightarrow> c' = c)
     \<and> (error \<noteq> None \<longrightarrow> \<not> modified \<and> nm_verify M c = error)"
    by (rule conjunct1 [OF assms [unfolded normalize_doc_def], THEN spec])
  then have d: "er = None \<Longrightarrow> nm_verify M c' = None" "er = None \<Longrightarrow> nm_normalize M c' = (c', False, None)"
    "\<not> modified \<Longrightarrow> c' = c" "er \<noteq> None \<Longrightarrow> \<not> modified" "er \<noteq> None \<Longrightarrow> nm_verify M c = er"
    by (simp_all add: n)
  have same: "nmtst_assert_connection_equals M x False x False" for x
    using assms by (simp add: normalize_doc_def nmtst_assert_connection_equals_def)
  have again: "er = None \<Longrightarrow> verifies_without_normalization M c'"
    using d(1,2) same by (simp add: verifies_without_normalization_def assert_verifies_def)
  show ?thesis
  proof (cases er)
    case None
    show ?thesis
    proof (cases modified)
      case True
      then show ?thesis using None n again
        by (auto simp: verifies_without_normalization_def verifies_and_normalizable_def assert_verifies_def
            verifies_after_normalization_def assert_unnormalizable_def nmtst_assert_error_def)
    next
      case False
      then have "c' = c" "nm_verify M c = None" using d(1,3) None by auto
      then show ?thesis using None n same False
        by (simp add: verifies_without_normalization_def verifies_and_normalizable_def assert_verifies_def)
    qed
  next
    case (Some e)
    then have "\<not> modified" "nm_verify M c = Some e" "c' = c" using d(3-5) Some by auto
    then show ?thesis using Some n same
      by (simp add: verifies_after_normalization_def assert_unnormalizable_def nmtst_assert_error_def)
  qed
qed

lemma count_octets_from: "count_octets s n = n + length (filter (\<lambda>c. c = CHR '':'' \<or> c = CHR ''-'') s)"
  by (induction s arbitrary: n) auto

text \<open>The assertion on a hardware address compares the whole address, whatever its length is.\<close>

theorem hwaddr_assertion:
  assumes "\<forall>s n b. aton s n = Some b \<longrightarrow> length b = n"
    "\<forall>s n. n \<noteq> Suc (length (filter (\<lambda>c. c = CHR '':'' \<or> c = CHR ''-'') s)) \<longrightarrow> aton s n = None"
  shows "assert_hwaddr_equals aton m a s \<longleftrightarrow> a \<noteq> [] \<and> length a \<le> m \<and> aton s (length a) = Some a"
proof -
  let ?n = "count_octets s 1"
  have "aton s k = None" if "k \<noteq> ?n" for k
    using assms(2) that by (simp add: count_octets_from)
  moreover have "?n > 0" by (simp add: count_octets_from)
  ultimately show ?thesis using assms(1)
    by (cases "length a = ?n") (auto simp: assert_hwaddr_equals_def Let_def split: option.splits)
qed

text \<open>The wait returns whenever the clock reaches its end, with whether the code left the loop.\<close>

theorem wait_ends:
  assumes "start_us + max_wait_ms * 1000 \<le> now m"
  shows "\<exists>j \<le> m. NMTST_WAIT stops now start_us max_wait_ms = Some (stops j)
    \<and> (\<forall>i < j. \<not> stops i \<and> now i < start_us + max_wait_ms * 1000)"
  using wait_loop_least [of stops m "start_us + max_wait_ms * 1000" now 0] assms
  by (auto simp: NMTST_WAIT_def not_le)

text \<open>A test finds the arguments it was added with, and its handlers run around it.\<close>

theorem test_data_kept:
  "map_option (\<lambda>d. (nmtst_test_data_unpack d (replicate (length args) True), nmtst_test_run d))
     (nmtst_add_test_func_full (Some (c # path)) (Some f) (Some s) (Some t) args)
   = Some (Some (map Some args), [s, f, t])"
  by (simp add: nmtst_add_test_func_full_def nmtst_test_data_unpack_def nmtst_test_run_def)
    (rule nth_equalityI, simp_all)

end
