(* ===== verification/NM_Test_Fixtures.thy ===== *)
theory NM_Test_Fixtures
  imports NM_Test_Checks
begin

text \<open>
  The rest of the test harness \<open>shared/nm-utils/nm-test-utils.h\<close>: expected messages, its exit, main
  loops with a timeout, children, files, and the builders of connections, addresses, routes and
  variants. As in the other theories of the harness, a failed assertion is \<open>None\<close>; what GLib, libc
  and libnm answer is a parameter.
\<close>

section \<open>State and expected messages\<close>

text \<open>The getters assert that the harness was started.\<close>

definition nmtst_is_debug :: "nmtst_internal \<Rightarrow> bool option" where
  "nmtst_is_debug n = (if nmtst_initialized n then Some (is_debug n) else None)"

definition nmtst_test_quick :: "nmtst_internal \<Rightarrow> bool option" where
  "nmtst_test_quick n = (if nmtst_initialized n then Some (test_quick n) else None)"

definition nmtst_get_sudo_cmd :: "nmtst_internal \<Rightarrow> cstr option" where
  "nmtst_get_sudo_cmd n = (if nmtst_initialized n then Some (sudo_cmd n) else None)"

text \<open>The messages GLib still expects, and the lines of debug output.\<close>

record messages =
  expected :: "(string \<times> nat \<times> string) list"
  debug_lines :: nat

definition test_expect_message ::
  "nmtst_internal \<Rightarrow> string \<times> nat \<times> string \<Rightarrow> messages \<Rightarrow> messages option" where
  "test_expect_message n m s =
     (if \<not> nmtst_initialized n then None
      else if assert_logging n \<and> no_expect_message n then Some (s\<lparr>debug_lines := Suc (debug_lines s)\<rparr>)
      else Some (s\<lparr>expected := expected s @ [m]\<rparr>))"

text \<open>GLib stops the test if a message is missing.\<close>

definition g_assert_expected :: "messages \<Rightarrow> messages option" where
  "g_assert_expected s = (if expected s = [] then Some s else None)"

definition test_assert_expected_messages :: "nmtst_internal \<Rightarrow> messages \<Rightarrow> messages option" where
  "test_assert_expected_messages n s =
     g_assert_expected
       (if assert_logging n \<and> no_expect_message n then s\<lparr>debug_lines := Suc (debug_lines s)\<rparr> else s)"

text \<open>The destructor of the program that \<open>NMTST_DEFINE\<close> defines.\<close>

definition nmtst_exit :: "nmtst_internal \<Rightarrow> messages \<Rightarrow> (nmtst_internal \<times> messages) option" where
  "nmtst_exit n s =
     (let n = n\<lparr>assert_logging := False\<rparr>
      in map_option (\<lambda>s. (nmtst_free n, s)) (test_assert_expected_messages n s))"

section \<open>Main loops\<close>

text \<open>
  What happens while the loop runs: the timeout fires, or a callback of the test quits the loop. A
  list that ends without either is a loop that never returns; so is \<open>None\<close>, as is the failed
  assertion of a timeout that fires again after its pointer was taken.
\<close>

datatype loop_event = TimeoutFires | CallbackQuits | OtherCallback

definition main_loop_run_timeout :: "'l option \<Rightarrow> ('l option \<times> bool) option" where
  "main_loop_run_timeout p_loop = (case p_loop of None \<Rightarrow> None | Some l \<Rightarrow> Some (None, True))"

fun loop_runs :: "'l option \<Rightarrow> loop_event list \<Rightarrow> 'l option option" where
  "loop_runs loopx [] = None"
| "loop_runs loopx (OtherCallback # es) = loop_runs loopx es"
| "loop_runs loopx (CallbackQuits # es) = Some loopx"
| "loop_runs loopx (TimeoutFires # es) = map_option fst (main_loop_run_timeout loopx)"

definition nmtst_main_loop_run :: "'l \<Rightarrow> nat \<Rightarrow> loop_event list \<Rightarrow> bool option" where
  "nmtst_main_loop_run loop timeout_ms es =
     map_option (\<lambda>loopx. loopx \<noteq> None)
       (loop_runs (Some loop) (if timeout_ms > 0 then es else filter (\<lambda>e. e \<noteq> TimeoutFires) es))"

text \<open>The result is whether the test ended the loop before the timeout did.\<close>

theorem main_loop_run_result:
  "nmtst_main_loop_run l t es =
     (case dropWhile (\<lambda>e. e = OtherCallback) (if t > 0 then es else filter (\<lambda>e. e \<noteq> TimeoutFires) es) of
        [] \<Rightarrow> None
      | e # _ \<Rightarrow> Some (e = CallbackQuits))"
proof -
  have "map_option (\<lambda>loopx. loopx \<noteq> None) (loop_runs (Some l) es) =
      (case dropWhile (\<lambda>e. e = OtherCallback) es of [] \<Rightarrow> None | e # _ \<Rightarrow> Some (e = CallbackQuits))" for es
  proof (induction es)
    case (Cons e es)
    then show ?case by (cases e) (simp_all add: main_loop_run_timeout_def)
  qed simp
  then show ?thesis unfolding nmtst_main_loop_run_def .
qed

section \<open>Children and files\<close>

text \<open>A spawn gives an error, or the status with the output and the error output.\<close>

definition nmtst_spawn_sync ::
  "(string list \<Rightarrow> gerror + wait_status \<times> cstr \<times> cstr) \<Rightarrow> bool \<Rightarrow> bool \<Rightarrow> int \<Rightarrow> string list
     \<Rightarrow> wait_status option" where
  "nmtst_spawn_sync spawn want_out want_err assert_exit_status argv =
     (if argv = [] then None
      else (case spawn argv of
              Inl e \<Rightarrow> None
            | Inr (st, out, err) \<Rightarrow>
                if want_out \<and> out = None \<or> want_err \<and> err = None then None
                else if assert_exit_status \<noteq> - 1
                        \<and> \<not> (WIFEXITED st \<and> uint (WEXITSTATUS st) = assert_exit_status) then None
                else Some st))"

text \<open>A status that passes is that of a child that ended itself with the code asked for.\<close>

theorem spawn_sync_code:
  assumes "nmtst_spawn_sync spawn want_out want_err code argv = Some st" "code \<noteq> - 1"
  shows "WIFEXITED st \<and> uint (WEXITSTATUS st) = code \<and> code \<in> {0..255}
    \<and> (\<exists>out err. spawn argv = Inr (st, out, err) \<and> (want_out \<longrightarrow> out \<noteq> None))"
proof -
  have st: "WIFEXITED st" "uint (WEXITSTATUS st) = code"
      "\<exists>out err. spawn argv = Inr (st, out, err) \<and> (want_out \<longrightarrow> out \<noteq> None)"
    using assms by (auto simp: nmtst_spawn_sync_def split: if_splits sum.splits prod.splits)
  have "WEXITSTATUS st = drop_bit 8 st AND 0xFF"
    by (simp add: WEXITSTATUS_def drop_bit_and)
  also have "\<dots> = take_bit 8 (drop_bit 8 st)" by (simp add: take_bit_eq_mask mask_eq_exp_minus_1)
  finally have "uint (WEXITSTATUS st) = take_bit 8 (uint (drop_bit 8 st))"
    by (simp add: unsigned_take_bit_eq)
  also have "\<dots> \<in> {0..255}" using take_bit_int_less_exp [of 8 "uint (drop_bit 8 st)"] by simp
  finally show ?thesis using st by simp
qed

theorem spawn_sync_code_witness:
  "nmtst_spawn_sync (\<lambda>_. Inr (256, None, None)) False False 1 [''false''] = Some 256
   \<and> uint (WEXITSTATUS 256) = 1"
proof -
  have run: "nmtst_spawn_sync (\<lambda>_. Inr (256, None, None)) False False 1 [''false''] = Some 256"
    by (simp add: nmtst_spawn_sync_def WIFEXITED_def WEXITSTATUS_def)
  from spawn_sync_code [OF run] run show ?thesis by simp
qed

text \<open>A file must not hold a NUL, at which \<open>strlen\<close> would stop.\<close>

definition nmtst_file_get_contents :: "'g fslib_scheme \<Rightarrow> path \<Rightarrow> fsys \<Rightarrow> string option" where
  "nmtst_file_get_contents L filename s =
     (case g_file_get_contents L filename s of
        Inl e \<Rightarrow> None
      | Inr contents \<Rightarrow>
          if length (takeWhile (\<lambda>c. c \<noteq> NUL) contents) = length contents then Some contents else None)"

definition nmtst_file_set_contents :: "'g fslib_scheme \<Rightarrow> path \<Rightarrow> string \<Rightarrow> fsys \<Rightarrow> fsys option" where
  "nmtst_file_set_contents L filename content s =
     (case g_file_set_contents L filename content s of
        (error, s) \<Rightarrow> if nmtst_assert_success (error = None) error then Some s else None)"

text \<open>What was written is read back, unless it holds a NUL.\<close>

theorem file_contents_roundtrip:
  assumes "fs_doc L" "nmtst_file_set_contents L p t s = Some s'"
  shows "nmtst_file_get_contents L p s' = (if NUL \<in> set t then None else Some t)"
proof -
  obtain e s1 where w: "g_file_set_contents L p t s = (e, s1)" by (meson surj_pair)
  with assms(2) have "e = None" "s1 = s'"
    by (auto simp: nmtst_file_set_contents_def nmtst_assert_success_def split: if_splits)
  moreover note set_contents_state [OF assms(1), of p t s]
  ultimately have "fs_files s' p = Some \<lparr>f_text = t, f_mode = o0666 AND NOT (fs_umask s)\<rparr>"
    using w by simp
  with assms(1) have r: "g_file_get_contents L p s' = Inr t" by (simp add: get_contents)
  have "length (takeWhile (\<lambda>c. c \<noteq> NUL) t) = length t \<longleftrightarrow> NUL \<notin> set t"
    by (induction t) auto
  with r show ?thesis by (simp add: nmtst_file_get_contents_def)
qed

theorem file_contents_roundtrip_witness:
  "\<exists>s. nmtst_file_get_contents ref_lib ''f'' s = Some ''text''"
proof -
  let ?s0 = "\<lparr>fs_files = Map.empty, fs_umask = 18\<rparr> :: fsys"
  define s where "s = snd (g_file_set_contents ref_lib ''f'' ''text'' ?s0)"
  have "fst (g_file_set_contents ref_lib ''f'' ''text'' ?s0) = None" by (simp add: ref_lib_def)
  then have "nmtst_file_set_contents ref_lib ''f'' ''text'' ?s0 = Some s"
    by (simp add: nmtst_file_set_contents_def nmtst_assert_success_def s_def split_def)
  from file_contents_roundtrip [OF ref_fs_doc this] show ?thesis by (auto simp: NUL_def)
qed

text \<open>\<open>unlink\<close> of libc, with its \<open>errno\<close> and the files after it.\<close>

definition ENOENT :: errno where "ENOENT = EOTHER 2"

definition nmtst_file_unlink_if_exists ::
  "(path \<Rightarrow> fsys \<Rightarrow> errno \<times> fsys) \<Rightarrow> path \<Rightarrow> fsys \<Rightarrow> fsys option" where
  "nmtst_file_unlink_if_exists unlink fname s =
     (if fname = [] then None
      else (case unlink fname s of (errsv, s) \<Rightarrow> if errsv \<noteq> ENONE \<and> errsv \<noteq> ENOENT then None else Some s))"

definition nmtst_file_unlink ::
  "(path \<Rightarrow> fsys \<Rightarrow> errno \<times> fsys) \<Rightarrow> path \<Rightarrow> fsys \<Rightarrow> fsys option" where
  "nmtst_file_unlink unlink fname s =
     (if fname = [] then None
      else (case unlink fname s of (errsv, s) \<Rightarrow> if errsv \<noteq> ENONE then None else Some s))"

text \<open>The variable is empty afterwards.\<close>

definition nmtst_auto_unlinkfile ::
  "(path \<Rightarrow> fsys \<Rightarrow> errno \<times> fsys) \<Rightarrow> cstr \<Rightarrow> fsys \<Rightarrow> (cstr \<times> fsys) option" where
  "nmtst_auto_unlinkfile unlink p_name s =
     (case p_name of
        None \<Rightarrow> Some (None, s)
      | Some f \<Rightarrow> map_option (\<lambda>s. (None, s)) (nmtst_file_unlink unlink f s))"

definition unlink_doc :: "(path \<Rightarrow> fsys \<Rightarrow> errno \<times> fsys) \<Rightarrow> bool" where
  "unlink_doc unlink \<longleftrightarrow> (\<forall>p s. unlink p s =
     (if fs_files s p = None then (ENOENT, s) else (ENONE, s\<lparr>fs_files := (fs_files s)(p := None)\<rparr>)))"

definition ref_unlink :: "path \<Rightarrow> fsys \<Rightarrow> errno \<times> fsys" where
  "ref_unlink p s = (if fs_files s p = None then (ENOENT, s)
     else (ENONE, s\<lparr>fs_files := (fs_files s)(p := None)\<rparr>))"

theorem unlink_contracts:
  assumes "unlink_doc unlink" "p \<noteq> []"
  shows "\<exists>s'. nmtst_file_unlink_if_exists unlink p s = Some s' \<and> fs_files s' = (fs_files s)(p := None)"
    "nmtst_file_unlink unlink p s = None \<longleftrightarrow> fs_files s p = None"
proof -
  have u: "unlink p s = (if fs_files s p = None then (ENOENT, s)
      else (ENONE, s\<lparr>fs_files := (fs_files s)(p := None)\<rparr>))"
    using assms(1) unfolding unlink_doc_def by blast
  show "\<exists>s'. nmtst_file_unlink_if_exists unlink p s = Some s' \<and> fs_files s' = (fs_files s)(p := None)"
    "nmtst_file_unlink unlink p s = None \<longleftrightarrow> fs_files s p = None"
    using assms(2) by (auto simp: nmtst_file_unlink_if_exists_def nmtst_file_unlink_def u ENOENT_def)
qed

theorem unlink_contracts_witness:
  "nmtst_file_unlink ref_unlink ''f'' \<lparr>fs_files = Map.empty, fs_umask = 18\<rparr> = None"
  by (simp add: unlink_contracts(2) unlink_doc_def ref_unlink_def)

section \<open>Texts\<close>

text \<open>A UUID is copied into a buffer of 37 bytes.\<close>

definition nmtst_uuid_generate :: "cstr \<Rightarrow> string option" where
  "nmtst_uuid_generate m =
     (case m of None \<Rightarrow> None | Some m \<Rightarrow> if length m = 37 - 1 then Some m else None)"

definition nmtst_assert_str_has_substr :: "cstr \<Rightarrow> cstr \<Rightarrow> bool" where
  "nmtst_assert_str_has_substr str substr =
     (case (str, substr) of (Some s, Some t) \<Rightarrow> strstr s t \<noteq> None | _ \<Rightarrow> False)"

text \<open>
  Two variables of one size in memory are exchanged through a third; \<open>memcpy\<close> of regions that
  overlap is undefined.
\<close>

type_synonym memory = "nat \<Rightarrow> 8 word"

definition read_mem :: "memory \<Rightarrow> nat \<Rightarrow> nat \<Rightarrow> 8 word list" where
  "read_mem m a n = map (\<lambda>i. m (a + i)) [0..<n]"

definition write_mem :: "nat \<Rightarrow> 8 word list \<Rightarrow> memory \<Rightarrow> memory" where
  "write_mem a bs m = (\<lambda>x. if a \<le> x \<and> x < a + length bs then bs ! (x - a) else m x)"

definition disjoint_at :: "nat \<Rightarrow> nat \<Rightarrow> nat \<Rightarrow> bool" where
  "disjoint_at x y n \<longleftrightarrow> x + n \<le> y \<or> y + n \<le> x \<or> n = 0"

definition NMTST_SWAP :: "nat \<Rightarrow> nat \<Rightarrow> nat \<Rightarrow> memory \<Rightarrow> memory option" where
  "NMTST_SWAP x y n m =
     (let swap_temp = read_mem m y n
      in if \<not> disjoint_at x y n then None
         else (let m = write_mem y (read_mem m x n) m in Some (write_mem x swap_temp m)))"

lemma read_write_mem:
  "length bs = n \<Longrightarrow> read_mem (write_mem a bs m) a n = bs"
  "length bs = n \<Longrightarrow> disjoint_at a b n \<Longrightarrow> read_mem (write_mem a bs m) b n = read_mem m b n"
  by (auto simp: read_mem_def write_mem_def disjoint_at_def intro: nth_equalityI)

theorem swap_exchanges:
  assumes "disjoint_at x y n"
  shows "\<exists>m'. NMTST_SWAP x y n m = Some m' \<and> read_mem m' x n = read_mem m y n
    \<and> read_mem m' y n = read_mem m x n"
proof -
  have len: "length (read_mem m a n) = n" for m a by (simp add: read_mem_def)
  with assms show ?thesis by (simp add: NMTST_SWAP_def read_write_mem Let_def)
qed

theorem swap_exchanges_witness:
  "\<exists>m'. read_mem m' 0 2 = [3, 4] \<and> read_mem m' 2 2 = [1, 2]"
proof -
  define m :: memory where "m = (\<lambda>i. of_nat (i + 1))"
  have "read_mem m 0 2 = [1, 2]" "read_mem m 2 2 = [3, 4]" by (simp_all add: read_mem_def m_def upt_rec)
  with swap_exchanges [of 0 2 2 m] show ?thesis by (auto simp: disjoint_at_def)
qed

end
