(* ===== verification/NM_Test_Builders.thy ===== *)
theory NM_Test_Builders
  imports NM_Test_Fixtures
begin

text \<open>
  The builders of the test harness \<open>shared/nm-utils/nm-test-utils.h\<close>: IP configurations, minimal
  connections, normalisation with parameters, connections from key files, and dictionaries of
  variants. Objects of libnm are values, its functions parameters; \<open>None\<close> is a failed assertion.
\<close>

section \<open>IP configurations\<close>

text \<open>
  Addresses and routes as libnm builds them, and adding one to a configuration: the flag says
  whether it was added.
\<close>

record ('a, 'r) iplib =
  nm_utils_ipaddr_valid :: "af \<Rightarrow> string \<Rightarrow> bool"
  nm_ip_address_new :: "af \<Rightarrow> string \<Rightarrow> 32 word \<Rightarrow> 'a option"
  ip_route_new :: "af \<Rightarrow> string \<Rightarrow> 32 word \<Rightarrow> cstr \<Rightarrow> int \<Rightarrow> 'r option"
  config_add_address :: "'a \<Rightarrow> 'a list \<Rightarrow> bool \<times> 'a list"
  config_add_route :: "'r \<Rightarrow> 'r list \<Rightarrow> bool \<times> 'r list"

definition family_of :: "('a, 'r, 'm) iplib_scheme \<Rightarrow> string \<Rightarrow> af option" where
  "family_of I address =
     (if nm_utils_ipaddr_valid I AF_INET address then Some AF_INET
      else if nm_utils_ipaddr_valid I AF_INET6 address then Some AF_INET6
      else None)"

definition nmtst_setting_ip_config_add_address ::
  "('a, 'r, 'm) iplib_scheme \<Rightarrow> 'a list option \<Rightarrow> string \<Rightarrow> 32 word \<Rightarrow> 'a list option" where
  "nmtst_setting_ip_config_add_address I s_ip address plen =
     (case s_ip of
        None \<Rightarrow> None
      | Some addresses \<Rightarrow>
     (case family_of I address of
        None \<Rightarrow> None
      | Some family \<Rightarrow>
     (case nm_ip_address_new I family address plen of
        None \<Rightarrow> None
      | Some addr \<Rightarrow>
          (case config_add_address I addr addresses of
             (added, addresses) \<Rightarrow> if added then Some addresses else None))))"

definition nmtst_setting_ip_config_add_route ::
  "('a, 'r, 'm) iplib_scheme \<Rightarrow> 'r list option \<Rightarrow> string \<Rightarrow> 32 word \<Rightarrow> cstr \<Rightarrow> int \<Rightarrow> 'r list option" where
  "nmtst_setting_ip_config_add_route I s_ip dest plen next_hop metric =
     (case s_ip of
        None \<Rightarrow> None
      | Some routes \<Rightarrow>
     (case family_of I dest of
        None \<Rightarrow> None
      | Some family \<Rightarrow>
     (case ip_route_new I family dest plen next_hop metric of
        None \<Rightarrow> None
      | Some route \<Rightarrow>
          (case config_add_route I route routes of
             (added, routes) \<Rightarrow> if added then Some routes else None))))"

text \<open>An address that is there already is not added again.\<close>

definition add_doc :: "('a, 'r, 'm) iplib_scheme \<Rightarrow> bool" where
  "add_doc I \<longleftrightarrow>
     (\<forall>a as. config_add_address I a as = (if a \<in> set as then (False, as) else (True, as @ [a])))"

theorem add_address_appends:
  assumes "add_doc I"
  shows "nmtst_setting_ip_config_add_address I (Some as) t p = Some as' \<longleftrightarrow>
    (\<exists>f a. family_of I t = Some f \<and> nm_ip_address_new I f t p = Some a \<and> a \<notin> set as \<and> as' = as @ [a])"
proof -
  have add: "config_add_address I a as = (if a \<in> set as then (False, as) else (True, as @ [a]))" for a
    using assms unfolding add_doc_def by blast
  show ?thesis
    by (auto simp: nmtst_setting_ip_config_add_address_def add split: option.split)
qed

definition ref_iplib :: "(string \<times> 32 word, string) iplib" where
  "ref_iplib = \<lparr>nm_utils_ipaddr_valid = (\<lambda>f s. f = AF_INET \<and> s \<noteq> []),
     nm_ip_address_new = (\<lambda>f s p. if p \<le> 32 then Some (s, p) else None),
     ip_route_new = (\<lambda>f d p n m. Some d),
     config_add_address = (\<lambda>a as. if a \<in> set as then (False, as) else (True, as @ [a])),
     config_add_route = (\<lambda>r rs. (True, rs @ [r]))\<rparr>"

theorem add_address_appends_witness:
  "nmtst_setting_ip_config_add_address ref_iplib (Some []) ''10.0.0.1'' 8 = Some [(''10.0.0.1'', 8)]"
  using add_address_appends [of ref_iplib "[]" "''10.0.0.1''" 8 "[(''10.0.0.1'', 8)]"]
  by (simp add: add_doc_def ref_iplib_def family_of_def)

section \<open>Variants\<close>

datatype variant = V_string string | V_byte "8 word" | V_uint32 "32 word" | V_boolean bool | V_other nat

text \<open>The attributes of a route by name.\<close>

definition nmtst_assert_route_attribute_string :: "(string \<rightharpoonup> variant) \<Rightarrow> string \<Rightarrow> cstr \<Rightarrow> bool" where
  "nmtst_assert_route_attribute_string route nm v =
     (case route nm of Some (V_string s) \<Rightarrow> strcmp0 (Some s) v = 0 | _ \<Rightarrow> False)"

definition nmtst_assert_route_attribute_byte :: "(string \<rightharpoonup> variant) \<Rightarrow> string \<Rightarrow> 8 word \<Rightarrow> bool" where
  "nmtst_assert_route_attribute_byte route nm v =
     (case route nm of Some (V_byte b) \<Rightarrow> b = v | _ \<Rightarrow> False)"

definition nmtst_assert_route_attribute_uint32 :: "(string \<rightharpoonup> variant) \<Rightarrow> string \<Rightarrow> 32 word \<Rightarrow> bool" where
  "nmtst_assert_route_attribute_uint32 route nm v =
     (case route nm of Some (V_uint32 u) \<Rightarrow> u = v | _ \<Rightarrow> False)"

definition nmtst_assert_route_attribute_boolean :: "(string \<rightharpoonup> variant) \<Rightarrow> string \<Rightarrow> bool \<Rightarrow> bool" where
  "nmtst_assert_route_attribute_boolean route nm v =
     (case route nm of Some (V_boolean b) \<Rightarrow> b = v | _ \<Rightarrow> False)"

text \<open>A dictionary is built from pairs of name and variant, up to the \<open>NULL\<close> that ends them.\<close>

fun nmtst_variant_new_vardict :: "(cstr \<times> variant) list \<Rightarrow> (string \<times> variant) list \<Rightarrow> (string \<times> variant) list" where
  "nmtst_variant_new_vardict [] builder = builder"
| "nmtst_variant_new_vardict ((None, _) # _) builder = builder"
| "nmtst_variant_new_vardict ((Some nm, v) # args) builder =
     nmtst_variant_new_vardict args (builder @ [(nm, v)])"

definition nmtst_assert_variant_uint32 :: "variant option \<Rightarrow> 32 word \<Rightarrow> bool" where
  "nmtst_assert_variant_uint32 v u = (v = Some (V_uint32 u))"

definition nmtst_assert_variant_string :: "variant option \<Rightarrow> cstr \<Rightarrow> bool" where
  "nmtst_assert_variant_string v str =
     (case (v, str) of
        (Some (V_string s), Some t) \<Rightarrow> strcmp0 (Some s) (Some t) = 0 \<and> length s = length t
      | _ \<Rightarrow> False)"

lemma vardict_entries:
  "nmtst_variant_new_vardict (map (\<lambda>(n, v). (Some n, v)) es @ (None, w) # rest) b = b @ es"
  by (induction es arbitrary: b) auto

text \<open>A dictionary built from pairs with different names gives each back under its name.\<close>

theorem vardict_lookup:
  assumes "distinct (map fst es)" "(n, v) \<in> set es"
  shows "map_of (nmtst_variant_new_vardict (map (\<lambda>(n, v). (Some n, v)) es @ [(None, w)]) []) n = Some v"
  using assms by (simp add: vardict_entries)

theorem vardict_lookup_witness:
  "map_of (nmtst_variant_new_vardict [(Some ''a'', V_boolean True), (Some ''b'', V_uint32 7), (None, V_other 0)] []) ''b''
     = Some (V_uint32 7)"
  using vardict_lookup [of "[(''a'', V_boolean True), (''b'', V_uint32 7)]" "''b''" "V_uint32 7" "V_other 0"] by simp

section \<open>Connections\<close>

text \<open>The settings of a connection in the order they were added.\<close>

datatype nm_setting =
    ConnectionSetting cstr cstr cstr
  | BaseSetting string

text \<open>\<open>lookup_type\<close> says whether libnm knows a setting of that name, with what it is called.\<close>

definition nmtst_create_minimal_connection ::
  "string \<Rightarrow> (string \<Rightarrow> string option) \<Rightarrow> cstr \<Rightarrow> cstr \<Rightarrow> cstr
     \<Rightarrow> (nm_setting list \<times> nm_setting) option" where
  "nmtst_create_minimal_connection generated_uuid lookup_type id_arg uuid type =
     (if id_arg = None then None
      else
        (let uuid = (case uuid of None \<Rightarrow> Some generated_uuid | Some u \<Rightarrow> Some u)
         in case (case type of None \<Rightarrow> Some None | Some t \<Rightarrow> map_option Some (lookup_type t)) of
              None \<Rightarrow> None
            | Some s_base \<Rightarrow>
                (let s_con = ConnectionSetting id_arg uuid type
                 in Some ([s_con] @ (case s_base of None \<Rightarrow> [] | Some b \<Rightarrow> [BaseSetting b]), s_con))))"

text \<open>The pairs of the argument list go into a hash table, where a later one replaces an earlier.\<close>

fun normalize_parameters :: "(string \<times> 'p) list \<Rightarrow> (string \<times> 'p) list option \<Rightarrow> (string \<times> 'p) list option" where
  "normalize_parameters [] parameters = parameters"
| "normalize_parameters ((p_name, v) # args) parameters =
     normalize_parameters args
       (Some (snd (nm_g_hash_table_insert False (case parameters of None \<Rightarrow> [] | Some t \<Rightarrow> t) p_name v)))"

definition nmtst_connection_normalize_v ::
  "((string \<times> 'p) list option \<Rightarrow> 'c \<Rightarrow> 'c \<times> bool \<times> gerror option) \<Rightarrow> 'c \<Rightarrow> (string \<times> 'p) list
     \<Rightarrow> ('c \<times> bool) option" where
  "nmtst_connection_normalize_v nm_norm connection args =
     (case nm_norm (normalize_parameters args None) connection of
        (c, was_modified, error) \<Rightarrow> if error = None then Some (c, was_modified) else None)"

definition nmtst_create_connection_from_keyfile ::
  "(string \<Rightarrow> gerror + 'k) \<Rightarrow> ('k \<Rightarrow> cstr \<Rightarrow> cstr \<Rightarrow> gerror + 'c)
     \<Rightarrow> ((string \<times> 'p) list option \<Rightarrow> 'c \<Rightarrow> 'c \<times> bool \<times> gerror option)
     \<Rightarrow> cstr \<Rightarrow> cstr \<Rightarrow> cstr \<Rightarrow> 'c option" where
  "nmtst_create_connection_from_keyfile load_from_data keyfile_read nm_norm keyfile_str keyfile_name base_dir =
     (case keyfile_str of
        None \<Rightarrow> None
      | Some str \<Rightarrow>
     (case load_from_data str of
        Inl e \<Rightarrow> None
      | Inr keyfile \<Rightarrow>
     (case keyfile_read keyfile keyfile_name base_dir of
        Inl e \<Rightarrow> None
      | Inr con \<Rightarrow> map_option fst (nmtst_connection_normalize_v nm_norm con []))))"

definition nmtst_assert_setting_verifies :: "('s \<Rightarrow> gerror option) \<Rightarrow> 's \<Rightarrow> bool" where
  "nmtst_assert_setting_verifies verify s \<longleftrightarrow> verify s = None"

definition nmtst_assert_setting_verify_fails ::
  "(string \<Rightarrow> string \<Rightarrow> bool) \<Rightarrow> ('s \<Rightarrow> gerror option) \<Rightarrow> 's \<Rightarrow> err_domain option \<Rightarrow> err_code \<Rightarrow> bool" where
  "nmtst_assert_setting_verify_fails pattern_match verify s domain code =
     nmtst_assert_error pattern_match (verify s) domain code None"

text \<open>
  A minimal connection has one connection setting, with the name asked for and some UUID, followed
  by the setting of its type, if it has one; a type libnm does not know ends the test.
\<close>

theorem minimal_connection:
  "nmtst_create_minimal_connection g lookup (Some i) u t = Some (c, s) \<longleftrightarrow>
     (\<exists>u'. u' = (if u = None then Some g else u) \<and> s = ConnectionSetting (Some i) u' t
        \<and> (if t = None then c = [s] else (\<exists>b. lookup (the t) = Some b \<and> c = [s, BaseSetting b])))"
  by (cases t; cases u) (auto simp: nmtst_create_minimal_connection_def Let_def split: option.splits)

text \<open>The last of several parameters of one name counts; without one libnm gets no table.\<close>

lemma insert_map_of:
  "map_of (snd (nm_g_hash_table_insert False t k v)) = (map_of t)(k \<mapsto> v)"
  by (simp add: nm_g_hash_table_insert_def table_put_def update_conv' Let_def)

theorem normalize_last:
  fixes args :: "(string \<times> 'p) list"
  assumes "args \<noteq> []"
  shows "\<exists>t. normalize_parameters args None = Some t \<and> map_of t = map_of (rev args)"
proof -
  have run: "\<exists>t'. normalize_parameters as (Some t) = Some t' \<and> map_of t' = map_of t ++ map_of (rev as)"
    for as and t :: "(string \<times> 'p) list"
  proof (induction as arbitrary: t)
    case (Cons a as)
    obtain k v where a: "a = (k, v)" by (cases a)
    let ?t = "snd (nm_g_hash_table_insert False t k v)"
    have eq: "(map_of t)(k \<mapsto> v) ++ map_of (rev as) = map_of t ++ map_of (rev (a # as))"
      by (auto simp: a map_add_def fun_eq_iff split: option.split)
    from Cons.IH [of ?t] obtain t' where t': "normalize_parameters as (Some ?t) = Some t'"
      "map_of t' = map_of ?t ++ map_of (rev as)" by blast
    have "map_of t' = map_of t ++ map_of (rev (a # as))" unfolding t'(2) insert_map_of eq ..
    with t'(1) show ?case by (intro exI [of _ t'] conjI) (simp_all add: a)
  qed simp
  from assms obtain k v as where a: "args = (k, v) # as" by (cases args) auto
  from run [of as "snd (nm_g_hash_table_insert False [] k v)"] show ?thesis
    by (simp add: a insert_map_of)
qed

theorem normalize_last_witness:
  "\<exists>t. normalize_parameters [(''a'', 1 :: int), (''a'', 2)] None = Some t \<and> map_of t ''a'' = Some 2"
  using normalize_last [of "[(''a'', 1 :: int), (''a'', 2)]"] by auto

end
