(* ===== verification/Spec2Isabelle.thy ===== *)
theory Spec2Isabelle
  imports Airvpn_Properties Airvpn_Api Airvpn_Cache Airvpn_Firewall Airvpn_Service Airvpn_Steps
    Airvpn_Runs Airvpn_Session_Spec Airvpn_Supervision Airvpn_Helper Airvpn_Helper_Types Airvpn_Server_List Airvpn_Editor Airvpn_Editor_Steps
    Airvpn_Editor_Plugin Airvpn_Auth_Dialog Airvpn_Links Airvpn_Sessions Airvpn_Main Airvpn_Test_Fetch
    NM_Shared_Utils NM_Addresses NM_Buffers NM_Compare NM_Strings NM_Process NM_Plugin_Utils
    NM_Macros NM_Preproc NM_Cleanup NM_Headers NM_Glib NM_Glib_Compat
    NM_Test_Utils NM_Test_Init NM_Test_Checks NM_Test_Fixtures NM_Test_Builders
begin

text \<open>
  A verification library for \<open>networkmanager-airvpn\<close>.

  The program. NetworkManager starts the service daemon (\<open>src/nm-airvpn-service.c\<close>) and calls it
  over D-Bus. On a connect request the daemon validates the connection
  (\<open>shared/nm-airvpn-properties.c\<close>), looks for an OpenVPN profile in its cache
  (\<open>src/nm-airvpn-cache.c\<close>), fetches one from the AirVPN generator if it must
  (\<open>src/nm-airvpn-api.c\<close>), loads the kill-switch table into the kernel if the connection asks
  for it (\<open>src/nm-airvpn-firewall.c\<close>), and starts \<open>openvpn\<close>, watching it with a child watch and
  a timer. \<open>openvpn\<close> runs the up script (\<open>src/nm-airvpn-service-openvpn-helper.c\<close>), which turns its
  environment into the configuration it sends back. Applications load the editor plugin
  (\<open>properties/nm-airvpn-editor-plugin.c\<close>), which loads the editor (\<open>properties/nm-airvpn-editor.c\<close>)
  and shows the servers (\<open>properties/nm-airvpn-server-list.c\<close>); the API key is asked for by
  \<open>auth-dialog/main.c\<close>. All of them use \<open>shared/nm-utils\<close>.

  Theories of the utilities.
  \<open>NM_Prelude\<close>: nullable C strings, the C string functions and \<open>strtol\<close>, errors, the record of
  GLib's pure string functions.
  \<open>NM_Libs\<close>: the file system, key files, splitting and stripping of strings: parameters with
  their documented behaviour (\<open>fs_doc\<close>, \<open>keyfile_doc\<close>, \<open>build_doc\<close>, \<open>split_doc\<close>) and the reference
  instance \<open>ref_lib\<close> that witnesses use.
  \<open>NM_Shared_Utils\<close>, \<open>NM_Addresses\<close>, \<open>NM_Buffers\<close>, \<open>NM_Compare\<close>, \<open>NM_Strings\<close>, \<open>NM_Process\<close>: the
  functions of \<open>nm-shared-utils.c\<close> by what they work on: numbers, addresses and netmasks, bounded
  buffers, comparisons, escaping, files and processes. \<open>NM_Plugin_Utils\<close>: the loading of modules.
  \<open>NM_Macros\<close>, \<open>NM_Headers\<close>, \<open>NM_Glib\<close>, \<open>NM_Glib_Compat\<close>: the macros and inline functions of the
  headers that compute something, and the replacements for older versions of GLib. \<open>NM_Preproc\<close>:
  the macros that work on the text and types of their arguments. \<open>NM_Cleanup\<close>: the cleanup
  attributes and what happens at the end of a scope.
  \<open>NM_Test_Utils\<close>, \<open>NM_Test_Init\<close>, \<open>NM_Test_Checks\<close>, \<open>NM_Test_Fixtures\<close>, \<open>NM_Test_Builders\<close>: the test
  harness \<open>nm-test-utils.h\<close>: its algorithms, its start with options and seed, its checks and its
  editor of connection variants, main loops, children and files, and its builders.
  \<open>NM_Event_Loop\<close>: runs of a step relation, the interface \<open>event_loop\<close>, and its extension
  \<open>refined_loop\<close> for a loop that refines a smaller machine.

  Theories of the program.
  \<open>Airvpn_Properties\<close>: \<open>nm_airvpn_properties_validate\<close> and its tables, refined to the
  specification \<open>valid_connection\<close>.
  \<open>Airvpn_Api\<close>: the HTTP transfer with its size limit, the checks of the answers, the URL, and the
  synchronous and asynchronous fetch; libcurl and json-glib are the parameters \<open>C\<close> and \<open>J\<close>. A
  function with a \<open>GError **\<close> returns its C result and the error it has set, as two values.
  \<open>Airvpn_Cache\<close>: one definition per function of the C file over the state \<open>fsys\<close>; the interface
  \<open>profile_cache\<close>, interpreted on them.
  \<open>Airvpn_Firewall\<close>: parsing of the configuration, the ruleset with its refinement to abstract
  rules, \<open>nm_airvpn_firewall_arm\<close> and \<open>nm_airvpn_firewall_disarm\<close>; the interface \<open>kill_switch\<close>,
  interpreted on them. Out-of-bounds reads are the value \<open>None\<close>.
  \<open>Airvpn_Service\<close>: the record \<open>plugin\<close> is \<open>NMAirvpnPluginPrivate\<close>, its extension \<open>process\<close> the main
  loop's sources, running fetches, files, the table, and the calls made; one definition per
  handler, named as in the C file (\<open>connect_common\<close> for \<open>_connect_common\<close>).
  \<open>Airvpn_Steps\<close>: the events and the step relation \<open>svc_step\<close>, an interpretation of \<open>event_loop\<close>,
  the invariants \<open>svc_inv\<close> and \<open>ks_inv\<close>. \<open>Airvpn_Runs\<close>: properties of whole runs.
  \<open>Airvpn_Session_Spec\<close>: the abstract session machine \<open>session_step\<close> over five fields (phase, owner,
  tunnel, guard, drop), and the interpretation of \<open>refined_loop\<close> by which the daemon refines it.
  \<open>Airvpn_Supervision\<close>: an attempt to connect is watched by the connect timer.
  \<open>Airvpn_Main\<close>: \<open>main\<close> from its options to the end of the process.
  \<open>Airvpn_Helper\<close>: the up script; the environment is an association list, D-Bus calls are a list.
  \<open>Airvpn_Helper_Types\<close>: a type system for the variants it sends, kept by every stage.
  \<open>Airvpn_Server_List\<close>: both fetches and the rows of the combo box.
  \<open>Airvpn_Editor\<close>: the record \<open>editor\<close> is \<open>AirvpnEditorPrivate\<close>, \<open>desktop\<close> adds the tasks and replies
  that are pending, the contexts that are allocated and the calls made; a callback that uses a
  widget without its builder, or a context that was freed, is \<open>None\<close>. \<open>Airvpn_Editor_Steps\<close> is its
  step relation \<open>ed_step\<close>.
  \<open>Airvpn_Editor_Plugin\<close>: the plugin. \<open>Airvpn_Auth_Dialog\<close>: the authentication dialog.
  \<open>Airvpn_Sessions\<close>: a connect after a profile was stored, what a protected session lets out as
  long as its process runs, and the crash on a connection with an empty server.
  \<open>Airvpn_Test_Fetch\<close>: the developer's tool.
  \<open>Airvpn_Links\<close>: properties of several parts: the daemon and the helper it configures, the editor
  and the daemon that reads its settings, the device list and the check of the API client.

  What the groups of lemmas show. Validation is equivalent to its specification; a fetched
  profile is bounded, checked and for a device of the account; a stored profile is valid for its
  life, stale ones are not reused, files stay private; the ruleset admits exactly the remotes and
  the name servers listed, and loading it is all or nothing; the daemon loses no process except through a
  stale child watch, starts a process that asks for the kill switch only behind the ruleset of its
  own profile, keeps the table through a drop, and its flag says exactly whether there is one; its
  runs are runs of the session machine, in which a running openvpn is guarded exactly if its
  connection asks for it, and then the table holds the rules of the profile it runs with; an
  attempt that does not come up is ended by its timer; a connect and the end of the service tell the
  openvpn before them to end, and the service leaves a table only after a drop. The helper sends one
  consistent, well-typed configuration or one failure. The editor uses no widget and no context that
  is gone and leaks no context, its reconnect saves, deactivates and activates in this order and ends, and what it writes
  means what it has read. The dialog prints a key it may print and asks when it must. Escaping is
  undone by unescaping, bounded buffers hold prefixes, modules are loaded once.

  What is assumed of the surroundings. The properties of the kill switch over whole runs rest on
  \<open>svc_doc\<close>: the file functions behave as documented, and \<open>nft\<close> is installed, loads a file as one
  transaction and deletes a table that is there, which is what \<open>src/nm-airvpn-firewall.h\<close>
  documents of disarming (it removes the table if present). The C code ignores a deletion that fails.
  \<open>editor_docs\<close> is the documented behaviour of the combo box, the case-insensitive comparison, the
  sorting and the parser of JSON.

  Bounds and fuel. No definition needs fuel. Loops over numbered variables, words and escapes are
  \<open>function\<close>s with measures; \<open>read_loop\<close>, \<open>quit_loop\<close> and \<open>wait_loop\<close>, which may wait for ever, are
  \<open>partial_function\<close>s, and \<open>quit_wait_ends\<close> and \<open>wait_ends\<close> show that a clock that advances ends
  the last two; \<open>str_split_in_place\<close> shows that \<open>split_loop\<close> returns for every text. A
  reconnect takes at most 25 callbacks. \<open>size_t\<close>, modes, addresses and wait statuses are words of
  their width.

  Not modelled. Logging, memory management, GObject registration, option parsing and the
  translation of messages; macros that only paste tokens, suppress warnings, rename or declare;
  wrappers of the test harness that only pass their arguments on.
\<close>

end
